(* ===== verification/Prelude.thy ===== *)
theory Prelude
  imports Main "HOL-Library.Word" "HOL-Library.Monad_Syntax"
begin

text \<open>
  Shared vocabulary of the development: the C integer types at their width, the lemma
  collections the component theories extend, and generic facts about words, options and
  lists that several components use.

  Conventions: \<^verbatim>\<open>uintN_t\<close> is \<open>N word\<close>, so \<open>+\<close>, \<open>-\<close> and \<open>*\<close> wrap as they do
  in C; a signed \<^verbatim>\<open>int\<close> is an \<open>int\<close> together with the range check \<open>in_i32\<close>, because
  signed overflow is undefined; \<open>None\<close> of an \<open>option\<close> result stands for undefined
  behaviour (a null dereference, an out-of-bounds access, signed overflow) or for a loop
  that does not return, and each component says which.
\<close>

unbundle bit_operations_syntax

type_synonym u8 = "8 word"
type_synonym u16 = "16 word"
type_synonym u32 = "32 word"
type_synonym u64 = "64 word"

text \<open>
  \<open>mem_laws\<close> collects the laws of byte memory, \<open>queue_laws\<close> those of the linked run
  queues, \<open>frame_laws\<close> the "this operation leaves that field alone" facts.
\<close>

named_theorems mem_laws
named_theorems queue_laws
named_theorems frame_laws

section \<open>Words\<close>

lemma unat_add_exact:
  fixes a b :: "'a::len word"
  assumes "unat a + unat b < 2 ^ LENGTH('a)"
  shows "unat (a + b) = unat a + unat b"
  using assms by (simp add: unat_plus_if')

lemma unat_diff_exact:
  fixes a b :: "'a::len word"
  assumes "unat b \<le> unat a"
  shows "unat (a - b) = unat a - unat b"
  using assms by (simp add: unat_sub_if' word_le_nat_alt)

lemma unat_diff_wrap:
  fixes a b :: "'a::len word"
  assumes "unat a < unat b"
  shows "unat (a - b) = 2 ^ LENGTH('a) + unat a - unat b"
  using assms by (simp add: unat_sub_if' word_le_nat_alt)

lemma unat_lt_64: "unat (x :: u64) < 18446744073709551616"
  using unsigned_less[of x] by simp

lemma unat_lt_32: "unat (x :: u32) < 4294967296"
  using unsigned_less[of x] by simp

lemma unat_lt_8: "unat (x :: u8) < 256"
  using unsigned_less[of x] by simp

lemma unat_of_nat_small:
  "n < 2 ^ LENGTH('a::len) \<Longrightarrow> unat (of_nat n :: 'a word) = n"
  by (simp add: unat_of_nat)

section \<open>Signed integers\<close>

definition in_i32 :: "int \<Rightarrow> bool" where
  "in_i32 v \<longleftrightarrow> - 2147483648 \<le> v \<and> v \<le> 2147483647"

definition i32 :: "int \<Rightarrow> int option" where
  "i32 v = (if in_i32 v then Some v else None)"

lemma i32_Some_iff [simp]: "i32 v = Some w \<longleftrightarrow> in_i32 v \<and> w = v"
  by (auto simp: i32_def)

lemma i32_None_iff [simp]: "i32 v = None \<longleftrightarrow> \<not> in_i32 v"
  by (simp add: i32_def)

text \<open>C division and remainder truncate towards zero.\<close>

definition c_div :: "int \<Rightarrow> int \<Rightarrow> int" where
  "c_div a b = sgn a * sgn b * (\<bar>a\<bar> div \<bar>b\<bar>)"

definition c_mod :: "int \<Rightarrow> int \<Rightarrow> int" where
  "c_mod a b = a - c_div a b * b"

lemma c_div_nonneg: "0 \<le> a \<Longrightarrow> 0 < b \<Longrightarrow> c_div a b = a div b"
  by (cases "a = 0") (simp_all add: c_div_def)

lemma c_mod_nonneg: "0 \<le> a \<Longrightarrow> 0 < b \<Longrightarrow> c_mod a b = a mod b"
  by (simp add: c_mod_def c_div_nonneg minus_div_mult_eq_mod)

section \<open>First match in an index range\<close>

text \<open>
  The C idiom \<^verbatim>\<open>for (i = 0; i < n; i++) if (P(i)) return i;\<close>.
\<close>

definition first_index :: "(nat \<Rightarrow> bool) \<Rightarrow> nat \<Rightarrow> nat option" where
  "first_index P n = find P [0..<n]"

lemma first_index_Some:
  "first_index P n = Some i \<longleftrightarrow> i < n \<and> P i \<and> (\<forall>j<i. \<not> P j)"
proof
  assume "first_index P n = Some i"
  then show "i < n \<and> P i \<and> (\<forall>j<i. \<not> P j)"
    by (auto simp: first_index_def find_Some_iff)
next
  assume "i < n \<and> P i \<and> (\<forall>j<i. \<not> P j)"
  then show "first_index P n = Some i"
    unfolding first_index_def find_Some_iff by (intro exI[of _ i]) auto
qed

lemma first_index_None: "first_index P n = None \<longleftrightarrow> (\<forall>i<n. \<not> P i)"
  by (auto simp: first_index_def find_None_iff)

section \<open>Lists\<close>

lemma last_append_single [simp]: "last (xs @ [x]) = x"
  by simp

lemma set_takeWhile_dropWhile: "set xs = set (takeWhile P xs) \<union> set (dropWhile P xs)"
  by (metis set_append takeWhile_dropWhile_id)

lemma distinct_remove1_single:
  "distinct (xs @ x # ys) \<Longrightarrow> remove1 x (xs @ x # ys) = xs @ ys"
  by (simp add: remove1_append)

text \<open>Masks, shifts and truncations to a byte, as arithmetic on the value.\<close>

lemma and_FF: "(n :: 'a::len word) AND 0xFF = take_bit 8 n"
  by (simp add: take_bit_eq_mask mask_eq_exp_minus_1)

lemma and_7F: "(n :: 'a::len word) AND 0x7F = take_bit 7 n"
  by (simp add: take_bit_eq_mask mask_eq_exp_minus_1)

lemma unat_take_bit: "unat (take_bit k (n :: 'a::len word)) = unat n mod 2 ^ k"
  by (subst unsigned_take_bit_eq) (rule take_bit_eq_mod)

lemma unat_drop_bit: "unat (drop_bit k (n :: 'a::len word)) = unat n div 2 ^ k"
  by (subst unat_drop_bit_eq) (rule drop_bit_eq_div)

lemma unat_to_u8: "unat (ucast (n :: 'a::len word) :: u8) = unat n mod 256"
  by (simp add: unsigned_ucast_eq take_bit_eq_mod)

lemmas unat_byte_simps = and_FF and_7F unat_take_bit unat_drop_bit unat_to_u8

text \<open>Decimal digits, as \<^verbatim>\<open>%d\<close> prints them.\<close>

fun digits :: "nat \<Rightarrow> string" where
  "digits n = (if n < 10 then [char_of (48 + n)] else digits (n div 10) @ [char_of (48 + n mod 10)])"

declare digits.simps [simp del]

end
