(* ===== verification/Print.thy ===== *)
theory Print
  imports Prelude "HOL-Library.Char_ord"
begin

text \<open>
  The serial console of \<^verbatim>\<open>lab3-1-sparrowos-memory-module/kernel/print.c\<close>: the UART 16550
  driver (\<^verbatim>\<open>print_init\<close>, \<^verbatim>\<open>putchar\<close>, \<^verbatim>\<open>puts\<close>), the formatter \<^verbatim>\<open>vsnprintf\<close> with its callers
  \<^verbatim>\<open>snprintf\<close>, \<^verbatim>\<open>printk\<close> and \<^verbatim>\<open>printk_level\<close>, and the number printers.

  The device is a record: \<open>lsr k\<close> is the value its line status register returns at the
  \<open>k\<close>-th read, \<open>reads\<close> counts the reads so far, \<open>tx\<close> is the list of register writes. A C string is
  its list of characters, without the terminating NUL. A variadic argument is one 64-bit slot of
  the lp64 calling convention or a pointer to a string. \<open>None\<close> stands for undefined behaviour
  (an argument that is missing or of the wrong kind, negation of INT_MIN, reading past the end of
  the format, writing past a local buffer) or for a poll that never ends.
\<close>

section \<open>The UART\<close>

record uart =
  lsr :: "nat \<Rightarrow> u8"
  reads :: nat
  tx :: "(u64 \<times> u8) list"

definition UART0_BASE :: u64 where "UART0_BASE = 0x10000000"
definition UART_LSR_EMPTY :: u8 where "UART_LSR_EMPTY = 0x40"

definition mmio_write8 :: "u64 \<Rightarrow> u8 \<Rightarrow> uart \<Rightarrow> uart" where
  "mmio_write8 addr v u = u\<lparr>tx := tx u @ [(addr, v)]\<rparr>"

definition uart_tx_ready :: "uart \<Rightarrow> bool \<times> uart" where
  "uart_tx_ready u = (lsr u (reads u) AND UART_LSR_EMPTY \<noteq> 0, u\<lparr>reads := reads u + 1\<rparr>)"

text \<open>\<^verbatim>\<open>while (!uart_tx_ready());\<close>\<close>

partial_function (option) uart_wait :: "uart \<Rightarrow> uart option" where
  "uart_wait u = (let (ready, u') = uart_tx_ready u in if ready then Some u' else uart_wait u')"

definition putchar :: "char \<Rightarrow> uart \<Rightarrow> uart option" where
  "putchar c u = do {
     u \<leftarrow> uart_wait u;
     let u = mmio_write8 UART0_BASE (of_char c) u;
     if c = CHR 0x0A then do {
       u \<leftarrow> uart_wait u;
       Some (mmio_write8 UART0_BASE 0x0D u)
     } else Some u
   }"

fun puts :: "string \<Rightarrow> uart \<Rightarrow> uart option" where
  "puts [] u = Some u"
| "puts (c # cs) u = do { u \<leftarrow> putchar c u; puts cs u }"

definition print_init :: "uart \<Rightarrow> uart option" where
  "print_init u = (
     let u = mmio_write8 (UART0_BASE + 1) 0x00 u;
         u = mmio_write8 (UART0_BASE + 3) 0x80 u;
         u = mmio_write8 (UART0_BASE + 0) 0x03 u;
         u = mmio_write8 (UART0_BASE + 1) 0x00 u;
         u = mmio_write8 (UART0_BASE + 3) 0x03 u;
         u = mmio_write8 (UART0_BASE + 2) 0xC7 u;
         u = mmio_write8 (UART0_BASE + 1) 0x01 u
     in putchar (CHR 0x0A) u)"

section \<open>Digits\<close>

definition dec_digit :: "nat \<Rightarrow> char" where "dec_digit k = char_of (48 + k)"
definition hex_digit :: "nat \<Rightarrow> char" where "hex_digit k = ''0123456789abcdef'' ! k"

text \<open>The \<^verbatim>\<open>do \<dots> while (val > 0)\<close> loops of \<^verbatim>\<open>vsnprintf\<close>, filling the buffer from its end.\<close>

function dec_loop :: "nat \<Rightarrow> string \<Rightarrow> string" where
  "dec_loop val acc =
     (let acc = dec_digit (val mod 10) # acc; val = val div 10
      in if 0 < val then dec_loop val acc else acc)"
  by auto
termination by (relation "measure fst") auto

function hex_loop :: "nat \<Rightarrow> string \<Rightarrow> string" where
  "hex_loop val acc =
     (let acc = hex_digit (val mod 16) # acc; val = val div 16
      in if 0 < val then hex_loop val acc else acc)"
  by auto
termination by (relation "measure fst") auto

declare dec_loop.simps [simp del] hex_loop.simps [simp del]

section \<open>vsnprintf\<close>

datatype va = VWord u64 | VStr string

text \<open>\<^verbatim>\<open>while (*p && ptr < end) *ptr++ = *p++;\<close>\<close>

definition copy_bounded :: "nat \<Rightarrow> string \<Rightarrow> string \<Rightarrow> string" where
  "copy_bounded lim s out = out @ take (lim - length out) s"

fun va_word :: "va list \<Rightarrow> (u64 \<times> va list) option" where
  "va_word (VWord w # args) = Some (w, args)"
| "va_word _ = None"

definition va_int :: "va list \<Rightarrow> (int \<times> va list) option" where
  "va_int args = do { (w, args) \<leftarrow> va_word args; Some (sint (ucast w :: u32), args) }"

definition va_uint :: "va list \<Rightarrow> (nat \<times> va list) option" where
  "va_uint args = do { (w, args) \<leftarrow> va_word args; Some (unat (ucast w :: u32), args) }"

fun va_str :: "va list \<Rightarrow> (string \<times> va list) option" where
  "va_str (VStr s # args) = Some (s, args)"
| "va_str (VWord w # args) = (if w = 0 then Some (''(null)'', args) else None)"
| "va_str [] = None"

text \<open>
  One conversion: the character after the percent sign, the format after it, the arguments, the
  bytes written so far (\<open>ptr - buf\<close> is their number, \<open>lim\<close> is \<open>end - buf\<close>).
\<close>

definition conversion ::
  "nat \<Rightarrow> char \<Rightarrow> string \<Rightarrow> va list \<Rightarrow> string \<Rightarrow> (string \<times> va list \<times> string) option" where
  "conversion lim c fmt args out =
     (if c = CHR ''d'' \<or> c = CHR ''i'' then do {
        (v, args) \<leftarrow> va_int args;
        (v, out) \<leftarrow> (if v < 0 then do { w \<leftarrow> i32 (- v); Some (w, out @ ''-'') } else Some (v, out));
        Some (copy_bounded lim (dec_loop (nat v) []) out, args, fmt)
      }
      else if c = CHR ''u'' then do {
        (v, args) \<leftarrow> va_uint args;
        Some (copy_bounded lim (dec_loop v []) out, args, fmt)
      }
      else if c = CHR ''x'' then do {
        (v, args) \<leftarrow> va_uint args;
        Some (copy_bounded lim (hex_loop v []) out, args, fmt)
      }
      else if c = CHR ''p'' then do {
        (w, args) \<leftarrow> va_word args;
        Some (copy_bounded lim (hex_loop (unat w) []) (out @ ''0x''), args, fmt)
      }
      else if c = CHR ''c'' then do {
        (v, args) \<leftarrow> va_int args;
        Some (out @ [char_of (nat (v mod 256))], args, fmt)
      }
      else if c = CHR ''s'' then do {
        (s, args) \<leftarrow> va_str args;
        Some (copy_bounded lim s out, args, fmt)
      }
      else if c = CHR ''%'' then Some (out @ ''%'', args, fmt)
      else if c = CHR ''l'' then
        (if take 2 fmt = ''lx'' then do {
           (w, args) \<leftarrow> va_word args;
           Some (copy_bounded lim (hex_loop (unat w) []) out, args, drop 2 fmt)
         } else Some (out, args, fmt))
      else Some (out @ [CHR ''%'', c], args, fmt))"

lemma conversion_fmt: "conversion lim c fmt args out = Some (out', args', fmt') \<Longrightarrow>
    length fmt' \<le> length fmt"
  by (auto simp: conversion_def split: if_splits bind_splits)

function vsn_loop :: "nat \<Rightarrow> string \<Rightarrow> va list \<Rightarrow> string \<Rightarrow> string option" where
  "vsn_loop lim [] args out = Some out"
| "vsn_loop lim (c # fmt) args out =
     (if lim \<le> length out then Some out
      else if c = CHR ''%'' then
        (case fmt of [] \<Rightarrow> None
         | d # fmt' \<Rightarrow>
           (case conversion lim d fmt' args out of None \<Rightarrow> None
            | Some (out', args', fmt'') \<Rightarrow> vsn_loop lim fmt'' args' out'))
      else vsn_loop lim fmt args (out @ [c]))"
  by pat_completeness auto
termination
  by (relation "measure (\<lambda>(lim, fmt, args, out). length fmt)") (auto dest: conversion_fmt)

text \<open>
  The result is the bytes stored from \<^verbatim>\<open>buf\<close> on, the final NUL included; the value returned by
  the C function is their number less one. A zero size stores nothing and returns 0.
\<close>

definition vsnprintf :: "nat \<Rightarrow> string \<Rightarrow> va list \<Rightarrow> (string \<times> nat) option" where
  "vsnprintf sz fmt args =
     (if sz = 0 then Some ([], 0)
      else do {
        out \<leftarrow> vsn_loop (sz - 1) fmt args [];
        Some (out @ [CHR 0x00], length out)
      })"

definition snprintf :: "nat \<Rightarrow> string \<Rightarrow> va list \<Rightarrow> (string \<times> nat) option" where
  "snprintf sz fmt args = (do { (stored, len) \<leftarrow> vsnprintf sz fmt args; Some (stored, len) })"

text \<open>\<^verbatim>\<open>printk\<close> formats into \<^verbatim>\<open>char buffer[256]\<close>.\<close>

definition printk :: "string \<Rightarrow> va list \<Rightarrow> uart \<Rightarrow> uart option" where
  "printk fmt args u = do {
     (stored, len) \<leftarrow> vsnprintf 256 fmt args;
     if 256 < length stored then None else puts (take len stored) u
   }"

datatype log_level = LOG_DEBUG | LOG_INFO | LOG_WARNING | LOG_ERROR | LOG_CRITICAL

fun level_num :: "log_level \<Rightarrow> nat" where
  "level_num LOG_DEBUG = 0"
| "level_num LOG_INFO = 1"
| "level_num LOG_WARNING = 2"
| "level_num LOG_ERROR = 3"
| "level_num LOG_CRITICAL = 4"

fun level_str :: "log_level \<Rightarrow> string" where
  "level_str LOG_DEBUG = ''[DEBUG] ''"
| "level_str LOG_INFO = ''[INFO]  ''"
| "level_str LOG_WARNING = ''[WARN]  ''"
| "level_str LOG_ERROR = ''[ERROR] ''"
| "level_str LOG_CRITICAL = ''[CRIT]  ''"

definition current_log_level :: log_level where "current_log_level = LOG_INFO"

definition printk_level :: "log_level \<Rightarrow> string \<Rightarrow> va list \<Rightarrow> uart \<Rightarrow> uart option" where
  "printk_level level fmt args u =
     (if level_num level < level_num current_log_level then Some u
      else do {
        u \<leftarrow> puts (level_str level) u;
        (stored, len) \<leftarrow> vsnprintf 256 fmt args;
        if 256 < length stored then None else puts (take len stored) u
      })"

section \<open>Number printers\<close>

text \<open>
  \<^verbatim>\<open>char buffer[20]\<close> is filled downwards from index 19; \<open>pos\<close> is the index of its first
  character.
\<close>

fun hex_fill :: "nat \<Rightarrow> nat \<Rightarrow> string \<Rightarrow> nat \<times> string" where
  "hex_fill val 0 acc = (0, acc)"
| "hex_fill val (Suc pos) acc =
     (if 0 < val then hex_fill (val div 16) pos (hex_digit (val mod 16) # acc) else (Suc pos, acc))"

text \<open>\<^verbatim>\<open>width\<close> is compared as a \<^verbatim>\<open>size_t\<close>, so a negative width is a huge one.\<close>

fun zero_fill :: "int \<Rightarrow> nat \<Rightarrow> string \<Rightarrow> string" where
  "zero_fill width 0 acc = acc"
| "zero_fill width (Suc pos) acc =
     (if 19 - Suc pos < unat (word_of_int width :: u64) then zero_fill width pos (CHR ''0'' # acc) else acc)"

definition print_hex_text :: "u64 \<Rightarrow> int \<Rightarrow> string" where
  "print_hex_text v width =
     (let (pos, acc) = (if v = 0 then (18, ''0'') else hex_fill (unat v) 19 [])
      in ''0x'' @ zero_fill width pos acc)"

definition print_hex :: "u64 \<Rightarrow> int \<Rightarrow> uart \<Rightarrow> uart option" where
  "print_hex v width u = puts (print_hex_text v width) u"

fun dec_fill :: "nat \<Rightarrow> nat \<Rightarrow> string \<Rightarrow> string" where
  "dec_fill val 0 acc = acc"
| "dec_fill val (Suc pos) acc =
     (if 0 < val then dec_fill (val div 10) pos (dec_digit (val mod 10) # acc) else acc)"

definition print_dec_text :: "u64 \<Rightarrow> string" where
  "print_dec_text v = (if v = 0 then ''0'' else dec_fill (unat v) 19 [])"

definition print_dec :: "u64 \<Rightarrow> uart \<Rightarrow> uart option" where
  "print_dec v u = puts (print_dec_text v) u"

fun bin_digits :: "u64 \<Rightarrow> nat \<Rightarrow> string" where
  "bin_digits v 0 = []"
| "bin_digits v (Suc i) =
     (if bit v i then CHR ''1'' else CHR ''0'') #
       (if 0 < i \<and> i mod 4 = 0 then [CHR ''_''] else []) @ bin_digits v i"

definition print_bin_text :: "u64 \<Rightarrow> int \<Rightarrow> string" where
  "print_bin_text v width = ''0b'' @ bin_digits v (nat (if 64 < width then 64 else width))"

definition print_bin :: "u64 \<Rightarrow> int \<Rightarrow> uart \<Rightarrow> uart option" where
  "print_bin v width u = puts (print_bin_text v width) u"

end
