(* ===== verification/Print_Facts.thy ===== *)
theory Print_Facts
  imports Print
begin

text \<open>
  What the console guarantees: the formatter's bound, what it prints for each kind of number and
  that the digits read back to the number, and that the UART driver sends every character of a
  string in order whenever the device keeps becoming ready.
\<close>

section \<open>Reading digits back\<close>

definition digit_val :: "char \<Rightarrow> nat" where
  "digit_val c = (if of_char c \<le> (57 :: nat) then of_char c - 48 else of_char c - 87)"

definition read_num :: "nat \<Rightarrow> string \<Rightarrow> nat" where
  "read_num base s = foldl (\<lambda>n c. n * base + digit_val c) 0 s"

lemma digit_val_dec: "k < 10 \<Longrightarrow> digit_val (dec_digit k) = k"
  by (simp add: digit_val_def dec_digit_def)

lemma digit_val_hex: "k < 16 \<Longrightarrow> digit_val (hex_digit k) = k"
proof -
  assume "k < 16"
  then have "k \<in> {0..<16}" by simp
  then show ?thesis
    by (simp add: atLeastLessThan_nat_numeral digit_val_def hex_digit_def)
      (elim disjE; simp)
qed

lemma foldl_shift:
  "foldl (\<lambda>n c. n * base + digit_val c) a s = a * base ^ length s + read_num base s"
  unfolding read_num_def
proof (induction s arbitrary: a)
  case Nil
  then show ?case by simp
next
  case (Cons c s)
  show ?case
    using Cons[of "a * base + digit_val c"] Cons[of "digit_val c"] by (simp add: algebra_simps)
qed

lemma read_num_Cons: "read_num base (c # s) = digit_val c * base ^ length s + read_num base s"
  using foldl_shift[of base "digit_val c" s] by (simp add: read_num_def)

lemma read_num_Nil [simp]: "read_num base [] = 0"
  by (simp add: read_num_def)

lemma div_mod_join: "(v :: nat) mod b * k + b * (v div b * k) = v * k"
  by (metis distrib_right mod_mult_div_eq mult.assoc)

lemma dec_loop_read: "read_num 10 (dec_loop v acc) = v * 10 ^ length acc + read_num 10 acc"
proof (induction v acc rule: dec_loop.induct)
  case (1 v acc)
  show ?case
  proof (cases "0 < v div 10")
    case True
    then show ?thesis
      using 1[OF refl refl True] div_mod_join[of v 10 "10 ^ length acc"]
      by (subst dec_loop.simps) (simp add: Let_def read_num_Cons digit_val_dec algebra_simps)
  next
    case False
    then show ?thesis
      by (subst dec_loop.simps) (simp add: Let_def read_num_Cons digit_val_dec)
  qed
qed

lemma hex_loop_read: "read_num 16 (hex_loop v acc) = v * 16 ^ length acc + read_num 16 acc"
proof (induction v acc rule: hex_loop.induct)
  case (1 v acc)
  show ?case
  proof (cases "0 < v div 16")
    case True
    then show ?thesis
      using 1[OF refl refl True] div_mod_join[of v 16 "16 ^ length acc"]
      by (subst hex_loop.simps) (simp add: Let_def read_num_Cons digit_val_hex algebra_simps)
  next
    case False
    then show ?thesis
      by (subst hex_loop.simps) (simp add: Let_def read_num_Cons digit_val_hex)
  qed
qed

lemma dec_loop_length: "v < 10 ^ Suc n \<Longrightarrow> length (dec_loop v acc) \<le> Suc n + length acc"
proof (induction v acc arbitrary: n rule: dec_loop.induct)
  case (1 v acc)
  show ?case
  proof (cases "0 < v div 10")
    case True
    then obtain k where k: "n = Suc k" using 1(2) by (cases n) auto
    have "v div 10 < 10 ^ Suc k" using 1(2) k by (simp add: less_mult_imp_div_less)
    then show ?thesis
      using 1(1)[OF refl refl True, of k] True k by (subst dec_loop.simps) (simp add: Let_def)
  qed (subst dec_loop.simps, simp add: Let_def)
qed

lemma hex_loop_length: "v < 16 ^ Suc n \<Longrightarrow> length (hex_loop v acc) \<le> Suc n + length acc"
proof (induction v acc arbitrary: n rule: hex_loop.induct)
  case (1 v acc)
  show ?case
  proof (cases "0 < v div 16")
    case True
    then obtain k where k: "n = Suc k" using 1(2) by (cases n) auto
    have "v div 16 < 16 ^ Suc k" using 1(2) k by (simp add: less_mult_imp_div_less)
    then show ?thesis
      using 1(1)[OF refl refl True, of k] True k by (subst hex_loop.simps) (simp add: Let_def)
  qed (subst hex_loop.simps, simp add: Let_def)
qed

section \<open>The bound of vsnprintf\<close>

text \<open>
  Every conversion of the format is one the formatter knows other than \<open>%p\<close>; \<open>%p\<close> and the
  unknown ones store two characters after a single bounds check.
\<close>

fun safe_fmt :: "string \<Rightarrow> bool" where
  "safe_fmt (c # d # s) =
     (if c = CHR ''%''
      then d \<in> set ''diuxcs%l'' \<and> safe_fmt (if d = CHR ''l'' \<and> take 2 s = ''lx'' then drop 2 s else s)
      else safe_fmt (d # s))"
| "safe_fmt [c] = (c \<noteq> CHR ''%'')"
| "safe_fmt [] = True"

lemma copy_bounded_length:
  "length out \<le> k \<Longrightarrow> lim \<le> k \<Longrightarrow> length (copy_bounded lim s out) \<le> k"
  by (auto simp: copy_bounded_def)

lemma conversion_length:
  assumes "conversion lim c fmt args out = Some (out', args', fmt')" and "length out < lim"
  shows "length out' \<le> lim + 1"
    and "c \<in> set ''diuxcs%l'' \<Longrightarrow> length out' \<le> lim"
  using assms
  by (auto simp: conversion_def copy_bounded_def split: if_splits bind_splits)

lemma vsn_loop_length:
  "vsn_loop lim fmt args out = Some out' \<Longrightarrow> length out \<le> lim + 1 \<Longrightarrow> length out' \<le> lim + 1"
proof (induction lim fmt args out rule: vsn_loop.induct)
  case (2 lim c fmt args out)
  show ?case
  proof (cases "lim \<le> length out \<or> c \<noteq> CHR ''%''")
    case True
    then show ?thesis using 2(2-4) by (auto split: if_splits)
  next
    case False
    then have n: "\<not> lim \<le> length out" "c = CHR ''%''" by auto
    then obtain d s o2 a2 f2 where *: "fmt = d # s" "conversion lim d s args out = Some (o2, a2, f2)"
      "vsn_loop lim f2 a2 o2 = Some out'"
      using 2(3) by (auto split: list.splits option.splits)
    show ?thesis
      using 2(1)[OF n *(1,2) refl refl *(3)] conversion_length(1)[OF *(2)] n by simp
  qed
qed auto

lemma conversion_rest:
  "conversion lim d fmt args out = Some (out', args', fmt') \<Longrightarrow>
   fmt' = (if d = CHR ''l'' \<and> take 2 fmt = ''lx'' then drop 2 fmt else fmt)"
  by (auto simp: conversion_def split: if_splits bind_splits)

lemma vsn_loop_safe_length:
  "vsn_loop lim fmt args out = Some out' \<Longrightarrow> safe_fmt fmt \<Longrightarrow> length out \<le> lim \<Longrightarrow> length out' \<le> lim"
proof (induction lim fmt args out rule: vsn_loop.induct)
  case (2 lim c fmt args out)
  show ?case
  proof (cases "lim \<le> length out")
    case True
    then show ?thesis using 2 by simp
  next
    case False
    show ?thesis
    proof (cases "c = CHR ''%''")
      case True
      then obtain d s o2 a2 f2 where *: "fmt = d # s" "conversion lim d s args out = Some (o2, a2, f2)"
        "vsn_loop lim f2 a2 o2 = Some out'"
        using 2(3) False by (auto split: list.splits option.splits)
      have "length o2 \<le> lim" "safe_fmt f2"
        using conversion_length(2)[OF *(2)] conversion_rest[OF *(2)] 2(4) * True False by auto
      then show ?thesis using 2(1)[OF False True *(1,2)] * by simp
    next
      case no: False
      have "safe_fmt fmt" using 2(4) no by (cases fmt) auto
      then show ?thesis using 2(2)[OF False no] 2(3) no False by simp
    qed
  qed
qed auto

text \<open>
  Property C14. Whatever the format, \<^verbatim>\<open>vsnprintf\<close> with a non-zero size stores at most one byte
  more than the buffer holds, the last one a NUL, and returns the number of bytes before it. If
  every conversion is one of \<open>d i u x c s % l\<close>, it stays within the buffer.
\<close>

theorem vsnprintf_bound:
  assumes "vsnprintf sz fmt args = Some (stored, len)" and "sz \<noteq> 0"
  shows "length stored \<le> sz + 1 \<and> len = length stored - 1 \<and> last stored = CHR 0x00 \<and>
    (safe_fmt fmt \<longrightarrow> length stored \<le> sz)"
  using assms vsn_loop_length[of "sz - 1" fmt args "[]"] vsn_loop_safe_length[of "sz - 1" fmt args "[]"]
  by (fastforce simp: vsnprintf_def split: bind_splits if_splits)

theorem vsnprintf_bound_witness:
  "\<exists>stored len. vsnprintf 8 ''x=%u'' [VWord 42] = Some (stored, len) \<and> length stored \<le> 8 \<and>
     len = length stored - 1"
proof -
  have r: "vsnprintf 8 ''x=%u'' [VWord 42] = Some (''x=42'' @ [CHR 0x00], 4)"
    by code_simp
  then show ?thesis using vsnprintf_bound[OF r] by simp
qed

lemma vsn_loop_plain:
  "\<forall>c\<in>set s. c \<noteq> CHR ''%'' \<Longrightarrow> length out + length s \<le> lim \<Longrightarrow>
   vsn_loop lim (s @ fmt) args out = vsn_loop lim fmt args (out @ s)"
  by (induction s arbitrary: out) auto

text \<open>
  The one extra byte is real: for every size of at least two, a format that fills
  the buffer up to its last character and ends in an unknown conversion makes \<^verbatim>\<open>vsnprintf\<close> write
  the terminating NUL one byte past the buffer.
\<close>

theorem vsnprintf_overflow:
  "vsnprintf (n + 2) (replicate n CHR ''a'' @ ''%z'') [] =
     Some (replicate n CHR ''a'' @ ''%z'' @ [CHR 0x00], n + 2) \<and>
   length (replicate n CHR ''a'' @ ''%z'' @ [CHR 0x00]) = (n + 2) + 1"
  using vsn_loop_plain[of "replicate n CHR ''a''" "[]" "Suc n" "''%z''" "[]"]
  by (simp add: vsnprintf_def conversion_def)

section \<open>What the conversions print\<close>

definition read_int :: "string \<Rightarrow> int" where
  "read_int s = (if s \<noteq> [] \<and> hd s = CHR ''-'' then - int (read_num 10 (tl s)) else int (read_num 10 s))"

lemma dec_loop_hd:
  assumes "acc = [] \<or> hd acc \<noteq> CHR ''-''"
  shows "dec_loop v acc \<noteq> [] \<and> hd (dec_loop v acc) \<noteq> CHR ''-''"
  using assms
proof (induction v acc rule: dec_loop.induct)
  case (1 v acc)
  have "of_char (dec_digit (v mod 10)) \<noteq> (of_char (CHR ''-'') :: nat)"
    by (simp add: dec_digit_def)
  then have d: "dec_digit (v mod 10) \<noteq> CHR ''-''" by metis
  show ?case
    using 1(1)[OF refl refl] d
    by (cases "0 < v div 10") (simp_all add: dec_loop.simps[of v acc] Let_def)
qed

lemma read_int_dec: "read_int (dec_loop v []) = int v" "read_int (CHR ''-'' # dec_loop v []) = - int v"
  using dec_loop_hd[of "[]" v] by (simp_all add: read_int_def dec_loop_read)

text \<open>
  Property C38. In a buffer of at least 21 bytes the number conversions are exact: the text of
  \<open>%u\<close>, \<open>%d\<close>, \<open>%x\<close> and \<open>%llx\<close> reads back to the argument at its width. The one value \<open>%d\<close>
  cannot print is INT_MIN, whose negation overflows.
\<close>

theorem vsnprintf_numbers:
  assumes "21 \<le> sz"
  shows "(\<exists>s. vsnprintf sz ''%u'' [VWord w] = Some (s @ [CHR 0x00], length s) \<and>
           read_num 10 s = unat (ucast w :: u32)) \<and>
    (\<exists>s. vsnprintf sz ''%x'' [VWord w] = Some (s @ [CHR 0x00], length s) \<and>
           read_num 16 s = unat (ucast w :: u32)) \<and>
    (\<exists>s. vsnprintf sz ''%llx'' [VWord w] = Some (s @ [CHR 0x00], length s) \<and> read_num 16 s = unat w) \<and>
    (if sint (ucast w :: u32) = - 2147483648 then vsnprintf sz ''%d'' [VWord w] = None
     else \<exists>s. vsnprintf sz ''%d'' [VWord w] = Some (s @ [CHR 0x00], length s) \<and>
           read_int s = sint (ucast w :: u32))"
proof -
  define v where "v = sint (ucast w :: u32)"
  have v: "- 2147483648 \<le> v" "v \<le> 2147483647"
    using sint_range_size[of "ucast w :: u32"] by (simp_all add: v_def word_size)
  have u: "length (dec_loop (unat (ucast w :: u32)) []) \<le> 10"
    and x: "length (hex_loop (unat (ucast w :: u32)) []) \<le> 8"
    using dec_loop_length[of "unat (ucast w :: u32)" 9 "[]"] hex_loop_length[of "unat (ucast w :: u32)" 7 "[]"]
      unat_lt_32[of "ucast w"] by simp_all
  have l: "length (hex_loop (unat w) []) \<le> 16"
    using hex_loop_length[of "unat w" 15 "[]"] unat_lt_64[of w] by simp
  have d: "length (dec_loop (nat \<bar>v\<bar>) []) \<le> 10"
    using dec_loop_length[of "nat \<bar>v\<bar>" 9 "[]"] v by simp
  note run = vsnprintf_def conversion_def va_uint_def va_int_def copy_bounded_def
  have "\<exists>s. vsnprintf sz ''%u'' [VWord w] = Some (s @ [CHR 0x00], length s) \<and>
      read_num 10 s = unat (ucast w :: u32)"
    using assms u by (intro exI[of _ "dec_loop (unat (ucast w :: u32)) []"]) (simp add: run dec_loop_read)
  moreover have "\<exists>s. vsnprintf sz ''%x'' [VWord w] = Some (s @ [CHR 0x00], length s) \<and>
      read_num 16 s = unat (ucast w :: u32)"
    using assms x by (intro exI[of _ "hex_loop (unat (ucast w :: u32)) []"]) (simp add: run hex_loop_read)
  moreover have "\<exists>s. vsnprintf sz ''%llx'' [VWord w] = Some (s @ [CHR 0x00], length s) \<and>
      read_num 16 s = unat w"
    using assms l by (intro exI[of _ "hex_loop (unat w) []"]) (simp add: run hex_loop_read)
  moreover have "\<exists>s. vsnprintf sz ''%d'' [VWord w] = Some (s @ [CHR 0x00], length s) \<and> read_int s = v"
    if "v \<noteq> - 2147483648"
  proof (cases "v < 0")
    case True
    then have "in_i32 (- v)" using v that by (simp add: in_i32_def)
    then show ?thesis
      using assms d True by (intro exI[of _ "CHR ''-'' # dec_loop (nat (- v)) []"])
        (simp add: run read_int_dec i32_def flip: v_def)
  next
    case False
    then show ?thesis
      using assms d by (intro exI[of _ "dec_loop (nat v) []"]) (simp add: run read_int_dec flip: v_def)
  qed
  moreover have "vsnprintf sz ''%d'' [VWord w] = None" if "v = - 2147483648"
    using assms that by (simp add: run i32_def in_i32_def flip: v_def)
  ultimately show ?thesis unfolding v_def by simp
qed

theorem vsnprintf_numbers_witness:
  "\<exists>s. vsnprintf 64 ''%d'' [VWord 5] = Some (s @ [CHR 0x00], length s) \<and> read_int s = 5"
  using vsnprintf_numbers[of 64 5] by simp

text \<open>
  \<open>%llu\<close>, the conversion all of \<^verbatim>\<open>memory_stats\<close>'s lines use, is not known to the
  formatter: the argument is not printed and the text \<^verbatim>\<open>lu\<close> is.
\<close>

theorem vsnprintf_llu:
  "vsnprintf (n + 3) ''%llu'' [VWord w] = Some (''lu'' @ [CHR 0x00], 2)"
  by (simp add: vsnprintf_def conversion_def)

section \<open>print_dec and print_hex\<close>

lemma dec_fill_read:
  "read_num 10 (dec_fill v pos acc) = v mod 10 ^ pos * 10 ^ length acc + read_num 10 acc"
proof (induction v pos acc rule: dec_fill.induct)
  case (2 v pos acc)
  have "v mod 10 ^ Suc pos = v mod 10 + 10 * (v div 10 mod 10 ^ pos)"
    using mod_mult2_eq[of v 10 "10 ^ pos"] by simp
  then show ?case using 2 by (auto simp: read_num_Cons digit_val_dec algebra_simps)
qed simp

text \<open>
  \<^verbatim>\<open>print_dec\<close> prints the value modulo \<open>10^19\<close>: its 20-byte buffer has room for 19
  digits, so from \<open>10^19\<close> on the leading digit of the 64-bit value is lost.
\<close>

theorem print_dec_value:
  "read_num 10 (print_dec_text v) = unat v mod 10000000000000000000"
  using dec_fill_read[of "unat v" 19 "[]"]
  by (auto simp: print_dec_text_def read_num_Cons digit_val_def)

section \<open>Sending\<close>

lemma uart_wait_ready:
  "\<exists>k\<ge>reads u. lsr u k AND UART_LSR_EMPTY \<noteq> 0 \<Longrightarrow> \<exists>n. uart_wait u = Some (u\<lparr>reads := n\<rparr>)"
proof (elim exE conjE)
  fix k assume "reads u \<le> k" "lsr u k AND UART_LSR_EMPTY \<noteq> 0"
  then show ?thesis
  proof (induction "k - reads u" arbitrary: u)
    case 0
    then show ?case by (auto simp: uart_wait.simps uart_tx_ready_def)
  next
    case (Suc d)
    show ?case
    proof (cases "lsr u (reads u) AND UART_LSR_EMPTY = 0")
      case True
      then show ?thesis
        using Suc.hyps(1)[of "u\<lparr>reads := reads u + 1\<rparr>"] Suc.hyps(2) Suc.prems
        by (subst uart_wait.simps) (auto simp: uart_tx_ready_def)
    qed (subst uart_wait.simps, auto simp: uart_tx_ready_def)
  qed
qed

definition keeps_draining :: "uart \<Rightarrow> bool" where
  "keeps_draining u \<longleftrightarrow> (\<forall>n. \<exists>k\<ge>n. lsr u k AND UART_LSR_EMPTY \<noteq> 0)"

fun wire :: "string \<Rightarrow> u8 list" where
  "wire [] = []"
| "wire (c # cs) = of_char c # (if c = CHR 0x0A then [0x0D] else []) @ wire cs"

definition sent :: "uart \<Rightarrow> string \<Rightarrow> uart \<Rightarrow> bool" where
  "sent u s u' \<longleftrightarrow> lsr u' = lsr u \<and> tx u' = tx u @ map (Pair UART0_BASE) (wire s)"

lemma putchar_sends:
  assumes "keeps_draining u"
  shows "\<exists>u'. putchar c u = Some u' \<and> sent u [c] u'"
proof -
  have wait: "\<exists>n. uart_wait v = Some (v\<lparr>reads := n\<rparr>)" if "lsr v = lsr u" for v
    using assms that by (intro uart_wait_ready) (simp add: keeps_draining_def)
  obtain n where n: "uart_wait u = Some (u\<lparr>reads := n\<rparr>)" using wait by blast
  define u1 where "u1 = mmio_write8 UART0_BASE (of_char c) (u\<lparr>reads := n\<rparr>)"
  obtain k where "uart_wait u1 = Some (u1\<lparr>reads := k\<rparr>)"
    using wait[of u1] by (auto simp: u1_def mmio_write8_def)
  then show ?thesis
    using n by (auto simp: putchar_def sent_def Let_def u1_def mmio_write8_def)
qed

lemma puts_sends: "keeps_draining u \<Longrightarrow> \<exists>u'. puts s u = Some u' \<and> sent u s u'"
proof (induction s arbitrary: u)
  case (Cons c s)
  obtain u1 where u1: "putchar c u = Some u1" "sent u [c] u1" using putchar_sends Cons.prems by blast
  then have "keeps_draining u1" using Cons.prems by (simp add: sent_def keeps_draining_def)
  then obtain u2 where "puts s u1 = Some u2" "sent u1 s u2" using Cons.IH by blast
  then show ?case using u1 by (auto simp: sent_def)
qed (simp add: sent_def)

text \<open>
  If the transmitter keeps becoming empty, \<^verbatim>\<open>printk\<close> of a format that formats
  within its 256-byte buffer returns, and has written to the UART exactly the formatted
  characters in order, each newline followed by a carriage return.
\<close>

theorem printk_sends:
  assumes "keeps_draining u" and "vsnprintf 256 fmt args = Some (stored, len)" and "safe_fmt fmt"
  shows "\<exists>u'. printk fmt args u = Some u' \<and>
    tx u' = tx u @ map (Pair UART0_BASE) (wire (take len stored))"
proof -
  obtain out where "vsn_loop 255 fmt args [] = Some out" "stored = out @ [CHR 0x00]"
    using assms(2) by (auto simp: vsnprintf_def split: bind_splits)
  then have "length stored \<le> 256" using vsn_loop_safe_length[of 255 fmt args "[]" out] assms(3) by simp
  then show ?thesis using assms(2) puts_sends[OF assms(1)] by (auto simp: printk_def sent_def)
qed

theorem printk_sends_witness:
  "\<exists>u'. printk ''ok'' [] \<lparr>lsr = (\<lambda>_. 0x40), reads = 0, tx = []\<rparr> = Some u' \<and>
     tx u' = [(UART0_BASE, 0x6F), (UART0_BASE, 0x6B)]"
proof -
  have "vsnprintf 256 ''ok'' [] = Some (''ok'' @ [CHR 0x00], 2)" by (simp add: vsnprintf_def)
  moreover have "keeps_draining \<lparr>lsr = (\<lambda>_. 0x40), reads = 0, tx = []\<rparr>"
    by (auto simp: keeps_draining_def UART_LSR_EMPTY_def)
  ultimately show ?thesis using printk_sends[of "\<lparr>lsr = (\<lambda>_. 0x40), reads = 0, tx = []\<rparr>" "''ok''" "[]"]
    by (auto simp: of_char_def)
qed

end
