(* ===== verification/Gpio.thy ===== *)
theory Gpio
  imports Prelude
begin

text \<open>
  The GPIO LED driver of \<^verbatim>\<open>lab5-1-raspberry-gpio-driver/src/gpio_led.c\<close>, its user-space test
  program \<^verbatim>\<open>src/gpio_led_test.c\<close> and the two extensions \<^verbatim>\<open>examples/gpio_input.c\<close> (button events)
  and \<^verbatim>\<open>examples/gpio_pwm.c\<close> (brightness).

  The Linux API is a parameter: a record of the results its calls give. What it does is the
  documented effect on the resources the driver holds: a successful call acquires, the matching
  release call gives back, and releasing something that is not held is recorded in \<open>misuse\<close>.
\<close>

section \<open>Kernel interface\<close>

datatype resource = Region | DevClass | Device | Cdev | Pin int

record gpio_api =
  alloc_chrdev_region :: int
  class_create :: int
  device_create :: int
  cdev_add :: int
  gpio_is_valid :: "int \<Rightarrow> bool"
  gpio_request :: "int \<Rightarrow> int"
  gpio_direction_output :: "int \<Rightarrow> int"
  gpio_direction_input :: "int \<Rightarrow> int"

record gpio_state =
  held :: "resource set"
  misuse :: "resource list"
  level :: "int \<Rightarrow> bool"
  gpio_pin :: int
  use_button :: bool

definition GPIO_BUTTON_PIN :: int where "GPIO_BUTTON_PIN = 27"
definition EFAULT :: int where "EFAULT = 14"
definition EINVAL :: int where "EINVAL = 22"
definition EAGAIN :: int where "EAGAIN = 11"

definition acquire :: "resource \<Rightarrow> gpio_state \<Rightarrow> gpio_state" where
  "acquire r s = s\<lparr>held := insert r (held s)\<rparr>"

definition release :: "resource \<Rightarrow> gpio_state \<Rightarrow> gpio_state" where
  "release r s = (if r \<in> held s then s\<lparr>held := held s - {r}\<rparr> else s\<lparr>misuse := misuse s @ [r]\<rparr>)"

definition gpio_set_value :: "int \<Rightarrow> bool \<Rightarrow> gpio_state \<Rightarrow> gpio_state" where
  "gpio_set_value p v s = s\<lparr>level := (level s)(p := v)\<rparr>"

section \<open>The driver\<close>

definition gpio_open :: "gpio_state \<Rightarrow> int \<times> gpio_state" where "gpio_open s = (0, s)"
definition gpio_release :: "gpio_state \<Rightarrow> int \<times> gpio_state" where "gpio_release s = (0, s)"

text \<open>\<open>ubyte\<close> is the first byte of the user buffer, \<open>None\<close> if it cannot be read; \<^verbatim>\<open>len\<close> is unused.\<close>

definition gpio_write :: "char option \<Rightarrow> nat \<Rightarrow> gpio_state \<Rightarrow> int \<times> gpio_state" where
  "gpio_write ubyte len s =
     (case ubyte of
        None \<Rightarrow> (- EFAULT, s)
      | Some value \<Rightarrow>
          if value = CHR ''1'' then (1, gpio_set_value (gpio_pin s) True s)
          else if value = CHR ''0'' then (1, gpio_set_value (gpio_pin s) False s)
          else (- EINVAL, s))"

text \<open>The result and the byte stored to the user buffer, if any.\<close>

definition gpio_read :: "bool \<Rightarrow> gpio_state \<Rightarrow> int \<times> char option" where
  "gpio_read writable s =
     (if use_button s then
        let st = (if level s GPIO_BUTTON_PIN then CHR ''1'' else CHR ''0'')
        in if \<not> writable then (- EFAULT, None) else (1, Some st)
      else (0, None))"

definition init_error :: "int \<Rightarrow> gpio_state \<Rightarrow> int \<times> gpio_state" where
  "init_error ret s = (ret,
     release Region (release DevClass (release Device (release Cdev s))))"

definition init_button_input :: "gpio_api \<Rightarrow> gpio_state \<Rightarrow> gpio_state" where
  "init_button_input api s =
     (if \<not> use_button s then s
      else if \<not> gpio_is_valid api GPIO_BUTTON_PIN then s
      else if gpio_request api GPIO_BUTTON_PIN \<noteq> 0 then s
      else
        let s = acquire (Pin GPIO_BUTTON_PIN) s
        in if gpio_direction_input api GPIO_BUTTON_PIN \<noteq> 0 then release (Pin GPIO_BUTTON_PIN) s else s)"

definition gpio_led_init :: "gpio_api \<Rightarrow> gpio_state \<Rightarrow> int \<times> gpio_state" where
  "gpio_led_init api s =
     (if alloc_chrdev_region api < 0 then (alloc_chrdev_region api, s)
      else
        let s = acquire Region s
        in if class_create api < 0 then (class_create api, release Region s)
        else
          let s = acquire DevClass s
          in if device_create api < 0 then (device_create api, release Region (release DevClass s))
          else
            let s = acquire Device s
            in if cdev_add api < 0
               then (cdev_add api, release Region (release DevClass (release Device s)))
            else
              let s = acquire Cdev s; p = gpio_pin s
              in if \<not> gpio_is_valid api p then init_error (- EINVAL) s
              else if gpio_request api p \<noteq> 0 then init_error (gpio_request api p) s
              else
                let s = acquire (Pin p) s
                in if gpio_direction_output api p \<noteq> 0
                   then init_error (gpio_direction_output api p) (release (Pin p) s)
                else (0, init_button_input api (gpio_set_value p False s)))"

definition gpio_led_exit :: "gpio_state \<Rightarrow> gpio_state" where
  "gpio_led_exit s = (
     let s = gpio_set_value (gpio_pin s) False s;
         s = release (Pin (gpio_pin s)) s;
         s = (if use_button s then release (Pin GPIO_BUTTON_PIN) s else s);
         s = release Cdev s;
         s = release Device s;
         s = release DevClass s
     in release Region s)"

section \<open>The test program\<close>

text \<open>System calls of the test program, with the results the kernel gives as parameters.\<close>

datatype sys_event =
    SysOpen | SysWrite string | SysRead | SysSleep nat | SysClose | SysAccess bool | SysUsage | SysInvalid string

definition turn_led :: "(sys_event \<Rightarrow> int) \<Rightarrow> string \<Rightarrow> int \<times> sys_event list" where
  "turn_led k st =
     (if st \<noteq> ''on'' \<and> st \<noteq> ''off'' then (-1, [SysInvalid st])
      else
        let buf = (if st = ''on'' then ''1'' else ''0'')
        in if k SysOpen < 0 then (-1, [SysOpen])
           else if k (SysWrite buf) \<noteq> 1 then (-1, [SysOpen, SysWrite buf, SysClose])
           else (0, [SysOpen, SysWrite buf, SysClose]))"

fun blink_loop :: "nat \<Rightarrow> sys_event list" where
  "blink_loop 0 = []"
| "blink_loop (Suc n) =
     [SysWrite ''1'', SysSleep 200000, SysWrite ''0''] @
     (if 0 < n then [SysSleep 200000] else []) @ blink_loop n"

definition blink_led :: "(sys_event \<Rightarrow> int) \<Rightarrow> int \<Rightarrow> int \<times> sys_event list" where
  "blink_led k count =
     (if k SysOpen < 0 then (-1, [SysOpen])
      else (0, [SysOpen] @ blink_loop (nat count) @ [SysClose]))"

definition read_button_state :: "(sys_event \<Rightarrow> int) \<Rightarrow> int \<times> sys_event list" where
  "read_button_state k =
     (if k SysOpen < 0 then (-1, [SysOpen])
      else if k SysRead \<noteq> 1 then (-1, [SysOpen, SysRead, SysClose])
      else (0, [SysOpen, SysRead, SysClose]))"

definition show_device_status :: "(sys_event \<Rightarrow> int) \<Rightarrow> sys_event list" where
  "show_device_status k =
     (if k (SysAccess False) = 0 then [SysAccess False, SysAccess True] else [SysAccess False])"

text \<open>\<open>atoi\<close> is the C library's; its result is a parameter.\<close>

definition led_test_main :: "(sys_event \<Rightarrow> int) \<Rightarrow> (string \<Rightarrow> int) \<Rightarrow> string list \<Rightarrow> int \<times> sys_event list" where
  "led_test_main k atoi args =
     (case args of
        [] \<Rightarrow> (0, [SysUsage])
      | cmd # rest \<Rightarrow>
          if cmd = ''on'' then turn_led k ''on''
          else if cmd = ''off'' then turn_led k ''off''
          else if cmd = ''blink'' then
            (case rest of
               [] \<Rightarrow> blink_led k 5
             | n # _ \<Rightarrow> blink_led k (if atoi n \<le> 0 then 5 else atoi n))
          else if cmd = ''read'' then read_button_state k
          else if cmd = ''status'' then (0, show_device_status k)
          else if cmd = ''help'' then (0, [SysUsage])
          else (1, [SysUsage]))"

section \<open>Button events\<close>

text \<open>
  One \<^verbatim>\<open>read\<close> of the extended driver in progress. The interrupt handler increments the event
  count; a read tests it, may sleep, then copies the pin's level out and decrements. Any number
  of readers run concurrently; \<open>nonblock\<close> is the file's flag, \<open>fault\<close> whether the copy fails.
  The count is an \<^verbatim>\<open>atomic_t\<close>, 32 bits that wrap and are read as signed.
\<close>

datatype rpc = Enter | Waiting | Reading | Returned int

record button =
  event_count :: u32
  reader :: "nat \<Rightarrow> rpc"
  irqs :: nat
  delivered :: nat

fun read_check :: "bool \<Rightarrow> u32 \<Rightarrow> rpc" where
  "read_check nonblock n = (if n = 0 then (if nonblock then Returned (- EAGAIN) else Waiting) else Reading)"

fun read_finish :: "bool \<Rightarrow> nat \<Rightarrow> button \<Rightarrow> button" where
  "read_finish fault i b =
     (if fault then b\<lparr>reader := (reader b)(i := Returned (- EFAULT))\<rparr>
      else b\<lparr>event_count := event_count b - 1, delivered := delivered b + 1,
             reader := (reader b)(i := Returned 1)\<rparr>)"

definition button_interrupt_handler :: "button \<Rightarrow> button" where
  "button_interrupt_handler b = b\<lparr>event_count := event_count b + 1, irqs := irqs b + 1\<rparr>"

definition gpio_poll :: "button \<Rightarrow> bool" where
  "gpio_poll b \<longleftrightarrow> 0 < sint (event_count b)"

inductive button_step :: "button \<Rightarrow> button \<Rightarrow> bool" where
  irq: "button_step b (button_interrupt_handler b)"
| start: "reader b i = Returned r \<Longrightarrow> button_step b (b\<lparr>reader := (reader b)(i := Enter)\<rparr>)"
| check: "reader b i = Enter \<Longrightarrow>
    button_step b (b\<lparr>reader := (reader b)(i := read_check nonblock (event_count b))\<rparr>)"
| wake: "reader b i = Waiting \<Longrightarrow> event_count b \<noteq> 0 \<Longrightarrow> button_step b (b\<lparr>reader := (reader b)(i := Reading)\<rparr>)"
| finish: "reader b i = Reading \<Longrightarrow> button_step b (read_finish fault i b)"

text \<open>
  A signal ends \<^verbatim>\<open>wait_event_interruptible\<close> early; the source ignores its result and reads on.
\<close>

inductive signal_step :: "button \<Rightarrow> button \<Rightarrow> bool" where
  signal: "reader b i = Waiting \<Longrightarrow> signal_step b (b\<lparr>reader := (reader b)(i := Reading)\<rparr>)"

record button_api =
  b_valid :: bool
  b_request :: int
  b_input :: int
  b_irq :: int

definition init_button :: "button_api \<Rightarrow> int \<Rightarrow> gpio_state \<Rightarrow> int \<times> gpio_state" where
  "init_button api p s =
     (if \<not> b_valid api then (- EINVAL, s)
      else if b_request api \<noteq> 0 then (b_request api, s)
      else
        let s = acquire (Pin p) s
        in if b_input api \<noteq> 0 then (b_input api, release (Pin p) s)
           else if b_irq api \<noteq> 0 then (b_irq api, release (Pin p) s)
           else (0, s))"

section \<open>PWM\<close>

record pwm_control =
  period_ms :: u32
  duty_cycle :: u32
  pwm_state :: u32
  timer_due :: "u64 option"
  pwm_pin_level :: bool
  pwm_period :: u32
  pwm_duty :: u32

text \<open>\<open>jiffies\<close> is the current time, \<open>to_jiffies\<close> the kernel's \<^verbatim>\<open>msecs_to_jiffies\<close>.\<close>

definition pwm_timer_callback :: "u64 \<Rightarrow> (u64 \<Rightarrow> u64) \<Rightarrow> pwm_control \<Rightarrow> pwm_control" where
  "pwm_timer_callback jiffies to_jiffies w =
     (if pwm_state w = 0
      then let d = ucast (period_ms w * duty_cycle w div 100)
           in w\<lparr>pwm_pin_level := True, pwm_state := 1, timer_due := Some (jiffies + to_jiffies d)\<rparr>
      else let d = ucast (period_ms w * (100 - duty_cycle w) div 100)
           in w\<lparr>pwm_pin_level := False, pwm_state := 0, timer_due := Some (jiffies + to_jiffies d)\<rparr>)"

text \<open>
  \<open>ubuf\<close> is what \<^verbatim>\<open>copy_from_user\<close> delivers; \<open>scan\<close> stands for \<^verbatim>\<open>sscanf\<close> with two \<open>%u\<close>: the values
  it converted, which it has stored by the time it returns. The final case hands over to
  \<^verbatim>\<open>gpio_write\<close>.
\<close>

definition restart_pwm :: "u64 \<Rightarrow> pwm_control \<Rightarrow> pwm_control" where
  "restart_pwm jiffies w = w\<lparr>pwm_state := 0, pwm_pin_level := False, timer_due := Some jiffies\<rparr>"

fun store_scanned :: "u32 list \<Rightarrow> pwm_control \<Rightarrow> pwm_control" where
  "store_scanned (p # d # _) w = w\<lparr>pwm_period := p, pwm_duty := d\<rparr>"
| "store_scanned [p] w = w\<lparr>pwm_period := p\<rparr>"
| "store_scanned [] w = w"

definition gpio_write_with_pwm ::
  "(string \<Rightarrow> u32 list) \<Rightarrow> u64 \<Rightarrow> string option \<Rightarrow> nat \<Rightarrow> gpio_state \<Rightarrow> pwm_control \<Rightarrow>
   int \<times> gpio_state \<times> pwm_control" where
  "gpio_write_with_pwm scan jiffies ubuf len s w =
     (if len = 0 \<or> 15 < len then (- EINVAL, s, w)
      else case ubuf of
        None \<Rightarrow> (- EFAULT, s, w)
      | Some cmd \<Rightarrow>
          if take 4 cmd = ''pwm '' then
            let vs = scan (drop 4 cmd); w = store_scanned vs w
            in if length vs \<noteq> 2 then (- EINVAL, s, w)
               else if 100 < pwm_duty w then (- EINVAL, s, w)
               else
                 let w = w\<lparr>period_ms := pwm_period w, duty_cycle := pwm_duty w\<rparr>;
                     w = (if timer_due w \<noteq> None then restart_pwm jiffies w else w)
                 in (int len, s, w)
          else if cmd = ''pwm_start'' then
            (int len, s, if timer_due w = None then restart_pwm jiffies w else w)
          else if cmd = ''pwm_stop'' then
            (int len, s, if timer_due w \<noteq> None then w\<lparr>timer_due := None, pwm_pin_level := False\<rparr> else w)
          else
            let (r, s) = gpio_write (case cmd of [] \<Rightarrow> Some CHR 0x00 | c # _ \<Rightarrow> Some c) len s in (r, s, w))"

definition init_pwm :: "pwm_control \<Rightarrow> pwm_control" where
  "init_pwm w = w\<lparr>period_ms := pwm_period w, duty_cycle := pwm_duty w, pwm_state := 0, timer_due := None\<rparr>"

definition cleanup_pwm :: "pwm_control \<Rightarrow> pwm_control" where
  "cleanup_pwm w = (if timer_due w \<noteq> None then w\<lparr>timer_due := None\<rparr> else w)"

definition cleanup_button :: "int \<Rightarrow> gpio_state \<Rightarrow> gpio_state" where
  "cleanup_button p s = release (Pin p) s"

end
