(* ===== verification/Gpio_Facts.thy ===== *)
theory Gpio_Facts
  imports Gpio
begin

text \<open>
  The GPIO driver's guarantees: what it holds after initialisation and after exit, whatever the
  kernel answers; the event count of the button reader; the duration of a PWM cycle; and the test
  program closing the descriptor it opened.
\<close>

section \<open>Resources\<close>

lemmas resource_ops = acquire_def release_def gpio_set_value_def init_error_def init_button_input_def

definition button_obtained :: "gpio_api \<Rightarrow> gpio_state \<Rightarrow> bool" where
  "button_obtained api s \<longleftrightarrow> use_button s \<and> gpio_is_valid api GPIO_BUTTON_PIN \<and>
     gpio_request api GPIO_BUTTON_PIN = 0 \<and> gpio_direction_input api GPIO_BUTTON_PIN = 0"

lemma init_resources:
  assumes "held s = {}" and "misuse s = []" and "gpio_pin s \<noteq> GPIO_BUTTON_PIN"
    and "gpio_led_init api s = (r, s')"
  shows "misuse s' = []" and "r \<noteq> 0 \<Longrightarrow> held s' = {}"
    and "r = 0 \<Longrightarrow> held s' = {Region, DevClass, Device, Cdev, Pin (gpio_pin s)} \<union>
           (if button_obtained api s then {Pin GPIO_BUTTON_PIN} else {})"
    and "r = 0 \<Longrightarrow> gpio_pin s' = gpio_pin s \<and> use_button s' = use_button s \<and> \<not> level s' (gpio_pin s)"
  using assms
  by (auto simp: gpio_led_init_def resource_ops button_obtained_def Let_def EINVAL_def split: if_splits)

text \<open>
  Property C12. Whatever the kernel calls answer, and for an LED pin other than the button pin 27,
  \<^verbatim>\<open>gpio_led_init\<close> releases only what it holds;
  on failure it holds nothing, on success the device number, class, device, character device
  and LED pin (driven low), and the button pin exactly if that could be set up. \<^verbatim>\<open>gpio_led_exit\<close>
  then gives everything back; but if the button was asked for and could not be set up, it frees
  the button pin the driver does not hold.
\<close>

theorem gpio_init_exit:
  assumes "held s = {}" and "misuse s = []" and "gpio_pin s \<noteq> GPIO_BUTTON_PIN"
    and "gpio_led_init api s = (r, s')"
  shows "misuse s' = [] \<and> (r \<noteq> 0 \<longrightarrow> held s' = {}) \<and>
    (r = 0 \<longrightarrow> held s' = {Region, DevClass, Device, Cdev, Pin (gpio_pin s)} \<union>
        (if button_obtained api s then {Pin GPIO_BUTTON_PIN} else {}) \<and>
      \<not> level s' (gpio_pin s) \<and> held (gpio_led_exit s') = {} \<and>
      misuse (gpio_led_exit s') =
        (if use_button s \<and> \<not> button_obtained api s then [Pin GPIO_BUTTON_PIN] else []))"
proof -
  note i = init_resources[OF assms]
  have "held (gpio_led_exit s') = {} \<and> misuse (gpio_led_exit s') =
      (if use_button s \<and> \<not> button_obtained api s then [Pin GPIO_BUTTON_PIN] else [])" if "r = 0"
    using i(1) i(3,4)[OF that] assms(3)
    by (cases "use_button s"; cases "button_obtained api s")
      (simp_all add: gpio_led_exit_def release_def gpio_set_value_def Let_def,
       auto simp: button_obtained_def)
  then show ?thesis using i by blast
qed

definition refusing :: gpio_api where
  "refusing = \<lparr>alloc_chrdev_region = 0, class_create = 0, device_create = 0, cdev_add = 0,
     gpio_is_valid = (\<lambda>_. True), gpio_request = (\<lambda>p. if p = 27 then -16 else 0),
     gpio_direction_output = (\<lambda>_. 0), gpio_direction_input = (\<lambda>_. 0)\<rparr>"

definition unloaded :: gpio_state where
  "unloaded = \<lparr>held = {}, misuse = [], level = (\<lambda>_. True), gpio_pin = 17, use_button = True\<rparr>"

theorem gpio_init_exit_witness:
  "fst (gpio_led_init refusing unloaded) = 0 \<and>
   misuse (gpio_led_exit (snd (gpio_led_init refusing unloaded))) = [Pin GPIO_BUTTON_PIN]"
proof -
  have r: "fst (gpio_led_init refusing unloaded) = 0"
    by (simp add: gpio_led_init_def refusing_def unloaded_def Let_def resource_ops)
  have "gpio_led_init refusing unloaded = (0, snd (gpio_led_init refusing unloaded))"
    using r by (metis prod.collapse)
  from gpio_init_exit[OF _ _ _ this] r show ?thesis
    by (simp add: unloaded_def refusing_def button_obtained_def GPIO_BUTTON_PIN_def)
qed

section \<open>Button events\<close>

definition idle_button :: button where
  "idle_button = \<lparr>event_count = 0, reader = (\<lambda>_. Returned 0), irqs = 0, delivered = 0\<rparr>"

text \<open>Runs in which only reader 0 reads.\<close>

inductive one_reader :: "button \<Rightarrow> bool" where
  one_init: "one_reader idle_button"
| one_step: "one_reader b \<Longrightarrow> button_step b b' \<Longrightarrow> (\<forall>j. j \<noteq> 0 \<longrightarrow> reader b' j = Returned 0) \<Longrightarrow> one_reader b'"

definition button_inv :: "button \<Rightarrow> bool" where
  "button_inv b \<longleftrightarrow> delivered b \<le> irqs b \<and> event_count b = of_nat (irqs b - delivered b) \<and>
     (reader b 0 = Reading \<longrightarrow> delivered b < irqs b) \<and> (\<forall>j. j \<noteq> 0 \<longrightarrow> reader b j = Returned 0)"

lemma button_inv_step:
  assumes "button_step b b'" and "button_inv b" and "\<forall>j. j \<noteq> 0 \<longrightarrow> reader b' j = Returned 0"
  shows "button_inv b'"
  using assms(1)
proof (cases rule: button_step.cases)
  case irq
  then show ?thesis using assms(2) by (auto simp: button_inv_def button_interrupt_handler_def Suc_diff_le)
next
  case (start i r)
  then show ?thesis using assms(2,3) by (auto simp: button_inv_def split: if_splits)
next
  case (check i nonblock)
  then have "i = 0" using assms(2) by (auto simp: button_inv_def)
  moreover have "delivered b < irqs b" if "event_count b \<noteq> 0"
    using that assms(2) by (cases "delivered b = irqs b") (auto simp: button_inv_def)
  ultimately show ?thesis using check assms(2) by (auto simp: button_inv_def)
next
  case (wake i)
  then have "i = 0" using assms(2) by (auto simp: button_inv_def)
  moreover have "delivered b < irqs b" using wake(3) assms(2) by (cases "delivered b = irqs b") (auto simp: button_inv_def)
  ultimately show ?thesis using wake assms(2) by (auto simp: button_inv_def)
next
  case (finish i fault)
  then have "i = 0" using assms(2) by (auto simp: button_inv_def)
  moreover have "(of_nat (irqs b - delivered b) :: u32) - 1 = of_nat (irqs b - Suc (delivered b))" if "delivered b < irqs b"
  proof -
    have "irqs b - delivered b = Suc (irqs b - Suc (delivered b))" using that by simp
    then show ?thesis by simp
  qed
  ultimately show ?thesis using finish assms(2) by (auto simp: button_inv_def)
qed

lemma one_reader_inv: "one_reader b \<Longrightarrow> button_inv b"
proof (induction rule: one_reader.induct)
  case one_init
  show ?case by (simp add: button_inv_def idle_button_def)
next
  case (one_step b b')
  then show ?case using button_inv_step by blast
qed

lemma sint_small: "n < 2 ^ 31 \<Longrightarrow> sint (of_nat n :: u32) = int n"
  by (simp add: signed_of_nat signed_take_bit_int_eq_self)

text \<open>
  Property C39. With one reader and no signals a read never delivers more than there were interrupts, and
  the event count is the number of interrupts less the number of reads delivered, modulo 2^32. While
  fewer than 2^31 interrupts are unread the count is that number and \<^verbatim>\<open>poll\<close> reports data exactly
  while one is outstanding; with 2^31 it is negative and \<^verbatim>\<open>poll\<close> reports nothing. A signal that
  interrupts the wait breaks this: the read delivers although nothing happened, and the count
  becomes -1, after which \<^verbatim>\<open>read\<close> no longer waits while \<^verbatim>\<open>poll\<close> reports nothing.
\<close>

theorem button_events_counted:
  "(one_reader b \<longrightarrow> delivered b \<le> irqs b \<and> event_count b = of_nat (irqs b - delivered b) \<and>
      (irqs b - delivered b < 2 ^ 31 \<longrightarrow> sint (event_count b) = int (irqs b - delivered b) \<and>
         (gpio_poll b \<longleftrightarrow> delivered b < irqs b)) \<and>
      (irqs b - delivered b = 2 ^ 31 \<longrightarrow> sint (event_count b) = - (2 ^ 31) \<and> \<not> gpio_poll b)) \<and>
   (\<exists>b1 b2 b3. one_reader b1 \<and> signal_step b1 b2 \<and> button_step b2 b3 \<and>
      sint (event_count b3) = -1 \<and> irqs b3 = 0 \<and> reader b3 0 = Returned 1 \<and> \<not> gpio_poll b3 \<and>
      read_check False (event_count b3) = Reading)"
proof
  show "one_reader b \<longrightarrow> delivered b \<le> irqs b \<and> event_count b = of_nat (irqs b - delivered b) \<and>
      (irqs b - delivered b < 2 ^ 31 \<longrightarrow> sint (event_count b) = int (irqs b - delivered b) \<and>
         (gpio_poll b \<longleftrightarrow> delivered b < irqs b)) \<and>
      (irqs b - delivered b = 2 ^ 31 \<longrightarrow> sint (event_count b) = - (2 ^ 31) \<and> \<not> gpio_poll b)"
  proof
    assume "one_reader b"
    then have inv: "delivered b \<le> irqs b" "event_count b = of_nat (irqs b - delivered b)"
      using one_reader_inv[of b] unfolding button_inv_def by blast+
    define n where "n = irqs b - delivered b"
    have lt: "delivered b < irqs b \<longleftrightarrow> 0 < n" by (simp add: n_def)
    show "delivered b \<le> irqs b \<and> event_count b = of_nat (irqs b - delivered b) \<and>
      (irqs b - delivered b < 2 ^ 31 \<longrightarrow> sint (event_count b) = int (irqs b - delivered b) \<and>
         (gpio_poll b \<longleftrightarrow> delivered b < irqs b)) \<and>
      (irqs b - delivered b = 2 ^ 31 \<longrightarrow> sint (event_count b) = - (2 ^ 31) \<and> \<not> gpio_poll b)"
      unfolding gpio_poll_def lt inv(2) n_def[symmetric] using inv(1) sint_small[of n] by auto
  qed
  define e where "e = idle_button\<lparr>reader := (reader idle_button)(0 := Enter)\<rparr>"
  define w where "w = e\<lparr>reader := (reader e)(0 := read_check False (event_count e))\<rparr>"
  have "button_step idle_button e" unfolding e_def by (rule start[of _ 0 0]) (simp add: idle_button_def)
  then have "one_reader e" by (rule one_step[OF one_init]) (simp add: e_def idle_button_def)
  moreover have "button_step e w" unfolding w_def by (rule check) (simp add: e_def)
  ultimately have 1: "one_reader w" by (rule one_step) (simp add: w_def e_def idle_button_def)
  have 2: "signal_step w (w\<lparr>reader := (reader w)(0 := Reading)\<rparr>)"
    by (rule signal) (simp add: w_def e_def idle_button_def)
  have 3: "button_step (w\<lparr>reader := (reader w)(0 := Reading)\<rparr>)
      (read_finish False 0 (w\<lparr>reader := (reader w)(0 := Reading)\<rparr>))"
    by (rule finish) simp
  show "\<exists>b1 b2 b3. one_reader b1 \<and> signal_step b1 b2 \<and> button_step b2 b3 \<and>
      sint (event_count b3) = -1 \<and> irqs b3 = 0 \<and> reader b3 0 = Returned 1 \<and> \<not> gpio_poll b3 \<and>
      read_check False (event_count b3) = Reading"
    using 1 2 3 by (intro exI conjI) (auto simp: w_def e_def idle_button_def gpio_poll_def)
qed

text \<open>Two interrupts, then one read.\<close>

definition two_events :: button where
  "two_events = button_interrupt_handler (button_interrupt_handler idle_button)"

lemma one_reader_two_events:
  obtains b where "one_reader b" and "irqs b = 2" and "delivered b = 1"
proof -
  define e where "e = two_events\<lparr>reader := (reader two_events)(0 := Enter)\<rparr>"
  define w where "w = e\<lparr>reader := (reader e)(0 := read_check False (event_count e))\<rparr>"
  have "one_reader two_events"
    unfolding two_events_def by (intro one_step[OF one_step[OF one_init irq] irq])
      (simp_all add: button_interrupt_handler_def idle_button_def)
  moreover have "button_step two_events e" unfolding e_def
    by (rule start[of _ 0 0]) (simp add: two_events_def button_interrupt_handler_def idle_button_def)
  ultimately have "one_reader e"
    by (rule one_step) (simp add: e_def two_events_def button_interrupt_handler_def idle_button_def)
  moreover have "button_step e w" unfolding w_def by (rule check) (simp add: e_def)
  ultimately have "one_reader w"
    by (rule one_step) (simp add: w_def e_def two_events_def button_interrupt_handler_def idle_button_def)
  moreover have "button_step w (read_finish False 0 w)"
    by (rule finish) (simp add: w_def e_def two_events_def button_interrupt_handler_def idle_button_def)
  ultimately have "one_reader (read_finish False 0 w)"
    by (rule one_step) (simp add: w_def e_def two_events_def button_interrupt_handler_def idle_button_def)
  then show thesis
    by (rule that) (simp_all add: w_def e_def two_events_def button_interrupt_handler_def idle_button_def)
qed

theorem button_events_counted_witness:
  "\<exists>b. one_reader b \<and> irqs b = 2 \<and> delivered b = 1 \<and> sint (event_count b) = 1 \<and> gpio_poll b"
proof -
  obtain b where b: "one_reader b" "irqs b = 2" "delivered b = 1" by (rule one_reader_two_events)
  with button_events_counted[of b] show ?thesis by auto
qed

section \<open>PWM\<close>

text \<open>
  For a duty cycle of at most 100 and a period below 42,949,672 ms, one high and one
  low phase of the PWM timer last together the period, or one millisecond less from rounding, the
  high phase being \<open>period * duty / 100\<close>; the pin is high exactly after the first callback.
\<close>

theorem pwm_cycle:
  fixes w :: pwm_control and t0 t1 :: u64
  assumes "unat (duty_cycle w) \<le> 100" and "unat (period_ms w) * 100 < 4294967296" and "pwm_state w = 0"
  defines "w1 \<equiv> pwm_timer_callback t0 id w"
  defines "w2 \<equiv> pwm_timer_callback t1 id w1"
  shows "\<exists>hi lo. timer_due w1 = Some (t0 + of_nat hi) \<and> timer_due w2 = Some (t1 + of_nat lo) \<and>
    hi = unat (period_ms w) * unat (duty_cycle w) div 100 \<and>
    hi + lo \<le> unat (period_ms w) \<and> unat (period_ms w) \<le> hi + lo + 1 \<and>
    pwm_pin_level w1 \<and> \<not> pwm_pin_level w2"
proof -
  define p d where "p = unat (period_ms w)" and "d = unat (duty_cycle w)"
  have d100: "d \<le> 100" using assms(1) by (simp add: d_def)
  have pd: "p * d \<le> p * 100" and pe: "p * (100 - d) \<le> p * 100" using d100 by simp_all
  have small: "p * 100 < 4294967296" using assms(2) by (simp add: p_def)
  have m: "unat (period_ms w * duty_cycle w div 100) = p * d div 100"
    using le_less_trans[OF pd small] by (simp add: unat_div unat_word_ariths p_def d_def)
  have c: "unat (100 - duty_cycle w) = 100 - d"
    using assms(1) by (subst unat_diff_exact) (simp_all add: d_def)
  have l: "unat (period_ms w * (100 - duty_cycle w) div 100) = p * (100 - d) div 100"
    using le_less_trans[OF pe small] by (simp add: unat_div unat_word_ariths c p_def)
  have u: "(ucast x :: u64) = of_nat (unat x)" for x :: u32
    by (simp add: unsigned_word_eqI)
  have s: "p * d + p * (100 - d) = p * 100" using d100 by (simp add: distrib_left[symmetric])
  have sum: "p * d div 100 + p * (100 - d) div 100 \<le> p \<and> p \<le> p * d div 100 + p * (100 - d) div 100 + 1"
    using s by linarith
  have w1: "timer_due w1 = Some (t0 + of_nat (p * d div 100))" "pwm_pin_level w1" "pwm_state w1 = 1"
    "period_ms w1 = period_ms w" "duty_cycle w1 = duty_cycle w"
    using assms(3) unfolding w1_def pwm_timer_callback_def Let_def u m by simp_all
  have w2: "timer_due w2 = Some (t1 + of_nat (p * (100 - d) div 100))" "\<not> pwm_pin_level w2"
    unfolding w2_def pwm_timer_callback_def w1(3-5) Let_def u l by simp_all
  show ?thesis using w1 w2 sum unfolding p_def[symmetric] d_def[symmetric] by blast
qed

definition pwm_example :: pwm_control where
  "pwm_example = \<lparr>period_ms = 100, duty_cycle = 33, pwm_state = 0, timer_due = None,
     pwm_pin_level = False, pwm_period = 100, pwm_duty = 33\<rparr>"

theorem pwm_cycle_witness: "timer_due (pwm_timer_callback 0 id pwm_example) = Some 33"
  using pwm_cycle[of pwm_example 0 0] by (auto simp: pwm_example_def)

text \<open>A rejected command still overwrites the parameters: duty 150 is refused with -EINVAL and stored.\<close>

lemma pwm_rejected_duty_is_stored:
  "\<exists>s' w'. gpio_write_with_pwm (\<lambda>_. [10, 150]) 0 (Some ''pwm 10 150'') 10 unloaded pwm_example = (- EINVAL, s', w') \<and>
     pwm_duty w' = 150 \<and> duty_cycle w' = 33"
  by (simp add: gpio_write_with_pwm_def pwm_example_def)

section \<open>The test program\<close>

text \<open>Every descriptor that was opened is closed at the end, and nothing is used unopened.\<close>

definition balanced :: "(sys_event \<Rightarrow> int) \<Rightarrow> sys_event list \<Rightarrow> bool" where
  "balanced k es \<longleftrightarrow> count_list es SysClose = (if SysOpen \<in> set es \<and> 0 \<le> k SysOpen then 1 else 0)"

lemma blink_loop_plain: "SysOpen \<notin> set (blink_loop n)" "count_list (blink_loop n) SysClose = 0"
  by (induction n) auto

lemma blink_loop_writes: "count_list (blink_loop n) (SysWrite ''1'') = n" "count_list (blink_loop n) (SysWrite ''0'') = n"
  by (induction n) auto

lemma led_test_main_balanced: "balanced k (snd (led_test_main k atoi args))"
  by (auto simp: led_test_main_def balanced_def turn_led_def blink_led_def read_button_state_def
      show_device_status_def blink_loop_plain Let_def split: list.splits)

end
