(* ===== verification/Wifi.thy ===== *)
theory Wifi
  imports Print
begin

text \<open>
  The ESP8266 driver of \<^verbatim>\<open>lab5-2-iot-sensor-rtos/src/wifi_esp8266.c\<close> with the settings of
  \<^verbatim>\<open>config/wifi_config.h\<close>. RT-Thread is a parameter: what the serial line delivers is a list of
  events, one per turn of the receive loop (the semaphore timed out, or a chunk arrived), each with
  the tick count the code then reads; the results of finding and opening the UART are arguments.
  \<open>None\<close> means the driver is still waiting when the list of events ends. \<^verbatim>\<open>rt_snprintf\<close> with \<open>%d\<close> is
  the decimal text of the number.
\<close>

datatype rt_err = RT_EOK | RT_ERROR | RT_ETIMEOUT | RT_OTHER int

datatype uart_event = NoRx u32 | Rx string u32

record wifi =
  wifi_connected :: bool
  uart_tx :: "string list"
  line :: "uart_event list"
  rt_tick :: u32

definition WIFI_SSID :: string where "WIFI_SSID = ''Your_WiFi_SSID''"
definition WIFI_PASSWORD :: string where "WIFI_PASSWORD = ''Your_WiFi_Password''"
definition CRLF :: string where "CRLF = [CHR 0x0D, CHR 0x0A]"

definition decimal :: "nat \<Rightarrow> string" where
  "decimal n = dec_loop n []"

text \<open>\<^verbatim>\<open>rt_strstr(s, t) != RT_NULL\<close>\<close>

fun starts_with :: "string \<Rightarrow> string \<Rightarrow> bool" where
  "starts_with [] s = True"
| "starts_with (c # cs) [] = False"
| "starts_with (c # cs) (d # ds) = (c = d \<and> starts_with cs ds)"

fun rt_strstr :: "string \<Rightarrow> string \<Rightarrow> bool" where
  "rt_strstr [] t = (t = [])"
| "rt_strstr (c # s) t = (starts_with t (c # s) \<or> rt_strstr s t)"

text \<open>The C string at the start of a buffer.\<close>

definition c_string :: "string \<Rightarrow> string" where
  "c_string s = takeWhile (\<lambda>c. c \<noteq> CHR 0x00) s"

text \<open>
  The \<^verbatim>\<open>while (1)\<close> of \<^verbatim>\<open>esp8266_send_cmd\<close>; the response buffer takes 511 characters.
\<close>

fun await_reply :: "string \<Rightarrow> u32 \<Rightarrow> u32 \<Rightarrow> uart_event list \<Rightarrow> (rt_err \<times> u32 \<times> uart_event list) option" where
  "await_reply expect timeout start [] = None"
| "await_reply expect timeout start (NoRx now # es) =
     (if timeout < now - start then Some (RT_ETIMEOUT, now, es)
      else await_reply expect timeout start es)"
| "await_reply expect timeout start (Rx chunk now # es) =
     (let response = c_string (take 511 chunk)
      in if chunk \<noteq> [] \<and> rt_strstr response expect then Some (RT_EOK, now, es)
         else if chunk \<noteq> [] \<and> (rt_strstr response ''ERROR'' \<or> rt_strstr response ''FAIL'')
         then Some (RT_ERROR, now, es)
         else if timeout < now - start then Some (RT_ETIMEOUT, now, es)
         else await_reply expect timeout start es)"

definition rt_device_write :: "string \<Rightarrow> wifi \<Rightarrow> wifi" where
  "rt_device_write s w = w\<lparr>uart_tx := uart_tx w @ [s]\<rparr>"

text \<open>
  The events of the line are those after the loop that empties the receive buffer, which is taken to
  end and leaves no trace; \<^verbatim>\<open>start_tick\<close> is the tick of the last event.
\<close>

definition esp8266_send_cmd :: "string \<Rightarrow> string \<Rightarrow> u32 \<Rightarrow> wifi \<Rightarrow> (rt_err \<times> wifi) option" where
  "esp8266_send_cmd cmd expect timeout w = do {
     let w = rt_device_write cmd w;
     (r, now, es) \<leftarrow> await_reply expect timeout (rt_tick w) (line w);
     Some (r, w\<lparr>line := es, rt_tick := now\<rparr>)
   }"

definition wifi_init :: "bool \<Rightarrow> rt_err \<Rightarrow> wifi \<Rightarrow> (rt_err \<times> wifi) option" where
  "wifi_init uart_found open_result w =
     (if \<not> uart_found then Some (RT_ERROR, w)
      else if open_result \<noteq> RT_EOK then Some (open_result, w)
      else do {
        (r, w) \<leftarrow> esp8266_send_cmd (''AT'' @ CRLF) ''OK'' 2000 w;
        if r \<noteq> RT_EOK then Some (r, w)
        else do {
          (r, w) \<leftarrow> esp8266_send_cmd (''AT+CWMODE=1'' @ CRLF) ''OK'' 3000 w;
          if r \<noteq> RT_EOK then Some (r, w)
          else do {
            let cmd = ''AT+CWJAP='' @ [CHR 0x22] @ WIFI_SSID @ [CHR 0x22, CHR '','', CHR 0x22] @ WIFI_PASSWORD @
                      [CHR 0x22] @ CRLF;
            (r, w) \<leftarrow> esp8266_send_cmd cmd ''WIFI CONNECTED'' 10000 w;
            if r \<noteq> RT_EOK then Some (r, w)
            else do {
              let w = w\<lparr>wifi_connected := True\<rparr>;
              (_, w) \<leftarrow> esp8266_send_cmd (''AT+CIFSR'' @ CRLF) ''+CIFSR'' 3000 w;
              (_, w) \<leftarrow> esp8266_send_cmd (''AT+CIPMUX=0'' @ CRLF) ''OK'' 3000 w;
              Some (RT_EOK, w)
            }
          }
        }
      })"

definition wifi_is_connected :: "wifi \<Rightarrow> bool" where
  "wifi_is_connected w = wifi_connected w"

definition cipstart_cmd :: "string \<Rightarrow> u16 \<Rightarrow> string" where
  "cipstart_cmd ip port = take 63 (''AT+CIPSTART='' @ [CHR 0x22] @ ''TCP'' @ [CHR 0x22, CHR '','', CHR 0x22] @ ip @
     [CHR 0x22, CHR '',''] @ decimal (unat port) @ CRLF)"

definition cipsend_cmd :: "nat \<Rightarrow> string" where
  "cipsend_cmd len = take 63 (''AT+CIPSEND='' @ decimal len @ CRLF)"

definition wifi_send_tcp :: "string \<Rightarrow> u16 \<Rightarrow> string \<Rightarrow> wifi \<Rightarrow> (rt_err \<times> wifi) option" where
  "wifi_send_tcp ip port data w = do {
     (r, w) \<leftarrow> esp8266_send_cmd (cipstart_cmd ip port) ''CONNECT'' 10000 w;
     if r \<noteq> RT_EOK then Some (r, w)
     else do {
       (r, w) \<leftarrow> esp8266_send_cmd (cipsend_cmd (length data)) ''>'' 3000 w;
       if r \<noteq> RT_EOK then Some (r, w)
       else do {
         let w = rt_device_write data w;
         (_, w) \<leftarrow> esp8266_send_cmd [] ''SEND OK'' 5000 w;
         (_, w) \<leftarrow> esp8266_send_cmd (''AT+CIPCLOSE'' @ CRLF) ''CLOSED'' 3000 w;
         Some (RT_EOK, w)
       }
     }
   }"

end
