(* ===== verification/Dht.thy ===== *)
theory Dht
  imports Wifi
begin

text \<open>
  The DHT11 driver of \<^verbatim>\<open>lab5-2-iot-sensor-rtos/src/sensor_dht.c\<close>. The hardware is a parameter: the
  list of levels that successive \<^verbatim>\<open>rt_pin_read\<close> calls return. \<open>None\<close> means that a \<^verbatim>\<open>while\<close> loop is
  still polling when the list ends. What is written to the pin is a trace.
\<close>

datatype pin_mode = PIN_MODE_OUTPUT | PIN_MODE_INPUT | PIN_MODE_INPUT_PULLUP

datatype pin_event = PinMode pin_mode | PinWrite bool | Delay nat | ThreadDelay u32

datatype dht_type = DHT11 | DHT22

record dht =
  sensor_type :: dht_type
  pin_trace :: "pin_event list"

text \<open>\<^verbatim>\<open>dht_delay_us\<close>: the tick count for a delay, and the loop over successive timer values.\<close>

definition delay_ticks :: "u32 \<Rightarrow> u32 \<Rightarrow> u32 \<Rightarrow> u32" where
  "delay_ticks us reload ticks_per_second = us * reload div (1000000 div ticks_per_second)"

fun delay_loop :: "u32 \<Rightarrow> u32 \<Rightarrow> u32 \<Rightarrow> u32 \<Rightarrow> u32 list \<Rightarrow> u32 option" where
  "delay_loop reload ticks told tcnt [] = None"
| "delay_loop reload ticks told tcnt (tnow # rest) =
     (if tnow = told then delay_loop reload ticks told tcnt rest
      else
        let tcnt = tcnt + (if tnow < told then told - tnow else reload - tnow + told)
        in if ticks \<le> tcnt then Some tcnt else delay_loop reload ticks tnow tcnt rest)"

definition dht_pin_mode :: "bool \<Rightarrow> dht \<Rightarrow> dht" where
  "dht_pin_mode mode d =
     d\<lparr>pin_trace := pin_trace d @ [PinMode (if mode then PIN_MODE_OUTPUT else PIN_MODE_INPUT)]\<rparr>"

definition dht_start_signal :: "dht \<Rightarrow> dht" where
  "dht_start_signal d = (
     let d = dht_pin_mode True d;
         d = d\<lparr>pin_trace := pin_trace d @ [PinWrite False, Delay 20000, PinWrite True, Delay 30]\<rparr>
     in dht_pin_mode False d)"

text \<open>
  \<^verbatim>\<open>while (level && timeout < 100) timeout++;\<close> reads the pin once more than it counts; the result is
  the final count.
\<close>

fun wait_level :: "bool \<Rightarrow> nat \<Rightarrow> bool list \<Rightarrow> (nat \<times> bool list) option" where
  "wait_level lv timeout [] = None"
| "wait_level lv timeout (x # xs) =
     (if x = lv \<and> timeout < 100 then wait_level lv (timeout + 1) xs else Some (timeout, xs))"

definition dht_wait_response :: "bool list \<Rightarrow> (rt_err \<times> bool list) option" where
  "dht_wait_response xs = do {
     (t, xs) \<leftarrow> wait_level True 0 xs;
     if 100 \<le> t then Some (RT_ERROR, xs)
     else do {
       (t, xs) \<leftarrow> wait_level False 0 xs;
       if 100 \<le> t then Some (RT_ERROR, xs) else Some (RT_EOK, xs)
     }
   }"

text \<open>\<^verbatim>\<open>while (rt_pin_read(pin) == level);\<close>\<close>

fun spin_while :: "bool \<Rightarrow> bool list \<Rightarrow> bool list option" where
  "spin_while lv [] = None"
| "spin_while lv (x # xs) = (if x = lv then spin_while lv xs else Some xs)"

definition read_bit :: "nat \<Rightarrow> u8 \<Rightarrow> bool list \<Rightarrow> (u8 \<times> bool list) option" where
  "read_bit i data xs = do {
     xs \<leftarrow> spin_while False xs;
     case xs of [] \<Rightarrow> None
     | x # xs \<Rightarrow>
         if x then do { xs \<leftarrow> spin_while True xs; Some (data OR push_bit (7 - i) 1, xs) }
         else Some (data, xs)
   }"

fun read_bits :: "nat list \<Rightarrow> u8 \<Rightarrow> bool list \<Rightarrow> (u8 \<times> bool list) option" where
  "read_bits [] data xs = Some (data, xs)"
| "read_bits (i # is) data xs = (case read_bit i data xs of None \<Rightarrow> None
     | Some (data, xs) \<Rightarrow> read_bits is data xs)"

definition dht_read_byte :: "bool list \<Rightarrow> (u8 \<times> bool list) option" where
  "dht_read_byte xs = read_bits [0..<8] 0 xs"

definition dht_sensor_init :: "u32 \<Rightarrow> dht \<Rightarrow> rt_err \<times> dht" where
  "dht_sensor_init ticks_per_second d =
     (RT_EOK, d\<lparr>pin_trace := pin_trace d @ [PinMode PIN_MODE_INPUT_PULLUP, ThreadDelay ticks_per_second]\<rparr>)"

text \<open>The result carries the temperature and humidity stored through the pointers, if they were.\<close>

definition dht_sensor_read :: "dht \<Rightarrow> bool list \<Rightarrow> (rt_err \<times> (u8 \<times> u8) option \<times> dht \<times> bool list) option" where
  "dht_sensor_read d xs = do {
     let d = dht_start_signal d;
     (r, xs) \<leftarrow> dht_wait_response xs;
     if r \<noteq> RT_EOK then Some (RT_ERROR, None, d, xs)
     else do {
       (d0, xs) \<leftarrow> dht_read_byte xs;
       (d1, xs) \<leftarrow> dht_read_byte xs;
       (d2, xs) \<leftarrow> dht_read_byte xs;
       (d3, xs) \<leftarrow> dht_read_byte xs;
       (d4, xs) \<leftarrow> dht_read_byte xs;
       if d0 + d1 + d2 + d3 \<noteq> d4 then Some (RT_ERROR, None, d, xs)
       else Some (RT_EOK, if sensor_type d = DHT11 then Some (d2, d0) else None, d, xs)
     }
   }"

definition dht_set_type :: "dht_type \<Rightarrow> dht \<Rightarrow> dht" where
  "dht_set_type t d = d\<lparr>sensor_type := t\<rparr>"

end
