(* ===== verification/Dht_Facts.thy ===== *)
theory Dht_Facts
  imports Dht
begin

text \<open>
  The DHT11 driver against the waveform of the sensor: the levels that the polling loops read for a
  byte, with any number of readings in each low and high phase, and for a whole frame as the data
  sheet of the DHT11 describes it. The driver decodes bytes exactly, but takes the high phase of the
  sensor's response for the first bit.
\<close>

section \<open>The waveform\<close>

text \<open>
  One bit: a low phase of \<open>n\<close> readings, the first high reading, the reading 40 us later which is the
  bit, and for a one a high phase of \<open>m\<close> more readings with the low reading that ends it.
\<close>

definition bit_wave :: "bool \<Rightarrow> nat \<times> nat \<Rightarrow> bool list" where
  "bit_wave b nm = replicate (fst nm) False @ True #
     (if b then True # replicate (snd nm) True @ [False] else [False])"

definition byte_wave :: "u8 \<Rightarrow> (nat \<Rightarrow> nat \<times> nat) \<Rightarrow> bool list" where
  "byte_wave v runs = concat (map (\<lambda>i. bit_wave (bit v (7 - i)) (runs i)) [0..<8])"

text \<open>
  The answer to the start signal: the bus is high for \<open>a\<close> readings, low for 80 us (\<open>b + 1\<close> readings), and
  high for 80 us. The last phase is one reading that ends the wait for it, one more that the wait for the
  first bit makes at once, the one 40 us later, which still falls into the 80 us, and \<open>m\<close> more,
  before the first low reading of the first bit.
\<close>

definition response_low :: "nat \<Rightarrow> nat \<Rightarrow> bool list" where
  "response_low a b = replicate a True @ [False] @ replicate b False"

definition response_high :: "nat \<Rightarrow> bool list" where
  "response_high m = [True, True, True] @ replicate m True @ [False]"

section \<open>The loops on it\<close>

lemma spin_while_run: "spin_while lv (replicate n lv @ (\<not> lv) # xs) = Some xs"
  by (induction n) simp_all

lemma wait_level_run: "t + n < 100 \<Longrightarrow> wait_level lv t (replicate n lv @ (\<not> lv) # xs) = Some (t + n, xs)"
  by (induction n arbitrary: t) simp_all

lemma wait_level_timeout: "t \<le> 100 \<Longrightarrow> wait_level lv t (replicate (101 - t) lv @ xs) = Some (100, xs)"
proof (induction "100 - t" arbitrary: t)
  case 0
  then show ?case by (simp add: Suc_diff_le)
next
  case (Suc k)
  then have "k = 100 - (t + 1)" "t + 1 \<le> 100" "101 - t = Suc (101 - (t + 1))" by simp_all
  with Suc(1)[of "t + 1"] show ?case by simp
qed

lemma read_bit_wave:
  "read_bit i data (bit_wave b nm @ xs) = Some (if b then data OR push_bit (7 - i) 1 else data, xs)"
  using spin_while_run[of False "fst nm"] spin_while_run[of True "snd nm" xs]
  by (simp add: read_bit_def bit_wave_def del: push_bit_of_1)

lemma read_bits_wave:
  "read_bits is data (concat (map (\<lambda>i. bit_wave (bit v (7 - i)) (runs i)) is) @ xs) =
     Some (fold (\<lambda>i data. if bit v (7 - i) then data OR push_bit (7 - i) 1 else data) is data, xs)"
  by (induction "is" arbitrary: data) (simp_all add: read_bit_wave del: push_bit_of_1)

lemma bit_fold_or:
  "k < 8 \<Longrightarrow> bit (fold (\<lambda>i data. if bit v (7 - i) then data OR push_bit (7 - i) 1 else data) is (data :: u8)) k =
     (bit data k \<or> (\<exists>i\<in>set is. bit v (7 - i) \<and> k = 7 - i))"
  by (induction "is" arbitrary: data)
    (auto simp: bit_or_iff bit_push_bit_iff bit_1_iff simp del: push_bit_of_1)

lemma bits_back:
  "fold (\<lambda>i data. if bit v (7 - i) then data OR push_bit (7 - i) 1 else data) [0..<8] 0 = (v :: u8)"
proof (rule bit_word_eqI)
  fix k assume "k < LENGTH(8)"
  then have k: "k < 8" by simp
  have "(\<exists>i\<in>set [0..<8]. bit v (7 - i) \<and> k = 7 - i) = bit v k"
  proof
    assume "bit v k"
    then show "\<exists>i\<in>set [0..<8]. bit v (7 - i) \<and> k = 7 - i" using k by (intro bexI[of _ "7 - k"]) simp_all
  qed blast
  then show "bit (fold (\<lambda>i data. if bit v (7 - i) then data OR push_bit (7 - i) 1 else data) [0..<8] (0 :: u8)) k = bit v k"
    using bit_fold_or[OF k, of v "[0..<8]" 0] by simp
qed

lemma read_byte_wave: "dht_read_byte (byte_wave v runs @ xs) = Some (v, xs)"
  by (simp only: dht_read_byte_def byte_wave_def read_bits_wave bits_back)

lemma wait_response_wave:
  "a < 100 \<Longrightarrow> b < 100 \<Longrightarrow> dht_wait_response (response_low a b @ True # xs) = Some (RT_EOK, xs)"
  using wait_level_run[of 0 a True "replicate b False @ True # xs"] wait_level_run[of 0 b False xs]
  by (simp add: dht_wait_response_def response_low_def)

section \<open>Frames\<close>

text \<open>The 40 bits of a frame, most significant first, and the whole answer of the sensor.\<close>

definition frame_bit :: "u8 list \<Rightarrow> nat \<Rightarrow> bool" where
  "frame_bit ds k = bit (ds ! (k div 8)) (7 - k mod 8)"

definition dht11_wave :: "nat \<Rightarrow> nat \<Rightarrow> nat \<Rightarrow> u8 list \<Rightarrow> (nat \<Rightarrow> nat \<times> nat) \<Rightarrow> bool list" where
  "dht11_wave a b m ds runs = response_low a b @ response_high m @
     concat (map (\<lambda>k. bit_wave (frame_bit ds k) (runs k)) [0..<40])"

text \<open>What the driver makes of it: a one, and then all bits of the frame but the last.\<close>

definition shifted_frame :: "u8 list \<Rightarrow> u8 list" where
  "shifted_frame ds = [
     0x80 OR drop_bit 1 (ds ! 0), push_bit 7 (ds ! 0) OR drop_bit 1 (ds ! 1), push_bit 7 (ds ! 1) OR drop_bit 1 (ds ! 2),
     push_bit 7 (ds ! 2) OR drop_bit 1 (ds ! 3), push_bit 7 (ds ! 3) OR drop_bit 1 (ds ! 4)]"

lemma shifted_nth:
  "j < 5 \<Longrightarrow> shifted_frame ds ! j = (if j = 0 then push_bit 7 1 else push_bit 7 (ds ! (j - 1))) OR drop_bit 1 (ds ! j)"
  by (simp add: shifted_frame_def less_Suc_eq numeral_eq_Suc) (elim disjE; simp add: numeral_eq_Suc)

lemma shifted_bits:
  assumes "j < 5" and "i < 8"
  shows "bit (shifted_frame ds ! j) (7 - i) = (case 8 * j + i of 0 \<Rightarrow> True | Suc k \<Rightarrow> frame_bit ds k)"
proof (cases i)
  case 0
  then show ?thesis
  proof (cases j)
    case (Suc j')
    have "8 * Suc j' + 0 = Suc (7 + j' * 8)" "(7 + j' * 8) div 8 = j'" "(7 + j' * 8) mod 8 = 7" by simp_all
    then show ?thesis using assms Suc 0
      by (simp add: shifted_nth frame_bit_def bit_or_iff bit_push_bit_iff bit_drop_bit_eq bit_imp_le_length del: push_bit_of_1)
        (auto dest: bit_imp_le_length)
  qed (simp add: shifted_nth bit_or_iff bit_push_bit_iff del: push_bit_of_1)
next
  case (Suc i')
  have k: "(i' + j * 8) div 8 = j" "(i' + j * 8) mod 8 = i'" using assms(2) Suc by simp_all
  have "8 * j + Suc i' = Suc (i' + j * 8)" by simp
  moreover have "Suc (7 - Suc i') = 7 - i'" "\<not> 7 \<le> 6 - i'" using assms(2) Suc by simp_all
  ultimately show ?thesis
    using assms Suc by (simp add: k shifted_nth frame_bit_def bit_or_iff bit_push_bit_iff bit_drop_bit_eq del: push_bit_of_1)
qed

lemma upt_Suc_Cons: "[0..<Suc n] = 0 # map Suc [0..<n]"
  by (simp add: upt_conv_Cons map_Suc_upt del: upt_Suc)

lemma concat_bytes:
  "concat (map (\<lambda>j. concat (map w [8 * j..<8 * j + 8])) [0..<n]) = concat (map w [0..<8 * n])"
proof (induction n)
  case (Suc n)
  have "[0..<8 * Suc n] = [0..<8 * n] @ [8 * n..<8 * n + 8]" using upt_add_eq_append[of 0 "8 * n" 8] by (simp add: add.commute)
  then show ?case using Suc by simp
qed simp

lemma wave_shifted:
  "response_high m @ concat (map (\<lambda>k. bit_wave (frame_bit ds k) (runs k)) [0..<40]) =
   True # concat (map (\<lambda>j. byte_wave (shifted_frame ds ! j)
       (\<lambda>i. case 8 * j + i of 0 \<Rightarrow> (0, m) | Suc k \<Rightarrow> runs k)) [0..<5]) @ bit_wave (frame_bit ds 39) (runs 39)"
proof -
  define w where "w k = (case k of 0 \<Rightarrow> bit_wave True (0, m) | Suc k \<Rightarrow> bit_wave (frame_bit ds k) (runs k))" for k
  have bytes: "byte_wave (shifted_frame ds ! j) (\<lambda>i. case 8 * j + i of 0 \<Rightarrow> (0, m) | Suc k \<Rightarrow> runs k) =
      concat (map w [8 * j..<8 * j + 8])" if "j < 5" for j
  proof -
    have "byte_wave (shifted_frame ds ! j) (\<lambda>i. case 8 * j + i of 0 \<Rightarrow> (0, m) | Suc k \<Rightarrow> runs k) =
        concat (map (\<lambda>i. w (8 * j + i)) [0..<8])"
      unfolding byte_wave_def
      by (intro arg_cong[where f = concat] map_cong refl)
        (use that in \<open>simp add: shifted_bits w_def split: nat.splits\<close>)
    also have "\<dots> = concat (map w [8 * j..<8 * j + 8])"
    proof -
      have "[8 * j..<8 * j + 8] = map (\<lambda>i. i + 8 * j) [0..<8]" using map_add_upt[of "8 * j" 8] by (simp add: add.commute)
      then show ?thesis by (simp only: map_map comp_def add.commute)
    qed
    finally show ?thesis .
  qed
  have "concat (map (\<lambda>j. byte_wave (shifted_frame ds ! j) (\<lambda>i. case 8 * j + i of 0 \<Rightarrow> (0, m) | Suc k \<Rightarrow> runs k)) [0..<5]) =
      concat (map (\<lambda>j. concat (map w [8 * j..<8 * j + 8])) [0..<5])"
    by (intro arg_cong[where f = concat] map_cong refl bytes) simp
  also have "\<dots> = concat (map w [0..<40])" using concat_bytes[of w 5] by simp
  also have "True # concat (map w [0..<40]) @ bit_wave (frame_bit ds 39) (runs 39) = True # concat (map w [0..<Suc 40])"
  proof -
    have "w (Suc 39) = bit_wave (frame_bit ds 39) (runs 39)" by (simp add: w_def)
    then have "w 40 = bit_wave (frame_bit ds 39) (runs 39)" by simp
    then show ?thesis by (simp only: upt_Suc map_append concat_append list.map concat.simps append_Nil2 if_True le0)
  qed
  also have "[0..<Suc 40] = 0 # map Suc [0..<40]" by (rule upt_Suc_Cons)
  also have "True # concat (map w (0 # map Suc [0..<40])) =
      response_high m @ concat (map (\<lambda>k. bit_wave (frame_bit ds k) (runs k)) [0..<40])"
  proof -
    have "w 0 = [True, True] @ replicate m True @ [False]" "\<And>k. w (Suc k) = bit_wave (frame_bit ds k) (runs k)"
      by (simp_all add: w_def bit_wave_def)
    then show ?thesis
      by (simp only: list.map map_map comp_def concat.simps response_high_def append_assoc append_Cons append_Nil)
  qed
  finally show ?thesis ..
qed

lemma read_shifted:
  assumes "a < 100" and "b < 100" and e: "shifted_frame ds = [e0, e1, e2, e3, e4]"
  shows "dht_sensor_read d (dht11_wave a b m ds runs @ xs) =
    Some (if e0 + e1 + e2 + e3 = e4
          then (RT_EOK, if sensor_type d = DHT11 then Some (e2, e0) else None, dht_start_signal d,
            bit_wave (frame_bit ds 39) (runs 39) @ xs)
          else (RT_ERROR, None, dht_start_signal d, bit_wave (frame_bit ds 39) (runs 39) @ xs))"
proof -
  define r where "r j = (\<lambda>i. case 8 * j + i of 0 \<Rightarrow> (0, m) | Suc k \<Rightarrow> runs k)" for j :: nat
  have "concat (map (\<lambda>j. byte_wave (shifted_frame ds ! j) (r j)) [0..<5]) =
      byte_wave e0 (r 0) @ byte_wave e1 (r 1) @ byte_wave e2 (r 2) @ byte_wave e3 (r 3) @ byte_wave e4 (r 4)"
    by (simp add: e upt_rec numeral_eq_Suc)
  then have wave: "dht11_wave a b m ds runs @ xs = response_low a b @ True # byte_wave e0 (r 0) @ byte_wave e1 (r 1) @
      byte_wave e2 (r 2) @ byte_wave e3 (r 3) @ byte_wave e4 (r 4) @ bit_wave (frame_bit ds 39) (runs 39) @ xs"
    unfolding dht11_wave_def wave_shifted by (simp flip: r_def)
  have "sensor_type (dht_start_signal d) = sensor_type d"
    by (simp add: dht_start_signal_def dht_pin_mode_def Let_def)
  then show ?thesis
    unfolding wave dht_sensor_read_def by (simp add: Let_def wait_response_wave[OF assms(1,2)] read_byte_wave)
qed

lemma sensor_read_no_answer:
  "dht_sensor_read d (replicate 101 True @ xs) = Some (RT_ERROR, None, dht_start_signal d, xs)"
  using wait_level_timeout[of 0 True xs] by (simp add: dht_sensor_read_def dht_wait_response_def Let_def)

text \<open>The frame of a DHT11: humidity, 0, temperature, 0 and their sum.\<close>

lemma shifted_checksum:
  assumes "h + t < (256 :: nat)"
  shows "(128 + h div 2 + 128 * (h mod 2) + t div 2 + 128 * (t mod 2)) mod 256 = (h + t) div 2 \<longleftrightarrow> odd (h + t)"
proof -
  define a b where "a = h div 2" and "b = t div 2"
  have ab: "a + b < 128" using assms by (simp add: a_def b_def)
  have wrap: "x mod 256 = y" if "x = y + 256" "y < 256" for x y :: nat using that by simp
  consider "h = 2 * a" "t = 2 * b" | "h = 2 * a + 1" "t = 2 * b" | "h = 2 * a" "t = 2 * b + 1" | "h = 2 * a + 1" "t = 2 * b + 1"
    unfolding a_def b_def by linarith
  then show ?thesis
  proof cases
    case 1
    then show ?thesis using ab by simp
  next
    case 2
    have "(128 + a + 128 + b) mod 256 = a + b" by (rule wrap) (use ab in simp_all)
    then show ?thesis using 2 by simp
  next
    case 3
    have "(128 + a + b + 128) mod 256 = a + b" by (rule wrap) (use ab in simp_all)
    then show ?thesis using 3 by simp
  next
    case 4
    have "(128 + a + 128 + b + 128) mod 256 = 128 + a + b" by (rule wrap) (use ab in simp_all)
    then show ?thesis using 4 by simp
  qed
qed

lemma shifted_dht11:
  fixes h t :: u8
  assumes "unat h + unat t < 256"
  obtains e0 e1 e2 e3 e4 where "shifted_frame [h, 0, t, 0, h + t] = [e0, e1, e2, e3, e4]"
    and "unat e0 = 128 + unat h div 2" and "unat e2 = unat t div 2"
    and "e0 + e1 + e2 + e3 = e4 \<longleftrightarrow> odd (unat h + unat t)"
proof -
  define e0 e1 e2 e3 e4 where e: "e0 = 0x80 OR drop_bit 1 h" "e1 = push_bit 7 h" "e2 = drop_bit 1 t"
    "e3 = push_bit 7 t" "e4 = drop_bit 1 (h + t)"
  have "(push_bit 7 1 :: u8) AND drop_bit 1 h = 0"
    by (intro bit_word_eqI) (auto simp: bit_simps simp del: push_bit_of_1 dest: bit_imp_le_length)
  then have "e0 = 0x80 + drop_bit 1 h"
    unfolding e using word_plus_and_or[of "0x80 :: u8" "drop_bit 1 h"] by (simp only: push_bit_of_1) simp
  moreover have half: "unat (drop_bit 1 x) = unat x div 2" for x :: u8 by (simp only: unat_drop_bit power_one_right)
  ultimately have e0: "unat e0 = 128 + unat h div 2"
    using unat_lt_8[of h] unat_add_exact[of "0x80 :: u8" "drop_bit 1 h"] by simp
  have par: "unat (push_bit 7 x) = 128 * (unat x mod 2)" for x :: u8
    using mult_mod_left[of "unat x" 2 128] by (simp add: unsigned_push_bit_eq push_bit_nat_def take_bit_eq_mod)
  have "e0 + e1 + e2 + e3 = e4 \<longleftrightarrow> unat (e0 + e1 + e2 + e3) = unat e4" by (rule word_unat_eq_iff)
  also have "\<dots> \<longleftrightarrow> (128 + unat h div 2 + 128 * (unat h mod 2) + unat t div 2 + 128 * (unat t mod 2)) mod 256 =
      (unat h + unat t) div 2"
    by (simp add: unat_word_ariths e0 par e(2-) half[unfolded One_nat_def] assms mod_simps)
  also have "\<dots> \<longleftrightarrow> odd (unat h + unat t)"
    by (rule shifted_checksum[OF assms])
  finally show thesis
    using that[of e0 e1 e2 e3 e4] e0 by (simp add: e shifted_frame_def half[unfolded One_nat_def])
qed

text \<open>
  Property C11. The driver misreads the DHT11. On the answer that the data sheet describes (with the
  two phases before the 80 us high one shorter than 100 readings, and any lengths of the phases of the
  bits) \<^verbatim>\<open>dht_sensor_read\<close> takes the high phase of the response for a first bit 1: it gets the 40 bits
  shifted by one place, leaves the last bit on the wire, and tests the sum of the shifted bytes. So from a
  correct frame of a DHT11, humidity \<open>h\<close>, 0, temperature \<open>t\<close>, 0 and their sum, it reports an error when
  \<open>h + t\<close> is even, and otherwise the humidity 128 + h div 2 and the temperature t div 2. A DHT22
  never stores anything, and without an answer the driver gives up after 101 readings.
\<close>

theorem dht_frame_shifted:
  assumes "a < 100" and "b < 100"
  shows "dht_sensor_read d (dht11_wave a b m ds runs @ xs) =
      (let e = shifted_frame ds; rest = bit_wave (frame_bit ds 39) (runs 39) @ xs
       in Some (if e ! 0 + e ! 1 + e ! 2 + e ! 3 = e ! 4
         then (RT_EOK, if sensor_type d = DHT11 then Some (e ! 2, e ! 0) else None, dht_start_signal d, rest)
         else (RT_ERROR, None, dht_start_signal d, rest))) \<and>
    (unat h + unat t < 256 \<and> sensor_type d = DHT11 \<longrightarrow>
      (\<exists>rest. dht_sensor_read d (dht11_wave a b m [h, 0, t, 0, h + t] runs @ xs) =
        Some (if odd (unat h + unat t)
          then (RT_EOK, Some (of_nat (unat t div 2), of_nat (128 + unat h div 2)), dht_start_signal d, rest)
          else (RT_ERROR, None, dht_start_signal d, rest)))) \<and>
    dht_sensor_read d (replicate 101 True @ xs) = Some (RT_ERROR, None, dht_start_signal d, xs)"
    (is "?shifted \<and> (?sum \<longrightarrow> ?read) \<and> ?none")
proof (intro conjI impI)
  show ?none by (rule sensor_read_no_answer)
  show ?shifted
    using read_shifted[OF assms, of ds _ _ _ _ _ d m runs xs] by (simp add: shifted_frame_def Let_def)
  assume ?sum
  then have "unat h + unat t < 256" and type: "sensor_type d = DHT11" by simp_all
  from this(1) obtain e0 e1 e2 e3 e4 where e: "shifted_frame [h, 0, t, 0, h + t] = [e0, e1, e2, e3, e4]"
    "unat e0 = 128 + unat h div 2" "unat e2 = unat t div 2" "e0 + e1 + e2 + e3 = e4 \<longleftrightarrow> odd (unat h + unat t)"
    by (rule shifted_dht11)
  have "e0 = of_nat (128 + unat h div 2)" "e2 = of_nat (unat t div 2)"
    by (simp_all flip: e(2,3))
  then show ?read
    using read_shifted[OF assms e(1), of d m runs xs] e(4) type by auto
qed

theorem dht_frame_shifted_witness:
  "(\<exists>rest. dht_sensor_read \<lparr>sensor_type = DHT11, pin_trace = []\<rparr>
      (dht11_wave 30 80 40 [55, 0, 24, 0, 79] (\<lambda>k. (50, 30)) @ []) =
    Some (RT_EOK, Some (12, 155), dht_start_signal \<lparr>sensor_type = DHT11, pin_trace = []\<rparr>, rest)) \<and>
   (\<exists>rest. dht_sensor_read \<lparr>sensor_type = DHT11, pin_trace = []\<rparr>
      (dht11_wave 30 80 40 [55, 0, 23, 0, 78] (\<lambda>k. (50, 30)) @ []) =
    Some (RT_ERROR, None, dht_start_signal \<lparr>sensor_type = DHT11, pin_trace = []\<rparr>, rest))"
  using dht_frame_shifted[of 30 80 "\<lparr>sensor_type = DHT11, pin_trace = []\<rparr>" 40 "[]" "\<lambda>k. (50, 30)" "[]" 55 24]
    dht_frame_shifted[of 30 80 "\<lparr>sensor_type = DHT11, pin_trace = []\<rparr>" 40 "[]" "\<lambda>k. (50, 30)" "[]" 55 23]
  by simp

end
