(* ===== verification/Mqtt.thy ===== *)
theory Mqtt
  imports Wifi
begin

text \<open>
  The MQTT client of \<^verbatim>\<open>lab5-2-iot-sensor-rtos/src/mqtt_client.c\<close> with the settings of
  \<^verbatim>\<open>config/mqtt_config.h\<close>: the packet builders, and the client's state (connection state, the
  mutex, and the WiFi driver it sends through). A packet is the list of bytes from \<^verbatim>\<open>buffer\<close> to
  \<^verbatim>\<open>p\<close>. \<open>None\<close> means that a packet overflows its stack buffer, that the mutex is taken twice, or
  that the WiFi driver is still waiting.
\<close>

section \<open>Packets\<close>

definition MQTT_MSG_CONNECT :: u8 where "MQTT_MSG_CONNECT = 0x10"
definition MQTT_MSG_PUBLISH :: u8 where "MQTT_MSG_PUBLISH = 0x30"
definition MQTT_MSG_DISCONNECT :: u8 where "MQTT_MSG_DISCONNECT = 0xE0"
definition MQTT_KEEPALIVE :: u16 where "MQTT_KEEPALIVE = 60"
definition MQTT_BROKER_HOST :: string where "MQTT_BROKER_HOST = ''test.mosquitto.org''"
definition MQTT_BROKER_PORT :: u16 where "MQTT_BROKER_PORT = 1883"

definition bytes_of :: "string \<Rightarrow> u8 list" where
  "bytes_of s = map of_char s"

text \<open>The two bytes of a 16-bit length, high byte first; \<^verbatim>\<open>rt_strlen\<close> is cut to 16 bits.\<close>

definition len16 :: "string \<Rightarrow> u16" where
  "len16 s = of_nat (length s)"

definition be16 :: "u16 \<Rightarrow> u8 list" where
  "be16 n = [ucast (drop_bit 8 n AND 0xFF), ucast (n AND 0xFF)]"

definition mqtt_build_connect_packet :: "string \<Rightarrow> u8 list" where
  "mqtt_build_connect_packet client_id =
     (let n = len16 client_id;
          buf = [MQTT_MSG_CONNECT, 0, 0, 4, 0x4D, 0x51, 0x54, 0x54, 4, 0x02] @ be16 MQTT_KEEPALIVE @
                be16 n @ take (unat n) (bytes_of client_id);
          remaining_len = (of_nat (length buf - 2) :: u32);
          buf = buf[1 := ucast (remaining_len AND 0x7F)]
      in if 127 < remaining_len
         then (let buf = buf[1 := (buf ! 1) OR 0x80];
                   buf = buf[1 := ucast (remaining_len AND 0x7F)]
               in buf[2 := ucast (drop_bit 7 remaining_len AND 0x7F)])
         else buf)"

definition mqtt_build_publish_packet :: "string \<Rightarrow> string \<Rightarrow> u8 list" where
  "mqtt_build_publish_packet topic payload =
     (let tn = len16 topic; pn = len16 payload;
          buf = [MQTT_MSG_PUBLISH, 0] @ be16 tn @ take (unat tn) (bytes_of topic) @
                take (unat pn) (bytes_of payload);
          remaining_len = (of_nat (length buf - 2) :: u32);
          buf = buf[1 := ucast (remaining_len AND 0x7F)]
      in if 127 < remaining_len
         then (let buf = buf[1 := (buf ! 1) OR 0x80]
               in buf[2 := ucast (drop_bit 7 remaining_len AND 0x7F)])
         else buf)"

section \<open>The client\<close>

datatype mqtt_state_t = MQTT_STATE_DISCONNECTED | MQTT_STATE_CONNECTING | MQTT_STATE_CONNECTED

record mqtt =
  mqtt_state :: mqtt_state_t
  mqtt_mutex :: "bool option"
  net :: wifi

text \<open>The wire carries characters; the byte \<open>b\<close> is the character of that code.\<close>

definition mqtt_send_packet :: "u8 list \<Rightarrow> mqtt \<Rightarrow> (rt_err \<times> mqtt) option" where
  "mqtt_send_packet packet c = do {
     (r, w) \<leftarrow> wifi_send_tcp MQTT_BROKER_HOST MQTT_BROKER_PORT (map (\<lambda>b. char_of (unat b)) packet) (net c);
     Some (r, c\<lparr>net := w\<rparr>)
   }"

text \<open>\<^verbatim>\<open>%08x\<close> of the tick count.\<close>

definition client_id_of :: "u32 \<Rightarrow> string" where
  "client_id_of tick = ''iot_sensor_'' @
     (let h = hex_loop (unat tick) [] in replicate (8 - length h) CHR ''0'' @ h)"

definition mqtt_connect_to_broker :: "mqtt \<Rightarrow> (rt_err \<times> mqtt) option" where
  "mqtt_connect_to_broker c = (
     let packet = mqtt_build_connect_packet (client_id_of (rt_tick (net c)))
     in if 256 < length packet then None
        else do {
          (r, c) \<leftarrow> mqtt_send_packet packet c;
          if r \<noteq> RT_EOK then Some (RT_ERROR, c)
          else Some (RT_EOK, c\<lparr>mqtt_state := MQTT_STATE_CONNECTED\<rparr>)
        })"

definition mqtt_client_init :: "bool \<Rightarrow> mqtt \<Rightarrow> (rt_err \<times> mqtt) option" where
  "mqtt_client_init mutex_created c =
     (if \<not> mutex_created then Some (RT_ERROR, c\<lparr>mqtt_mutex := None\<rparr>)
      else mqtt_connect_to_broker (c\<lparr>mqtt_mutex := Some False\<rparr>))"

definition mutex_take :: "mqtt \<Rightarrow> mqtt option" where
  "mutex_take c = (if mqtt_mutex c = Some False then Some (c\<lparr>mqtt_mutex := Some True\<rparr>) else None)"

definition mutex_release :: "mqtt \<Rightarrow> mqtt option" where
  "mutex_release c = (if mqtt_mutex c = Some True then Some (c\<lparr>mqtt_mutex := Some False\<rparr>) else None)"

definition mqtt_publish_data :: "string \<Rightarrow> string \<Rightarrow> mqtt \<Rightarrow> (rt_err \<times> mqtt) option" where
  "mqtt_publish_data topic data c =
     (if mqtt_state c \<noteq> MQTT_STATE_CONNECTED then Some (RT_ERROR, c)
      else do {
        c \<leftarrow> mutex_take c;
        let packet = mqtt_build_publish_packet topic data;
        if 512 < length packet then None
        else do {
          (r, c) \<leftarrow> mqtt_send_packet packet c;
          if r \<noteq> RT_EOK then do { c \<leftarrow> mutex_release c; Some (RT_ERROR, c) }
          else do { c \<leftarrow> mutex_release c; Some (RT_EOK, c) }
        }
      })"

definition mqtt_subscribe_topic :: "string \<Rightarrow> mqtt \<Rightarrow> rt_err \<times> mqtt" where
  "mqtt_subscribe_topic topic c = (RT_EOK, c)"

definition mqtt_disconnect :: "mqtt \<Rightarrow> (rt_err \<times> mqtt) option" where
  "mqtt_disconnect c = do {
     (_, c) \<leftarrow> mqtt_send_packet [MQTT_MSG_DISCONNECT, 0] c;
     Some (RT_EOK, c\<lparr>mqtt_state := MQTT_STATE_DISCONNECTED\<rparr>)
   }"

definition mqtt_get_state :: "mqtt \<Rightarrow> mqtt_state_t" where
  "mqtt_get_state c = mqtt_state c"

end
