(* ===== verification/Mqtt_Facts.thy ===== *)
theory Mqtt_Facts
  imports Mqtt
begin

text \<open>
  What the MQTT client puts on the wire: the PUBLISH packet against a parser written from the
  packet format, and the AT commands around it; that every path gives the mutex back and that the
  waiting loop of the WiFi driver returns.
\<close>

section \<open>A parser of PUBLISH packets with QoS 0\<close>

text \<open>The remaining length: up to four bytes, seven bits each, least significant first.\<close>

fun remaining_length :: "nat \<Rightarrow> u8 list \<Rightarrow> (nat \<times> u8 list) option" where
  "remaining_length 0 bs = None"
| "remaining_length (Suc n) [] = None"
| "remaining_length (Suc n) (b # bs) =
     (if b < 128 then Some (unat b, bs)
      else case remaining_length n bs of None \<Rightarrow> None
        | Some (v, rest) \<Rightarrow> Some (unat b - 128 + 128 * v, rest))"

definition parse_publish :: "u8 list \<Rightarrow> (u8 list \<times> u8 list) option" where
  "parse_publish bs = (case bs of [] \<Rightarrow> None
     | b # bs \<Rightarrow> if b \<noteq> 0x30 then None
         else case remaining_length 4 bs of None \<Rightarrow> None
         | Some (n, body) \<Rightarrow>
             if length body \<noteq> n \<or> n < 2 then None
             else (let tl = 256 * unat (body ! 0) + unat (body ! 1)
                   in if n < 2 + tl then None
                      else Some (take tl (drop 2 body), drop (2 + tl) body)))"

lemma length_bytes_of [simp]: "length (bytes_of s) = length s"
  by (simp add: bytes_of_def)

lemma len16_small: "length s < 65536 \<Longrightarrow> unat (len16 s) = length s"
  by (simp add: len16_def unat_of_nat take_bit_eq_mod)

lemma be16_hi_lo:
  "256 * unat (ucast (drop_bit 8 (n :: u16) AND 0xFF) :: u8) + unat (ucast (n AND 0xFF) :: u8) = unat n"
proof -
  have "unat n < 65536" using unsigned_less[of n, where ?'a = nat] by simp
  then have "unat n div 256 < 256" by linarith
  moreover have "256 * (unat n div 256) + unat n mod 256 = unat n" by (rule mult_div_mod_eq)
  ultimately show ?thesis by (simp only: unat_byte_simps) simp
qed

text \<open>The packet written out, for the lengths that fit the buffer of \<^verbatim>\<open>mqtt_publish_data\<close>.\<close>

definition low7 :: "nat \<Rightarrow> u8" where
  "low7 l = ucast ((of_nat l :: u32) AND 0x7F)"

definition next7 :: "nat \<Rightarrow> u8" where
  "next7 l = ucast (drop_bit 7 (of_nat l :: u32) AND 0x7F)"

lemma unat_low7: "l \<le> 510 \<Longrightarrow> unat (low7 l) = l mod 128"
  unfolding low7_def by (simp only: unat_byte_simps) (simp add: unat_of_nat take_bit_eq_mod)

lemma unat_next7: "l \<le> 510 \<Longrightarrow> unat (next7 l) = l div 128"
  unfolding next7_def by (simp only: unat_byte_simps) (simp add: unat_of_nat take_bit_eq_mod)

lemma unat_or_80:
  assumes "unat (b :: u8) < 128"
  shows "unat (b OR 0x80) = unat b + 128"
proof -
  have "\<forall>b\<in>{0..<128::nat}. b OR 128 = b + 128" by code_simp
  then have "unat b OR 128 = unat b + 128" using assms by simp
  then show ?thesis by (simp add: unsigned_or_eq)
qed

lemma remaining_two:
  "\<not> x < 128 \<Longrightarrow> y < 128 \<Longrightarrow>
   remaining_length 4 (x # y # bs) = Some (unat x - 128 + 128 * unat y, bs)"
  by (simp add: numeral_eq_Suc)

lemma publish_packet_cases:
  assumes "length topic + length payload + 4 \<le> 512"
  defines "l \<equiv> length topic + length payload + 2"
  shows "mqtt_build_publish_packet topic payload =
    (if l \<le> 127 then [0x30, low7 l] @ be16 (len16 topic) @ bytes_of topic @ bytes_of payload
     else [0x30, low7 l OR 0x80, next7 l, ucast (len16 topic AND 0xFF)] @ bytes_of topic @ bytes_of payload)"
proof -
  have t: "unat (len16 topic) = length topic" and p: "unat (len16 payload) = length payload"
    using assms(1) by (auto intro: len16_small)
  have "(127 :: u32) < of_nat l \<longleftrightarrow> 127 < l"
  proof -
    have "l \<le> 510" using assms(1) by (simp add: l_def)
    then show ?thesis by (simp add: word_less_nat_alt unat_of_nat take_bit_eq_mod)
  qed
  then show ?thesis
    using assms(1) unfolding mqtt_build_publish_packet_def Let_def t p
    by (simp add: low7_def next7_def be16_def MQTT_MSG_PUBLISH_def l_def)
qed

lemma publish_packet_parses:
  assumes "length topic + length payload + 4 \<le> 512"
  shows "parse_publish (mqtt_build_publish_packet topic payload) =
    (if length topic + length payload + 2 \<le> 127 then Some (bytes_of topic, bytes_of payload) else None)"
proof -
  define l where "l = length topic + length payload + 2"
  have l: "l \<le> 510" using assms by (simp add: l_def)
  have eq: "mqtt_build_publish_packet topic payload =
    (if l \<le> 127 then [0x30, low7 l] @ be16 (len16 topic) @ bytes_of topic @ bytes_of payload
     else [0x30, low7 l OR 0x80, next7 l, ucast (len16 topic AND 0xFF)] @ bytes_of topic @ bytes_of payload)"
    unfolding l_def by (rule publish_packet_cases[OF assms])
  show ?thesis
  proof (cases "l \<le> 127")
    case True
    then have v: "unat (low7 l) = l" using unat_low7[OF l] by simp
    then have "low7 l < 128" using True by (simp add: word_less_nat_alt)
    then have rl: "remaining_length 4 (low7 l # bs) = Some (l, bs)" for bs
      using v by (simp add: numeral_eq_Suc)
    have tl: "256 * unat (be16 (len16 topic) ! 0) + unat (be16 (len16 topic) ! 1) = length topic"
      using be16_hi_lo[of "len16 topic"] len16_small[of topic] assms by (simp add: be16_def)
    have two: "length (be16 n) = 2" for n by (simp add: be16_def)
    define body where "body = be16 (len16 topic) @ bytes_of topic @ bytes_of payload"
    have len: "length body = l" "\<not> l < 2" "\<not> l < 2 + length topic"
      by (simp_all add: body_def two l_def)
    have hd: "256 * unat (body ! 0) + unat (body ! 1) = length topic"
      using tl by (simp add: body_def nth_append two)
    have parts: "take (length topic) (drop 2 body) = bytes_of topic" "drop (2 + length topic) body = bytes_of payload"
      by (simp_all add: body_def two)
    have "parse_publish ([0x30, low7 l] @ body) = Some (bytes_of topic, bytes_of payload)"
      unfolding parse_publish_def by (simp only: append_Cons append_Nil list.case option.case prod.case rl len hd
          parts Let_def simp_thms if_False)
    moreover have "mqtt_build_publish_packet topic payload = [0x30, low7 l] @ body"
      using True by (simp only: eq if_True body_def append_assoc)
    ultimately show ?thesis
      unfolding l_def[symmetric] using True by (simp only: if_True)
  next
    case False
    have b: "unat (low7 l OR 0x80) = l mod 128 + 128"
      using unat_or_80[of "low7 l"] unat_low7[OF l] by simp
    then have "\<not> low7 l OR 0x80 < 128" by (simp only: word_less_nat_alt) simp
    have "next7 l < 128"
      using unat_next7[OF l] l by (simp add: word_less_nat_alt)
    have "remaining_length 4 ((low7 l OR 0x80) # next7 l # bs) = Some (l, bs)" for bs
      unfolding remaining_two[OF \<open>\<not> low7 l OR 0x80 < 128\<close> \<open>next7 l < 128\<close>] b unat_next7[OF l] by simp
    then have "parse_publish ([0x30, low7 l OR 0x80, next7 l, c] @ bs) = None" if "length bs + 1 \<noteq> l" for c bs
      using that by (simp add: parse_publish_def)
    moreover have "length (bytes_of topic @ bytes_of payload) + 1 \<noteq> l" by (simp add: l_def)
    ultimately show ?thesis
      unfolding l_def[symmetric] eq using False by (simp only: if_False)
  qed
qed

text \<open>
  Property C7. A PUBLISH packet that fits the 512-byte buffer parses back to its topic and payload
  when the remaining length fits one byte. From 128 on the second length byte overwrites the high
  byte of the topic length instead of being inserted, and no such packet is well formed.
\<close>

theorem mqtt_publish_packet_roundtrip:
  assumes "length topic + length payload + 4 \<le> 512"
  shows "parse_publish (mqtt_build_publish_packet topic payload) =
    (if length topic + length payload + 2 \<le> 127 then Some (bytes_of topic, bytes_of payload) else None)"
  by (rule publish_packet_parses[OF assms])

theorem mqtt_publish_packet_roundtrip_witness:
  "parse_publish (mqtt_build_publish_packet ''a/b'' ''42'') = Some (bytes_of ''a/b'', bytes_of ''42'') \<and>
   parse_publish (mqtt_build_publish_packet ''a'' (replicate 200 CHR ''x'')) = None"
  using mqtt_publish_packet_roundtrip[of "''a/b''" "''42''"]
    mqtt_publish_packet_roundtrip[of "''a''" "replicate 200 CHR ''x''"] by simp

section \<open>The AT commands\<close>

fun tick_of :: "uart_event \<Rightarrow> u32" where
  "tick_of (NoRx now) = now"
| "tick_of (Rx chunk now) = now"

lemma await_reply_returns:
  "e \<in> set es \<Longrightarrow> timeout < tick_of e - start \<Longrightarrow> await_reply expect timeout start es \<noteq> None"
  by (induction expect timeout start es rule: await_reply.induct) (auto simp: Let_def)

lemma await_reply_result:
  "await_reply expect timeout start es = Some (r, now, es') \<Longrightarrow>
    (r = RT_EOK \<and> (\<exists>chunk. Rx chunk now \<in> set es \<and> rt_strstr (c_string (take 511 chunk)) expect)) \<or>
    r = RT_ERROR \<or> (r = RT_ETIMEOUT \<and> timeout < now - start)"
  by (induction expect timeout start es rule: await_reply.induct) (auto simp: Let_def split: if_splits)

lemma send_cmd_result:
  assumes "esp8266_send_cmd cmd expect timeout w = Some (r, w')"
  shows "uart_tx w' = uart_tx w @ [cmd]" and "wifi_connected w' = wifi_connected w"
    and "r \<in> {RT_EOK, RT_ERROR, RT_ETIMEOUT}"
    and "r = RT_EOK \<Longrightarrow> \<exists>chunk now. Rx chunk now \<in> set (line w) \<and> rt_strstr (c_string (take 511 chunk)) expect"
    and "r = RT_ETIMEOUT \<Longrightarrow> timeout < rt_tick w' - rt_tick w"
proof -
  obtain now es where a: "await_reply expect timeout (rt_tick w) (line w) = Some (r, now, es)"
    and w': "w' = w\<lparr>uart_tx := uart_tx w @ [cmd], line := es, rt_tick := now\<rparr>"
    using assms by (auto simp: esp8266_send_cmd_def rt_device_write_def Let_def bind_eq_Some_conv)
  note res = await_reply_result[OF a]
  show "uart_tx w' = uart_tx w @ [cmd]" and "wifi_connected w' = wifi_connected w" by (simp_all add: w')
  show "r \<in> {RT_EOK, RT_ERROR, RT_ETIMEOUT}" using res by auto
  show "r = RT_EOK \<Longrightarrow> \<exists>chunk now. Rx chunk now \<in> set (line w) \<and> rt_strstr (c_string (take 511 chunk)) expect"
    and "r = RT_ETIMEOUT \<Longrightarrow> timeout < rt_tick w' - rt_tick w" using res by (auto simp: w')
qed

lemma send_cmd_tx:
  "esp8266_send_cmd cmd expect timeout w = Some (r, w') \<Longrightarrow> uart_tx w' = uart_tx w @ [cmd]"
  by (rule send_cmd_result(1))

lemma send_cmd_returns:
  assumes "e \<in> set (line w)" and "timeout < tick_of e - rt_tick w"
  shows "\<exists>r w'. esp8266_send_cmd cmd expect timeout w = Some (r, w')"
proof -
  obtain r now es where "await_reply expect timeout (rt_tick w) (line w) = Some (r, now, es)"
    using await_reply_returns[OF assms, of expect] by auto
  then show ?thesis by (simp add: esp8266_send_cmd_def rt_device_write_def Let_def)
qed

text \<open>
  \<^verbatim>\<open>esp8266_send_cmd\<close> returns as soon as the serial line gives any event, or none for a
  second, later than the timeout: it has written the command once, and says \<^verbatim>\<open>RT_EOK\<close> only if a
  chunk with the expected text was received, \<^verbatim>\<open>RT_ETIMEOUT\<close> only if the time had passed.
\<close>

theorem esp8266_send_cmd_answers:
  assumes "e \<in> set (line w)" and "timeout < tick_of e - rt_tick w"
  shows "\<exists>r w'. esp8266_send_cmd cmd expect timeout w = Some (r, w') \<and> uart_tx w' = uart_tx w @ [cmd] \<and>
    r \<in> {RT_EOK, RT_ERROR, RT_ETIMEOUT} \<and>
    (r = RT_EOK \<longrightarrow> (\<exists>chunk now. Rx chunk now \<in> set (line w) \<and> rt_strstr (c_string (take 511 chunk)) expect)) \<and>
    (r = RT_ETIMEOUT \<longrightarrow> timeout < rt_tick w' - rt_tick w)"
proof -
  obtain r w' where "esp8266_send_cmd cmd expect timeout w = Some (r, w')"
    using send_cmd_returns[OF assms] by blast
  with send_cmd_result[OF this] show ?thesis by blast
qed

definition quiet_line :: wifi where
  "quiet_line = \<lparr>wifi_connected = True, uart_tx = [], line = [NoRx 1000, NoRx 2000, NoRx 4001], rt_tick = 0\<rparr>"

theorem esp8266_send_cmd_answers_witness:
  "\<exists>r w'. esp8266_send_cmd ''AT'' ''OK'' 3000 quiet_line = Some (r, w') \<and> uart_tx w' = [''AT'']"
  using esp8266_send_cmd_answers[of "NoRx 4001" quiet_line 3000 "''AT''" "''OK''"]
  by (auto simp: quiet_line_def)

lemma send_tcp_trace:
  assumes "wifi_send_tcp ip port data w = Some (RT_EOK, w')"
  shows "uart_tx w' = uart_tx w @ [cipstart_cmd ip port, cipsend_cmd (length data), data, [],
      ''AT+CIPCLOSE'' @ CRLF]"
proof -
  obtain w1 w2 r3 w3 r4
    where s1: "esp8266_send_cmd (cipstart_cmd ip port) ''CONNECT'' 10000 w = Some (RT_EOK, w1)"
    and s2: "esp8266_send_cmd (cipsend_cmd (length data)) ''>'' 3000 w1 = Some (RT_EOK, w2)"
    and s3: "esp8266_send_cmd [] ''SEND OK'' 5000 (rt_device_write data w2) = Some (r3, w3)"
    and s4: "esp8266_send_cmd (''AT+CIPCLOSE'' @ CRLF) ''CLOSED'' 3000 w3 = Some (r4, w')"
    using assms unfolding wifi_send_tcp_def by (auto simp: Let_def bind_eq_Some_conv split: if_splits)
  show ?thesis
    using send_cmd_tx[OF s1] send_cmd_tx[OF s2] send_cmd_tx[OF s3] send_cmd_tx[OF s4]
    by (simp only: rt_device_write_def wifi.simps) simp
qed

text \<open>
  Property C23. \<^verbatim>\<open>mqtt_publish_data\<close> gives the mutex back on every path and keeps the connection
  state; when not connected it does nothing; and a successful call opens a TCP connection of its
  own, sends the one PUBLISH packet and closes it, so the broker sees a connection whose first
  packet is not CONNECT.
\<close>

theorem mqtt_publish_own_connection:
  assumes "mqtt_mutex c = Some False" and "mqtt_publish_data topic data c = Some (r, c')"
  shows "mqtt_mutex c' = Some False \<and> mqtt_state c' = mqtt_state c \<and>
    (mqtt_state c \<noteq> MQTT_STATE_CONNECTED \<longrightarrow> r = RT_ERROR \<and> c' = c) \<and>
    (r = RT_EOK \<longrightarrow> (let packet = map (\<lambda>b. char_of (unat b)) (mqtt_build_publish_packet topic data)
       in uart_tx (net c') = uart_tx (net c) @ [cipstart_cmd MQTT_BROKER_HOST MQTT_BROKER_PORT,
            cipsend_cmd (length packet), packet, [], ''AT+CIPCLOSE'' @ CRLF]))"
  using assms
  by (auto simp: mqtt_publish_data_def mutex_take_def mutex_release_def mqtt_send_packet_def Let_def bind_eq_Some_conv
      split: if_splits dest: send_tcp_trace)

definition obedient_net :: wifi where
  "obedient_net = \<lparr>wifi_connected = True, uart_tx = [], line = [Rx ''CONNECT'' 1, Rx ''>'' 2, Rx ''SEND OK'' 3,
     Rx ''CLOSED'' 4], rt_tick = 0\<rparr>"

definition obedient :: mqtt where
  "obedient = \<lparr>mqtt_state = MQTT_STATE_CONNECTED, mqtt_mutex = Some False, net = obedient_net\<rparr>"

theorem mqtt_publish_own_connection_witness:
  "\<exists>c'. mqtt_publish_data ''a'' ''b'' obedient = Some (RT_EOK, c') \<and> mqtt_mutex c' = Some False \<and>
     length (uart_tx (net c')) = 5"
proof -
  obtain c' where c': "mqtt_publish_data ''a'' ''b'' obedient = Some (RT_EOK, c')"
    by (simp add: mqtt_publish_data_def obedient_def obedient_net_def mutex_take_def mutex_release_def
        mqtt_send_packet_def mqtt_build_publish_packet_def wifi_send_tcp_def esp8266_send_cmd_def
        rt_device_write_def Let_def len16_def be16_def c_string_def)
  have "mqtt_mutex obedient = Some False" "uart_tx (net obedient) = []"
    by (simp_all add: obedient_def obedient_net_def)
  with mqtt_publish_own_connection[OF this(1) c'] c' show ?thesis by (auto simp: Let_def)
qed

end
