(* ===== verification/Uintr.thy ===== *)
theory Uintr
  imports Prelude
begin

text \<open>
  The user-interrupt demo of \<^verbatim>\<open>lab4-2-user-interrupt\<close>: \<^verbatim>\<open>src/uintr_common.h\<close>,
  \<^verbatim>\<open>src/uintr_server.c\<close> and \<^verbatim>\<open>src/uintr_client.c\<close>. The kernel is a parameter: a function from the
  system call to its result. Start-up and cleanup are lists of system calls; the two running
  processes are an interleaving of accesses to the shared memory, with the interrupt handler as a
  step of the server process that is enabled while an interrupt is posted.
\<close>

section \<open>System calls\<close>

datatype syscall =
    Syscall nat "u64 list"
  | Shmget
  | Shmat
  | Shmdt
  | ShmRemove
  | CloseFd int
  | Perror string

definition uintr_register_handler :: "u32 \<Rightarrow> u32 \<Rightarrow> syscall" where
  "uintr_register_handler handler flags = Syscall 460 [ucast handler, ucast flags]"

definition uintr_unregister_handler :: "u32 \<Rightarrow> u32 \<Rightarrow> syscall" where
  "uintr_unregister_handler handler flags = Syscall 461 [ucast handler, ucast flags]"

definition uintr_create_fd :: syscall where
  "uintr_create_fd = Syscall 462 []"

definition uintr_register_sender :: "int \<Rightarrow> u32 \<Rightarrow> syscall" where
  "uintr_register_sender fd flags = Syscall 463 [of_int fd, ucast flags]"

definition uintr_unregister_sender :: "int \<Rightarrow> u32 \<Rightarrow> syscall" where
  "uintr_unregister_sender uipi_index flags = Syscall 464 [of_int uipi_index, ucast flags]"

definition senduipi :: "int \<Rightarrow> syscall" where
  "senduipi uipi_index = Syscall 465 [of_int uipi_index]"

section \<open>Timing\<close>

record timeval =
  tv_sec :: int
  tv_usec :: int

record benchmark_t =
  start_time :: timeval
  end_time :: timeval
  total_latency :: int
  bench_iterations :: int

definition start_timing :: "timeval \<Rightarrow> benchmark_t \<Rightarrow> benchmark_t" where
  "start_timing now b = b\<lparr>start_time := now\<rparr>"

definition stop_timing :: "timeval \<Rightarrow> benchmark_t \<Rightarrow> benchmark_t" where
  "stop_timing now b = b\<lparr>end_time := now\<rparr>"

definition get_latency_us :: "benchmark_t \<Rightarrow> int" where
  "get_latency_us b = (let start_us = tv_sec (start_time b) * 1000000 + tv_usec (start_time b);
                           end_us = tv_sec (end_time b) * 1000000 + tv_usec (end_time b)
                       in end_us - start_us)"

section \<open>The server's start-up and cleanup\<close>

record server =
  shared_mem :: bool
  shm_id :: int
  uipi_fd :: int
  uipi_index :: int

definition server_globals :: server where
  "server_globals = \<lparr>shared_mem = False, shm_id = -1, uipi_fd = -1, uipi_index = -1\<rparr>"

text \<open>\<^verbatim>\<open>(unsigned int)uintr_handler\<close> keeps 32 bits of the 64-bit function address.\<close>

definition handler_arg :: "u64 \<Rightarrow> u32" where
  "handler_arg uintr_handler = ucast uintr_handler"

definition cleanup :: "u64 \<Rightarrow> server \<Rightarrow> syscall list" where
  "cleanup uintr_handler g =
     (if 0 \<le> uipi_index g then [uintr_unregister_sender (uipi_index g) 0] else []) @
     (if 0 \<le> uipi_fd g then [CloseFd (uipi_fd g)] else []) @
     (if shared_mem g then [Shmdt] else []) @
     (if 0 \<le> shm_id g then [ShmRemove] else []) @
     [uintr_unregister_handler (handler_arg uintr_handler) 0]"

text \<open>
  The part of \<^verbatim>\<open>main\<close> before the loop: \<open>Inl\<close> the exit status, or \<open>Inr\<close> the globals with which the
  loop starts, and the system calls made.
\<close>

definition server_setup :: "(syscall \<Rightarrow> int) \<Rightarrow> u64 \<Rightarrow> (int + server) \<times> syscall list" where
  "server_setup k uintr_handler = (
     let g = server_globals\<lparr>shm_id := k Shmget\<rparr>; t = [Shmget]
     in if shm_id g < 0 then (Inl 1, t @ [Perror ''shmget failed''])
        else if k Shmat = -1 then (Inl 1, t @ [Shmat, Perror ''shmat failed''])
        else
          let g = g\<lparr>shared_mem := True\<rparr>;
              reg = uintr_register_handler (handler_arg uintr_handler) 0;
              t = t @ [Shmat, reg]
          in if k reg < 0 then (Inl 1, t @ [Perror ''uintr_register_handler failed''] @ cleanup uintr_handler g)
             else
               let g = g\<lparr>uipi_fd := k uintr_create_fd\<rparr>; t = t @ [uintr_create_fd]
               in if uipi_fd g < 0 then (Inl 1, t @ [Perror ''uintr_create_fd failed''] @ cleanup uintr_handler g)
                  else
                    let snd = uintr_register_sender (uipi_fd g) 0; g = g\<lparr>uipi_index := k snd\<rparr>; t = t @ [snd]
                    in if uipi_index g < 0
                       then (Inl 1, t @ [Perror ''uintr_register_sender failed''] @ cleanup uintr_handler g)
                       else (Inr g, t))"

text \<open>\<^verbatim>\<open>signal_handler\<close>, installed for SIGINT and SIGTERM: the exit status and the calls before it.\<close>

definition signal_handler :: "u64 \<Rightarrow> server \<Rightarrow> int \<times> syscall list" where
  "signal_handler uintr_handler g = (0, cleanup uintr_handler g)"

text \<open>The end of \<^verbatim>\<open>main\<close>, with a signal after \<open>j\<close> of the calls of its own cleanup.\<close>

definition interrupted_end :: "u64 \<Rightarrow> server \<Rightarrow> nat \<Rightarrow> int \<times> syscall list" where
  "interrupted_end uintr_handler g j =
     (let calls = cleanup uintr_handler g
      in if length calls \<le> j then (0, calls)
         else (let (status, more) = signal_handler uintr_handler g in (status, take j calls @ more)))"

section \<open>Server and client at work\<close>

text \<open>
  \<open>message\<close> is the number in the text the client formats. \<open>posted\<close> is the user interrupt that the
  processor keeps for the server. Ghost variables: \<open>asked\<close> counts the times the client set
  \<^verbatim>\<open>ready\<close>, \<open>answered\<close> lists the responses it read.
\<close>

datatype server_pc = SReset | SPoll | SCount | SSleep | SExit

datatype client_pc =
    CVector
  | CMessage nat
  | CResponse nat
  | CReady nat
  | CSend nat
  | CWait nat
  | CClear nat
  | CDone

record uintr =
  vector :: int
  ready :: int
  message :: nat
  response :: int
  interrupt_count :: int
  posted :: bool
  iterations :: nat
  spc :: server_pc
  cpc :: client_pc
  asked :: nat
  answered :: "(nat \<times> int) list"

definition SERVER_ITERATIONS :: nat where "SERVER_ITERATIONS = 10"

definition uintr_start :: "int \<Rightarrow> uintr" where
  "uintr_start v = \<lparr>vector = v, ready = 0, message = 0, response = 0, interrupt_count = 0, posted = False,
     iterations = 0, spc = SReset, cpc = CVector, asked = 0, answered = []\<rparr>"

text \<open>The product is one of \<^verbatim>\<open>int\<close>: \<open>None\<close> when it overflows, and then no step of the model follows.\<close>

definition uintr_handler :: "uintr \<Rightarrow> uintr option" where
  "uintr_handler s = do {
     let count = interrupt_count s + 1;
     r \<leftarrow> i32 (count * 100);
     Some (s\<lparr>interrupt_count := count, response := r, posted := False\<rparr>)
   }"

inductive server_step :: "uintr \<Rightarrow> uintr \<Rightarrow> bool" where
  srv_reset: "spc s = SReset \<Longrightarrow> server_step s (s\<lparr>ready := 0, spc := SPoll\<rparr>)"
| srv_poll: "spc s = SPoll \<Longrightarrow> ready s \<noteq> 0 \<Longrightarrow> server_step s (s\<lparr>spc := SCount\<rparr>)"
| srv_count: "spc s = SCount \<Longrightarrow>
    n = (if 0 < interrupt_count s \<and> iterations s < SERVER_ITERATIONS then iterations s + 1 else iterations s) \<Longrightarrow>
    server_step s (s\<lparr>iterations := n, spc := (if SERVER_ITERATIONS \<le> n then SExit else SSleep)\<rparr>)"
| srv_sleep: "spc s = SSleep \<Longrightarrow> server_step s (s\<lparr>spc := SReset\<rparr>)"
| srv_interrupt: "spc s \<noteq> SExit \<Longrightarrow> posted s \<Longrightarrow> uintr_handler s = Some s' \<Longrightarrow> server_step s s'"

text \<open>\<open>n\<close> is the number of iterations on the command line.\<close>

inductive client_step :: "nat \<Rightarrow> uintr \<Rightarrow> uintr \<Rightarrow> bool" for n where
  cl_vector: "cpc s = CVector \<Longrightarrow> vector s \<noteq> 0 \<Longrightarrow>
    client_step n s (s\<lparr>cpc := (if 1 \<le> n then CMessage 1 else CDone)\<rparr>)"
| cl_message: "cpc s = CMessage i \<Longrightarrow> client_step n s (s\<lparr>message := i, cpc := CResponse i\<rparr>)"
| cl_response: "cpc s = CResponse i \<Longrightarrow> client_step n s (s\<lparr>response := 0, cpc := CReady i\<rparr>)"
| cl_ready: "cpc s = CReady i \<Longrightarrow> client_step n s (s\<lparr>ready := 1, asked := asked s + 1, cpc := CSend i\<rparr>)"
| cl_send: "cpc s = CSend i \<Longrightarrow> client_step n s (s\<lparr>posted := True, cpc := CWait i\<rparr>)"
| cl_send_failed: "cpc s = CSend i \<Longrightarrow> client_step n s (s\<lparr>cpc := CDone\<rparr>)"
| cl_wait: "cpc s = CWait i \<Longrightarrow> response s \<noteq> 0 \<Longrightarrow>
    client_step n s (s\<lparr>answered := answered s @ [(i, response s)], cpc := CClear i\<rparr>)"
| cl_clear: "cpc s = CClear i \<Longrightarrow>
    client_step n s (s\<lparr>ready := 0, cpc := (if i < n then CMessage (i + 1) else CDone)\<rparr>)"

inductive uintr_reach :: "nat \<Rightarrow> int \<Rightarrow> uintr \<Rightarrow> bool" for n v where
  uintr_init: "uintr_reach n v (uintr_start v)"
| uintr_server: "uintr_reach n v s \<Longrightarrow> server_step s s' \<Longrightarrow> uintr_reach n v s'"
| uintr_client: "uintr_reach n v s \<Longrightarrow> client_step n s s' \<Longrightarrow> uintr_reach n v s'"

inductive_simps server_step_simps: "server_step s s'"
inductive_simps client_step_simps: "client_step n s s'"

end
