(* ===== verification/Uintr_Facts.thy ===== *)
theory Uintr_Facts
  imports Uintr
begin

text \<open>
  Facts about the user-interrupt demo: what start-up registers and releases, what the client is
  answered in every interleaving, and the runs in which the server never finishes.
\<close>

section \<open>Start-up\<close>

definition acquired :: "(syscall \<Rightarrow> int) \<Rightarrow> u64 \<Rightarrow> bool" where
  "acquired k h \<longleftrightarrow> 0 \<le> k Shmget \<and> k Shmat \<noteq> -1 \<and> 0 \<le> k (uintr_register_handler (handler_arg h) 0) \<and>
     0 \<le> k uintr_create_fd \<and> 0 \<le> k (uintr_register_sender (k uintr_create_fd) 0)"

lemmas setup_simps = server_setup_def server_globals_def cleanup_def acquired_def Let_def
  uintr_register_handler_def uintr_unregister_handler_def uintr_create_fd_def uintr_register_sender_def
  uintr_unregister_sender_def

text \<open>
  \<^verbatim>\<open>main\<close> of the server reaches its loop exactly when every call succeeded; on any
  failure after the shared memory is attached it returns 1 with the segment detached and removed and
  the handler unregistered, and closes the descriptor if it has one. When \<^verbatim>\<open>shmat\<close> fails the segment
  stays behind. The handler address given to the kernel is the function's only below 4 GiB.
\<close>

theorem server_setup_releases:
  "(case server_setup k h of
      (Inr g, t) \<Rightarrow> acquired k h \<and> ShmRemove \<notin> set t \<and> uipi_index g = k (uintr_register_sender (k uintr_create_fd) 0)
    | (Inl e, t) \<Rightarrow> \<not> acquired k h \<and> e = 1 \<and>
        (Shmdt \<in> set t \<and> ShmRemove \<in> set t \<and> uintr_unregister_handler (handler_arg h) 0 \<in> set t) =
          (0 \<le> k Shmget \<and> k Shmat \<noteq> -1) \<and>
        (\<forall>fd. CloseFd fd \<in> set t \<longleftrightarrow> fd = k uintr_create_fd \<and> 0 \<le> fd \<and> 0 \<le> k Shmget \<and> k Shmat \<noteq> -1 \<and>
          0 \<le> k (uintr_register_handler (handler_arg h) 0))) \<and>
   (uintr_register_handler (handler_arg h) 0 = Syscall 460 [h, 0]) = (unat h < 2 ^ 32)"
proof -
  have "(ucast (ucast h :: u32) :: u64) = take_bit 32 h"
    by (rule bit_word_eqI) (auto simp: bit_ucast_iff bit_take_bit_iff)
  moreover have "take_bit 32 h = h \<longleftrightarrow> unat h < 2 ^ 32"
  proof -
    have "take_bit 32 h = h \<longleftrightarrow> unat h mod 2 ^ 32 = unat h"
      by (metis unat_take_bit word_unat_eq_iff)
    also have "\<dots> \<longleftrightarrow> unat h < 2 ^ 32" by (auto intro: mod_less)
    finally show ?thesis .
  qed
  ultimately have "(uintr_register_handler (handler_arg h) 0 = Syscall 460 [h, 0]) = (unat h < 2 ^ 32)"
    by (simp add: uintr_register_handler_def handler_arg_def)
  then show ?thesis by (auto simp: setup_simps)
qed

section \<open>Answers\<close>

definition reply_of :: "nat \<Rightarrow> nat \<times> int" where
  "reply_of i = (i, 100 * int i)"

definition client_inv :: "nat \<Rightarrow> uintr \<Rightarrow> bool" where
  "client_inv n s \<longleftrightarrow> (let replies = \<lambda>i. answered s = map reply_of [1..<i] in case cpc s of
     CVector \<Rightarrow> replies 1 \<and> interrupt_count s = 0 \<and> \<not> posted s \<and> asked s = 0
   | CMessage i \<Rightarrow> replies i \<and> 1 \<le> i \<and> i \<le> n \<and> interrupt_count s = int i - 1 \<and> \<not> posted s \<and> asked s = i - 1
   | CResponse i \<Rightarrow> replies i \<and> 1 \<le> i \<and> i \<le> n \<and> interrupt_count s = int i - 1 \<and> \<not> posted s \<and> asked s = i - 1
   | CReady i \<Rightarrow> replies i \<and> 1 \<le> i \<and> i \<le> n \<and> interrupt_count s = int i - 1 \<and> \<not> posted s \<and> asked s = i - 1 \<and> response s = 0
   | CSend i \<Rightarrow> replies i \<and> 1 \<le> i \<and> i \<le> n \<and> interrupt_count s = int i - 1 \<and> \<not> posted s \<and> asked s = i \<and> response s = 0
   | CWait i \<Rightarrow> replies i \<and> 1 \<le> i \<and> i \<le> n \<and> asked s = i \<and>
       (if posted s then interrupt_count s = int i - 1 \<and> response s = 0
        else interrupt_count s = int i \<and> response s = 100 * int i)
   | CClear i \<Rightarrow> replies (i + 1) \<and> 1 \<le> i \<and> i \<le> n \<and> interrupt_count s = int i \<and> \<not> posted s \<and> asked s = i
   | CDone \<Rightarrow> (\<exists>i\<le>n. replies (i + 1) \<and> asked s \<le> n) \<and> \<not> posted s)"

definition server_inv :: "uintr \<Rightarrow> bool" where
  "server_inv s \<longleftrightarrow> iterations s + (if spc s = SCount \<or> spc s = SPoll \<and> ready s \<noteq> 0 then 1 else 0) \<le> asked s"

text \<open>The largest request whose answer is an \<^verbatim>\<open>int\<close>.\<close>

definition last_request :: nat where "last_request = 21474836"

lemma handler_value:
  "0 \<le> interrupt_count s \<Longrightarrow> uintr_handler s =
     (if interrupt_count s < int last_request
      then Some (s\<lparr>interrupt_count := interrupt_count s + 1, response := (interrupt_count s + 1) * 100, posted := False\<rparr>)
      else None)"
  by (simp add: uintr_handler_def i32_def in_i32_def last_request_def)

lemma handler_Some:
  "uintr_handler s = Some s' \<longleftrightarrow> in_i32 ((interrupt_count s + 1) * 100) \<and>
     s' = s\<lparr>interrupt_count := interrupt_count s + 1, response := (interrupt_count s + 1) * 100, posted := False\<rparr>"
  by (auto simp: uintr_handler_def i32_def Let_def)

definition ranged :: "uintr \<Rightarrow> bool" where
  "ranged s \<longleftrightarrow> in_i32 (response s) \<and> (\<forall>p\<in>set (answered s). in_i32 (snd p))"

lemma client_inv_server: "server_step s s' \<Longrightarrow> client_inv n s \<Longrightarrow> client_inv n s'"
  by (induction rule: server_step.induct)
    (auto simp: client_inv_def handler_Some Let_def split: client_pc.splits if_splits)

lemma client_inv_client: "client_step n s s' \<Longrightarrow> client_inv n s \<Longrightarrow> client_inv n s'"
proof (induction rule: client_step.induct)
  case (cl_wait s i)
  then show ?case by (auto simp: client_inv_def reply_of_def Let_def split: if_splits)
next
  case (cl_clear s i)
  then show ?case by (auto simp: client_inv_def Let_def)
next
  case (cl_send_failed s i)
  then obtain j where "i = Suc j" by (cases i) (simp_all add: client_inv_def Let_def)
  with cl_send_failed show ?case
    by (auto simp: client_inv_def Let_def intro!: exI[of _ j])
qed (auto simp: client_inv_def Let_def)

lemma server_inv_server: "server_step s s' \<Longrightarrow> server_inv s \<Longrightarrow> server_inv s'"
  by (induction rule: server_step.induct) (auto simp: server_inv_def handler_Some split: if_splits)

lemma server_inv_client: "client_step n s s' \<Longrightarrow> server_inv s \<Longrightarrow> server_inv s'"
  by (induction rule: client_step.induct) (auto simp: server_inv_def split: if_splits)

lemma ranged_server: "server_step s s' \<Longrightarrow> ranged s \<Longrightarrow> ranged s'"
  by (induction rule: server_step.induct) (auto simp: ranged_def handler_Some)

lemma ranged_client: "client_step n s s' \<Longrightarrow> ranged s \<Longrightarrow> ranged s'"
  by (induction rule: client_step.induct) (auto simp: ranged_def in_i32_def)

lemma uintr_ranged: "uintr_reach n v s \<Longrightarrow> ranged s"
proof (induction rule: uintr_reach.induct)
  case uintr_init
  show ?case by (simp add: ranged_def uintr_start_def in_i32_def)
qed (auto intro: ranged_server ranged_client)

lemma uintr_inv: "uintr_reach n v s \<Longrightarrow> client_inv n s \<and> server_inv s"
proof (induction rule: uintr_reach.induct)
  case uintr_init
  show ?case by (simp add: client_inv_def server_inv_def uintr_start_def Let_def)
qed (auto intro: client_inv_server client_inv_client server_inv_server server_inv_client)

lemma answers_in_order:
  assumes "uintr_reach n v s"
  obtains i where "i \<le> n" and "answered s = map reply_of [1..<i + 1]" and "i \<le> last_request"
    and "iterations s \<le> asked s" and "asked s \<le> n"
proof -
  have c: "client_inv n s" and it: "iterations s \<le> asked s"
    using uintr_inv[OF assms] by (auto simp: server_inv_def split: if_splits)
  consider (start) "cpc s = CVector" | (finished) "cpc s = CDone"
    | (busy) i where "cpc s \<in> {CMessage i, CResponse i, CReady i, CSend i, CWait i}" | (clear) i where "cpc s = CClear i"
    by (cases "cpc s") auto
  then have "\<exists>i\<le>n. answered s = map reply_of [1..<i + 1] \<and> asked s \<le> n"
  proof cases
    case start
    then show ?thesis using c by (intro exI[of _ 0]) (simp add: client_inv_def Let_def)
  next
    case finished
    then show ?thesis using c by (auto simp: client_inv_def Let_def)
  next
    case (busy i)
    then obtain j where "i = Suc j" using c by (cases i) (auto simp: client_inv_def Let_def)
    then show ?thesis using busy c by (intro exI[of _ j]) (auto simp: client_inv_def Let_def)
  next
    case (clear i)
    then show ?thesis using c by (intro exI[of _ i]) (auto simp: client_inv_def Let_def)
  qed
  then obtain i where i: "i \<le> n" "answered s = map reply_of [1..<i + 1]" "asked s \<le> n" by blast
  moreover have "i \<le> last_request"
  proof (cases "i = 0")
    case False
    then have "reply_of i \<in> set (answered s)" unfolding i(2) by simp
    with uintr_ranged[OF assms] have "in_i32 (snd (reply_of i))" by (auto simp: ranged_def)
    then show ?thesis by (simp add: reply_of_def in_i32_def last_request_def)
  qed simp
  ultimately show thesis using that it by blast
qed

text \<open>
  Property C16. In every interleaving the client's i-th request is answered with 100 times i, each
  request is answered before the next is sent, and the server counts no request twice. An interrupt
  that waits for the handler is that of the request the client waits for; the handler's product is an
  \<^verbatim>\<open>int\<close> for the first 21474836 requests, and request 21474837 overflows.
\<close>

theorem uintr_answers_in_order:
  assumes "uintr_reach n v s"
  shows "(\<exists>i\<le>n. answered s = map (\<lambda>i. (i, 100 * int i)) [1..<i + 1] \<and> i \<le> 21474836 \<and>
      iterations s \<le> asked s \<and> asked s \<le> n) \<and>
    (posted s \<longrightarrow> (\<exists>i. cpc s = CWait i \<and> length (answered s) = i - 1 \<and> (uintr_handler s = None \<longleftrightarrow> 21474837 \<le> i)))"
proof
  have r: "map (\<lambda>i. (i, 100 * int i)) is = map reply_of is" for "is" by (simp add: reply_of_def)
  show "\<exists>i\<le>n. answered s = map (\<lambda>i. (i, 100 * int i)) [1..<i + 1] \<and> i \<le> 21474836 \<and> iterations s \<le> asked s \<and> asked s \<le> n"
    using answers_in_order[OF assms] unfolding r last_request_def by metis
  show "posted s \<longrightarrow> (\<exists>i. cpc s = CWait i \<and> length (answered s) = i - 1 \<and> (uintr_handler s = None \<longleftrightarrow> 21474837 \<le> i))"
    using uintr_inv[OF assms] handler_value[of s]
    by (cases "cpc s") (auto simp: client_inv_def Let_def last_request_def)
qed

section \<open>Requests the server misses\<close>

definition unseen :: "uintr \<Rightarrow> bool" where
  "unseen s \<longleftrightarrow> spc s = SPoll \<and> ready s = 0 \<and> iterations s = 0"

lemma unseen_round:
  assumes "uintr_reach n v s" and "cpc s = CMessage i" and "unseen s" and "n \<le> last_request"
  shows "\<exists>s'. uintr_reach n v s' \<and> unseen s' \<and> cpc s' = (if i < n then CMessage (i + 1) else CDone) \<and>
    length (answered s') = length (answered s) + 1"
proof -
  have "client_inv n s" using uintr_inv[OF assms(1)] by blast
  then have i: "1 \<le> i" "i \<le> n" "interrupt_count s = int i - 1" "\<not> posted s" using assms(2) by (simp_all add: client_inv_def Let_def)
  define s1 where "s1 = s\<lparr>message := i, cpc := CResponse i\<rparr>"
  define s2 where "s2 = s1\<lparr>response := 0, cpc := CReady i\<rparr>"
  define s3 where "s3 = s2\<lparr>ready := 1, asked := asked s2 + 1, cpc := CSend i\<rparr>"
  define s4 where "s4 = s3\<lparr>posted := True, cpc := CWait i\<rparr>"
  define s5 where "s5 = s4\<lparr>interrupt_count := interrupt_count s4 + 1, response := (interrupt_count s4 + 1) * 100, posted := False\<rparr>"
  have c4: "interrupt_count s4 = int i - 1" using i(3) by (simp add: s4_def s3_def s2_def s1_def)
  have h: "uintr_handler s4 = Some s5" unfolding s5_def using handler_value[of s4] c4 i(1,2) assms(4) by simp
  define s6 where "s6 = s5\<lparr>answered := answered s5 @ [(i, response s5)], cpc := CClear i\<rparr>"
  define s7 where "s7 = s6\<lparr>ready := 0, cpc := (if i < n then CMessage (i + 1) else CDone)\<rparr>"
  have r1: "uintr_reach n v s1" unfolding s1_def by (rule uintr_client[OF assms(1) cl_message]) (rule assms(2))
  have r2: "uintr_reach n v s2" unfolding s2_def by (rule uintr_client[OF r1 cl_response]) (simp add: s1_def)
  have r3: "uintr_reach n v s3" unfolding s3_def by (rule uintr_client[OF r2 cl_ready]) (simp add: s2_def)
  have r4: "uintr_reach n v s4" unfolding s4_def by (rule uintr_client[OF r3 cl_send]) (simp add: s3_def)
  have r5: "uintr_reach n v s5"
    by (rule uintr_server[OF r4 srv_interrupt]) (use assms(3) h in \<open>simp_all add: s4_def s3_def s2_def s1_def unseen_def\<close>)
  have r6: "uintr_reach n v s6" unfolding s6_def
    by (rule uintr_client[OF r5 cl_wait]) (use i in \<open>simp_all add: s5_def s4_def s3_def s2_def s1_def\<close>)
  have r7: "uintr_reach n v s7" unfolding s7_def by (rule uintr_client[OF r6 cl_clear]) (simp add: s6_def)
  have "unseen s7 \<and> cpc s7 = (if i < n then CMessage (i + 1) else CDone) \<and> length (answered s7) = length (answered s) + 1"
    using assms(3) by (simp add: unseen_def s7_def s6_def s5_def s4_def s3_def s2_def s1_def)
  with r7 show ?thesis by blast
qed

lemma unseen_rounds:
  assumes "v \<noteq> 0" and "0 < i" and "i \<le> n" and "n \<le> last_request"
  shows "\<exists>s. uintr_reach n v s \<and> unseen s \<and> cpc s = CMessage i \<and> length (answered s) = i - 1"
  using assms(2,3)
proof (induction i rule: nat_induct_non_zero)
  case 1
  define s1 where "s1 = (uintr_start v)\<lparr>ready := 0, spc := SPoll\<rparr>"
  define s2 where "s2 = s1\<lparr>cpc := (if 1 \<le> n then CMessage 1 else CDone)\<rparr>"
  have r1: "uintr_reach n v s1" unfolding s1_def by (rule uintr_server[OF uintr_init srv_reset]) (simp add: uintr_start_def)
  have "uintr_reach n v s2" unfolding s2_def
    by (rule uintr_client[OF r1 cl_vector]) (use assms(1) in \<open>simp_all add: s1_def uintr_start_def\<close>)
  moreover have "unseen s2 \<and> cpc s2 = CMessage 1 \<and> length (answered s2) = 0"
    using 1 by (simp add: s2_def s1_def uintr_start_def unseen_def)
  ultimately show ?case by auto
next
  case (Suc i)
  then obtain s where "uintr_reach n v s" "unseen s" "cpc s = CMessage i" "length (answered s) = i - 1" by auto
  with unseen_round[of n v s i] Suc(1,3) assms(4) show ?case by (metis Suc_eq_plus1 Suc_le_lessD Suc_pred diff_Suc_1)
qed

text \<open>
  The server polls \<^verbatim>\<open>ready\<close> once a millisecond while the client clears it as soon as it
  is answered. So for every positive number of requests whose answers are in range there is a run in which the client is
  answered every time and ends, while the server has counted none of them and neither process can
  take another step: the server waits for ever.
\<close>

theorem uintr_server_misses_all:
  assumes "0 < n" and "v \<noteq> 0" and "n \<le> last_request"
  shows "\<exists>s. uintr_reach n v s \<and> cpc s = CDone \<and> length (answered s) = n \<and> iterations s = 0 \<and>
    \<not> (\<exists>s'. server_step s s' \<or> client_step n s s')"
proof -
  obtain s where s: "uintr_reach n v s" "unseen s" "cpc s = CMessage n" "length (answered s) = n - 1"
    using unseen_rounds[OF assms(2,1) order_refl assms(3)] by blast
  obtain s' where s': "uintr_reach n v s'" "unseen s'" "cpc s' = CDone" "length (answered s') = n"
    using unseen_round[OF s(1,3,2) assms(3)] s(4) assms(1) by auto
  have "\<not> posted s'" using uintr_inv[OF s'(1)] s'(3) by (simp add: client_inv_def)
  then have "\<not> (\<exists>s''. server_step s' s'' \<or> client_step n s' s'')"
    using s'(2,3) by (auto simp: server_step_simps client_step_simps unseen_def)
  with s' show ?thesis by (auto simp: unseen_def)
qed

lemma vector_zero_waits:
  "uintr_reach n v s \<Longrightarrow> v = 0 \<Longrightarrow> cpc s = CVector \<and> vector s = 0"
  by (induction rule: uintr_reach.induct)
    (auto simp: uintr_start_def handler_Some server_step_simps client_step_simps)

theorem server_setup_releases_witness:
  "uintr_register_handler (handler_arg 0x401136) 0 = Syscall 460 [0x401136, 0] \<and>
   uintr_register_handler (handler_arg 0x555555555139) 0 \<noteq> Syscall 460 [0x555555555139, 0]"
  using server_setup_releases[of "\<lambda>_. 0" "0x401136"] server_setup_releases[of "\<lambda>_. 0" "0x555555555139"] by simp

theorem uintr_answers_in_order_witness:
  "\<exists>s i. uintr_reach 10 1 s \<and> answered s = map (\<lambda>i. (i, 100 * int i)) [1..<i + 1] \<and> i = 4"
proof -
  obtain s where s: "uintr_reach 10 1 s" "length (answered s) = 4"
    using unseen_rounds[of 1 5 10] by (auto simp: last_request_def)
  from uintr_answers_in_order[OF s(1)] obtain i
    where i: "answered s = map (\<lambda>i. (i, 100 * int i)) [1..<i + 1]" by blast
  then have "length (answered s) = i" by simp
  with s i show ?thesis by auto
qed

theorem uintr_server_misses_all_witness:
  "\<exists>s. uintr_reach 10 1 s \<and> cpc s = CDone \<and> length (answered s) = 10 \<and> iterations s = 0"
  using uintr_server_misses_all[of 10 1] by (auto simp: last_request_def)

text \<open>
  The cleanup does not reset what it has given back: after a signal in the middle of it each call made
  before the signal is made again (the descriptor is closed twice, the shared memory detached twice).
\<close>

theorem signal_repeats_cleanup:
  assumes "j < length (cleanup h g)"
  shows "\<forall>c. c \<in> set (take j (cleanup h g)) \<longrightarrow> 2 \<le> count_list (snd (interrupted_end h g j)) c"
proof (intro allI impI)
  fix c assume c: "c \<in> set (take j (cleanup h g))"
  have "1 \<le> count_list (take j (cleanup h g)) c" using c count_list_0_iff[of _ c] by (metis less_one linorder_not_less)
  moreover have "1 \<le> count_list (cleanup h g) c"
    using in_set_takeD[OF c] count_list_0_iff[of _ c] by (metis less_one linorder_not_less)
  ultimately show "2 \<le> count_list (snd (interrupted_end h g j)) c"
    using assms by (simp add: interrupted_end_def signal_handler_def Let_def not_le)
qed

end
