(* ===== verification/Pipes.thy ===== *)
theory Pipes
  imports Prelude
begin

text \<open>
  The comparison programs of \<^verbatim>\<open>lab4-2-user-interrupt\<close>: the named-pipe server and client
  (\<^verbatim>\<open>src/pipe_server.c\<close>, \<^verbatim>\<open>src/pipe_client.c\<close>) and the smallest user-interrupt example
  (\<^verbatim>\<open>examples/simple_uintr.c\<close>). System calls are a parameter; a FIFO opens as POSIX says, each end
  waiting for the other.
\<close>

section \<open>Named pipes\<close>

datatype fifo = ReadPipe | WritePipe

datatype mode = O_RDONLY | O_WRONLY

datatype pipe_call = Unlink fifo | Mkfifo fifo | OpenFifo fifo mode | CloseRead | CloseWrite

text \<open>\<^verbatim>\<open>pipe_server.c\<close> up to the loop: 0 when both ends are open.\<close>

definition pipe_server_setup :: "(pipe_call \<Rightarrow> int) \<Rightarrow> int \<times> pipe_call list" where
  "pipe_server_setup k = (
     let t = [Unlink ReadPipe, Unlink WritePipe, Mkfifo ReadPipe]
     in if k (Mkfifo ReadPipe) < 0 then (1, t)
        else
          let t = t @ [Mkfifo WritePipe]
          in if k (Mkfifo WritePipe) < 0 then (1, t @ [Unlink ReadPipe])
             else
               let t = t @ [OpenFifo ReadPipe O_RDONLY]
               in if k (OpenFifo ReadPipe O_RDONLY) < 0 then (1, t @ [Unlink ReadPipe, Unlink WritePipe])
                  else
                    let t = t @ [OpenFifo WritePipe O_WRONLY]
                    in if k (OpenFifo WritePipe O_WRONLY) < 0
                       then (1, t @ [CloseRead, Unlink ReadPipe, Unlink WritePipe])
                       else (0, t))"

definition pipe_client_setup :: "(pipe_call \<Rightarrow> int) \<Rightarrow> int \<times> pipe_call list" where
  "pipe_client_setup k = (
     let t = [OpenFifo WritePipe O_WRONLY]
     in if k (OpenFifo WritePipe O_WRONLY) < 0 then (1, t)
        else
          let t = t @ [OpenFifo ReadPipe O_RDONLY]
          in if k (OpenFifo ReadPipe O_RDONLY) < 0 then (1, t @ [CloseWrite])
             else (0, t))"

text \<open>
  Both processes at work, from the moment both FIFOs exist. \<open>SServe i\<close> and \<open>CAsk i\<close> are the tops of
  the loops. A process that fails ends in \<open>SEnd\<close> or \<open>CEnd\<close>; so does one that finishes.
\<close>

datatype pserver_pc = SOpenRead | SOpenWrite | SServe nat | SAnswer nat int | SEnd

datatype pclient_pc = COpenWrite | COpenRead | CAsk nat | CReceive nat | CEnd

record pipes =
  spc :: pserver_pc
  cpc :: pclient_pc
  in_read :: "int list"
  in_write :: "int list"
  served :: nat
  results :: "(int \<times> int) list"

definition pipes_start :: pipes where
  "pipes_start = \<lparr>spc = SOpenRead, cpc = COpenWrite, in_read = [], in_write = [], served = 0, results = []\<rparr>"

text \<open>The ends a process has open or is opening.\<close>

fun server_ends :: "pserver_pc \<Rightarrow> (fifo \<times> mode) list" where
  "server_ends SOpenRead = [(ReadPipe, O_RDONLY)]"
| "server_ends SOpenWrite = [(ReadPipe, O_RDONLY), (WritePipe, O_WRONLY)]"
| "server_ends (SServe i) = [(ReadPipe, O_RDONLY), (WritePipe, O_WRONLY)]"
| "server_ends (SAnswer i r) = [(ReadPipe, O_RDONLY), (WritePipe, O_WRONLY)]"
| "server_ends SEnd = []"

fun client_ends :: "pclient_pc \<Rightarrow> (fifo \<times> mode) list" where
  "client_ends COpenWrite = [(WritePipe, O_WRONLY)]"
| "client_ends COpenRead = [(WritePipe, O_WRONLY), (ReadPipe, O_RDONLY)]"
| "client_ends (CAsk i) = [(WritePipe, O_WRONLY), (ReadPipe, O_RDONLY)]"
| "client_ends (CReceive i) = [(WritePipe, O_WRONLY), (ReadPipe, O_RDONLY)]"
| "client_ends CEnd = []"

fun other_end :: "mode \<Rightarrow> mode" where
  "other_end O_RDONLY = O_WRONLY"
| "other_end O_WRONLY = O_RDONLY"

text \<open>An \<^verbatim>\<open>open\<close> of a FIFO returns when somebody has, or is opening, the other end.\<close>

definition fifo_opens :: "fifo \<Rightarrow> mode \<Rightarrow> pipes \<Rightarrow> bool" where
  "fifo_opens f m p \<longleftrightarrow> (f, other_end m) \<in> set (server_ends (spc p) @ client_ends (cpc p))"

inductive pserver_step :: "nat \<Rightarrow> pipes \<Rightarrow> pipes \<Rightarrow> bool" for n where
  ps_open_read: "spc p = SOpenRead \<Longrightarrow> fifo_opens ReadPipe O_RDONLY p \<Longrightarrow> pserver_step n p (p\<lparr>spc := SOpenWrite\<rparr>)"
| ps_open_write: "spc p = SOpenWrite \<Longrightarrow> fifo_opens WritePipe O_WRONLY p \<Longrightarrow>
    pserver_step n p (p\<lparr>spc := (if 1 \<le> n then SServe 1 else SEnd)\<rparr>)"
| ps_read: "spc p = SServe i \<Longrightarrow> in_read p = r # rs \<Longrightarrow> i32 (r * 100) = Some v \<Longrightarrow>
    pserver_step n p (p\<lparr>in_read := rs, spc := SAnswer i v\<rparr>)"
| ps_write: "spc p = SAnswer i v \<Longrightarrow>
    pserver_step n p (p\<lparr>in_write := in_write p @ [v], served := served p + 1,
      spc := (if i < n then SServe (i + 1) else SEnd)\<rparr>)"
| ps_fail: "spc p \<noteq> SEnd \<Longrightarrow> pserver_step n p (p\<lparr>spc := SEnd\<rparr>)"

text \<open>The client's \<^verbatim>\<open>write_fd\<close> is the FIFO named \<open>write\<close>, its \<^verbatim>\<open>read_fd\<close> the one named \<open>read\<close>.\<close>

inductive pclient_step :: "nat \<Rightarrow> pipes \<Rightarrow> pipes \<Rightarrow> bool" for n where
  pc_open_write: "cpc p = COpenWrite \<Longrightarrow> fifo_opens WritePipe O_WRONLY p \<Longrightarrow> pclient_step n p (p\<lparr>cpc := COpenRead\<rparr>)"
| pc_open_read: "cpc p = COpenRead \<Longrightarrow> fifo_opens ReadPipe O_RDONLY p \<Longrightarrow>
    pclient_step n p (p\<lparr>cpc := (if 1 \<le> n then CAsk 1 else CEnd)\<rparr>)"
| pc_write: "cpc p = CAsk i \<Longrightarrow>
    pclient_step n p (p\<lparr>in_write := in_write p @ [int i], cpc := CReceive i\<rparr>)"
| pc_read: "cpc p = CReceive i \<Longrightarrow> in_read p = v # rs \<Longrightarrow>
    pclient_step n p (p\<lparr>in_read := rs, results := results p @ [(int i, v)],
      cpc := (if i < n then CAsk (i + 1) else CEnd)\<rparr>)"
| pc_fail: "cpc p \<noteq> CEnd \<Longrightarrow> pclient_step n p (p\<lparr>cpc := CEnd\<rparr>)"

inductive pipes_reach :: "nat \<Rightarrow> nat \<Rightarrow> pipes \<Rightarrow> bool" for ns nc where
  pipes_init: "pipes_reach ns nc pipes_start"
| pipes_server: "pipes_reach ns nc p \<Longrightarrow> pserver_step ns p p' \<Longrightarrow> pipes_reach ns nc p'"
| pipes_client: "pipes_reach ns nc p \<Longrightarrow> pclient_step nc p p' \<Longrightarrow> pipes_reach ns nc p'"

inductive_simps pserver_step_simps: "pserver_step n p p'"
inductive_simps pclient_step_simps: "pclient_step n p p'"

lemma pipes_stuck:
  "pipes_reach ns nc p \<Longrightarrow> spc p \<in> {SOpenRead, SEnd} \<and> cpc p \<in> {COpenWrite, CEnd} \<and> served p = 0 \<and> results p = []"
proof (induction rule: pipes_reach.induct)
  case pipes_init
  show ?case by (simp add: pipes_start_def)
next
  case (pipes_server p p')
  then show ?case by (auto simp: pserver_step_simps fifo_opens_def)
next
  case (pipes_client p p')
  then show ?case by (auto simp: pclient_step_simps fifo_opens_def)
qed

text \<open>
  Property C20. Server and client open the same ends of both FIFOs (reading the one called
  \<open>read\<close>, writing the one called \<open>write\<close>), so neither open ever returns: whatever the numbers of
  iterations, the only steps from the start are those of a process that fails, and no request is
  ever served.
\<close>

theorem pipe_pair_deadlocks:
  assumes "pipes_reach ns nc p"
  shows "served p = 0 \<and> results p = [] \<and>
    (\<forall>p'. pserver_step ns p p' \<longrightarrow> p' = p\<lparr>spc := SEnd\<rparr>) \<and> (\<forall>p'. pclient_step nc p p' \<longrightarrow> p' = p\<lparr>cpc := CEnd\<rparr>)"
  using pipes_stuck[OF assms] by (auto simp: pserver_step_simps pclient_step_simps fifo_opens_def)

theorem pipe_pair_deadlocks_witness:
  "served pipes_start = 0 \<and> results pipes_start = []"
  using pipe_pair_deadlocks[OF pipes_init] by blast

lemma server_setup_unlinks:
  "fst (pipe_server_setup k) = 1 \<Longrightarrow> 0 \<le> k (Mkfifo ReadPipe) \<Longrightarrow> last (snd (pipe_server_setup k)) \<in> {Unlink ReadPipe, Unlink WritePipe}"
  by (auto simp: pipe_server_setup_def Let_def split: if_splits)

section \<open>The smallest user-interrupt example\<close>

datatype simple_event = Register | CreateFd | RegisterSender | Poll nat | Received | TimedOut | CloseIpi | NoVector | Send int | Failed simple_event

text \<open>\<^verbatim>\<open>run_sender\<close> with the value that \<^verbatim>\<open>uipi_index\<close> has in its process.\<close>

definition run_sender :: "int \<Rightarrow> simple_event list" where
  "run_sender uipi_index = (if uipi_index < 0 then [NoVector] else [Send uipi_index])"

text \<open>
  The polling loop: \<open>arrives = Some j\<close> means that the handler has run once \<open>j\<close> polls are left.
\<close>

fun poll_loop :: "nat option \<Rightarrow> nat \<Rightarrow> simple_event list" where
  "poll_loop arrives 0 = [if arrives = Some 0 then Received else TimedOut]"
| "poll_loop arrives (Suc t) = (if arrives = Some (Suc t) then [Received] else Poll (Suc t) # poll_loop arrives t)"

definition simple_cleanup :: "int \<Rightarrow> simple_event list" where
  "simple_cleanup uipi_fd = (if 0 \<le> uipi_fd then [CloseIpi] else [])"

definition run_receiver :: "(simple_event \<Rightarrow> int) \<Rightarrow> nat option \<Rightarrow> simple_event list" where
  "run_receiver k arrives =
     (if k Register < 0 then [Register, Failed Register]
      else if k CreateFd < 0 then [Register, CreateFd, Failed CreateFd]
      else if k RegisterSender < 0 then [Register, CreateFd, RegisterSender, Failed RegisterSender]
      else [Register, CreateFd, RegisterSender] @ poll_loop arrives 100 @ simple_cleanup (k CreateFd))"

text \<open>
  \<^verbatim>\<open>main\<close> after \<^verbatim>\<open>fork\<close>, as the events of the parent and of the child. The static \<^verbatim>\<open>uipi_index\<close> is -1
  when the process is duplicated, and the parent's assignment does not reach the child. The pipe
  ends are the wrong way round, so the child's \<^verbatim>\<open>read\<close> and the parent's \<^verbatim>\<open>write\<close> fail at once and
  order nothing. A user interrupt arrives only if the child sends one.
\<close>

definition simple_main :: "(simple_event \<Rightarrow> int) \<Rightarrow> nat option \<Rightarrow> simple_event list \<times> simple_event list" where
  "simple_main k arrives = (
     let uipi_index = -1;
         child = run_sender uipi_index;
         sent = (\<exists>i\<in>set child. case i of Send _ \<Rightarrow> True | _ \<Rightarrow> False)
     in (run_receiver k (if sent then arrives else None), child))"

lemma poll_loop_none: "poll_loop None t = map Poll (rev [1..<t + 1]) @ [TimedOut]"
  by (induction t) simp_all

text \<open>
  The example can never receive anything: the child sends no interrupt, and a
  receiver whose set-up succeeds polls a hundred times and times out.
\<close>

lemma simple_main_times_out:
  "simple_main k arrives =
     (if k Register < 0 then [Register, Failed Register]
      else if k CreateFd < 0 then [Register, CreateFd, Failed CreateFd]
      else if k RegisterSender < 0 then [Register, CreateFd, RegisterSender, Failed RegisterSender]
      else [Register, CreateFd, RegisterSender] @ map Poll (rev [1..<101]) @ [TimedOut, CloseIpi], [NoVector])"
  by (simp add: simple_main_def run_receiver_def run_sender_def Let_def simple_cleanup_def poll_loop_none)

end
