(* ===== verification/Simple_Uintr.thy ===== *)
theory Simple_Uintr
  imports Pipes
begin

text \<open>
  \<^verbatim>\<open>main\<close> of \<^verbatim>\<open>examples/simple_uintr.c\<close> with its pipe: parent and child after \<^verbatim>\<open>fork\<close> as an interleaving of
  their calls. Every process holds its own copies of the two ends. A call on the wrong end, or on one
  that the process has closed, fails with -1; a read waits while the pipe is empty and somebody holds
  the write end. The two halves \<^verbatim>\<open>run_sender\<close> and \<^verbatim>\<open>run_receiver\<close> are those of \<open>Pipes\<close>, a call each.
\<close>

section \<open>The two processes\<close>

datatype pipe_end = R_End | W_End

datatype duplex_call = CloseP pipe_end | ReadP pipe_end | WriteP pipe_end | Run "simple_event list" | WaitChild | ExitP

text \<open>The static variables when the process is duplicated.\<close>

record simple_globals =
  interrupt_received :: bool
  uipi_index :: int
  uipi_fd :: int

definition simple_statics :: simple_globals where
  "simple_statics = \<lparr>interrupt_received = False, uipi_index = -1, uipi_fd = -1\<rparr>"

definition simple_handler :: "simple_globals \<Rightarrow> simple_globals" where
  "simple_handler g = g\<lparr>interrupt_received := True\<rparr>"

definition child_calls :: "duplex_call list" where
  "child_calls = [CloseP R_End, ReadP W_End, Run (run_sender (uipi_index simple_statics)), WriteP W_End, CloseP W_End, ExitP]"

definition parent_calls :: "(simple_event \<Rightarrow> int) \<Rightarrow> nat option \<Rightarrow> duplex_call list" where
  "parent_calls k arrives =
     [CloseP W_End, Run (run_receiver k arrives), WriteP R_End, ReadP R_End, CloseP R_End, WaitChild]"

section \<open>The pipe\<close>

text \<open>
  A call with the ends its process and the other one hold, the bytes in the pipe and whether the child
  is over: the ends and bytes afterwards and the answer, or \<open>None\<close> while it has to wait. (A write that
  nobody can read would raise SIGPIPE, here -2; no run gets there.)
\<close>

fun pipe_do :: "duplex_call \<Rightarrow> pipe_end set \<Rightarrow> pipe_end set \<Rightarrow> nat \<Rightarrow> bool \<Rightarrow> (pipe_end set \<times> nat \<times> int) option" where
  "pipe_do (CloseP e) self other n over = Some (self - {e}, n, 0)"
| "pipe_do (ReadP e) self other n over =
     (if e = W_End \<or> e \<notin> self then Some (self, n, -1)
      else if 0 < n then Some (self, n - 1, 1)
      else if W_End \<in> self \<union> other then None else Some (self, n, 0))"
| "pipe_do (WriteP e) self other n over =
     (if e = R_End \<or> e \<notin> self then Some (self, n, -1)
      else if R_End \<in> self \<union> other then Some (self, n + 1, 1) else Some (self, n, -2))"
| "pipe_do (Run es) self other n over = Some (self, n, 0)"
| "pipe_do WaitChild self other n over = (if over then Some (self, n, 0) else None)"
| "pipe_do ExitP self other n over = Some ({}, n, 0)"

record simple_pair =
  par :: nat
  chi :: nat
  pfds :: "pipe_end set"
  cfds :: "pipe_end set"
  bytes :: nat
  pres :: "int list"
  cres :: "int list"

text \<open>\<^verbatim>\<open>pipe\<close> and \<^verbatim>\<open>fork\<close>: the exit status when one of them fails, or the pair of processes.\<close>

definition simple_start :: "int \<Rightarrow> int \<Rightarrow> int + simple_pair" where
  "simple_start pipe_answer pid =
     (if pipe_answer < 0 \<or> pid < 0 then Inl 1
      else Inr \<lparr>par = 0, chi = 0, pfds = {R_End, W_End}, cfds = {R_End, W_End}, bytes = 0, pres = [], cres = []\<rparr>)"

definition parent_turn :: "duplex_call list \<Rightarrow> simple_pair \<Rightarrow> simple_pair option" where
  "parent_turn calls s =
     (if par s < length calls then
        map_option (\<lambda>(fds, n, r). s\<lparr>par := par s + 1, pfds := fds, bytes := n, pres := pres s @ [r]\<rparr>)
          (pipe_do (calls ! par s) (pfds s) (cfds s) (bytes s) (chi s = length child_calls))
      else None)"

definition child_turn :: "simple_pair \<Rightarrow> simple_pair option" where
  "child_turn s =
     (if chi s < length child_calls then
        map_option (\<lambda>(fds, n, r). s\<lparr>chi := chi s + 1, cfds := fds, bytes := n, cres := cres s @ [r]\<rparr>)
          (pipe_do (child_calls ! chi s) (cfds s) (pfds s) (bytes s) False)
      else None)"

inductive simple_reach :: "(simple_event \<Rightarrow> int) \<Rightarrow> nat option \<Rightarrow> simple_pair \<Rightarrow> bool" for k arrives where
  simple_init: "simple_start p pid = Inr s \<Longrightarrow> simple_reach k arrives s"
| simple_parent: "simple_reach k arrives s \<Longrightarrow> parent_turn (parent_calls k arrives) s = Some s' \<Longrightarrow> simple_reach k arrives s'"
| simple_child: "simple_reach k arrives s \<Longrightarrow> child_turn s = Some s' \<Longrightarrow> simple_reach k arrives s'"

section \<open>Every run\<close>

text \<open>The state in which the parent has made \<open>p\<close> calls and the child \<open>c\<close>.\<close>

definition state_of :: "nat \<Rightarrow> nat \<Rightarrow> simple_pair" where
  "state_of p c = \<lparr>par = p, chi = c,
     pfds = (if p = 0 then {R_End, W_End} else if p < 5 then {R_End} else {}),
     cfds = (if c = 0 then {R_End, W_End} else if c < 5 then {W_End} else {}),
     bytes = (if 4 \<le> c \<and> p < 4 then 1 else 0),
     pres = take p [0, 0, -1, 1, 0, 0], cres = take c [0, -1, 0, 1, 0, 0]\<rparr>"

definition simple_inv :: "simple_pair \<Rightarrow> bool" where
  "simple_inv s \<longleftrightarrow> (\<exists>p c. s = state_of p c \<and> p \<le> 6 \<and> c \<le> 6 \<and> (4 \<le> p \<longrightarrow> 4 \<le> c) \<and> (p = 6 \<longrightarrow> c = 6))"

lemma below_six: "(n :: nat) < 6 \<Longrightarrow> n = 0 \<or> n = 1 \<or> n = 2 \<or> n = 3 \<or> n = 4 \<or> n = 5"
  by linarith

lemma call_lists:
  "length (parent_calls k a) = 6" "length child_calls = 6"
  "parent_calls k a ! 0 = CloseP W_End" "parent_calls k a ! Suc 0 = Run (run_receiver k a)"
  "parent_calls k a ! 2 = WriteP R_End" "parent_calls k a ! 3 = ReadP R_End"
  "parent_calls k a ! 4 = CloseP R_End" "parent_calls k a ! 5 = WaitChild"
  "child_calls ! 0 = CloseP R_End" "child_calls ! Suc 0 = ReadP W_End"
  "child_calls ! 2 = Run (run_sender (uipi_index simple_statics))" "child_calls ! 3 = WriteP W_End"
  "child_calls ! 4 = CloseP W_End" "child_calls ! 5 = ExitP"
  by (simp_all add: parent_calls_def child_calls_def)

lemma parent_turn_state:
  assumes "p < 6" and "4 \<le> p \<longrightarrow> 4 \<le> c"
  shows "parent_turn (parent_calls k a) (state_of p c) =
    (if p = 3 \<and> c < 4 \<or> p = 5 \<and> c \<noteq> 6 then None else Some (state_of (p + 1) c))"
  using below_six[OF assms(1)] assms(2)
  by - (elim disjE; auto simp: parent_turn_def state_of_def call_lists)

lemma child_turn_state:
  assumes "c < 6" and "4 \<le> p \<longrightarrow> 4 \<le> c"
  shows "child_turn (state_of p c) = Some (state_of p (c + 1))"
  using below_six[OF assms(1)] assms(2)
  by - (elim disjE; auto simp: child_turn_def state_of_def call_lists)

lemma simple_reach_inv: "simple_reach k a s \<Longrightarrow> simple_inv s"
proof (induction rule: simple_reach.induct)
  case (simple_init p pid s)
  then have "s = state_of 0 0" by (auto simp: simple_start_def state_of_def split: if_splits)
  then show ?case unfolding simple_inv_def by blast
next
  case (simple_parent s s')
  then obtain p c where s: "s = state_of p c" and b: "p \<le> 6" "c \<le> 6" "4 \<le> p \<longrightarrow> 4 \<le> c" "p = 6 \<longrightarrow> c = 6"
    unfolding simple_inv_def by blast
  from simple_parent.hyps(2) have lt: "p < 6"
    by (simp add: s parent_turn_def state_of_def call_lists split: if_splits)
  from simple_parent.hyps(2) have "s' = state_of (p + 1) c" "\<not> (p = 3 \<and> c < 4)" "\<not> (p = 5 \<and> c \<noteq> 6)"
    unfolding s parent_turn_state[OF lt b(3)] by (auto split: if_splits)
  with b lt show ?case unfolding simple_inv_def by (intro exI[of _ "p + 1"] exI[of _ c]) auto
next
  case (simple_child s s')
  then obtain p c where s: "s = state_of p c" and b: "p \<le> 6" "c \<le> 6" "4 \<le> p \<longrightarrow> 4 \<le> c" "p = 6 \<longrightarrow> c = 6"
    unfolding simple_inv_def by blast
  from simple_child.hyps(2) have lt: "c < 6"
    by (simp add: s child_turn_def state_of_def call_lists split: if_splits)
  from simple_child.hyps(2) have "s' = state_of p (c + 1)" unfolding s child_turn_state[OF lt b(3)] by simp
  with b lt show ?case unfolding simple_inv_def by (intro exI[of _ p] exI[of _ "c + 1"]) auto
qed

lemma simple_turn_counts:
  "parent_turn calls s = Some s' \<Longrightarrow> par s' + chi s' = Suc (par s + chi s)"
  "child_turn s = Some s' \<Longrightarrow> par s' + chi s' = Suc (par s + chi s)"
  by (auto simp: parent_turn_def child_turn_def split: if_splits)

text \<open>
  \<^verbatim>\<open>main\<close> always ends: while a process is not over one of the two can make its next call, and no run
  has more than twelve. But the pipe orders nothing. The child reads the end that is for writing and
  the parent writes the end that is for reading, so both calls fail with -1: the child can have made
  all its calls while the parent has made none, or the parent's part of the interrupts can be over
  before the child's begins. Only the child's "D" is ever in the pipe, and the parent takes it.
\<close>

theorem simple_uintr_ends:
  assumes "simple_reach k arrives s"
  shows "par s + chi s \<le> 12"
    and "par s + chi s < 12 \<longleftrightarrow> parent_turn (parent_calls k arrives) s \<noteq> None \<or> child_turn s \<noteq> None"
    and "par s + chi s = 12 \<Longrightarrow> pres s = [0, 0, -1, 1, 0, 0] \<and> cres s = [0, -1, 0, 1, 0, 0] \<and>
      pfds s = {} \<and> cfds s = {} \<and> bytes s = 0"
    and "take 4 (pres s) = take (par s) [0, 0, -1, 1]"
proof -
  from simple_reach_inv[OF assms] obtain p c where s: "s = state_of p c"
    and b: "p \<le> 6" "c \<le> 6" "4 \<le> p \<longrightarrow> 4 \<le> c" "p = 6 \<longrightarrow> c = 6"
    unfolding simple_inv_def by blast
  have pc: "par s = p" "chi s = c" by (simp_all add: s state_of_def)
  show "par s + chi s \<le> 12" using b pc by simp
  show "par s + chi s < 12 \<longleftrightarrow> parent_turn (parent_calls k arrives) s \<noteq> None \<or> child_turn s \<noteq> None"
  proof (cases "c < 6")
    case True
    then show ?thesis using b pc child_turn_state[OF True b(3)] by (simp add: s)
  next
    case False
    with b have c: "c = 6" by simp
    have over: "child_turn s = None" by (simp add: s c child_turn_def state_of_def call_lists)
    show ?thesis
    proof (cases "p < 6")
      case True
      then show ?thesis using pc c over parent_turn_state[OF True b(3), of k arrives] by (simp add: s)
    next
      case False
      then show ?thesis using pc c over b by (simp add: s parent_turn_def state_of_def call_lists)
    qed
  qed
  show "pres s = [0, 0, -1, 1, 0, 0] \<and> cres s = [0, -1, 0, 1, 0, 0] \<and> pfds s = {} \<and> cfds s = {} \<and> bytes s = 0"
    if "par s + chi s = 12"
  proof -
    from that pc b have "p = 6" "c = 6" by simp_all
    then show ?thesis by (simp add: s state_of_def)
  qed
  show "take 4 (pres s) = take (par s) [0, 0, -1, 1]"
    by (simp add: s state_of_def take_Cons' min_def)
qed

text \<open>Both orders do occur: the child is over before the parent's first call, and the parent has failed
  to give the start signal before the child asks for it.\<close>

lemma simple_orders:
  "simple_reach k arrives (state_of 0 6)" "simple_reach k arrives (state_of 3 0)"
proof -
  have start: "simple_reach k arrives (state_of 0 0)"
    by (rule simple_init[of 0 1]) (simp add: simple_start_def state_of_def)
  have child: "c \<le> 6 \<Longrightarrow> simple_reach k arrives (state_of 0 c)" for c
    by (induction c) (auto intro: start simple_child[OF _ child_turn_state, simplified])
  show "simple_reach k arrives (state_of 0 6)" by (rule child) simp
  have parent: "p \<le> 3 \<Longrightarrow> simple_reach k arrives (state_of p 0)" for p
    by (induction p) (auto intro: start simple_parent parent_turn_state simp: parent_turn_state)
  show "simple_reach k arrives (state_of 3 0)" by (rule parent) simp
qed

text \<open>What the two halves do is what \<open>simple_main\<close> says when no interrupt arrives: the child has its
  own copy of \<^verbatim>\<open>uipi_index\<close>, still -1.\<close>

lemma simple_halves:
  "child_calls ! 2 = Run (snd (simple_main k arrives))" "parent_calls k None ! 1 = Run (fst (simple_main k arrives))"
  by (simp_all add: child_calls_def parent_calls_def simple_main_def simple_statics_def run_sender_def Let_def)

end
