(* ===== verification/Kernel_Sched.thy ===== *)
theory Kernel_Sched
  imports Prelude
begin

text \<open>
  The kernel scheduler of \<^verbatim>\<open>lab3-2-sparrowos-scheduler/kernel/core/scheduler.c\<close> with the data of
  \<^verbatim>\<open>src/pcb.h\<close>. The operations that \<^verbatim>\<open>pcb.h\<close> only declares (queues, process table, MLFQ, the setters
  of a PCB) have no source in the repository: they are the record \<open>kernel_ops\<close>, an argument of every
  definition, over an arbitrary type of ready queues and of MLFQs. A PCB pointer is an index; the
  wait and the sleep queue are walked node by node in the source and are lists. The spinlock is a
  flag: taking it twice is \<open>None\<close>, for the single CPU then spins for ever.

  \<^verbatim>\<open>movl ..., %eip\<close> is taken as what it is meant to be, a jump: the CPU goes on at the saved context of
  the next process, and nothing behind the jump is executed, the release of the lock included. A
  call that may switch therefore yields \<open>Return v\<close> when it comes back to its caller with \<open>v\<close>, and
  \<open>Jump esp eip\<close> when control has left it.
\<close>

datatype 'a control = Return 'a | Jump u32 u32

datatype kstate =
    PROCESS_NEW | PROCESS_READY | PROCESS_RUNNING | PROCESS_BLOCKED | PROCESS_SLEEPING | PROCESS_ZOMBIE
  | PROCESS_TERMINATED

datatype process_type = PROCESS_TYPE_SYSTEM | PROCESS_TYPE_USER | PROCESS_TYPE_DAEMON | PROCESS_TYPE_THREAD

definition PROCESS_FLAG_CPU_BOUND :: u32 where "PROCESS_FLAG_CPU_BOUND = 0x01"
definition PROCESS_FLAG_SCHED_MLFQ :: u32 where "PROCESS_FLAG_SCHED_MLFQ = 0x20"
definition PROCESS_FLAG_SCHED_RR :: u32 where "PROCESS_FLAG_SCHED_RR = 0x40"
definition PROCESS_FLAG_SCHED_FIFO :: u32 where "PROCESS_FLAG_SCHED_FIFO = 0x80"
definition MAX_PRIORITY_LEVELS :: u8 where "MAX_PRIORITY_LEVELS = 4"
definition MAX_PROCESSES :: u32 where "MAX_PROCESSES = 64"
definition TIME_SLICE_BASE :: u32 where "TIME_SLICE_BASE = 10"
definition STACK_SIZE :: u32 where "STACK_SIZE = 4096"

text \<open>The fields of \<^verbatim>\<open>pcb_t\<close> that the scheduler reads or writes.\<close>

record kpcb =
  pid :: u32
  ppid :: u32
  kname :: string
  kstate :: kstate
  flags :: u32
  priority :: u8
  exit_code :: int
  time_created :: u32
  time_started :: u32
  time_terminated :: u32
  time_used :: u32
  time_slice :: u32
  time_slice_used :: u32
  vruntime :: u32
  deadline :: u32
  ctx_esp :: u32
  ctx_eip :: u32
  ctx_eflags :: u32
  stack_base :: u32
  stack_size :: u32
  parent :: "nat option"
  children :: "nat option"
  time_in_queue :: u32
  queue_level :: u8

type_synonym procs = "nat \<Rightarrow> kpcb"

definition PCB_HAS_FLAG :: "kpcb \<Rightarrow> u32 \<Rightarrow> bool" where
  "PCB_HAS_FLAG p flag \<longleftrightarrow> flags p AND flag \<noteq> 0"

definition PCB_SET_FLAG :: "u32 \<Rightarrow> kpcb \<Rightarrow> kpcb" where
  "PCB_SET_FLAG flag p = p\<lparr>flags := flags p OR flag\<rparr>"

definition PCB_LIFETIME :: "kpcb \<Rightarrow> u32" where
  "PCB_LIFETIME p = time_terminated p - time_created p"

datatype scheduler_kind = SCHEDULER_FIFO | SCHEDULER_RR | SCHEDULER_MLFQ | SCHEDULER_OTHER

record kconfig =
  scheduler_type :: scheduler_kind
  time_quantum :: u32
  enable_preemption :: bool
  enable_multicore :: bool
  num_priority_levels :: u32
  boost_interval :: u32
  load_balance_interval :: u32

record kstats =
  context_switches :: u32
  processes_created :: u32
  processes_completed :: u32
  processes_terminated :: u32
  total_runtime :: u32
  total_wait_time :: u32
  avg_turnaround_time :: u32
  throughput :: u32
  cpu_utilization :: u32

text \<open>What \<^verbatim>\<open>pcb.h\<close> declares and the repository does not define.\<close>

record ('r, 'm) kernel_ops =
  process_table_init :: "procs \<Rightarrow> procs"
  process_table_find :: "u32 \<Rightarrow> procs \<Rightarrow> nat option"
  pcb_alloc :: "procs \<Rightarrow> nat option \<times> procs"
  pcb_free :: "nat \<Rightarrow> procs \<Rightarrow> procs"
  pcb_init :: "u32 \<Rightarrow> string \<Rightarrow> process_type \<Rightarrow> u8 \<Rightarrow> kpcb \<Rightarrow> kpcb"
  pcb_set_state :: "kstate \<Rightarrow> kpcb \<Rightarrow> kpcb"
  pcb_set_priority :: "u8 \<Rightarrow> kpcb \<Rightarrow> kpcb"
  pcb_update_stats :: "u32 \<Rightarrow> kpcb \<Rightarrow> kpcb"
  pcb_add_child :: "nat \<Rightarrow> nat \<Rightarrow> procs \<Rightarrow> procs"
  pcb_orphan_children :: "nat \<Rightarrow> procs \<Rightarrow> procs"
  calculate_time_slice :: "u8 \<Rightarrow> u32 \<Rightarrow> u32"
  ready_queue_init :: "u32 \<Rightarrow> u32 \<Rightarrow> 'r"
  ready_queue_enqueue :: "nat \<Rightarrow> 'r \<Rightarrow> 'r"
  ready_queue_dequeue :: "'r \<Rightarrow> nat option \<times> 'r"
  ready_queue_remove :: "nat \<Rightarrow> 'r \<Rightarrow> 'r"
  ready_queue_count :: "'r \<Rightarrow> u32"
  wait_queue_enqueue :: "nat \<Rightarrow> nat list \<Rightarrow> nat list"
  wait_queue_remove :: "nat \<Rightarrow> nat list \<Rightarrow> nat list"
  mlfq_init :: "u32 \<Rightarrow> u32 \<Rightarrow> 'm"
  mlfq_enqueue :: "nat \<Rightarrow> u8 \<Rightarrow> 'm \<Rightarrow> 'm"
  mlfq_dequeue :: "'m \<Rightarrow> nat option \<times> 'm"
  mlfq_adjust_priority :: "nat \<Rightarrow> bool \<Rightarrow> 'm \<times> procs \<Rightarrow> 'm \<times> procs"
  demotion_threshold :: "'m \<Rightarrow> u32"

datatype kmsg =
    InitDone
  | NoIdle
  | NoFreePcb
  | Created u32 string u8
  | NotFound u32
  | AlreadyTerminated u32
  | Terminated u32 int
  | NotZombie u32
  | Switch "(string \<times> u32) option" string u32
  | PriorityChanged u32 u8 u8
  | Balancing u32
  | Status u32 bool "nat option" u32 kstats

text \<open>
  The CPU's stack and instruction pointer are \<open>cpu_regs\<close>; the four \<^verbatim>\<open>last_\<close> fields are the static
  variables of \<^verbatim>\<open>update_scheduler_stats\<close>.
\<close>

record ('r, 'm) kernel =
  config :: kconfig
  procs :: procs
  next_pid :: u32
  mlfq :: 'm
  ready_queue :: 'r
  wait_queue :: "nat list"
  sleep_queue :: "nat list"
  current_process :: "nat option"
  idle_process :: "nat option"
  stats :: kstats
  system_ticks :: u32
  last_schedule_time :: u32
  locked :: bool
  scheduler_running :: bool
  need_reschedule :: bool
  last_idle_time :: u32
  last_total_time :: u32
  last_completed :: u32
  last_time :: u32
  cpu_regs :: "u32 \<times> u32"
  timer_registered :: bool
  klog :: "kmsg list"

definition klogs :: "kmsg \<Rightarrow> ('r, 'm) kernel \<Rightarrow> ('r, 'm) kernel" where
  "klogs x s = s\<lparr>klog := klog s @ [x]\<rparr>"

definition upd :: "nat \<Rightarrow> (kpcb \<Rightarrow> kpcb) \<Rightarrow> ('r, 'm) kernel \<Rightarrow> ('r, 'm) kernel" where
  "upd i f s = s\<lparr>procs := (procs s)(i := f (procs s i))\<rparr>"

definition spinlock_lock :: "('r, 'm) kernel \<Rightarrow> ('r, 'm) kernel option" where
  "spinlock_lock s = (if locked s then None else Some (s\<lparr>locked := True\<rparr>))"

definition spinlock_unlock :: "('r, 'm) kernel \<Rightarrow> ('r, 'm) kernel" where
  "spinlock_unlock s = s\<lparr>locked := False\<rparr>"

section \<open>Internal functions\<close>

definition get_next_process :: "('r, 'm) kernel_ops \<Rightarrow> ('r, 'm) kernel \<Rightarrow> nat option \<times> ('r, 'm) kernel" where
  "get_next_process k s =
     (if scheduler_type (config s) = SCHEDULER_MLFQ
      then (let (p, m) = mlfq_dequeue k (mlfq s) in (p, s\<lparr>mlfq := m\<rparr>))
      else (let (p, r) = ready_queue_dequeue k (ready_queue s) in (p, s\<lparr>ready_queue := r\<rparr>)))"

definition add_to_ready_queue_internal :: "('r, 'm) kernel_ops \<Rightarrow> nat \<Rightarrow> ('r, 'm) kernel \<Rightarrow> ('r, 'm) kernel" where
  "add_to_ready_queue_internal k p s =
     (if kstate (procs s p) \<noteq> PROCESS_READY then s
      else case scheduler_type (config s) of
        SCHEDULER_MLFQ \<Rightarrow> s\<lparr>mlfq := mlfq_enqueue k p (queue_level (procs s p)) (mlfq s)\<rparr>
      | SCHEDULER_RR \<Rightarrow> s\<lparr>ready_queue := ready_queue_enqueue k p (ready_queue s)\<rparr>
      | SCHEDULER_FIFO \<Rightarrow> s\<lparr>ready_queue := ready_queue_enqueue k p (ready_queue s)\<rparr>
      | SCHEDULER_OTHER \<Rightarrow> s)"

definition remove_from_ready_queue_internal :: "('r, 'm) kernel_ops \<Rightarrow> nat \<Rightarrow> ('r, 'm) kernel \<Rightarrow> ('r, 'm) kernel" where
  "remove_from_ready_queue_internal k p s =
     (case scheduler_type (config s) of
        SCHEDULER_RR \<Rightarrow> s\<lparr>ready_queue := ready_queue_remove k p (ready_queue s)\<rparr>
      | SCHEDULER_FIFO \<Rightarrow> s\<lparr>ready_queue := ready_queue_remove k p (ready_queue s)\<rparr>
      | SCHEDULER_MLFQ \<Rightarrow> s
      | SCHEDULER_OTHER \<Rightarrow> s)"

definition update_process_times :: "('r, 'm) kernel_ops \<Rightarrow> ('r, 'm) kernel \<Rightarrow> ('r, 'm) kernel" where
  "update_process_times k s =
     (case current_process s of
        None \<Rightarrow> s
      | Some p \<Rightarrow>
          if idle_process s = Some p then s
          else
            let s = upd p (\<lambda>q. q\<lparr>time_used := time_used q + 1, time_slice_used := time_slice_used q + 1,
                      vruntime := vruntime q + 1\<rparr>) s;
                s = upd p (pcb_update_stats k 1) s
            in if PCB_HAS_FLAG (procs s p) PROCESS_FLAG_SCHED_MLFQ
               then
                 let s = upd p (\<lambda>q. q\<lparr>time_in_queue := time_in_queue q + 1\<rparr>) s
                 in if demotion_threshold k (mlfq s) \<le> time_in_queue (procs s p)
                    then (let (m, ps) = mlfq_adjust_priority k p True (mlfq s, procs s) in s\<lparr>mlfq := m, procs := ps\<rparr>)
                    else s
               else s)"

text \<open>The walk over the sleep queue: sleepers whose deadline has passed leave the list.\<close>

fun wake_sleepers :: "('r, 'm) kernel_ops \<Rightarrow> nat list \<Rightarrow> ('r, 'm) kernel \<Rightarrow> nat list \<times> ('r, 'm) kernel" where
  "wake_sleepers k [] s = ([], s)"
| "wake_sleepers k (p # ps) s =
     (if deadline (procs s p) \<le> system_ticks s
      then wake_sleepers k ps (add_to_ready_queue_internal k p (upd p (pcb_set_state k PROCESS_READY) s))
      else (let (rest, s) = wake_sleepers k ps s in (p # rest, s)))"

definition check_sleeping_processes :: "('r, 'm) kernel_ops \<Rightarrow> ('r, 'm) kernel \<Rightarrow> ('r, 'm) kernel" where
  "check_sleeping_processes k s = (let (rest, s) = wake_sleepers k (sleep_queue s) s in s\<lparr>sleep_queue := rest\<rparr>)"

text \<open>\<^verbatim>\<open>idle_process->time_used\<close> of a null pointer is \<open>None\<close>.\<close>

definition update_scheduler_stats :: "('r, 'm) kernel \<Rightarrow> ('r, 'm) kernel option" where
  "update_scheduler_stats s = do {
     i \<leftarrow> idle_process s;
     let current_idle_time = time_used (procs s i);
     let current_total_time = system_ticks s;
     let s = (if last_total_time s < current_total_time
       then
         let idle_delta = current_idle_time - last_idle_time s;
             total_delta = current_total_time - last_total_time s;
             s = (if 0 < total_delta
                  then s\<lparr>stats := (stats s)\<lparr>cpu_utilization := 100 - idle_delta * 100 div total_delta\<rparr>\<rparr> else s)
         in s\<lparr>last_idle_time := current_idle_time, last_total_time := current_total_time\<rparr>
       else s);
     Some (if 1000 \<le> system_ticks s - last_time s
       then
         let completed_delta = processes_completed (stats s) - last_completed s;
             time_delta = system_ticks s - last_time s;
             s = (if 0 < time_delta
                  then s\<lparr>stats := (stats s)\<lparr>throughput := completed_delta * 1000 div time_delta\<rparr>\<rparr> else s)
         in s\<lparr>last_completed := processes_completed (stats s), last_time := system_ticks s\<rparr>
       else s)
   }"

definition load_balance :: "('r, 'm) kernel_ops \<Rightarrow> ('r, 'm) kernel \<Rightarrow> ('r, 'm) kernel" where
  "load_balance k s =
     (if \<not> enable_multicore (config s) then s
      else if MAX_PROCESSES div 2 < ready_queue_count k (ready_queue s)
      then klogs (Balancing (ready_queue_count k (ready_queue s))) s else s)"

section \<open>The interface\<close>

definition scheduler_create_process ::
  "('r, 'm) kernel_ops \<Rightarrow> string \<Rightarrow> process_type \<Rightarrow> u8 \<Rightarrow> u32 \<Rightarrow> ('r, 'm) kernel \<Rightarrow> (nat option \<times> ('r, 'm) kernel) option" where
  "scheduler_create_process k name type prio fl s = do {
     s \<leftarrow> spinlock_lock s;
     let (new, ps) = pcb_alloc k (procs s);
     let s = s\<lparr>procs := ps\<rparr>;
     case new of
       None \<Rightarrow> Some (None, spinlock_unlock (klogs NoFreePcb s))
     | Some p \<Rightarrow> do {
         let n = next_pid s;
         let s = s\<lparr>next_pid := n + 1\<rparr>;
         let s = upd p (pcb_init k n name type prio) s;
         let s = upd p (\<lambda>q. q\<lparr>flags := fl\<rparr>) s;
         let s = (case current_process s of
             Some c \<Rightarrow>
               if idle_process s \<noteq> Some c
               then (let s = upd p (\<lambda>q. q\<lparr>ppid := pid (procs s c), parent := Some c\<rparr>) s
                     in s\<lparr>procs := pcb_add_child k c p (procs s)\<rparr>)
               else upd p (\<lambda>q. q\<lparr>ppid := 0, parent := None\<rparr>) s
           | None \<Rightarrow> upd p (\<lambda>q. q\<lparr>ppid := 0, parent := None\<rparr>) s);
         let s = upd p (\<lambda>q. q\<lparr>time_created := system_ticks s,
             time_slice := calculate_time_slice k prio (time_quantum (config s)),
             stack_base := 0x1000000 + n * STACK_SIZE, stack_size := STACK_SIZE,
             ctx_esp := 0x1000000 + n * STACK_SIZE + STACK_SIZE - 4, ctx_eflags := 0x202\<rparr>) s;
         let s = (case scheduler_type (config s) of
             SCHEDULER_MLFQ \<Rightarrow> upd p (\<lambda>q. (PCB_SET_FLAG PROCESS_FLAG_SCHED_MLFQ q)\<lparr>queue_level := prio\<rparr>) s
           | SCHEDULER_RR \<Rightarrow> upd p (PCB_SET_FLAG PROCESS_FLAG_SCHED_RR) s
           | SCHEDULER_FIFO \<Rightarrow> upd p (PCB_SET_FLAG PROCESS_FLAG_SCHED_FIFO) s
           | SCHEDULER_OTHER \<Rightarrow> s);
         let s = add_to_ready_queue_internal k p (upd p (pcb_set_state k PROCESS_READY) s);
         let s = s\<lparr>stats := (stats s)\<lparr>processes_created := processes_created (stats s) + 1\<rparr>\<rparr>;
         let s = spinlock_unlock s;
         Some (Some p, klogs (Created (pid (procs s p)) (kname (procs s p)) (priority (procs s p))) s)
       }
   }"

text \<open>What \<^verbatim>\<open>memset(0)\<close> leaves; \<open>zr\<close> and \<open>zm\<close> are the all-zero queue structures.\<close>

definition zero_config :: kconfig where
  "zero_config = \<lparr>scheduler_type = SCHEDULER_FIFO, time_quantum = 0, enable_preemption = False,
     enable_multicore = False, num_priority_levels = 0, boost_interval = 0, load_balance_interval = 0\<rparr>"

definition zero_kstats :: kstats where
  "zero_kstats = \<lparr>context_switches = 0, processes_created = 0, processes_completed = 0,
     processes_terminated = 0, total_runtime = 0, total_wait_time = 0, avg_turnaround_time = 0,
     throughput = 0, cpu_utilization = 0\<rparr>"

definition zero_kpcb :: kpcb where
  "zero_kpcb = \<lparr>pid = 0, ppid = 0, kname = [], kstate = PROCESS_NEW, flags = 0, priority = 0, exit_code = 0,
     time_created = 0, time_started = 0, time_terminated = 0, time_used = 0, time_slice = 0,
     time_slice_used = 0, vruntime = 0, deadline = 0, ctx_esp = 0, ctx_eip = 0, ctx_eflags = 0,
     stack_base = 0, stack_size = 0, parent = None, children = None, time_in_queue = 0, queue_level = 0\<rparr>"

definition clear_state :: "'r \<Rightarrow> 'm \<Rightarrow> ('r, 'm) kernel \<Rightarrow> ('r, 'm) kernel" where
  "clear_state zr zm s = s\<lparr>config := zero_config, procs := (\<lambda>_. zero_kpcb), next_pid := 0, mlfq := zm,
     ready_queue := zr, wait_queue := [], sleep_queue := [], current_process := None, idle_process := None,
     stats := zero_kstats, system_ticks := 0, last_schedule_time := 0, locked := False,
     scheduler_running := False, need_reschedule := False\<rparr>"

definition default_config :: kconfig where
  "default_config = \<lparr>scheduler_type = SCHEDULER_MLFQ, time_quantum = TIME_SLICE_BASE, enable_preemption = True,
     enable_multicore = False, num_priority_levels = ucast MAX_PRIORITY_LEVELS, boost_interval = 1000,
     load_balance_interval = 500\<rparr>"

definition scheduler_init ::
  "('r, 'm) kernel_ops \<Rightarrow> u32 \<Rightarrow> kconfig option \<Rightarrow> 'r \<Rightarrow> 'm \<Rightarrow> ('r, 'm) kernel \<Rightarrow> ('r, 'm) kernel option" where
  "scheduler_init k idle_process_entry cfg zr zm s = do {
     let s = clear_state zr zm s;
     let s = s\<lparr>config := (case cfg of Some c \<Rightarrow> c | None \<Rightarrow> default_config)\<rparr>;
     let s = s\<lparr>procs := process_table_init k (procs s)\<rparr>;
     let s = s\<lparr>ready_queue := ready_queue_init k MAX_PROCESSES (time_quantum (config s))\<rparr>;
     let s = (if scheduler_type (config s) = SCHEDULER_MLFQ
       then s\<lparr>mlfq := mlfq_init k (num_priority_levels (config s)) (boost_interval (config s))\<rparr> else s);
     (new, s) \<leftarrow> scheduler_create_process k ''idle'' PROCESS_TYPE_SYSTEM (MAX_PRIORITY_LEVELS - 1) PROCESS_FLAG_CPU_BOUND s;
     let s = s\<lparr>idle_process := new\<rparr>;
     Some (case new of
         None \<Rightarrow> klogs NoIdle s
       | Some i \<Rightarrow>
           let s = upd i (\<lambda>q. q\<lparr>ctx_eip := idle_process_entry\<rparr>) s;
               s = upd i (\<lambda>q. q\<lparr>kstate := PROCESS_RUNNING\<rparr>) (s\<lparr>current_process := Some i\<rparr>)
           in klogs InitDone (s\<lparr>system_ticks := 0, last_schedule_time := 0, scheduler_running := True,
                need_reschedule := False, timer_registered := True\<rparr>))
   }"

definition scheduler_terminate_process ::
  "('r, 'm) kernel_ops \<Rightarrow> u32 \<Rightarrow> int \<Rightarrow> ('r, 'm) kernel \<Rightarrow> (int \<times> ('r, 'm) kernel) option" where
  "scheduler_terminate_process k n code s = do {
     s \<leftarrow> spinlock_lock s;
     Some (case process_table_find k n (procs s) of
       None \<Rightarrow> (-1, spinlock_unlock (klogs (NotFound n) s))
     | Some p \<Rightarrow>
         if kstate (procs s p) = PROCESS_TERMINATED \<or> kstate (procs s p) = PROCESS_ZOMBIE
         then (-1, spinlock_unlock (klogs (AlreadyTerminated n) s))
         else
           let s = upd p (\<lambda>q. q\<lparr>exit_code := code\<rparr>) s;
               s = (if children (procs s p) \<noteq> None then s\<lparr>procs := pcb_orphan_children k p (procs s)\<rparr> else s);
               s = remove_from_ready_queue_internal k p s;
               s = upd p (\<lambda>q. q\<lparr>time_terminated := system_ticks s\<rparr>) s;
               s = upd p (pcb_set_state k PROCESS_ZOMBIE) s;
               s = (if current_process s = Some p then s\<lparr>current_process := None, need_reschedule := True\<rparr> else s);
               s = s\<lparr>stats := (stats s)\<lparr>processes_terminated := processes_terminated (stats s) + 1\<rparr>\<rparr>
           in (0, klogs (Terminated n code) (spinlock_unlock s)))
   }"

definition scheduler_reap_process ::
  "('r, 'm) kernel_ops \<Rightarrow> u32 \<Rightarrow> ('r, 'm) kernel \<Rightarrow> (int \<times> ('r, 'm) kernel) option" where
  "scheduler_reap_process k n s = do {
     s \<leftarrow> spinlock_lock s;
     Some (case process_table_find k n (procs s) of
       None \<Rightarrow> (-1, spinlock_unlock s)
     | Some p \<Rightarrow>
         if kstate (procs s p) \<noteq> PROCESS_ZOMBIE then (-1, spinlock_unlock (klogs (NotZombie n) s))
         else
           let q = procs s p; lifetime = PCB_LIFETIME q; st = stats s;
               st = st\<lparr>processes_completed := processes_completed st + 1,
                       total_runtime := total_runtime st + time_used q,
                       total_wait_time := total_wait_time st + (lifetime - time_used q)\<rparr>;
               st = (if 0 < processes_completed st
                     then st\<lparr>avg_turnaround_time := total_runtime st div processes_completed st\<rparr> else st);
               s = upd p (pcb_set_state k PROCESS_TERMINATED) (s\<lparr>stats := st\<rparr>);
               s = s\<lparr>procs := pcb_free k p (procs s)\<rparr>
           in (0, spinlock_unlock s))
   }"

definition save_current :: "('r, 'm) kernel_ops \<Rightarrow> ('r, 'm) kernel \<Rightarrow> ('r, 'm) kernel" where
  "save_current k s =
     (case current_process s of
        None \<Rightarrow> s
      | Some c \<Rightarrow>
          if idle_process s = Some c then s
          else
            let s = upd c (\<lambda>q. q\<lparr>ctx_esp := fst (cpu_regs s), ctx_eip := snd (cpu_regs s)\<rparr>) s
            in if kstate (procs s c) = PROCESS_RUNNING
               then add_to_ready_queue_internal k c (upd c (pcb_set_state k PROCESS_READY) s) else s)"

definition dispatch :: "('r, 'm) kernel_ops \<Rightarrow> nat \<Rightarrow> ('r, 'm) kernel \<Rightarrow> ('r, 'm) kernel" where
  "dispatch k nx s = (
     let cur = current_process s;
         s = s\<lparr>stats := (stats s)\<lparr>context_switches := context_switches (stats s) + 1\<rparr>\<rparr>;
         s = save_current k s;
         s = upd nx (pcb_set_state k PROCESS_RUNNING) s;
         s = upd nx (\<lambda>q. q\<lparr>time_started := system_ticks s, time_slice_used := 0\<rparr>) s;
         s = remove_from_ready_queue_internal k nx s;
         s = s\<lparr>current_process := Some nx, last_schedule_time := system_ticks s, need_reschedule := False\<rparr>
     in klogs (Switch (map_option (\<lambda>c. (kname (procs s c), pid (procs s c))) cur)
          (kname (procs s nx)) (pid (procs s nx))) s)"

text \<open>The jump into the context of the next process, unless it is the idle process.\<close>

definition switch_to :: "('r, 'm) kernel_ops \<Rightarrow> nat \<Rightarrow> ('r, 'm) kernel \<Rightarrow> unit control \<times> ('r, 'm) kernel" where
  "switch_to k nx s = (
     let s = dispatch k nx s
     in if idle_process s \<noteq> Some nx
        then (let esp = ctx_esp (procs s nx); eip = ctx_eip (procs s nx)
              in (Jump esp eip, s\<lparr>cpu_regs := (esp, eip)\<rparr>))
        else (Return (), s))"

text \<open>With neither a ready nor an idle process the source dereferences NULL.\<close>

definition scheduler_schedule ::
  "('r, 'm) kernel_ops \<Rightarrow> ('r, 'm) kernel \<Rightarrow> (unit control \<times> ('r, 'm) kernel) option" where
  "scheduler_schedule k s =
     (if \<not> scheduler_running s then Some (Return (), s)
      else do {
        s \<leftarrow> spinlock_lock s;
        let (n, s) = get_next_process k s;
        let next_process = (case n of Some p \<Rightarrow> Some p | None \<Rightarrow> idle_process s);
        if current_process s = next_process then Some (Return (), spinlock_unlock s)
        else do {
          nx \<leftarrow> next_process;
          Some (case switch_to k nx s of
              (Jump esp eip, s) \<Rightarrow> (Jump esp eip, s)
            | (Return u, s) \<Rightarrow> (Return u, spinlock_unlock s))
        }
      })"

definition slice_expired :: "('r, 'm) kernel \<Rightarrow> bool" where
  "slice_expired s = (case current_process s of
     None \<Rightarrow> False
   | Some c \<Rightarrow> enable_preemption (config s) \<and> time_slice (procs s c) \<le> time_slice_used (procs s c))"

text \<open>A load-balancing interval of 0 on several cores divides by zero.\<close>

definition scheduler_tick_handler ::
  "('r, 'm) kernel_ops \<Rightarrow> ('r, 'm) kernel \<Rightarrow> (unit control \<times> ('r, 'm) kernel) option" where
  "scheduler_tick_handler k s = do {
     let s = s\<lparr>system_ticks := system_ticks s + 1\<rparr>;
     let s = update_process_times k s;
     let s = check_sleeping_processes k s;
     s \<leftarrow> update_scheduler_stats s;
     s \<leftarrow> (if enable_multicore (config s)
       then if load_balance_interval (config s) = 0 then None
            else Some (if system_ticks s mod load_balance_interval (config s) = 0 then load_balance k s else s)
       else Some s);
     if need_reschedule s \<or> slice_expired s
     then scheduler_schedule k (s\<lparr>need_reschedule := True\<rparr>)
     else Some (Return (), s)
   }"

definition scheduler_yield ::
  "('r, 'm) kernel_ops \<Rightarrow> ('r, 'm) kernel \<Rightarrow> (unit control \<times> ('r, 'm) kernel) option" where
  "scheduler_yield k s = do {
     s \<leftarrow> spinlock_lock s;
     let s = (case current_process s of
         Some c \<Rightarrow>
           if idle_process s \<noteq> Some c
           then (if PCB_HAS_FLAG (procs s c) PROCESS_FLAG_SCHED_MLFQ then upd c (\<lambda>q. q\<lparr>time_in_queue := 0\<rparr>) s else s)
             \<lparr>need_reschedule := True\<rparr>
           else s
       | None \<Rightarrow> s);
     scheduler_schedule k (spinlock_unlock s)
   }"

definition scheduler_block_process ::
  "('r, 'm) kernel_ops \<Rightarrow> ('r, 'm) kernel \<Rightarrow> (int control \<times> ('r, 'm) kernel) option" where
  "scheduler_block_process k s = do {
     s \<leftarrow> spinlock_lock s;
     case current_process s of
       None \<Rightarrow> Some (Return (-1), spinlock_unlock s)
     | Some c \<Rightarrow>
         if idle_process s = Some c then Some (Return (-1), spinlock_unlock s)
         else do {
           let s = upd c (pcb_set_state k PROCESS_BLOCKED) s;
           let s = s\<lparr>wait_queue := wait_queue_enqueue k c (wait_queue s), need_reschedule := True\<rparr>;
           (c, s) \<leftarrow> scheduler_schedule k (spinlock_unlock s);
           Some (map_control (\<lambda>_. 0) c, s)
         }
   }"

definition scheduler_wakeup_process ::
  "('r, 'm) kernel_ops \<Rightarrow> u32 \<Rightarrow> ('r, 'm) kernel \<Rightarrow> (int \<times> ('r, 'm) kernel) option" where
  "scheduler_wakeup_process k n s = do {
     s \<leftarrow> spinlock_lock s;
     Some (case find (\<lambda>p. pid (procs s p) = n) (wait_queue s) of
       None \<Rightarrow> (-1, spinlock_unlock s)
     | Some p \<Rightarrow>
         let s = s\<lparr>wait_queue := wait_queue_remove k p (wait_queue s)\<rparr>;
             s = add_to_ready_queue_internal k p (upd p (pcb_set_state k PROCESS_READY) s)
         in (0, spinlock_unlock s))
   }"

definition scheduler_sleep_process ::
  "('r, 'm) kernel_ops \<Rightarrow> u32 \<Rightarrow> ('r, 'm) kernel \<Rightarrow> (int control \<times> ('r, 'm) kernel) option" where
  "scheduler_sleep_process k ticks s = do {
     s \<leftarrow> spinlock_lock s;
     case current_process s of
       None \<Rightarrow> Some (Return (-1), spinlock_unlock s)
     | Some c \<Rightarrow>
         if idle_process s = Some c then Some (Return (-1), spinlock_unlock s)
         else do {
           let s = upd c (pcb_set_state k PROCESS_SLEEPING) s;
           let s = upd c (\<lambda>q. q\<lparr>deadline := system_ticks s + ticks\<rparr>) s;
           let s = s\<lparr>sleep_queue := wait_queue_enqueue k c (sleep_queue s), need_reschedule := True\<rparr>;
           (c, s) \<leftarrow> scheduler_schedule k (spinlock_unlock s);
           Some (map_control (\<lambda>_. 0) c, s)
         }
   }"

definition scheduler_set_priority ::
  "('r, 'm) kernel_ops \<Rightarrow> u32 \<Rightarrow> u8 \<Rightarrow> ('r, 'm) kernel \<Rightarrow> (int \<times> ('r, 'm) kernel) option" where
  "scheduler_set_priority k n prio s = do {
     s \<leftarrow> spinlock_lock s;
     Some (case process_table_find k n (procs s) of
       None \<Rightarrow> (-1, spinlock_unlock s)
     | Some p \<Rightarrow>
         let prio = (if MAX_PRIORITY_LEVELS \<le> prio then MAX_PRIORITY_LEVELS - 1 else prio);
             old_priority = priority (procs s p);
             s = upd p (pcb_set_priority k prio) s;
             s = upd p (\<lambda>q. q\<lparr>time_slice := calculate_time_slice k prio (time_quantum (config s))\<rparr>) s;
             s = (if kstate (procs s p) = PROCESS_READY
                  then add_to_ready_queue_internal k p (remove_from_ready_queue_internal k p s) else s)
         in (0, spinlock_unlock (klogs (PriorityChanged n old_priority prio) s)))
   }"

definition scheduler_get_current_process :: "('r, 'm) kernel \<Rightarrow> nat option" where
  "scheduler_get_current_process s = current_process s"

definition scheduler_get_process ::
  "('r, 'm) kernel_ops \<Rightarrow> u32 \<Rightarrow> ('r, 'm) kernel \<Rightarrow> (nat option \<times> ('r, 'm) kernel) option" where
  "scheduler_get_process k n s = do {
     s \<leftarrow> spinlock_lock s;
     let p = process_table_find k n (procs s);
     Some (p, spinlock_unlock s)
   }"

definition scheduler_get_stats :: "('r, 'm) kernel \<Rightarrow> (kstats \<times> ('r, 'm) kernel) option" where
  "scheduler_get_stats s = do {
     s \<leftarrow> spinlock_lock s;
     let st = stats s;
     Some (st, spinlock_unlock s)
   }"

definition scheduler_print_status :: "('r, 'm) kernel_ops \<Rightarrow> ('r, 'm) kernel \<Rightarrow> ('r, 'm) kernel option" where
  "scheduler_print_status k s = do {
     s \<leftarrow> spinlock_lock s;
     let s = klogs (Status (system_ticks s) (scheduler_running s) (current_process s)
       (ready_queue_count k (ready_queue s)) (stats s)) s;
     Some (spinlock_unlock s)
   }"

end
