(* ===== verification/Kernel_Facts.thy ===== *)
theory Kernel_Facts
  imports Kernel_Sched
begin

text \<open>
  Facts about the kernel scheduler, for every implementation of the operations that \<^verbatim>\<open>pcb.h\<close> only
  declares; what a theorem needs of them is a hypothesis. The lock discipline of all entry points,
  dispatching, the idle process that is never preempted, the statistics, and terminated processes
  under the MLFQ.
\<close>

section \<open>What the internal functions leave alone\<close>

definition frame :: "('r, 'm) kernel \<Rightarrow> bool \<times> bool \<times> nat option \<times> nat option \<times> bool \<times> kconfig \<times> u32" where
  "frame s = (locked s, scheduler_running s, current_process s, idle_process s, need_reschedule s, config s,
     system_ticks s)"

lemma frame_fields:
  "frame s' = frame s \<Longrightarrow> locked s' = locked s \<and> scheduler_running s' = scheduler_running s \<and>
    current_process s' = current_process s \<and> idle_process s' = idle_process s \<and>
    need_reschedule s' = need_reschedule s \<and> config s' = config s \<and> system_ticks s' = system_ticks s"
  by (simp add: frame_def)

lemma frame_upd [simp]: "frame (upd i f s) = frame s"
  by (simp add: frame_def upd_def)

lemma frame_klogs [simp]: "frame (klogs x s) = frame s"
  by (simp add: frame_def klogs_def)

lemma frame_next [simp]: "frame (snd (get_next_process k s)) = frame s"
  by (simp add: frame_def get_next_process_def split: prod.splits)

lemma frame_add [simp]: "frame (add_to_ready_queue_internal k p s) = frame s"
  by (simp add: frame_def add_to_ready_queue_internal_def split: scheduler_kind.splits)

lemma frame_remove [simp]: "frame (remove_from_ready_queue_internal k p s) = frame s"
  by (simp add: frame_def remove_from_ready_queue_internal_def split: scheduler_kind.splits)

lemma frame_times [simp]: "frame (update_process_times k s) = frame s"
  by (simp add: frame_def update_process_times_def upd_def Let_def split: option.splits prod.splits)

lemma frame_wake: "frame (snd (wake_sleepers k ps s)) = frame s"
  by (induction ps arbitrary: s) (simp_all split: prod.splits, metis snd_conv)

lemma frame_check [simp]: "frame (check_sleeping_processes k s) = frame s"
proof -
  obtain r t where "wake_sleepers k (sleep_queue s) s = (r, t)" by (cases "wake_sleepers k (sleep_queue s) s")
  then show ?thesis
    using frame_wake[of k "sleep_queue s" s] by (simp add: check_sleeping_processes_def frame_def)
qed

lemma frame_balance [simp]: "frame (load_balance k s) = frame s"
  by (simp add: load_balance_def frame_def klogs_def)

lemma frame_fields_upd [simp]:
  "frame (s\<lparr>stats := st\<rparr>) = frame s" "frame (s\<lparr>last_idle_time := a\<rparr>) = frame s"
  "frame (s\<lparr>last_total_time := a\<rparr>) = frame s" "frame (s\<lparr>last_completed := a\<rparr>) = frame s"
  "frame (s\<lparr>last_time := a\<rparr>) = frame s" "frame (s\<lparr>last_idle_time := a, last_total_time := b\<rparr>) = frame s"
  "frame (s\<lparr>last_completed := a, last_time := b\<rparr>) = frame s"
  by (simp_all add: frame_def)

lemma frame_stats: "update_scheduler_stats s = Some s' \<Longrightarrow> frame s' = frame s"
  by (auto simp: update_scheduler_stats_def Let_def bind_eq_Some_conv if_distrib[of frame])

lemma stats_returns: "idle_process s \<noteq> None \<Longrightarrow> \<exists>s'. update_scheduler_stats s = Some s'"
  by (auto simp: update_scheduler_stats_def Let_def)

lemma frame_save [simp]: "frame (save_current k s) = frame s"
  by (simp add: save_current_def Let_def split: option.splits)

lemma dispatch_fields:
  "locked (dispatch k p s) = locked s \<and> idle_process (dispatch k p s) = idle_process s \<and>
   config (dispatch k p s) = config s \<and> scheduler_running (dispatch k p s) = scheduler_running s \<and>
   current_process (dispatch k p s) = Some p \<and> \<not> need_reschedule (dispatch k p s)"
proof -
  define t where "t = remove_from_ready_queue_internal k p (upd p (\<lambda>q. q\<lparr>time_started := system_ticks s, time_slice_used := 0\<rparr>)
    (upd p (pcb_set_state k PROCESS_RUNNING)
      (save_current k (s\<lparr>stats := (stats s)\<lparr>context_switches := context_switches (stats s) + 1\<rparr>\<rparr>))))"
  have "frame t = frame s" unfolding t_def by simp
  note t = frame_fields[OF this]
  have sw: "system_ticks (upd p (pcb_set_state k PROCESS_RUNNING)
      (save_current k (s\<lparr>stats := (stats s)\<lparr>context_switches := context_switches (stats s) + 1\<rparr>\<rparr>))) = system_ticks s"
  proof -
    have "frame (upd p (pcb_set_state k PROCESS_RUNNING)
      (save_current k (s\<lparr>stats := (stats s)\<lparr>context_switches := context_switches (stats s) + 1\<rparr>\<rparr>))) = frame s"
      by simp
    then show ?thesis by (rule frame_fields[THEN conjunct2, THEN conjunct2, THEN conjunct2, THEN conjunct2, THEN conjunct2, THEN conjunct2])
  qed
  show ?thesis
    unfolding dispatch_def Let_def sw t_def[symmetric] using t by (simp add: klogs_def)
qed

lemma switch_fields:
  "locked (snd (switch_to k p s)) = locked s \<and> idle_process (snd (switch_to k p s)) = idle_process s \<and>
   config (snd (switch_to k p s)) = config s \<and> scheduler_running (snd (switch_to k p s)) = scheduler_running s \<and>
   current_process (snd (switch_to k p s)) = Some p \<and> \<not> need_reschedule (snd (switch_to k p s))"
  using dispatch_fields[of k p s] by (simp add: switch_to_def Let_def)

lemma switch_control:
  "fst (switch_to k p s) = (if idle_process s = Some p then Return ()
     else Jump (ctx_esp (procs (snd (switch_to k p s)) p)) (ctx_eip (procs (snd (switch_to k p s)) p)))"
  using dispatch_fields[of k p s] by (simp add: switch_to_def Let_def)

section \<open>The lock\<close>

datatype kcall =
    Create string process_type u8 u32
  | Terminate u32 int
  | Reap u32
  | Schedule
  | Tick
  | Yield
  | Block
  | Wakeup u32
  | SleepFor u32
  | SetPriority u32 u8
  | GetProcess u32
  | GetStats
  | PrintStatus

text \<open>A call that always comes back, as one that might not.\<close>

definition comes_back :: "('a \<times> 's) option \<Rightarrow> (unit control \<times> 's) option" where
  "comes_back r = map_option (\<lambda>(_, s). (Return (), s)) r"

definition forget :: "('a control \<times> 's) option \<Rightarrow> (unit control \<times> 's) option" where
  "forget r = map_option (map_prod (map_control (\<lambda>_. ())) id) r"

fun do_call :: "('r, 'm) kernel_ops \<Rightarrow> kcall \<Rightarrow> ('r, 'm) kernel \<Rightarrow> (unit control \<times> ('r, 'm) kernel) option" where
  "do_call k (Create n t p f) s = comes_back (scheduler_create_process k n t p f s)"
| "do_call k (Terminate n c) s = comes_back (scheduler_terminate_process k n c s)"
| "do_call k (Reap n) s = comes_back (scheduler_reap_process k n s)"
| "do_call k Schedule s = scheduler_schedule k s"
| "do_call k Tick s = scheduler_tick_handler k s"
| "do_call k Yield s = scheduler_yield k s"
| "do_call k Block s = forget (scheduler_block_process k s)"
| "do_call k (Wakeup n) s = comes_back (scheduler_wakeup_process k n s)"
| "do_call k (SleepFor t) s = forget (scheduler_sleep_process k t s)"
| "do_call k (SetPriority n p) s = comes_back (scheduler_set_priority k n p s)"
| "do_call k (GetProcess n) s = comes_back (scheduler_get_process k n s)"
| "do_call k GetStats s = comes_back (scheduler_get_stats s)"
| "do_call k PrintStatus s = map_option (Pair (Return ())) (scheduler_print_status k s)"

text \<open>A sequence of calls, up to the one that leaves.\<close>

fun do_calls :: "('r, 'm) kernel_ops \<Rightarrow> kcall list \<Rightarrow> ('r, 'm) kernel \<Rightarrow> (unit control \<times> ('r, 'm) kernel) option" where
  "do_calls k [] s = Some (Return (), s)"
| "do_calls k (c # cs) s =
     (case do_call k c s of
        None \<Rightarrow> None
      | Some (Jump esp eip, s') \<Rightarrow> Some (Jump esp eip, s')
      | Some (Return u, s') \<Rightarrow> do_calls k cs s')"

definition sane :: "('r, 'm) kernel \<Rightarrow> bool" where
  "sane s \<longleftrightarrow> \<not> locked s \<and> idle_process s \<noteq> None \<and>
     (enable_multicore (config s) \<longrightarrow> load_balance_interval (config s) \<noteq> 0)"

text \<open>
  Control has left in state \<open>s\<close>: the process whose context it went to is the current one, and the
  lock is held.
\<close>

definition gone :: "u32 \<Rightarrow> u32 \<Rightarrow> ('r, 'm) kernel \<Rightarrow> bool" where
  "gone esp eip s \<longleftrightarrow> locked s \<and> scheduler_running s \<and> sane (s\<lparr>locked := False\<rparr>) \<and>
     (\<exists>p. current_process s = Some p \<and> idle_process s \<noteq> Some p \<and>
        ctx_esp (procs s p) = esp \<and> ctx_eip (procs s p) = eip)"

text \<open>\<open>settled r\<close>: the step comes back with a sane state, or control has left it.\<close>

definition settled :: "('a control \<times> ('r, 'm) kernel) option \<Rightarrow> bool" where
  "settled r \<longleftrightarrow> (\<exists>v s'. r = Some (Return v, s') \<and> sane s') \<or>
     (\<exists>esp eip s'. r = Some (Jump esp eip, s') \<and> gone esp eip s')"

lemma settled_return: "settled (Some (Return v, s)) \<longleftrightarrow> sane s"
  by (simp add: settled_def)

lemma comes_back_Some [simp]: "comes_back (Some (v, s)) = Some (Return (), s)"
  by (simp add: comes_back_def)

lemma settled_forget: "settled (forget r) \<longleftrightarrow> settled r"
  by (cases r) (auto simp: settled_def forget_def map_prod_def split: prod.splits control.splits, (metis control.exhaust control.simps)+)

lemma sane_frame: "frame s' = frame s \<Longrightarrow> sane s \<Longrightarrow> sane s'"
  by (simp add: sane_def frame_def)

lemma sane_unlock:
  "idle_process s \<noteq> None \<Longrightarrow> enable_multicore (config s) \<longrightarrow> load_balance_interval (config s) \<noteq> 0 \<Longrightarrow>
   sane (spinlock_unlock s)"
  by (simp add: sane_def spinlock_unlock_def)

definition free_frame :: "('r, 'm) kernel \<Rightarrow> nat option \<times> kconfig" where
  "free_frame s = (idle_process s, config s)"

lemma sane_unlock_frame: "sane s \<Longrightarrow> free_frame s' = free_frame s \<Longrightarrow> sane (spinlock_unlock s')"
  by (simp add: sane_def spinlock_unlock_def free_frame_def)

lemma free_frame_simps [simp]:
  "free_frame (upd i f s) = free_frame s" "free_frame (klogs x s) = free_frame s"
  "free_frame (add_to_ready_queue_internal k p s) = free_frame s"
  "free_frame (remove_from_ready_queue_internal k p s) = free_frame s"
  "free_frame (snd (switch_to k p s)) = free_frame s"
  "free_frame (snd (get_next_process k s)) = free_frame s"
  "free_frame (s\<lparr>locked := b\<rparr>) = free_frame s" "free_frame (s\<lparr>procs := ps\<rparr>) = free_frame s"
  "free_frame (s\<lparr>stats := st\<rparr>) = free_frame s" "free_frame (s\<lparr>next_pid := n\<rparr>) = free_frame s"
  "free_frame (s\<lparr>need_reschedule := b\<rparr>) = free_frame s" "free_frame (s\<lparr>current_process := c\<rparr>) = free_frame s"
  "free_frame (s\<lparr>wait_queue := w\<rparr>) = free_frame s" "free_frame (s\<lparr>sleep_queue := w\<rparr>) = free_frame s"
  using frame_fields[OF frame_add[of k p s]] frame_fields[OF frame_remove[of k p s]] switch_fields[of k p s]
    frame_fields[OF frame_next[of k s]]
  by (simp_all add: free_frame_def upd_def klogs_def)

lemma switch_gone:
  assumes "sane s" and "locked t" and "scheduler_running t" and "free_frame t = free_frame s" and "idle_process t \<noteq> Some p"
  shows "gone (ctx_esp (procs (snd (switch_to k p t)) p)) (ctx_eip (procs (snd (switch_to k p t)) p)) (snd (switch_to k p t))"
proof -
  have "idle_process t = idle_process s" "config t = config s" using assms(4) by (simp_all add: free_frame_def)
  then show ?thesis using assms(1,2,3,5) switch_fields[of k p t] by (simp add: gone_def sane_def)
qed

lemma schedule_settled:
  assumes "sane s"
  shows "settled (scheduler_schedule k s)"
proof (cases "scheduler_running s")
  case False
  then show ?thesis using assms by (simp add: scheduler_schedule_def settled_return)
next
  case True
  obtain n t where nt: "get_next_process k (s\<lparr>locked := True\<rparr>) = (n, t)" by (cases "get_next_process k (s\<lparr>locked := True\<rparr>)")
  have ft: "locked t" "scheduler_running t" using frame_fields[OF frame_next[of k "s\<lparr>locked := True\<rparr>"]] nt True by simp_all
  have ff: "free_frame t = free_frame s"
    using free_frame_simps(6)[of k "s\<lparr>locked := True\<rparr>"] nt by simp
  then have "idle_process t \<noteq> None" using assms by (simp add: sane_def free_frame_def)
  then have "(case n of Some p \<Rightarrow> Some p | None \<Rightarrow> idle_process t) \<noteq> None" by (cases n) simp_all
  then obtain nx where nx: "(case n of Some p \<Rightarrow> Some p | None \<Rightarrow> idle_process t) = Some nx" by auto
  obtain c u where sw: "switch_to k nx t = (c, u)" by (cases "switch_to k nx t")
  have fu: "free_frame u = free_frame t" using free_frame_simps(5)[of k nx t] sw by simp
  have "sane (spinlock_unlock t)" "sane (spinlock_unlock u)"
    using assms ff fu by (auto intro: sane_unlock_frame)
  moreover have "\<not> locked s" using assms by (simp add: sane_def)
  moreover have "settled (Some (case c of Jump esp eip \<Rightarrow> (Jump esp eip, u) | Return v \<Rightarrow> (Return v, spinlock_unlock u)))"
  proof (cases "idle_process t = Some nx")
    case True
    then have "c = Return ()" using switch_control[of k nx t] sw by simp
    then show ?thesis using \<open>sane (spinlock_unlock u)\<close> by (simp add: settled_return)
  next
    case False
    then show ?thesis using switch_gone[OF assms ft ff False, of k] switch_control[of k nx t] sw by (simp add: settled_def)
  qed
  ultimately show ?thesis
    using True nt nx sw
    by (auto simp: scheduler_schedule_def spinlock_lock_def settled_return Let_def split: control.splits)
qed

lemma settled_unlock:
  "sane s \<Longrightarrow> free_frame s' = free_frame s \<Longrightarrow> settled (Some (Return v, spinlock_unlock s'))"
  by (auto simp: settled_return intro: sane_unlock_frame)

lemma lock_free: "sane s \<Longrightarrow> spinlock_lock s = Some (s\<lparr>locked := True\<rparr>)"
  by (simp add: spinlock_lock_def sane_def)

lemma lock_taken: "locked s \<Longrightarrow> spinlock_lock s = None"
  by (simp add: spinlock_lock_def)

lemma settled_unlock_log:
  "sane s \<Longrightarrow> free_frame s' = free_frame s \<Longrightarrow> settled (Some (Return v, klogs x (spinlock_unlock s')))"
  using sane_unlock_frame[of s s'] by (auto simp: settled_return sane_def klogs_def)

text \<open>The tick in three parts: accounting, statistics, and the rest.\<close>

definition tick_accounting :: "('r, 'm) kernel_ops \<Rightarrow> ('r, 'm) kernel \<Rightarrow> ('r, 'm) kernel" where
  "tick_accounting k s = check_sleeping_processes k (update_process_times k (s\<lparr>system_ticks := system_ticks s + 1\<rparr>))"

definition balanced :: "('r, 'm) kernel_ops \<Rightarrow> ('r, 'm) kernel \<Rightarrow> ('r, 'm) kernel" where
  "balanced k u = (if enable_multicore (config u) \<and> system_ticks u mod load_balance_interval (config u) = 0
    then load_balance k u else u)"

definition tick_schedule ::
  "('r, 'm) kernel_ops \<Rightarrow> ('r, 'm) kernel \<Rightarrow> (unit control \<times> ('r, 'm) kernel) option" where
  "tick_schedule k v = (if need_reschedule v \<or> slice_expired v
    then scheduler_schedule k (v\<lparr>need_reschedule := True\<rparr>) else Some (Return (), v))"

lemma ktick_parts:
  assumes "update_scheduler_stats (tick_accounting k s) = Some u"
    and "enable_multicore (config u) \<longrightarrow> load_balance_interval (config u) \<noteq> 0"
  shows "scheduler_tick_handler k s = tick_schedule k (balanced k u)"
proof -
  have "scheduler_tick_handler k s = (if enable_multicore (config u)
       then if load_balance_interval (config u) = 0 then None
            else Some (if system_ticks u mod load_balance_interval (config u) = 0 then load_balance k u else u)
       else Some u) \<bind> tick_schedule k"
    using assms(1) by (simp add: scheduler_tick_handler_def tick_accounting_def tick_schedule_def[abs_def] Let_def)
  also have "\<dots> = Some (balanced k u) \<bind> tick_schedule k" using assms(2) by (simp add: balanced_def)
  finally show ?thesis by simp
qed

lemma frame_accounting: "frame (tick_accounting k s) = frame (s\<lparr>system_ticks := system_ticks s + 1\<rparr>)"
  by (simp add: tick_accounting_def)

lemma frame_balanced: "frame (balanced k u) = frame u"
  by (simp add: balanced_def)

lemma frame_tick:
  "update_scheduler_stats (tick_accounting k s) = Some u \<Longrightarrow>
   frame (balanced k u) = frame (s\<lparr>system_ticks := system_ticks s + 1\<rparr>)"
  using frame_stats frame_accounting frame_balanced by metis

lemma tick_returns:
  assumes "idle_process s \<noteq> None"
  obtains u where "update_scheduler_stats (tick_accounting k s) = Some u" and "config u = config s"
proof -
  have "idle_process (tick_accounting k s) \<noteq> None"
    using assms frame_fields[OF frame_accounting[of k s]] by simp
  then obtain u where u: "update_scheduler_stats (tick_accounting k s) = Some u" using stats_returns by blast
  moreover have "config u = config s"
    using frame_fields[OF frame_stats[OF u]] frame_fields[OF frame_accounting[of k s]] by simp
  ultimately show thesis by (rule that)
qed

lemma tick_settled:
  assumes "sane s"
  shows "settled (scheduler_tick_handler k s)"
proof -
  obtain u where u: "update_scheduler_stats (tick_accounting k s) = Some u" and cfg: "config u = config s"
    using tick_returns[of s k] assms by (auto simp: sane_def)
  have v: "sane (balanced k u)" using frame_tick[OF u] assms by (simp add: sane_def frame_def)
  have e: "scheduler_tick_handler k s = tick_schedule k (balanced k u)"
    using assms cfg by (intro ktick_parts[OF u]) (simp add: sane_def)
  show ?thesis
  proof (cases "need_reschedule (balanced k u) \<or> slice_expired (balanced k u)")
    case True
    have "sane (balanced k u\<lparr>need_reschedule := True\<rparr>)" using v by (simp add: sane_def)
    then show ?thesis unfolding e using True schedule_settled by (simp add: tick_schedule_def)
  next
    case False
    then show ?thesis unfolding e using v by (simp add: tick_schedule_def settled_return)
  qed
qed

lemma tick_blocked:
  assumes "idle_process s \<noteq> None" and "enable_multicore (config s) \<longrightarrow> load_balance_interval (config s) \<noteq> 0"
    and "scheduler_running s" and "need_reschedule s" and "locked s"
  shows "scheduler_tick_handler k s = None"
proof -
  obtain u where u: "update_scheduler_stats (tick_accounting k s) = Some u" and cfg: "config u = config s"
    using tick_returns[OF assms(1), of k] by blast
  have e: "scheduler_tick_handler k s = tick_schedule k (balanced k u)"
    using assms(2) cfg by (intro ktick_parts[OF u]) simp
  show ?thesis
    unfolding e using frame_fields[OF frame_tick[OF u]] assms(3-5)
    by (simp add: tick_schedule_def scheduler_schedule_def spinlock_lock_def)
qed

lemma terminate_settled: "sane s \<Longrightarrow> settled (comes_back (scheduler_terminate_process k n c s))"
  by (auto simp: scheduler_terminate_process_def lock_free Let_def settled_unlock settled_unlock_log
      split: option.splits)

lemma reap_settled: "sane s \<Longrightarrow> settled (comes_back (scheduler_reap_process k n s))"
  by (auto simp: scheduler_reap_process_def lock_free Let_def settled_unlock split: option.splits)

lemma create_settled: "sane s \<Longrightarrow> settled (comes_back (scheduler_create_process k n t p f s))"
  by (auto simp: scheduler_create_process_def lock_free Let_def settled_unlock settled_unlock_log
      split: option.splits prod.splits scheduler_kind.splits)

lemma yield_settled: "sane s \<Longrightarrow> settled (scheduler_yield k s)"
  by (auto simp: scheduler_yield_def lock_free Let_def intro!: schedule_settled sane_unlock_frame[of s] split: option.splits)

lemma settled_then:
  "settled r \<Longrightarrow> settled (r \<bind> (\<lambda>(c, s). Some (map_control f c, s)))"
  by (auto simp: settled_def)

lemma block_settled: "sane s \<Longrightarrow> settled (scheduler_block_process k s)"
  by (auto simp: scheduler_block_process_def lock_free Let_def settled_unlock split: option.splits
      intro!: settled_then schedule_settled sane_unlock_frame[of s])

lemma sleep_settled: "sane s \<Longrightarrow> settled (scheduler_sleep_process k ticks s)"
  by (auto simp: scheduler_sleep_process_def lock_free Let_def settled_unlock split: option.splits
      intro!: settled_then schedule_settled sane_unlock_frame[of s])

lemma wakeup_settled: "sane s \<Longrightarrow> settled (comes_back (scheduler_wakeup_process k n s))"
  by (auto simp: scheduler_wakeup_process_def lock_free Let_def settled_unlock split: option.splits)

lemma priority_settled: "sane s \<Longrightarrow> settled (comes_back (scheduler_set_priority k n p s))"
  by (auto simp: scheduler_set_priority_def lock_free Let_def settled_unlock split: option.splits)

lemma queries_settled:
  "sane s \<Longrightarrow> settled (comes_back (scheduler_get_process k n s))"
  "sane s \<Longrightarrow> settled (comes_back (scheduler_get_stats s))"
  "sane s \<Longrightarrow> settled (map_option (Pair (Return ())) (scheduler_print_status k s))"
  by (simp_all add: scheduler_get_process_def scheduler_get_stats_def scheduler_print_status_def lock_free
      Let_def settled_unlock)

lemma call_settled: "sane s \<Longrightarrow> settled (do_call k c s)"
  by (cases c) (simp_all add: create_settled terminate_settled reap_settled schedule_settled tick_settled yield_settled
      block_settled wakeup_settled sleep_settled priority_settled queries_settled settled_forget)

lemma calls_settled: "sane s \<Longrightarrow> settled (do_calls k cs s)"
proof (induction cs arbitrary: s)
  case (Cons c cs)
  from call_settled[OF Cons.prems, of k c] show ?case
    unfolding settled_def[of "do_call k c s"]
  proof (elim disjE exE conjE)
    fix v s' assume "do_call k c s = Some (Return v, s')" "sane s'"
    then show ?thesis using Cons.IH by simp
  next
    fix esp eip s' assume "do_call k c s = Some (Jump esp eip, s')" "gone esp eip s'"
    then show ?thesis by (simp add: settled_def)
  qed
qed (simp add: settled_return)

lemma tick_gone:
  assumes "gone esp eip s"
  shows "scheduler_tick_handler k s = None \<or> (\<exists>s'. scheduler_tick_handler k s = Some (Return (), s') \<and> locked s')"
proof -
  have sane: "idle_process s \<noteq> None" "enable_multicore (config s) \<longrightarrow> load_balance_interval (config s) \<noteq> 0"
    and s: "locked s" "scheduler_running s"
    using assms by (simp_all add: gone_def sane_def)
  obtain u where u: "update_scheduler_stats (tick_accounting k s) = Some u" and cfg: "config u = config s"
    using tick_returns[OF sane(1), of k] by blast
  have e: "scheduler_tick_handler k s = tick_schedule k (balanced k u)"
    using sane(2) cfg by (intro ktick_parts[OF u]) simp
  show ?thesis
    unfolding e using frame_fields[OF frame_tick[OF u]] s
    by (simp add: tick_schedule_def scheduler_schedule_def spinlock_lock_def)
qed

lemma call_gone:
  assumes "gone esp eip s"
  shows "do_call k c s = None \<or> c = Tick \<and> (\<exists>s'. do_call k c s = Some (Return (), s') \<and> locked s')"
proof (cases "c = Tick")
  case True
  then show ?thesis using tick_gone[OF assms, of k] by simp
next
  case False
  moreover have "locked s" "scheduler_running s" using assms by (simp_all add: gone_def)
  ultimately show ?thesis
    by (cases c) (simp_all add: lock_taken comes_back_def forget_def scheduler_create_process_def scheduler_terminate_process_def
        scheduler_reap_process_def scheduler_schedule_def scheduler_yield_def scheduler_block_process_def
        scheduler_wakeup_process_def scheduler_sleep_process_def scheduler_set_priority_def scheduler_get_process_def
        scheduler_get_stats_def scheduler_print_status_def)
qed


section \<open>The idle process\<close>

text \<open>What \<^verbatim>\<open>pcb_set_state\<close> is documented to do: it sets the state and keeps the accounting.\<close>

definition sets_state_only :: "('r, 'm) kernel_ops \<Rightarrow> bool" where
  "sets_state_only k \<longleftrightarrow> (\<forall>st q. kstate (pcb_set_state k st q) = st \<and>
     time_slice (pcb_set_state k st q) = time_slice q \<and> time_slice_used (pcb_set_state k st q) = time_slice_used q \<and>
     time_used (pcb_set_state k st q) = time_used q)"

definition accounts :: "kpcb \<Rightarrow> u32 \<times> u32 \<times> u32" where
  "accounts q = (time_slice q, time_slice_used q, time_used q)"

lemma procs_add [simp]: "procs (add_to_ready_queue_internal k p s) = procs s"
  by (simp add: add_to_ready_queue_internal_def split: scheduler_kind.splits)

lemma procs_remove [simp]: "procs (remove_from_ready_queue_internal k p s) = procs s"
  by (simp add: remove_from_ready_queue_internal_def split: scheduler_kind.splits)

lemma procs_next [simp]: "procs (snd (get_next_process k s)) = procs s"
  by (simp add: get_next_process_def split: prod.splits)

lemma procs_stats: "update_scheduler_stats s = Some s' \<Longrightarrow> procs s' = procs s"
  by (auto simp: update_scheduler_stats_def Let_def bind_eq_Some_conv if_distrib[of procs])

lemma procs_balanced [simp]: "procs (balanced k u) = procs u" "stats (balanced k u) = stats u"
    "last_idle_time (balanced k u) = last_idle_time u" "last_total_time (balanced k u) = last_total_time u"
  by (simp_all add: balanced_def load_balance_def klogs_def)

lemma wake_keeps:
  "i \<notin> set ps \<Longrightarrow> wake_sleepers k ps s = (r, t) \<Longrightarrow> procs t i = procs s i \<and> set r \<subseteq> set ps \<and>
     wait_queue t = wait_queue s \<and> last_idle_time t = last_idle_time s \<and> last_total_time t = last_total_time s \<and>
     stats t = stats s"
proof (induction ps arbitrary: s r t)
  case (Cons p ps)
  define u where "u = add_to_ready_queue_internal k p (upd p (pcb_set_state k PROCESS_READY) s)"
  have u: "procs u i = procs s i" "wait_queue u = wait_queue s" "last_idle_time u = last_idle_time s"
    "last_total_time u = last_total_time s" "stats u = stats s"
    using Cons.prems(1)
    by (simp_all add: u_def add_to_ready_queue_internal_def upd_def split: scheduler_kind.splits)
  show ?case
  proof (cases "deadline (procs s p) \<le> system_ticks s")
    case True
    then have "wake_sleepers k ps u = (r, t)" using Cons.prems(2) by (simp add: u_def)
    then show ?thesis using Cons.IH[of u r t] Cons.prems(1) u by auto
  next
    case False
    obtain r' where "wake_sleepers k ps s = (r', t)" "r = p # r'"
      using False Cons.prems(2) by (auto split: prod.splits)
    then show ?thesis using Cons.IH[of s r' t] Cons.prems(1) by auto
  qed
qed simp

lemma stats_utilization:
  assumes "update_scheduler_stats s = Some s'" and "idle_process s = Some i"
    and "last_idle_time s = time_used (procs s i)"
  shows "last_idle_time s' = time_used (procs s i) \<and> wait_queue s' = wait_queue s \<and> sleep_queue s' = sleep_queue s \<and>
    cpu_utilization (stats s') = (if last_total_time s < system_ticks s then 100 else cpu_utilization (stats s))"
proof (cases "last_total_time s < system_ticks s")
  case True
  then have "0 < system_ticks s - last_total_time s" by (simp add: word_gt_0)
  with True show ?thesis
    using assms by (auto simp: update_scheduler_stats_def Let_def split: if_splits)
next
  case False
  then show ?thesis
    using assms by (auto simp: update_scheduler_stats_def Let_def split: if_splits)
qed

text \<open>
  The idle process is the current one, with a slice that is not used up, nobody has asked for a switch,
  and the lock is free. The idle process is never blocked or put to sleep, so it waits in no queue.
\<close>

definition idling :: "('r, 'm) kernel \<Rightarrow> bool" where
  "idling s \<longleftrightarrow> (\<exists>i. current_process s = Some i \<and> idle_process s = Some i \<and> kstate (procs s i) = PROCESS_RUNNING \<and>
     time_slice_used (procs s i) < time_slice (procs s i) \<and> last_idle_time s = time_used (procs s i) \<and>
     i \<notin> set (sleep_queue s) \<and> i \<notin> set (wait_queue s)) \<and> \<not> need_reschedule s \<and> \<not> locked s \<and>
     (enable_multicore (config s) \<longrightarrow> load_balance_interval (config s) \<noteq> 0)"

text \<open>
  What the declared operations are for: \<^verbatim>\<open>pcb_alloc\<close> hands out a free PCB and leaves the running one
  alone, and removing from a wait queue adds nothing to it.
\<close>

definition spares_running :: "('r, 'm) kernel_ops \<Rightarrow> bool" where
  "spares_running k \<longleftrightarrow>
     (\<forall>ps i. kstate (ps i) = PROCESS_RUNNING \<longrightarrow> fst (pcb_alloc k ps) \<noteq> Some i \<and> snd (pcb_alloc k ps) i = ps i) \<and>
     (\<forall>p w. set (wait_queue_remove k p w) \<subseteq> set w)"

text \<open>The calls that interrupt handlers make while the idle process halts: ticks, creations, wake-ups, queries.\<close>

fun from_interrupts :: "kcall \<Rightarrow> bool" where
  "from_interrupts (Create n t p f) = True"
| "from_interrupts Tick = True"
| "from_interrupts (Wakeup n) = True"
| "from_interrupts (GetProcess n) = True"
| "from_interrupts GetStats = True"
| "from_interrupts PrintStatus = True"
| "from_interrupts c = False"

text \<open>What such a call leaves of an idling state.\<close>

definition still_idling :: "('r, 'm) kernel \<Rightarrow> ('r, 'm) kernel \<Rightarrow> bool" where
  "still_idling s s' \<longleftrightarrow> idling s' \<and> current_process s' = current_process s \<and> idle_process s' = idle_process s"

lemma idle_tick:
  assumes idle: "idling s"
  shows "\<exists>s'. scheduler_tick_handler k s = Some (Return (), s') \<and> still_idling s s' \<and>
    cpu_utilization (stats s') = (if last_total_time s < system_ticks s + 1 then 100 else cpu_utilization (stats s))"
proof -
  obtain i where i: "current_process s = Some i" "idle_process s = Some i" "kstate (procs s i) = PROCESS_RUNNING"
    "time_slice_used (procs s i) < time_slice (procs s i)" "last_idle_time s = time_used (procs s i)"
    "i \<notin> set (sleep_queue s)" "i \<notin> set (wait_queue s)"
    and n: "\<not> need_reschedule s" "\<not> locked s"
    and cfg: "enable_multicore (config s) \<longrightarrow> load_balance_interval (config s) \<noteq> 0"
    using idle by (auto simp: idling_def)
  define s1 where "s1 = s\<lparr>system_ticks := system_ticks s + 1\<rparr>"
  obtain r t0 where w: "wake_sleepers k (sleep_queue s1) s1 = (r, t0)" by (cases "wake_sleepers k (sleep_queue s1) s1")
  have acc: "tick_accounting k s = t0\<lparr>sleep_queue := r\<rparr>"
    using i w by (simp add: tick_accounting_def check_sleeping_processes_def update_process_times_def s1_def)
  have "procs t0 i = procs s1 i \<and> set r \<subseteq> set (sleep_queue s1) \<and> wait_queue t0 = wait_queue s1 \<and>
      last_idle_time t0 = last_idle_time s1 \<and> last_total_time t0 = last_total_time s1 \<and> stats t0 = stats s1"
    by (rule wake_keeps[OF _ w]) (simp add: s1_def i(6))
  then have a: "procs t0 i = procs s i" "set r \<subseteq> set (sleep_queue s)" "wait_queue t0 = wait_queue s"
      "last_idle_time t0 = last_idle_time s" "last_total_time t0 = last_total_time s" "stats t0 = stats s"
    by (simp_all add: s1_def)
  obtain u where u: "update_scheduler_stats (tick_accounting k s) = Some u" and cu: "config u = config s"
    using tick_returns[of s k] i by auto
  define v where "v = balanced k u"
  note fv = frame_fields[OF frame_tick[OF u], folded v_def]
  have tk: "system_ticks (tick_accounting k s) = system_ticks s + 1" "idle_process (tick_accounting k s) = Some i"
    using frame_fields[OF frame_accounting[of k s]] i by simp_all
  have su: "last_idle_time u = time_used (procs t0 i) \<and> wait_queue u = wait_queue s \<and> sleep_queue u = r \<and>
      cpu_utilization (stats u) = (if last_total_time s < system_ticks s + 1 then 100 else cpu_utilization (stats s))"
    using stats_utilization[OF u tk(2)] tk(1) a i(5) by (simp add: acc)
  have pv: "procs v i = procs s i" using procs_stats[OF u] a by (simp add: v_def acc)
  have qv: "wait_queue v = wait_queue s" "sleep_queue v = r"
    using su by (simp_all add: v_def balanced_def load_balance_def klogs_def)
  have "idling v"
    unfolding idling_def using fv i n cfg su pv a qv by (auto simp: v_def)
  moreover have "\<not> slice_expired v" using fv i pv by (simp add: slice_expired_def not_le)
  then have "scheduler_tick_handler k s = Some (Return (), v)"
    using ktick_parts[OF u] cfg cu fv n by (simp add: tick_schedule_def flip: v_def)
  ultimately show ?thesis using fv su by (auto simp: v_def still_idling_def)
qed

text \<open>The two fields that only a tick changes.\<close>

definition clocks :: "('r, 'm) kernel \<Rightarrow> u32 \<times> u32 \<times> u32" where
  "clocks s = (cpu_utilization (stats s), last_total_time s, system_ticks s)"

lemma enqueue_keeps [simp]:
  "wait_queue (add_to_ready_queue_internal k p s) = wait_queue s"
  "sleep_queue (add_to_ready_queue_internal k p s) = sleep_queue s"
  "last_idle_time (add_to_ready_queue_internal k p s) = last_idle_time s"
  "clocks (add_to_ready_queue_internal k p s) = clocks s"
  by (simp_all add: add_to_ready_queue_internal_def clocks_def split: scheduler_kind.splits)

text \<open>Everything that \<open>idling\<close> looks at, apart from the lock and the wait queue.\<close>

definition idle_view :: "nat \<Rightarrow> ('r, 'm) kernel \<Rightarrow> (nat option \<times> nat option \<times> bool \<times> kconfig) \<times> kpcb \<times> nat list \<times> u32 \<times> u32 \<times> u32 \<times> u32" where
  "idle_view i s = ((current_process s, idle_process s, need_reschedule s, config s), procs s i, sleep_queue s,
     last_idle_time s, clocks s)"

lemma idle_view_simps [simp]:
  "p \<noteq> i \<Longrightarrow> idle_view i (upd p f s) = idle_view i s"
  "idle_view i (klogs x s) = idle_view i s"
  "idle_view i (add_to_ready_queue_internal k p s) = idle_view i s"
  "idle_view i (spinlock_unlock s) = idle_view i s" "idle_view i (s\<lparr>locked := b\<rparr>) = idle_view i s"
  "idle_view i (s\<lparr>next_pid := n\<rparr>) = idle_view i s" "idle_view i (s\<lparr>wait_queue := w\<rparr>) = idle_view i s"
  "idle_view i (s\<lparr>stats := (stats s)\<lparr>processes_created := c\<rparr>\<rparr>) = idle_view i s"
  "ps i = procs s i \<Longrightarrow> idle_view i (s\<lparr>procs := ps\<rparr>) = idle_view i s"
  using frame_fields[OF frame_add[of k p s]] enqueue_keeps(4)[of k p s]
  by (simp_all add: idle_view_def clocks_def upd_def klogs_def spinlock_unlock_def)

lemma wait_queue_simps [simp]:
  "wait_queue (upd p f s) = wait_queue s" "wait_queue (klogs x s) = wait_queue s"
  "wait_queue (spinlock_unlock s) = wait_queue s" "locked (spinlock_unlock s) = False"
  "locked (klogs x s) = locked s"
  by (simp_all add: upd_def klogs_def spinlock_unlock_def)

lemma still_idling_view:
  assumes "idling s" and "idle_process s = Some i" and "idle_view i s' = idle_view i s"
    and "\<not> locked s'" and "set (wait_queue s') \<subseteq> set (wait_queue s)"
  shows "still_idling s s' \<and> clocks s' = clocks s"
  using assms by (auto simp: still_idling_def idling_def idle_view_def)

lemma idle_create:
  assumes k: "spares_running k" and "idling s"
  shows "\<exists>r s'. scheduler_create_process k n t p f s = Some (r, s') \<and> still_idling s s' \<and> clocks s' = clocks s"
proof -
  obtain i where i: "current_process s = Some i" "idle_process s = Some i" "kstate (procs s i) = PROCESS_RUNNING"
    and lock: "\<not> locked s"
    using assms(2) by (auto simp: idling_def)
  obtain new ps where al: "pcb_alloc k (procs s) = (new, ps)" by (cases "pcb_alloc k (procs s)")
  have new: "new \<noteq> Some i" "ps i = procs s i" using k i(3) al by (auto simp: spares_running_def) (metis fst_conv snd_conv)+
  have "\<exists>r s'. scheduler_create_process k n t p f s = Some (r, s') \<and> idle_view i s' = idle_view i s \<and>
      \<not> locked s' \<and> wait_queue s' = wait_queue s"
  proof (cases new)
    case None
    then show ?thesis using lock al new by (simp add: scheduler_create_process_def spinlock_lock_def)
  next
    case (Some q)
    then have "q \<noteq> i" using new by simp
    have cur: "current_process (upd q g (upd q h u)) = current_process u" "idle_process (upd q g (upd q h u)) = idle_process u" for g h u
      by (simp_all add: upd_def)
    show ?thesis
      using lock al new(2) i(1,2) \<open>q \<noteq> i\<close> Some
      by (cases "scheduler_type (config s)")
        (simp_all add: scheduler_create_process_def spinlock_lock_def cur Let_def, simp_all add: upd_def)
  qed
  then show ?thesis using still_idling_view[OF assms(2) i(2)] by (metis order_refl)
qed

lemma idle_wakeup:
  assumes k: "spares_running k" and "idling s"
  shows "\<exists>r s'. scheduler_wakeup_process k n s = Some (r, s') \<and> still_idling s s' \<and> clocks s' = clocks s"
proof -
  obtain i where i: "idle_process s = Some i" "i \<notin> set (wait_queue s)" and lock: "\<not> locked s"
    using assms(2) by (auto simp: idling_def)
  have "\<exists>r s'. scheduler_wakeup_process k n s = Some (r, s') \<and> idle_view i s' = idle_view i s \<and>
      \<not> locked s' \<and> set (wait_queue s') \<subseteq> set (wait_queue s)"
  proof (cases "find (\<lambda>p. pid (procs s p) = n) (wait_queue s)")
    case None
    then show ?thesis using lock by (simp add: scheduler_wakeup_process_def spinlock_lock_def)
  next
    case (Some p)
    then have "p \<noteq> i" using i(2) by (auto simp: find_Some_iff)
    then show ?thesis
      using lock k Some by (simp add: scheduler_wakeup_process_def spinlock_lock_def Let_def spares_running_def)
  qed
  then show ?thesis using still_idling_view[OF assms(2) i(1)] by metis
qed

lemma idle_call:
  assumes "spares_running k" and "idling s" and "from_interrupts c"
  shows "\<exists>s'. do_call k c s = Some (Return (), s') \<and> still_idling s s' \<and>
    (if c = Tick then cpu_utilization (stats s') =
       (if last_total_time s < system_ticks s + 1 then 100 else cpu_utilization (stats s))
     else clocks s' = clocks s)"
proof -
  obtain i where i: "idle_process s = Some i" and lock: "\<not> locked s" using assms(2) by (auto simp: idling_def)
  have same: "still_idling s (spinlock_unlock u) \<and> clocks (spinlock_unlock u) = clocks s"
    if "idle_view i u = idle_view i s" "wait_queue u = wait_queue s" for u
    using still_idling_view[OF assms(2) i, of "spinlock_unlock u"] that by simp
  show ?thesis
  proof (cases c)
    case (Create n t p f)
    then show ?thesis using idle_create[OF assms(1,2), of n t p f] by (auto simp: comes_back_def)
  next
    case (Wakeup n)
    then show ?thesis using idle_wakeup[OF assms(1,2), of n] by (auto simp: comes_back_def)
  next
    case Tick
    then show ?thesis using idle_tick[OF assms(2), of k] by auto
  qed (use assms(3) lock same in \<open>simp_all add: scheduler_get_process_def scheduler_get_stats_def
      scheduler_print_status_def spinlock_lock_def Let_def\<close>)
qed

lemma idle_calls:
  assumes "spares_running k"
  shows "idling s \<Longrightarrow> list_all from_interrupts cs \<Longrightarrow>
    \<exists>s'. do_calls k cs s = Some (Return (), s') \<and> still_idling s s' \<and>
      (cpu_utilization (stats s) = 100 \<or> Tick \<in> set cs \<and> last_total_time s < system_ticks s + 1 \<longrightarrow>
        cpu_utilization (stats s') = 100)"
proof (induction cs arbitrary: s)
  case Nil
  then show ?case by (simp add: still_idling_def)
next
  case (Cons c cs)
  obtain s1 where s1: "do_call k c s = Some (Return (), s1)" "still_idling s s1"
    and u: "if c = Tick then cpu_utilization (stats s1) =
       (if last_total_time s < system_ticks s + 1 then 100 else cpu_utilization (stats s))
     else clocks s1 = clocks s"
    using idle_call[OF assms Cons.prems(1), of c] Cons.prems(2) by auto
  obtain s' where s': "do_calls k cs s1 = Some (Return (), s')" "still_idling s1 s'"
    "cpu_utilization (stats s1) = 100 \<or> Tick \<in> set cs \<and> last_total_time s1 < system_ticks s1 + 1 \<longrightarrow>
      cpu_utilization (stats s') = 100"
    using Cons.IH[of s1] s1(2) Cons.prems(2) by (auto simp: still_idling_def)
  have "cpu_utilization (stats s') = 100"
    if "cpu_utilization (stats s) = 100 \<or> Tick \<in> set (c # cs) \<and> last_total_time s < system_ticks s + 1"
    using that u s'(3) by (auto simp: clocks_def split: if_splits)
  then show ?case using s1 s' by (simp add: still_idling_def)
qed


text \<open>Initialising leaves the system there: nothing runs until a call other than these asks for a switch.\<close>

lemma create_first:
  assumes "scheduler_create_process k n t p f s = Some (Some i, s')" and "\<not> locked s" and "current_process s = None"
    and k: "sets_state_only k" "\<And>n name t p q. time_slice_used (pcb_init k n name t p q) = 0 \<and> time_used (pcb_init k n name t p q) = 0"
  shows "time_slice_used (procs s' i) = 0 \<and> time_used (procs s' i) = 0 \<and>
    time_slice (procs s' i) = calculate_time_slice k p (time_quantum (config s)) \<and> \<not> locked s' \<and>
    config s' = config s \<and> last_idle_time s' = last_idle_time s \<and> wait_queue s' = wait_queue s \<and> sleep_queue s' = sleep_queue s"
proof -
  obtain new ps where al: "pcb_alloc k (procs s) = (new, ps)" by (cases "pcb_alloc k (procs s)")
  have st: "time_slice (pcb_set_state k x q) = time_slice q" "time_slice_used (pcb_set_state k x q) = time_slice_used q"
    "time_used (pcb_set_state k x q) = time_used q" for x q
    using k(1) by (simp_all add: sets_state_only_def)
  show ?thesis
  proof (cases new)
    case None
    then show ?thesis using assms(1-3) al by (simp add: scheduler_create_process_def spinlock_lock_def)
  next
    case (Some q)
    have cfg: "config (add_to_ready_queue_internal k p u) = config u" for p u
      using frame_fields[OF frame_add[of k p u]] by simp
    show ?thesis
      using assms(1-3) al Some
      by (cases "scheduler_type (config s)")
        (auto simp: scheduler_create_process_def spinlock_lock_def Let_def st k(2) cfg upd_def klogs_def PCB_SET_FLAG_def
          spinlock_unlock_def)
  qed
qed

lemma init_idles:
  assumes init: "scheduler_init k entry cfg zr zm s = Some s'" and i: "idle_process s' = Some i"
    and k: "sets_state_only k" "\<And>n name t p q. time_slice_used (pcb_init k n name t p q) = 0 \<and> time_used (pcb_init k n name t p q) = 0"
    and slice: "0 < calculate_time_slice k 3 (time_quantum (config s'))"
    and "last_idle_time s = 0"
    and cfg: "enable_multicore (config s') \<longrightarrow> load_balance_interval (config s') \<noteq> 0"
  shows "idling s'"
proof -
  have p3: "MAX_PRIORITY_LEVELS - 1 = 3" by (simp add: MAX_PRIORITY_LEVELS_def)
  obtain s0 new t where c: "scheduler_create_process k ''idle'' PROCESS_TYPE_SYSTEM 3 PROCESS_FLAG_CPU_BOUND s0 = Some (new, t)"
    and s0: "\<not> locked s0" "current_process s0 = None" "last_idle_time s0 = 0" "wait_queue s0 = []" "sleep_queue s0 = []"
    and s': "s' = (case new of
         None \<Rightarrow> klogs NoIdle (t\<lparr>idle_process := None\<rparr>)
       | Some i \<Rightarrow>
           let s = upd i (\<lambda>q. q\<lparr>ctx_eip := entry\<rparr>) (t\<lparr>idle_process := new\<rparr>);
               s = upd i (\<lambda>q. q\<lparr>kstate := PROCESS_RUNNING\<rparr>) (s\<lparr>current_process := Some i\<rparr>)
           in klogs InitDone (s\<lparr>system_ticks := 0, last_schedule_time := 0, scheduler_running := True,
                need_reschedule := False, timer_registered := True\<rparr>))"
    using init assms(6) unfolding scheduler_init_def p3
    by (auto simp: Let_def clear_state_def bind_eq_Some_conv split: if_splits option.splits)
  from s' i have n: "new = Some i" by (auto simp: klogs_def upd_def Let_def split: option.splits)
  note f = create_first[OF c[unfolded n] s0(1,2) k]
  show ?thesis
    using f s0 slice cfg i by (auto simp: s' n idling_def klogs_def upd_def Let_def)
qed

section \<open>Dispatching\<close>

text \<open>
  What the ready queue is documented to do, through the list \<open>q r\<close> of its processes; \<open>cap\<close> is its
  \<^verbatim>\<open>max_count\<close>, and nothing is said of adding to a full queue.
\<close>

definition queue_laws :: "('r, 'm) kernel_ops \<Rightarrow> ('r \<Rightarrow> nat list) \<Rightarrow> nat \<Rightarrow> bool" where
  "queue_laws k q cap \<longleftrightarrow>
     (\<forall>p r. length (q r) < cap \<longrightarrow> q (ready_queue_enqueue k p r) = q r @ [p]) \<and>
     (\<forall>r. case q r of [] \<Rightarrow> fst (ready_queue_dequeue k r) = None \<and> q (snd (ready_queue_dequeue k r)) = []
        | p # ps \<Rightarrow> fst (ready_queue_dequeue k r) = Some p \<and> q (snd (ready_queue_dequeue k r)) = ps) \<and>
     (\<forall>p r. q (ready_queue_remove k p r) = filter (\<lambda>x. x \<noteq> p) (q r))"

definition keeps_context :: "('r, 'm) kernel_ops \<Rightarrow> bool" where
  "keeps_context k \<longleftrightarrow> (\<forall>st q. ctx_esp (pcb_set_state k st q) = ctx_esp q \<and> ctx_eip (pcb_set_state k st q) = ctx_eip q)"

lemma save_stats: "save_current k (s\<lparr>stats := x\<rparr>) = (save_current k s)\<lparr>stats := x\<rparr>"
  by (auto simp: save_current_def upd_def add_to_ready_queue_internal_def Let_def split: option.splits scheduler_kind.splits)

lemma switch_procs:
  "procs (snd (switch_to k p s)) = (procs (save_current k s))(p := (pcb_set_state k PROCESS_RUNNING (procs (save_current k s) p))
     \<lparr>time_started := system_ticks s, time_slice_used := 0\<rparr>)"
proof -
  have "system_ticks (save_current k s) = system_ticks s" by (rule frame_fields[OF frame_save, THEN conjunct2, THEN conjunct2,
      THEN conjunct2, THEN conjunct2, THEN conjunct2, THEN conjunct2])
  then show ?thesis
    by (simp add: switch_to_def dispatch_def save_stats Let_def klogs_def upd_def)
qed

lemma switch_ready: "scheduler_type (config s) \<in> {SCHEDULER_RR, SCHEDULER_FIFO} \<Longrightarrow>
  ready_queue (snd (switch_to k p s)) = ready_queue_remove k p (ready_queue (save_current k s))"
proof -
  assume "scheduler_type (config s) \<in> {SCHEDULER_RR, SCHEDULER_FIFO}"
  moreover have "config (save_current k s) = config s" using frame_fields[OF frame_save[of k s]] by simp
  ultimately show ?thesis
    by (auto simp: switch_to_def dispatch_def save_stats Let_def klogs_def upd_def remove_from_ready_queue_internal_def)
qed

text \<open>A call of the scheduler that finds another process \<open>p\<close> to run.\<close>

lemma schedule_switches:
  assumes "scheduler_running s" and "\<not> locked s" and "get_next_process k (s\<lparr>locked := True\<rparr>) = (Some p, t)"
    and "current_process s \<noteq> Some p"
  obtains r s' where "scheduler_schedule k s = Some (r, s')" and "procs s' = procs (snd (switch_to k p t))"
    and "ready_queue s' = ready_queue (snd (switch_to k p t))" and "current_process s' = Some p"
    and "if idle_process s = Some p then r = Return () \<and> \<not> locked s'
         else r = Jump (ctx_esp (procs s' p)) (ctx_eip (procs s' p)) \<and> locked s'"
proof -
  have t: "current_process t = current_process s" "idle_process t = idle_process s" "locked t"
    using frame_fields[OF frame_next[of k "s\<lparr>locked := True\<rparr>"]] assms(3) by simp_all
  obtain c u where sw: "switch_to k p t = (c, u)" by (cases "switch_to k p t")
  have e: "scheduler_schedule k s = Some (case c of Jump esp eip \<Rightarrow> (Jump esp eip, u) | Return v \<Rightarrow> (Return v, spinlock_unlock u))"
    using assms t(1) by (simp add: scheduler_schedule_def spinlock_lock_def Let_def sw)
  show thesis
  proof (cases "idle_process s = Some p")
    case True
    then have "c = Return ()" using switch_control[of k p t] sw t(2) by simp
    then show thesis
      using True e switch_fields[of k p t] sw by (intro that[of c "spinlock_unlock u"]) (simp_all add: spinlock_unlock_def)
  next
    case False
    then have "c = Jump (ctx_esp (procs u p)) (ctx_eip (procs u p))" using switch_control[of k p t] sw t(2) by simp
    then show thesis
      using False e switch_fields[of k p t] sw t(3) by (intro that[of c u]) simp_all
  qed
qed

text \<open>
  Property C13. Under round robin and FIFO, for every ready queue that keeps the order of a list up
  to its capacity, scheduling takes the first ready process \<open>p\<close> and makes it the running one with a
  fresh slice. The process that was running is put at the end of the queue, unless it was the idle
  process, which is not put into it. Control goes to the saved context of \<open>p\<close> and the lock stays
  taken; only when \<open>p\<close> is the idle process does the call return, with the lock free.
\<close>

theorem kernel_schedule_rotates:
  assumes k: "sets_state_only k" "keeps_context k" "queue_laws k q cap"
    and type: "scheduler_type (config s) \<in> {SCHEDULER_RR, SCHEDULER_FIFO}"
    and s: "scheduler_running s" "\<not> locked s" "current_process s = Some c" "kstate (procs s c) = PROCESS_RUNNING"
    and ready: "q (ready_queue s) = p # ps" "p \<notin> set ps" "p \<noteq> c" "length (p # ps) \<le> cap"
  shows "\<exists>r s'. scheduler_schedule k s = Some (r, s') \<and> current_process s' = Some p \<and>
    kstate (procs s' p) = PROCESS_RUNNING \<and> time_slice_used (procs s' p) = 0 \<and>
    (if idle_process s = Some c then q (ready_queue s') = ps
     else q (ready_queue s') = ps @ [c] \<and> kstate (procs s' c) = PROCESS_READY) \<and>
    (if idle_process s = Some p then r = Return () \<and> \<not> locked s'
     else r = Jump (ctx_esp (procs s p)) (ctx_eip (procs s p)) \<and> locked s')"
proof -
  have dq: "fst (ready_queue_dequeue k (ready_queue s)) = Some p" "q (snd (ready_queue_dequeue k (ready_queue s))) = ps"
    using k(3) ready(1) by (auto simp: queue_laws_def split: list.splits)
  define t where "t = (s\<lparr>locked := True\<rparr>)\<lparr>ready_queue := snd (ready_queue_dequeue k (ready_queue s))\<rparr>"
  have nx: "get_next_process k (s\<lparr>locked := True\<rparr>) = (Some p, t)"
    using type dq(1) by (auto simp: get_next_process_def t_def split: prod.splits)
  obtain r s' where e: "scheduler_schedule k s = Some (r, s')" "procs s' = procs (snd (switch_to k p t))"
      "ready_queue s' = ready_queue (snd (switch_to k p t))" "current_process s' = Some p"
    and r: "if idle_process s = Some p then r = Return () \<and> \<not> locked s'
         else r = Jump (ctx_esp (procs s' p)) (ctx_eip (procs s' p)) \<and> locked s'"
    by (rule schedule_switches[OF s(1,2) nx]) (use s(3) ready(3) in auto)
  have sv: "procs (save_current k t) p = procs s p"
      "ready_queue (save_current k t) = (if idle_process s = Some c then ready_queue t else ready_queue_enqueue k c (ready_queue t))"
      "idle_process s \<noteq> Some c \<Longrightarrow> kstate (procs (save_current k t) c) = PROCESS_READY"
    using s k(1) type ready(3)
    by (auto simp: save_current_def t_def upd_def add_to_ready_queue_internal_def sets_state_only_def Let_def)
  have tt: "scheduler_type (config t) \<in> {SCHEDULER_RR, SCHEDULER_FIFO}" using type by (simp add: t_def)
  have cap: "length (q (snd (ready_queue_dequeue k (ready_queue s)))) < cap" using dq(2) ready(4) by simp
  have keep: "filter (\<lambda>x. x \<noteq> p) ps = ps" using ready(2) by (auto intro: filter_True)
  have "q (ready_queue s') = (if idle_process s = Some c then ps else ps @ [c])"
    unfolding e(3) switch_ready[OF tt] sv(2) using k(3) dq(2) ready(3) cap keep
    by (simp add: queue_laws_def t_def)
  moreover have "ctx_esp (procs s' p) = ctx_esp (procs s p)" "ctx_eip (procs s' p) = ctx_eip (procs s p)"
    using k(2) by (simp_all add: e(2) switch_procs sv(1) keeps_context_def)
  ultimately show ?thesis
    using e(1,4) r k(1) sv(3) ready(3) by (auto simp: e(2) switch_procs sets_state_only_def)
qed

text \<open>
  Property C19. Under the MLFQ a terminated process comes back: terminating does not take it out of
  its queue (the removal is empty), so when it is the next one there, scheduling makes the zombie
  the running process.
\<close>

theorem kernel_mlfq_runs_zombie:
  assumes k: "sets_state_only k" and type: "scheduler_type (config s) = SCHEDULER_MLFQ"
    and s: "scheduler_running s" "\<not> locked s" "current_process s \<noteq> Some p"
    and p: "process_table_find k n (procs s) = Some p" "kstate (procs s p) = PROCESS_READY"
    and m: "fst (mlfq_dequeue k (mlfq s)) = Some p"
  shows "\<exists>s1 r s2. scheduler_terminate_process k n code s = Some (0, s1) \<and> kstate (procs s1 p) = PROCESS_ZOMBIE \<and>
    scheduler_schedule k s1 = Some (r, s2) \<and> current_process s2 = Some p \<and> kstate (procs s2 p) = PROCESS_RUNNING"
proof -
  obtain s1 where s1: "scheduler_terminate_process k n code s = Some (0, s1)" "kstate (procs s1 p) = PROCESS_ZOMBIE"
    "mlfq s1 = mlfq s" "scheduler_running s1" "\<not> locked s1" "current_process s1 \<noteq> Some p"
    "scheduler_type (config s1) = SCHEDULER_MLFQ"
    using s p type k
    by (auto simp: scheduler_terminate_process_def spinlock_lock_def spinlock_unlock_def Let_def klogs_def upd_def
        remove_from_ready_queue_internal_def sets_state_only_def)
  define t where "t = (s1\<lparr>locked := True\<rparr>)\<lparr>mlfq := snd (mlfq_dequeue k (mlfq s))\<rparr>"
  have "get_next_process k (s1\<lparr>locked := True\<rparr>) = (Some p, t)"
    using s1(3,7) m by (auto simp: get_next_process_def t_def split: prod.splits)
  then obtain r s2 where "scheduler_schedule k s1 = Some (r, s2)" "procs s2 = procs (snd (switch_to k p t))"
      "current_process s2 = Some p"
    using schedule_switches[OF s1(4,5) _ s1(6)] by metis
  then show ?thesis
    using s1(1,2) k by (auto simp: switch_procs sets_state_only_def)
qed

section \<open>Closed examples\<close>

definition free_slot :: "procs \<Rightarrow> nat option" where
  "free_slot ps = find (\<lambda>i. kstate (ps i) = PROCESS_NEW) [0..<64]"

lemma free_slot_new: "free_slot ps = Some i \<Longrightarrow> kstate (ps i) = PROCESS_NEW"
  by (auto simp: free_slot_def find_Some_iff)

lemma free_slot_zero: "free_slot (\<lambda>_. zero_kpcb) = Some 0"
  by (simp add: free_slot_def upt_rec[of 0] zero_kpcb_def)

text \<open>Operations over lists, to show that the hypotheses can hold.\<close>

definition list_ops :: "(nat list, nat list) kernel_ops" where
  "list_ops = \<lparr>process_table_init = id, process_table_find = (\<lambda>n ps. if n < 8 then Some (unat n) else None),
     pcb_alloc = (\<lambda>ps. (free_slot ps, ps)), pcb_free = (\<lambda>p ps. ps),
     pcb_init = (\<lambda>n name t pr q. q\<lparr>pid := n, kname := name, priority := pr, time_used := 0, time_slice_used := 0\<rparr>),
     pcb_set_state = (\<lambda>st q. q\<lparr>kstate := st\<rparr>), pcb_set_priority = (\<lambda>pr q. q\<lparr>priority := pr\<rparr>),
     pcb_update_stats = (\<lambda>_ q. q), pcb_add_child = (\<lambda>_ _ ps. ps), pcb_orphan_children = (\<lambda>_ ps. ps),
     calculate_time_slice = (\<lambda>_ base. base), ready_queue_init = (\<lambda>_ _. []),
     ready_queue_enqueue = (\<lambda>p r. r @ [p]),
     ready_queue_dequeue = (\<lambda>r. case r of [] \<Rightarrow> (None, []) | p # ps \<Rightarrow> (Some p, ps)),
     ready_queue_remove = (\<lambda>p r. filter (\<lambda>x. x \<noteq> p) r), ready_queue_count = (\<lambda>r. of_nat (length r)),
     wait_queue_enqueue = (\<lambda>p w. w @ [p]), wait_queue_remove = (\<lambda>p w. remove1 p w),
     mlfq_init = (\<lambda>_ _. []), mlfq_enqueue = (\<lambda>p _ m. m @ [p]),
     mlfq_dequeue = (\<lambda>m. case m of [] \<Rightarrow> (None, []) | p # ps \<Rightarrow> (Some p, ps)),
     mlfq_adjust_priority = (\<lambda>_ _ x. x), demotion_threshold = (\<lambda>_. 10)\<rparr>"

lemma list_ops_laws: "sets_state_only list_ops" "keeps_context list_ops" "queue_laws list_ops id 64" "spares_running list_ops"
  by (auto simp: sets_state_only_def keeps_context_def queue_laws_def spares_running_def list_ops_def
      split: list.splits dest: free_slot_new set_remove1_subset[THEN subsetD])

definition kernel_example :: "scheduler_kind \<Rightarrow> (nat list, nat list) kernel" where
  "kernel_example t = \<lparr>config = default_config\<lparr>scheduler_type := t\<rparr>,
     procs = (\<lambda>i. zero_kpcb\<lparr>pid := of_nat i, kstate := (if i = 1 then PROCESS_RUNNING else PROCESS_READY), time_slice := 10\<rparr>),
     next_pid = 4, mlfq = [2, 3], ready_queue = [2, 3], wait_queue = [], sleep_queue = [],
     current_process = Some 1, idle_process = Some 0, stats = zero_kstats, system_ticks = 0, last_schedule_time = 0,
     locked = False, scheduler_running = True, need_reschedule = False, last_idle_time = 0, last_total_time = 0,
     last_completed = 0, last_time = 0, cpu_regs = (0, 0), timer_registered = True, klog = []\<rparr>"


text \<open>The witness starts where \<^verbatim>\<open>scheduler_init\<close> ends, and creates two processes that then wait for ever.\<close>

definition boot_example :: "(nat list, nat list) kernel" where
  "boot_example = (kernel_example SCHEDULER_RR)\<lparr>current_process := None\<rparr>"

definition boot_config :: kconfig where
  "boot_config = default_config\<lparr>scheduler_type := SCHEDULER_RR\<rparr>"

lemma boot_idles:
  obtains s where "scheduler_init list_ops 64 (Some boot_config) [] [] boot_example = Some s" and "idling s"
    and "last_total_time s = 0" and "system_ticks s = 0" and "idle_process s = Some 0"
proof -
  have "\<exists>s. scheduler_init list_ops 64 (Some boot_config) [] [] boot_example = Some s \<and> idle_process s = Some 0 \<and>
      last_total_time s = 0 \<and> system_ticks s = 0 \<and> config s = boot_config"
    by (simp add: scheduler_init_def clear_state_def scheduler_create_process_def spinlock_lock_def list_ops_def
        free_slot_zero boot_config_def default_config_def boot_example_def kernel_example_def upd_def klogs_def
        spinlock_unlock_def add_to_ready_queue_internal_def PCB_SET_FLAG_def Let_def)
  then obtain s where s: "scheduler_init list_ops 64 (Some boot_config) [] [] boot_example = Some s"
    "idle_process s = Some 0" "last_total_time s = 0" "system_ticks s = 0" "config s = boot_config" by blast
  have "idling s"
    by (rule init_idles[OF s(1,2) list_ops_laws(1)])
      (simp_all add: s(5) boot_config_def default_config_def TIME_SLICE_BASE_def list_ops_def boot_example_def kernel_example_def)
  with s show thesis by (intro that)
qed


theorem kernel_schedule_rotates_witness:
  "\<exists>r s'. scheduler_schedule list_ops (kernel_example SCHEDULER_RR) = Some (r, s') \<and> current_process s' = Some 2 \<and>
    ready_queue s' = [3, 1] \<and> r = Jump 0 0"
  using kernel_schedule_rotates[OF list_ops_laws(1-3), of "kernel_example SCHEDULER_RR" 1 2 "[3]"]
  by (auto simp: kernel_example_def zero_kpcb_def default_config_def)

theorem kernel_mlfq_runs_zombie_witness:
  "\<exists>s1 r s2. scheduler_terminate_process list_ops 2 0 (kernel_example SCHEDULER_MLFQ) = Some (0, s1) \<and>
    kstate (procs s1 2) = PROCESS_ZOMBIE \<and> scheduler_schedule list_ops s1 = Some (r, s2) \<and>
    kstate (procs s2 2) = PROCESS_RUNNING"
  using kernel_mlfq_runs_zombie[OF list_ops_laws(1), of "kernel_example SCHEDULER_MLFQ" 2 2 0]
  by (auto simp: kernel_example_def zero_kpcb_def default_config_def list_ops_def)

end
