(* ===== verification/Kasan.thy ===== *)
theory Kasan
  imports Prelude
begin

text \<open>
  The KASAN test module of \<^verbatim>\<open>lab4-1-linux-kernel-security/src/kasan_module.c\<close> as the heap accesses
  it makes, against a checker that says which of them are memory errors. A block is known by the
  number of its allocation; the result of each \<^verbatim>\<open>kmalloc\<close> is a parameter \<open>ok\<close>. Offsets are in bytes,
  \<^verbatim>\<open>struct test_data\<close> has 56 (lp64). Messages are left out.
\<close>

datatype heap_event = Alloc nat nat | FreeBlock nat | WriteAt nat int nat | ReadAt nat int nat

datatype violation = OutOfBounds | UseAfterFree | DoubleFree | WildAccess

section \<open>The module\<close>

definition TEST_DATA_SIZE :: nat where "TEST_DATA_SIZE = 56"
definition VALUE_OFFSET :: int where "VALUE_OFFSET = 32"

definition fill_pattern :: "nat \<Rightarrow> nat \<Rightarrow> heap_event list" where
  "fill_pattern b sz = (if 0 < sz then [WriteAt b 0 (sz - 1), WriteAt b (int sz - 1) 1] else [])"

text \<open>\<^verbatim>\<open>strncpy(data->buffer, s, 31)\<close> pads to 31 bytes; \<^verbatim>\<open>%s\<close> reads up to the NUL.\<close>

definition strncpy_buffer :: "nat \<Rightarrow> heap_event list" where
  "strncpy_buffer b = [WriteAt b 0 31]"

definition test_safe_operations :: "(nat \<Rightarrow> bool) \<Rightarrow> nat \<Rightarrow> heap_event list" where
  "test_safe_operations ok b =
     (if ok b then [Alloc b 64] @ fill_pattern b 64 @ [ReadAt b 0 16, FreeBlock b] else []) @
     (if ok (b + 1)
      then [Alloc (b + 1) TEST_DATA_SIZE] @ strncpy_buffer (b + 1) @
           [WriteAt (b + 1) VALUE_OFFSET 4, ReadAt (b + 1) 0 15, ReadAt (b + 1) VALUE_OFFSET 4, FreeBlock (b + 1)]
      else []) @
     (if ok (b + 2) then [Alloc (b + 2) 32, WriteAt (b + 2) 0 32, FreeBlock (b + 2)] else [])"

definition test_out_of_bounds :: "(nat \<Rightarrow> bool) \<Rightarrow> nat \<Rightarrow> heap_event list" where
  "test_out_of_bounds ok b =
     (if \<not> ok b then []
      else [Alloc b 16] @ map (\<lambda>i. WriteAt b i 1) [0..31] @ map (\<lambda>i. ReadAt b i 1) [16..23] @
           map (\<lambda>i. WriteAt b i 1) [-8..-1] @ [FreeBlock b])"

definition test_use_after_free :: "(nat \<Rightarrow> bool) \<Rightarrow> nat \<Rightarrow> heap_event list" where
  "test_use_after_free ok b =
     (if ok b
      then [Alloc b 16, WriteAt b 0 4, WriteAt b 4 4, ReadAt b 0 4, ReadAt b 4 4, FreeBlock b,
            WriteAt b 0 4, ReadAt b 0 4, ReadAt b 4 4]
      else []) @
     (if ok (b + 1)
      then [Alloc (b + 1) TEST_DATA_SIZE] @ strncpy_buffer (b + 1) @
           [WriteAt (b + 1) VALUE_OFFSET 4, ReadAt (b + 1) 0 16, ReadAt (b + 1) VALUE_OFFSET 4, FreeBlock (b + 1),
            ReadAt (b + 1) 0 16, WriteAt (b + 1) VALUE_OFFSET 4]
      else [])"

definition test_double_free :: "(nat \<Rightarrow> bool) \<Rightarrow> nat \<Rightarrow> heap_event list" where
  "test_double_free ok b =
     (if ok b then [Alloc b 64] @ fill_pattern b 64 @ [FreeBlock b, FreeBlock b] else []) @
     (if ok (b + 1) then [Alloc (b + 1) TEST_DATA_SIZE, FreeBlock (b + 1), FreeBlock (b + 1)] else [])"

definition test_memory_leak :: "(nat \<Rightarrow> bool) \<Rightarrow> nat \<Rightarrow> heap_event list" where
  "test_memory_leak ok b =
     (if ok b then [Alloc b 128] else []) @ (if ok (b + 1) then [Alloc (b + 1) 1024] else []) @
     (if ok b then fill_pattern b 128 else []) @ (if ok (b + 1) then [WriteAt (b + 1) 0 4] else [])"

text \<open>One turn of the loop; eight allocations at most, numbered from \<open>b\<close>.\<close>

definition ALLOCS_PER_TURN :: nat where "ALLOCS_PER_TURN = 8"

definition kasan_turn :: "int \<Rightarrow> (nat \<Rightarrow> bool) \<Rightarrow> nat \<Rightarrow> heap_event list" where
  "kasan_turn test_mode ok b =
     (if test_mode = 0 then test_safe_operations ok b
      else if test_mode = 1 then test_out_of_bounds ok b
      else if test_mode = 2 then test_use_after_free ok b
      else if test_mode = 3 then test_double_free ok b
      else test_safe_operations ok b @ test_out_of_bounds ok (b + 3) @ test_use_after_free ok (b + 4) @
           test_double_free ok (b + 6))"

fun run_kasan_tests :: "int \<Rightarrow> nat \<Rightarrow> (nat \<Rightarrow> bool) \<Rightarrow> nat \<Rightarrow> heap_event list" where
  "run_kasan_tests test_mode 0 ok b = []"
| "run_kasan_tests test_mode (Suc n) ok b =
     kasan_turn test_mode ok b @ run_kasan_tests test_mode n ok (b + ALLOCS_PER_TURN)"

definition kasan_module_init :: "int \<Rightarrow> int \<Rightarrow> (nat \<Rightarrow> bool) \<Rightarrow> int \<times> heap_event list" where
  "kasan_module_init test_mode iterations ok = (0, run_kasan_tests test_mode (nat iterations) ok 0)"

section \<open>What counts as a memory error\<close>

text \<open>The size of a block and whether it is live.\<close>

type_synonym heap = "nat \<Rightarrow> (nat \<times> bool) option"

definition access_verdict :: "heap \<Rightarrow> nat \<Rightarrow> int \<Rightarrow> nat \<Rightarrow> violation list" where
  "access_verdict h b off len = (case h b of
     None \<Rightarrow> [WildAccess]
   | Some (sz, live) \<Rightarrow>
       if \<not> live then [UseAfterFree]
       else if off < 0 \<or> int sz < off + int len then [OutOfBounds] else [])"

fun check_event :: "heap_event \<Rightarrow> heap \<Rightarrow> violation list \<times> heap" where
  "check_event (Alloc b sz) h = ([], h(b \<mapsto> (sz, True)))"
| "check_event (FreeBlock b) h = (case h b of
     None \<Rightarrow> ([WildAccess], h)
   | Some (sz, live) \<Rightarrow> (if live then [] else [DoubleFree], h(b \<mapsto> (sz, False))))"
| "check_event (WriteAt b off len) h = (access_verdict h b off len, h)"
| "check_event (ReadAt b off len) h = (access_verdict h b off len, h)"

fun check :: "heap_event list \<Rightarrow> heap \<Rightarrow> violation list \<times> heap" where
  "check [] h = ([], h)"
| "check (e # es) h = (let (v, h) = check_event e h; (vs, h) = check es h in (v @ vs, h))"

definition nothing_live :: "heap \<Rightarrow> bool" where
  "nothing_live h \<longleftrightarrow> (\<forall>b sz. h b \<noteq> Some (sz, True))"

lemma check_append:
  "check (es @ fs) h = (let (v, h1) = check es h; (w, h2) = check fs h1 in (v @ w, h2))"
  by (induction es arbitrary: h) (simp_all add: Let_def split: prod.splits)

lemma check_accesses:
  assumes "h b = Some (sz, True)"
  shows "check (map (\<lambda>i. WriteAt b i 1) is) h = (map (\<lambda>_. OutOfBounds) (filter (\<lambda>i. i < 0 \<or> int sz < i + 1) is), h)"
    and "check (map (\<lambda>i. ReadAt b i 1) is) h = (map (\<lambda>_. OutOfBounds) (filter (\<lambda>i. i < 0 \<or> int sz < i + 1) is), h)"
  using assms by (induction "is") (auto simp: access_verdict_def Let_def)

lemma nothing_live_free: "nothing_live h \<Longrightarrow> nothing_live (h(b \<mapsto> (sz, False)))"
  by (simp add: nothing_live_def)

lemmas event_simps = fill_pattern_def strncpy_buffer_def TEST_DATA_SIZE_def VALUE_OFFSET_def access_verdict_def Let_def

lemma check_safe:
  "nothing_live h \<Longrightarrow> fst (check (test_safe_operations ok b) h) = [] \<and> nothing_live (snd (check (test_safe_operations ok b) h))"
  by (auto simp: test_safe_operations_def event_simps nothing_live_free)

lemma ranges:
  "length (filter (\<lambda>i. i < 0 \<or> int 16 < i + 1) [0..31]) = 16"
  "length (filter (\<lambda>i. i < 0 \<or> int 16 < i + 1) [16..23]) = 8"
  "length (filter (\<lambda>i. i < 0 \<or> int 16 < i + 1) [-8..-1]) = 8"
  by code_simp+

lemma check_oob:
  assumes "nothing_live h" and "ok b"
  shows "fst (check (test_out_of_bounds ok b) h) = replicate 32 OutOfBounds \<and>
    nothing_live (snd (check (test_out_of_bounds ok b) h))"
proof -
  define h1 where "h1 = h(b \<mapsto> (16, True))"
  have h1: "h1 b = Some (16, True)" by (simp add: h1_def)
  note acc = check_accesses[where h = h1 and b = b and sz = 16, OF h1]
  have r: "map (\<lambda>_. OutOfBounds) xs = replicate (length xs) OutOfBounds" for xs :: "int list"
    by (simp add: map_replicate_const)
  define w1 where "w1 = map (\<lambda>i. WriteAt b i 1) [0..31]"
  define r1 where "r1 = map (\<lambda>i. ReadAt b i 1) [16..23]"
  define w2 where "w2 = map (\<lambda>i. WriteAt b i 1) [-8..-1]"
  have c: "check w1 h1 = (replicate 16 OutOfBounds, h1)" "check r1 h1 = (replicate 8 OutOfBounds, h1)"
    "check w2 h1 = (replicate 8 OutOfBounds, h1)"
    unfolding w1_def r1_def w2_def acc r ranges by (rule refl)+
  have "test_out_of_bounds ok b = [Alloc b 16] @ w1 @ r1 @ w2 @ [FreeBlock b]"
    using assms(2) by (simp only: test_out_of_bounds_def w1_def r1_def w2_def simp_thms if_False)
  moreover have "check [Alloc b 16] h = ([], h1)" "check [FreeBlock b] h1 = ([], h1(b \<mapsto> (16, False)))"
    using h1 by (simp_all add: h1_def Let_def)
  ultimately have "check (test_out_of_bounds ok b) h = (replicate 16 OutOfBounds @ replicate 8 OutOfBounds @
      replicate 8 OutOfBounds, h1(b \<mapsto> (16, False)))"
    by (simp only: check_append c Let_def prod.case append_Nil append_Nil2)
  then have "check (test_out_of_bounds ok b) h = (replicate 32 OutOfBounds, h1(b \<mapsto> (16, False)))"
    by (simp only: replicate_add[symmetric]) simp
  then show ?thesis using assms(1) by (simp add: h1_def nothing_live_def)
qed

lemma check_uaf:
  assumes "nothing_live h" and "ok b" and "ok (b + 1)"
  shows "fst (check (test_use_after_free ok b) h) = replicate 5 UseAfterFree \<and>
    nothing_live (snd (check (test_use_after_free ok b) h))"
  using assms by (simp add: test_use_after_free_def event_simps nothing_live_free eval_nat_numeral)

lemma check_double_free:
  assumes "nothing_live h" and "ok b" and "ok (b + 1)"
  shows "fst (check (test_double_free ok b) h) = [DoubleFree, DoubleFree] \<and>
    nothing_live (snd (check (test_double_free ok b) h))"
  using assms by (simp add: test_double_free_def event_simps nothing_live_free)

section \<open>The whole run\<close>

definition expected_turn :: "int \<Rightarrow> violation list" where
  "expected_turn m = (if m = 0 then [] else if m = 1 then replicate 32 OutOfBounds
     else if m = 2 then replicate 5 UseAfterFree else if m = 3 then [DoubleFree, DoubleFree]
     else replicate 32 OutOfBounds @ replicate 5 UseAfterFree @ [DoubleFree, DoubleFree])"

lemma check_two:
  assumes "fst (check es h) = v \<and> nothing_live (snd (check es h))"
    and "\<And>h. nothing_live h \<Longrightarrow> fst (check fs h) = w \<and> nothing_live (snd (check fs h))"
  shows "fst (check (es @ fs) h) = v @ w \<and> nothing_live (snd (check (es @ fs) h))"
  using assms(1) assms(2)[of "snd (check es h)"]
  by (auto simp: check_append Let_def split: prod.splits)

lemma check_turn:
  assumes "nothing_live h" and "\<And>i. ok i"
  shows "fst (check (kasan_turn m ok b) h) = expected_turn m \<and> nothing_live (snd (check (kasan_turn m ok b) h))"
proof -
  note all = check_two[OF check_safe[OF assms(1)] check_two[OF check_oob check_two[OF check_uaf check_double_free]]]
  have "fst (check (test_safe_operations ok b @ test_out_of_bounds ok (b + 3) @ test_use_after_free ok (b + 4) @
           test_double_free ok (b + 6)) h) = [] @ replicate 32 OutOfBounds @ replicate 5 UseAfterFree @ [DoubleFree, DoubleFree] \<and>
     nothing_live (snd (check (test_safe_operations ok b @ test_out_of_bounds ok (b + 3) @ test_use_after_free ok (b + 4) @
           test_double_free ok (b + 6)) h))"
    by (rule all) (use assms in simp_all)
  then show ?thesis
    using check_safe[OF assms(1)] check_oob[OF assms(1)] check_uaf[OF assms(1)] check_double_free[OF assms(1)] assms(2)
    by (auto simp: kasan_turn_def expected_turn_def simp del: replicate.simps)
qed

lemma check_run:
  "nothing_live h \<Longrightarrow> (\<And>i. ok i) \<Longrightarrow>
   fst (check (run_kasan_tests m n ok b) h) = concat (replicate n (expected_turn m)) \<and>
   nothing_live (snd (check (run_kasan_tests m n ok b) h))"
proof (induction n arbitrary: b h)
  case (Suc n)
  show ?case
    unfolding run_kasan_tests.simps replicate.simps concat.simps
    by (rule check_two[OF check_turn[OF Suc.prems] Suc.IH[OF _ Suc.prems(2)]])
qed simp

lemma check_run_safe:
  "nothing_live h \<Longrightarrow> fst (check (run_kasan_tests 0 n ok b) h) = [] \<and>
    nothing_live (snd (check (run_kasan_tests 0 n ok b) h))"
proof (induction n arbitrary: b h)
  case (Suc n)
  show ?case
    using check_two[OF check_safe[OF Suc.prems, of ok b], of "run_kasan_tests 0 n ok (b + ALLOCS_PER_TURN)"] Suc
    by (simp add: kasan_turn_def)
qed simp

text \<open>
  Property C40. Loading the module makes exactly the memory errors its test mode announces: none in
  mode 0, whether or not allocations fail; when they succeed, in every iteration 32 one-byte
  accesses out of bounds in mode 1, five uses after free in mode 2, two double frees in mode 3 and
  all of them in any other mode; and no mode leaks a block.
\<close>

theorem kasan_module_errors:
  shows "fst (check (snd (kasan_module_init 0 n ok)) (\<lambda>_. None)) = [] \<and>
    ((\<forall>i. ok i) \<longrightarrow> fst (check (snd (kasan_module_init m n ok)) (\<lambda>_. None)) = concat (replicate (nat n) (expected_turn m)) \<and>
       nothing_live (snd (check (snd (kasan_module_init m n ok)) (\<lambda>_. None))))"
proof -
  have "nothing_live (\<lambda>_. None)" by (simp add: nothing_live_def)
  from check_run_safe[OF this] check_run[OF this] show ?thesis by (simp add: kasan_module_init_def)
qed

theorem kasan_module_errors_witness:
  "length (fst (check (snd (kasan_module_init 1 3 (\<lambda>_. True))) (\<lambda>_. None))) = 96"
  using kasan_module_errors[of 3 "\<lambda>_. True" 1] by (simp add: expected_turn_def eval_nat_numeral)

end
