(* ===== verification/Syscalls.thy ===== *)
theory Syscalls
  imports Prelude
begin

text \<open>
  Programs that make system calls, for the example programs of \<^verbatim>\<open>lab1-1-syscall-tracer\<close>: a program is
  the tree of its calls, branching on the answers, and what the system answers is left open. A run
  on a list of answers gives the trace that \<^verbatim>\<open>strace\<close> would show. \<open>wp\<close> is a weakest precondition for
  the use of handles (descriptors, streams, heap blocks, mappings): a handle may be used or given
  back only while it is held, whatever the answers are.
\<close>

section \<open>Programs\<close>

text \<open>
  A call with its arguments as text. \<open>Acquire\<close> answers a new handle or -1 (a C function that returns
  NULL or \<^verbatim>\<open>MAP_FAILED\<close> counts as -1), \<open>Derive\<close> makes one from a handle (\<^verbatim>\<open>accept\<close>, the \<^verbatim>\<open>mmap\<close> of a
  file); \<open>Release\<close> gives a handle back; \<open>Replace\<close> (\<^verbatim>\<open>realloc\<close>) gives back a handle and answers
  another, or answers -1 and changes nothing; \<open>Use name h n\<close> works on a handle and answers -1 to n;
  any other call is \<open>Other\<close>.
\<close>

datatype call = Acquire string | Derive string int | Release string int | Replace string int
  | Use string int int | Other string

text \<open>\<open>Cut\<close> is a loop that has used up the turns it was given.\<close>

datatype 'a prog = Ret 'a | Cut | Sys call "int \<Rightarrow> 'a prog"

primrec seq :: "'a prog \<Rightarrow> ('a \<Rightarrow> 'b prog) \<Rightarrow> 'b prog" where
  "seq (Ret a) f = f a"
| "seq Cut f = Cut"
| "seq (Sys c k) f = Sys c (\<lambda>r. seq (k r) f)"

abbreviation seq_unit :: "unit prog \<Rightarrow> 'b prog \<Rightarrow> 'b prog" where
  "seq_unit p q \<equiv> seq p (\<lambda>_. q)"

fun in_turn :: "unit prog list \<Rightarrow> unit prog" where
  "in_turn [] = Ret ()"
| "in_turn (p # ps) = seq_unit p (in_turn ps)"

text \<open>A call whose answer the program ignores.\<close>

definition do_call :: "call \<Rightarrow> unit prog" where
  "do_call c = Sys c (\<lambda>_. Ret ())"

section \<open>Runs\<close>

type_synonym trace = "(call \<times> int) list"

primrec run :: "'a prog \<Rightarrow> int list \<Rightarrow> trace \<times> 'a option" where
  "run (Ret a) answers = ([], Some a)"
| "run Cut answers = ([], None)"
| "run (Sys c k) answers =
     (case answers of [] \<Rightarrow> ([], None)
      | r # rs \<Rightarrow> (let (tr, x) = run (k r) rs in ((c, r) # tr, x)))"

text \<open>The handles held after a call with its answer, and after a trace.\<close>

fun held_after :: "call \<Rightarrow> int \<Rightarrow> int set \<Rightarrow> int set" where
  "held_after (Acquire s) r H = (if r = -1 then H else insert r H)"
| "held_after (Derive s h) r H = (if r = -1 then H else insert r H)"
| "held_after (Release s h) r H = H - {h}"
| "held_after (Replace s h) r H = (if r = -1 then H else insert r (H - {h}))"
| "held_after (Use s h n) r H = H"
| "held_after (Other s) r H = H"

fun held :: "int set \<Rightarrow> trace \<Rightarrow> int set" where
  "held H [] = H"
| "held H ((c, r) # tr) = held (held_after c r H) tr"

text \<open>
  What the system promises: new handles are new, a count does not exceed what was asked for, and
  the calls named in \<open>F\<close> (arguments that no system supports) fail.
\<close>

fun answer_ok :: "string set \<Rightarrow> int set \<Rightarrow> call \<Rightarrow> int \<Rightarrow> bool" where
  "answer_ok F H (Acquire s) r \<longleftrightarrow> r = -1 \<or> s \<notin> F \<and> 0 \<le> r \<and> r \<notin> H"
| "answer_ok F H (Derive s h) r \<longleftrightarrow> r = -1 \<or> 0 \<le> r \<and> r \<notin> H"
| "answer_ok F H (Release s h) r = True"
| "answer_ok F H (Replace s h) r \<longleftrightarrow> r = -1 \<or> 0 \<le> r \<and> r \<notin> H - {h}"
| "answer_ok F H (Use s h n) r \<longleftrightarrow> -1 \<le> r \<and> r \<le> n"
| "answer_ok F H (Other s) r = True"

fun permitted :: "string set \<Rightarrow> int set \<Rightarrow> trace \<Rightarrow> bool" where
  "permitted F H [] = True"
| "permitted F H ((c, r) # tr) \<longleftrightarrow> answer_ok F H c r \<and> permitted F (held_after c r H) tr"

text \<open>What a program has to keep to: it uses and gives back only handles that it holds.\<close>

fun allowed :: "int set \<Rightarrow> call \<Rightarrow> bool" where
  "allowed H (Acquire s) = True"
| "allowed H (Derive s h) \<longleftrightarrow> h \<in> H"
| "allowed H (Release s h) \<longleftrightarrow> h \<in> H"
| "allowed H (Replace s h) \<longleftrightarrow> h \<in> H"
| "allowed H (Use s h n) \<longleftrightarrow> h \<in> H"
| "allowed H (Other s) = True"

fun disciplined :: "int set \<Rightarrow> trace \<Rightarrow> bool" where
  "disciplined H [] = True"
| "disciplined H ((c, r) # tr) \<longleftrightarrow> allowed H c \<and> disciplined (held_after c r H) tr"

section \<open>Weakest preconditions\<close>

primrec wp :: "string set \<Rightarrow> 'a prog \<Rightarrow> int set \<Rightarrow> (int set \<Rightarrow> 'a \<Rightarrow> bool) \<Rightarrow> bool" where
  "wp F (Ret a) H Q = Q H a"
| "wp F Cut H Q = True"
| "wp F (Sys c k) H Q \<longleftrightarrow>
     allowed H c \<and> (\<forall>r. answer_ok F H c r \<longrightarrow> wp F (k r) (held_after c r H) Q)"

lemma wp_seq [simp]: "wp F (seq p f) H Q = wp F p H (\<lambda>H a. wp F (f a) H Q)"
  by (induction p arbitrary: H) auto

lemma wp_do_call [simp]: "wp F (do_call c) H Q = wp F (Sys c (\<lambda>_. Ret ())) H Q"
  by (simp add: do_call_def)

lemma wp_mono: "wp F p H Q \<Longrightarrow> (\<And>H a. Q H a \<Longrightarrow> R H a) \<Longrightarrow> wp F p H R"
  by (induction p arbitrary: H) auto

text \<open>The precondition speaks of every run.\<close>

lemma wp_run:
  "wp F p H Q \<Longrightarrow> run p rs = (tr, x) \<Longrightarrow> permitted F H tr \<Longrightarrow>
     disciplined H tr \<and> (\<forall>a. x = Some a \<longrightarrow> Q (held H tr) a)"
proof (induction p arbitrary: H rs tr x)
  case (Sys c k)
  show ?case
  proof (cases rs)
    case Nil
    then show ?thesis using Sys.prems by simp
  next
    case (Cons r rs')
    obtain tr' x' where r: "run (k r) rs' = (tr', x')" by force
    then have tr: "tr = (c, r) # tr'" "x = x'" using Sys.prems(2) Cons by simp_all
    show ?thesis
      using Sys.prems(1,3) tr Sys.IH[OF rangeI _ r, of "held_after c r H"] by simp
  qed
qed auto

text \<open>A program that gives back exactly what it takes, whoever holds what before.\<close>

definition balanced :: "string set \<Rightarrow> 'a prog \<Rightarrow> bool" where
  "balanced F p \<longleftrightarrow> (\<forall>H. wp F p H (\<lambda>H' _. H' = H))"

named_theorems balanced_rules \<open>programs that give back what they take\<close>

lemma balancedD: "balanced F p \<Longrightarrow> (\<And>a. Q H a) \<Longrightarrow> wp F p H Q"
  unfolding balanced_def by (rule wp_mono[where Q = "\<lambda>H' _. H' = H"]) auto

lemma balanced_seq [balanced_rules]: "balanced F p \<Longrightarrow> (\<And>a. balanced F (f a)) \<Longrightarrow> balanced F (seq p f)"
  by (subst balanced_def) (auto intro!: balancedD)

lemma balanced_Ret [balanced_rules]: "balanced F (Ret a)"
  by (simp add: balanced_def)

lemma balanced_in_turn: "(\<And>p. p \<in> set ps \<Longrightarrow> balanced F p) \<Longrightarrow> balanced F (in_turn ps)"
  by (induction ps) (auto intro!: balanced_rules)

text \<open>
  The contract of the example programs: whatever its arguments, a program gives back what it takes.
  What a user of such a program may rely on follows for each of them.
\<close>

locale balanced_program =
  fixes F :: "string set" and main :: "'args \<Rightarrow> 'a prog"
  assumes gives_back: "balanced F (main args)"
begin

lemma closes_all:
  assumes "run (main args) rs = (tr, x)" and "permitted F {} tr"
  shows "disciplined {} tr \<and> (x \<noteq> None \<longrightarrow> held {} tr = {})"
  using wp_run[OF balancedD[OF gives_back[of args], of "\<lambda>H _. H = {}"] assms] by auto

text \<open>So two of them can run in one process, one after the other.\<close>

lemma twice: "balanced F (seq (main args) (\<lambda>_. main args'))"
  by (intro balanced_seq gives_back)

end

section \<open>Arrays of handles\<close>

text \<open>An array of handles, -1 where there is none, filled by one call per element.\<close>

fun acquire_all :: "string list \<Rightarrow> int list \<Rightarrow> int list prog" where
  "acquire_all [] hs = Ret hs"
| "acquire_all (s # ss) hs = Sys (Acquire s) (\<lambda>h. acquire_all ss (hs @ [h]))"

text \<open>Loops that give back, or exchange, the elements at some indices.\<close>

fun release_at :: "string \<Rightarrow> nat list \<Rightarrow> int list \<Rightarrow> int list prog" where
  "release_at s [] hs = Ret hs"
| "release_at s (i # is) hs =
     (if hs ! i \<noteq> -1 then Sys (Release s (hs ! i)) (\<lambda>_. release_at s is (hs[i := -1])) else release_at s is hs)"

fun replace_at :: "string \<Rightarrow> nat list \<Rightarrow> int list \<Rightarrow> int list prog" where
  "replace_at s [] hs = Ret hs"
| "replace_at s (i # is) hs =
     (if hs ! i \<noteq> -1
      then Sys (Replace s (hs ! i)) (\<lambda>h. replace_at s is (if h \<noteq> -1 then hs[i := h] else hs))
      else replace_at s is hs)"

fun release_all :: "string \<Rightarrow> int list \<Rightarrow> unit prog" where
  "release_all s [] = Ret ()"
| "release_all s (h # hs) = seq_unit (if h \<noteq> -1 then do_call (Release s h) else Ret ()) (release_all s hs)"

definition opened :: "int list \<Rightarrow> int list" where
  "opened hs = filter (\<lambda>h. h \<noteq> -1) hs"

text \<open>\<open>array_of H hs H'\<close>: besides \<open>H\<close> exactly the handles of the array are held, each once.\<close>

definition array_of :: "int set \<Rightarrow> int list \<Rightarrow> int set \<Rightarrow> bool" where
  "array_of H hs H' \<longleftrightarrow> distinct (opened hs) \<and> set (opened hs) \<inter> H = {} \<and> H' = H \<union> set (opened hs)"

lemma array_of_Nil: "array_of H [] H"
  by (simp add: array_of_def opened_def)

lemma array_of_split:
  assumes "i < length hs"
  shows "opened hs = opened (take i hs) @ opened [hs ! i] @ opened (drop (Suc i) hs)"
    and "opened (hs[i := x]) = opened (take i hs) @ opened [x] @ opened (drop (Suc i) hs)"
proof -
  have "opened (take i hs @ hs ! i # drop (Suc i) hs)
      = opened (take i hs) @ opened [hs ! i] @ opened (drop (Suc i) hs)" by (simp add: opened_def)
  then show "opened hs = opened (take i hs) @ opened [hs ! i] @ opened (drop (Suc i) hs)"
    using assms by (simp flip: id_take_nth_drop)
  show "opened (hs[i := x]) = opened (take i hs) @ opened [x] @ opened (drop (Suc i) hs)"
    using assms by (simp add: upd_conv_take_nth_drop opened_def)
qed

lemma array_of_update:
  assumes "array_of H hs H'" and "i < length hs" and "hs ! i \<noteq> -1"
  shows "hs ! i \<in> H'" and "array_of H (hs[i := -1]) (H' - {hs ! i})"
    and "h \<noteq> -1 \<Longrightarrow> h \<notin> H' - {hs ! i} \<Longrightarrow> array_of H (hs[i := h]) (insert h (H' - {hs ! i}))"
  using assms(1,3) unfolding array_of_def array_of_split(1)[OF assms(2)] array_of_split(2)[OF assms(2)]
  by (auto simp: opened_def)

lemma wp_acquire_all:
  "array_of H hs H' \<Longrightarrow> wp F (acquire_all ss hs) H' (\<lambda>H' hs'. array_of H hs' H' \<and> length hs' = length hs + length ss)"
proof (induction ss arbitrary: hs H')
  case (Cons s ss)
  have "wp F (acquire_all ss (hs @ [h])) (held_after (Acquire s) h H')
      (\<lambda>H' hs'. array_of H hs' H' \<and> length hs' = length hs + length (s # ss))"
    if "h = -1 \<or> h \<notin> H'" for h
    using Cons.IH[of "hs @ [h]" "held_after (Acquire s) h H'"] Cons.prems that
    by (auto simp: array_of_def opened_def)
  then show ?case by (auto simp del: held_after.simps)
qed simp

lemma wp_release_at:
  "array_of H hs H' \<Longrightarrow> \<forall>i\<in>set is. i < length hs \<Longrightarrow>
   wp F (release_at s is hs) H' (\<lambda>H' hs'. array_of H hs' H' \<and> length hs' = length hs)"
proof (induction "is" arbitrary: hs H')
  case (Cons i "is")
  then show ?case using Cons.IH[of "hs[i := -1]"] by (auto simp: array_of_update)
qed simp

lemma wp_replace_at:
  "array_of H hs H' \<Longrightarrow> \<forall>i\<in>set is. i < length hs \<Longrightarrow>
   wp F (replace_at s is hs) H' (\<lambda>H' hs'. array_of H hs' H' \<and> length hs' = length hs)"
proof (induction "is" arbitrary: hs H')
  case (Cons i "is")
  then show ?case using Cons.IH[of "hs[i := _]"] Cons.IH[of hs] by (auto simp: array_of_update)
qed simp

lemma wp_release_all: "array_of H hs H' \<Longrightarrow> wp F (release_all s hs) H' (\<lambda>H' _. H' = H)"
proof (induction hs arbitrary: H')
  case (Cons h hs)
  have "array_of H hs (if h = -1 then H' else H' - {h})"
    using Cons.prems by (auto simp: array_of_def opened_def)
  then show ?case
    using Cons.IH[of "if h = -1 then H' else H' - {h}"] Cons.prems
    by (auto simp: array_of_def opened_def split: if_splits)
qed (simp add: array_of_def opened_def)

text \<open>The same as rules for a loop over the array and what follows it.\<close>

lemma wp_acquire_then:
  "(\<And>hs H'. array_of H hs H' \<Longrightarrow> length hs = length ss \<Longrightarrow> wp F (f hs) H' Q) \<Longrightarrow>
   wp F (seq (acquire_all ss []) f) H Q"
  unfolding wp_seq by (rule wp_mono[OF wp_acquire_all[OF array_of_Nil]]) auto

lemma wp_release_then:
  "array_of H hs H' \<Longrightarrow> \<forall>i\<in>set is. i < length hs \<Longrightarrow>
   (\<And>hs' H'. array_of H hs' H' \<Longrightarrow> length hs' = length hs \<Longrightarrow> wp F (f hs') H' Q) \<Longrightarrow>
   wp F (seq (release_at s is hs) f) H' Q"
  unfolding wp_seq by (rule wp_mono[OF wp_release_at]) auto

lemma wp_replace_then:
  "array_of H hs H' \<Longrightarrow> \<forall>i\<in>set is. i < length hs \<Longrightarrow>
   (\<And>hs' H'. array_of H hs' H' \<Longrightarrow> length hs' = length hs \<Longrightarrow> wp F (f hs') H' Q) \<Longrightarrow>
   wp F (seq (replace_at s is hs) f) H' Q"
  unfolding wp_seq by (rule wp_mono[OF wp_replace_at]) auto

lemmas array_rules = wp_acquire_then wp_release_then wp_replace_then wp_release_all

section \<open>What a run has done\<close>

text \<open>\<open>ensures p P\<close>: whatever is answered, a run of \<open>p\<close> that ends has a trace and a result with \<open>P\<close>.\<close>

primrec ensures :: "'a prog \<Rightarrow> (trace \<Rightarrow> 'a \<Rightarrow> bool) \<Rightarrow> bool" where
  "ensures (Ret a) P = P [] a"
| "ensures Cut P = True"
| "ensures (Sys c k) P = (\<forall>r. ensures (k r) (\<lambda>tr. P ((c, r) # tr)))"

lemma ensures_seq [simp]: "ensures (seq p f) P = ensures p (\<lambda>tr a. ensures (f a) (\<lambda>tr'. P (tr @ tr')))"
  by (induction p arbitrary: P) simp_all

lemma ensures_do_call [simp]: "ensures (do_call c) P = (\<forall>r. P [(c, r)] ())"
  by (simp add: do_call_def)

lemma ensures_mono: "ensures p P \<Longrightarrow> (\<And>tr a. P tr a \<Longrightarrow> Q tr a) \<Longrightarrow> ensures p Q"
proof (induction p arbitrary: P Q)
  case (Sys c k)
  have "ensures (k r) (\<lambda>tr. Q ((c, r) # tr))" for r
    by (rule Sys.IH[OF rangeI, where P = "\<lambda>tr. P ((c, r) # tr)"]) (use Sys.prems in auto)
  then show ?case by simp
qed simp_all

lemma ensures_run: "ensures p P \<Longrightarrow> run p rs = (tr, Some a) \<Longrightarrow> P tr a"
proof (induction p arbitrary: P rs tr)
  case (Sys c k)
  show ?case
  proof (cases rs)
    case (Cons r rs')
    obtain tr' x' where r: "run (k r) rs' = (tr', x')" by force
    then show ?thesis
      using Sys.prems Cons Sys.IH[OF rangeI, of r "\<lambda>tr. P ((c, r) # tr)" rs' tr'] by auto
  qed (use Sys.prems in simp)
qed simp_all

section \<open>Runs in which no request fails\<close>

text \<open>
  A program that does not look whether it was given what it asked for is only as good as the
  system: \<open>while_granted p\<close> is \<open>p\<close> cut off where a request is refused, so what holds of it holds of
  the runs of \<open>p\<close> in which none is.
\<close>

primrec while_granted :: "'a prog \<Rightarrow> 'a prog" where
  "while_granted (Ret a) = Ret a"
| "while_granted Cut = Cut"
| "while_granted (Sys c k) =
     Sys c (\<lambda>r. if (\<exists>s. c = Acquire s) \<and> r = -1 then Cut else while_granted (k r))"

fun granted :: "trace \<Rightarrow> bool" where
  "granted [] = True"
| "granted ((c, r) # tr) \<longleftrightarrow> \<not> ((\<exists>s. c = Acquire s) \<and> r = -1) \<and> granted tr"

lemma while_granted_seq [simp]: "while_granted (seq p f) = seq (while_granted p) (\<lambda>a. while_granted (f a))"
proof (induction p)
  case (Sys c k)
  then show ?case by (auto intro!: ext)
qed simp_all

lemma while_granted_do_call [simp]:
  "while_granted (do_call c) = Sys c (\<lambda>r. if (\<exists>s. c = Acquire s) \<and> r = -1 then Cut else Ret ())"
  by (auto simp: do_call_def)

lemma run_while_granted: "run p rs = (tr, x) \<Longrightarrow> granted tr \<Longrightarrow> run (while_granted p) rs = (tr, x)"
proof (induction p arbitrary: rs tr x)
  case (Sys c k)
  show ?case
  proof (cases rs)
    case (Cons r rs')
    obtain tr' x' where r: "run (k r) rs' = (tr', x')" by force
    then show ?thesis
      using Sys.prems Cons Sys.IH[OF rangeI r] by (auto simp: Let_def)
  qed (use Sys.prems in simp)
qed simp_all

lemma granted_run:
  assumes "wp F (while_granted p) H Q" and "run p rs = (tr, x)" and "granted tr" and "permitted F H tr"
  shows "disciplined H tr \<and> (\<forall>a. x = Some a \<longrightarrow> Q (held H tr) a)"
  using wp_run[OF assms(1) run_while_granted[OF assms(2,3)] assms(4)] .

lemma wp_while_granted: "wp F p H Q \<Longrightarrow> wp F (while_granted p) H Q"
  by (induction p arbitrary: H) auto

end
