(* ===== verification/C_Text.thy ===== *)
theory C_Text
  imports Prelude
begin

text \<open>
  Numbers in the text that a program is given: characters, \<^verbatim>\<open>scanf("%d")\<close> on standard input and
  \<^verbatim>\<open>atoi\<close> on an argument of \<^verbatim>\<open>main\<close>. Numbers are not cut to \<^verbatim>\<open>int\<close>:
  the menus check the range of what they read, and the programs that of their arguments with
  \<open>numbers_fit\<close>, because a number outside \<^verbatim>\<open>int\<close> is undefined for both functions.
\<close>

section \<open>Reading numbers\<close>

definition newline :: string where "newline = [CHR 0x0A]"

definition isspace :: "char \<Rightarrow> bool" where
  "isspace c \<longleftrightarrow> c = CHR '' '' \<or> 9 \<le> (of_char c :: nat) \<and> (of_char c :: nat) \<le> 13"

definition isdigit :: "char \<Rightarrow> bool" where
  "isdigit c \<longleftrightarrow> 48 \<le> (of_char c :: nat) \<and> (of_char c :: nat) \<le> 57"

definition decimal_value :: "string \<Rightarrow> int" where
  "decimal_value ds = foldl (\<lambda>v c. 10 * v + (of_char c - 48)) 0 ds"

text \<open>\<^verbatim>\<open>scanf("%d")\<close>: the number, or \<open>None\<close> where it does not answer 1, and the rest of the input.\<close>

definition scanf_d :: "string \<Rightarrow> int option \<times> string" where
  "scanf_d input =
     (case dropWhile isspace input of
        [] \<Rightarrow> (None, [])
      | c # cs \<Rightarrow>
          (let cs = (if c = CHR ''-'' \<or> c = CHR ''+'' then cs else c # cs);
               ds = takeWhile isdigit cs
           in if ds = [] then (None, cs)
              else (Some (if c = CHR ''-'' then - decimal_value ds else decimal_value ds), dropWhile isdigit cs)))"

text \<open>\<^verbatim>\<open>atoi\<close> reads what \<^verbatim>\<open>scanf("%d")\<close> reads, and is 0 where there is no number.\<close>

definition atoi :: "string \<Rightarrow> int" where
  "atoi s = (case fst (scanf_d s) of None \<Rightarrow> 0 | Some v \<Rightarrow> v)"

text \<open>
  The arguments of \<^verbatim>\<open>main\<close> after the name of the program: the number in one of them, if it is there,
  whether the numbers that are read are numbers of \<^verbatim>\<open>int\<close>, and the test for a request of help.
\<close>

definition int_arg :: "string list \<Rightarrow> nat \<Rightarrow> int option" where
  "int_arg args i = (if i < length args then Some (atoi (args ! i)) else None)"

definition numbers_fit :: "string list \<Rightarrow> nat list \<Rightarrow> bool" where
  "numbers_fit args is = list_all (\<lambda>i. case int_arg args i of None \<Rightarrow> True | Some v \<Rightarrow> in_i32 v) is"

definition asks_help :: "string list \<Rightarrow> bool" where
  "asks_help args = (case args of [] \<Rightarrow> False | a # _ \<Rightarrow> a = ''-h'' \<or> a = ''--help'')"

section \<open>Numbers read back\<close>

lemma digit_char: "n < 10 \<Longrightarrow> isdigit (char_of (48 + n)) \<and> \<not> isspace (char_of (48 + n))
    \<and> of_char (char_of (48 + n)) = int (48 + n) \<and> char_of (48 + n) \<noteq> CHR ''-'' \<and> char_of (48 + n) \<noteq> CHR ''+''"
proof -
  assume "n < 10"
  then have "n = 0 \<or> n = 1 \<or> n = 2 \<or> n = 3 \<or> n = 4 \<or> n = 5 \<or> n = 6 \<or> n = 7 \<or> n = 8 \<or> n = 9"
    by presburger
  then show ?thesis by (elim disjE; hypsubst; code_simp)
qed

lemma digits_read: "list_all isdigit (digits n) \<and> digits n \<noteq> [] \<and> decimal_value (digits n) = int n
    \<and> \<not> isspace (hd (digits n)) \<and> hd (digits n) \<noteq> CHR ''-'' \<and> hd (digits n) \<noteq> CHR ''+''"
proof (induction n rule: digits.induct)
  case (1 n)
  show ?case
  proof (cases "n < 10")
    case True
    then show ?thesis using digit_char[of n] by (simp add: digits.simps[of n] decimal_value_def)
  next
    case False
    have "10 * int (n div 10) + int (n mod 10) = int n" by presburger
    then have "decimal_value (digits (n div 10) @ [char_of (48 + n mod 10)]) = int n"
      using "1.IH"[OF False] digit_char[of "n mod 10"] by (simp add: decimal_value_def)
    then show ?thesis
      using "1.IH"[OF False] digit_char[of "n mod 10"] False by (simp add: digits.simps[of n])
  qed
qed

lemma atoi_digits: "atoi (digits n) = int n"
proof -
  obtain c cs where d: "digits n = c # cs" using digits_read[of n] by (cases "digits n") auto
  have all: "list_all isdigit (c # cs)" "\<not> isspace c" "c \<noteq> CHR ''-''" "c \<noteq> CHR ''+''" "decimal_value (c # cs) = int n"
    using digits_read[of n] unfolding d by simp_all
  have t: "takeWhile isdigit cs = cs" using all(1) by (simp add: takeWhile_eq_all_conv list_all_iff)
  then show ?thesis using all by (simp add: d atoi_def scanf_d_def Let_def t)
qed

end
