(* ===== verification/Cpu_Load.thy ===== *)
theory Cpu_Load
  imports Prelude
begin

text \<open>
  The CPU load generator of \<^verbatim>\<open>lab1-2-process-monitor/examples/sample_scripts/cpu_intensive.c\<close>: its
  integer and matrix computations, the check of its arguments, and the threads around
  \<^verbatim>\<open>active_threads\<close>. \<^verbatim>\<open>long long\<close> is an integer with its range check; \<open>None\<close> is an overflow.
  \<^verbatim>\<open>double\<close> is any type with 0, + and *, so that rounding may be any function.
\<close>

definition in_i64 :: "int \<Rightarrow> bool" where
  "in_i64 v \<longleftrightarrow> - 9223372036854775808 \<le> v \<and> v \<le> 9223372036854775807"

section \<open>Prime numbers\<close>

lemma int_le_square: "i \<le> i * (i :: int)"
proof (cases "i \<le> 0")
  case True
  then show ?thesis using mult_nonpos_nonpos[of i i] by linarith
next
  case False
  then show ?thesis using mult_left_mono[of 1 i i] by simp
qed

function is_prime_loop :: "int \<Rightarrow> int \<Rightarrow> bool option" where
  "is_prime_loop n i =
     (if \<not> in_i64 (i * i) then None
      else if i * i \<le> n then
        (if c_mod n i = 0 \<or> c_mod n (i + 2) = 0 then Some False else is_prime_loop n (i + 6))
      else Some True)"
  by pat_completeness auto
termination
proof (relation "measure (\<lambda>(n, i). nat (n - i + 1))")
  fix n i :: int
  assume "\<not> \<not> in_i64 (i * i)" "i * i \<le> n"
  then have "i \<le> n" using int_le_square[of i] by linarith
  then show "((n, i + 6), n, i) \<in> measure (\<lambda>(n, i). nat (n - i + 1))" by simp
qed simp

declare is_prime_loop.simps [simp del]

definition is_prime :: "int \<Rightarrow> bool option" where
  "is_prime n =
     (if n \<le> 1 then Some False
      else if n \<le> 3 then Some True
      else if c_mod n 2 = 0 \<or> c_mod n 3 = 0 then Some False
      else is_prime_loop n 5)"

definition prime_number :: "int \<Rightarrow> bool" where
  "prime_number n \<longleftrightarrow> 1 < n \<and> (\<forall>d. 1 < d \<and> d < n \<longrightarrow> \<not> d dvd n)"

lemma no_divisor_prime:
  assumes "1 < n" and "\<And>d. 1 < d \<Longrightarrow> d < i \<Longrightarrow> \<not> d dvd n" and "n < i * i" and "0 < i"
  shows "prime_number n"
  unfolding prime_number_def
proof (intro conjI allI impI notI)
  show "1 < n" by (rule assms(1))
next
  fix d assume d: "1 < d \<and> d < n" "d dvd n"
  then obtain e where e: "n = d * e" by blast
  have "1 < e"
  proof (rule ccontr)
    assume "\<not> 1 < e"
    then have "d * e \<le> d * 1" using d(1) by (intro mult_left_mono) auto
    moreover have "d < d * e" using d(1) e by blast
    ultimately show False by simp
  qed
  have "d < i \<or> e < i"
  proof (rule ccontr)
    assume "\<not> (d < i \<or> e < i)"
    then have "i * i \<le> d * e" using assms(4) by (intro mult_mono) auto
    then show False using assms(3) e by simp
  qed
  moreover have "d dvd n" "e dvd n" using e by simp_all
  ultimately show False using assms(2) d(1) \<open>1 < e\<close> by blast
qed

lemma next_candidates:
  fixes d i :: int
  assumes "i mod 6 = 5" and "i \<le> d" and "d < i + 6"
  shows "d = i \<or> d = i + 2 \<or> 2 dvd d \<or> 3 dvd d"
  using assms by presburger

lemma is_prime_loop_correct:
  assumes "3 < n" and "n < 9000000000000000000" and "\<not> 2 dvd n" and "\<not> 3 dvd n"
    and "5 \<le> i" and "i mod 6 = 5" and "(i - 6) * (i - 6) \<le> n"
    and "\<And>d. 1 < d \<Longrightarrow> d < i \<Longrightarrow> \<not> d dvd n"
  shows "is_prime_loop n i = Some (prime_number n)"
  using assms(5-)
proof (induction "nat (n - i + 1)" arbitrary: i rule: less_induct)
  case less
  have "i \<le> 3000000007"
  proof (rule ccontr)
    assume "\<not> i \<le> 3000000007"
    then have "3000000002 * 3000000002 \<le> (i - 6) * (i - 6)" by (intro mult_mono) auto
    then show False using less.prems(3) assms(2) by simp
  qed
  then have "i * i \<le> 3000000007 * 3000000007" using less.prems(1) by (intro mult_mono) auto
  then have in64: "in_i64 (i * i)"
    unfolding in_i64_def using less.prems(1) mult_nonneg_nonneg[of i i] by linarith
  have mods: "c_mod n i = n mod i" "c_mod n (i + 2) = n mod (i + 2)"
    using assms(1) less.prems(1) by (simp_all add: c_mod_nonneg)
  show ?case
  proof (cases "i * i \<le> n")
    case False
    then have "prime_number n" using no_divisor_prime[of n i] less.prems(1,4) assms(1) by auto
    then show ?thesis using False in64 by (simp add: is_prime_loop.simps[of n i])
  next
    case True
    have "5 * i \<le> i * i" using less.prems(1) by (intro mult_right_mono) auto
    then have "i + 2 < n" using True less.prems(1) by linarith
    show ?thesis
    proof (cases "i dvd n \<or> (i + 2) dvd n")
      case d: True
      then have "\<not> prime_number n" using \<open>i + 2 < n\<close> less.prems(1)
        by (auto simp: prime_number_def intro: exI[of _ i] exI[of _ "i + 2"])
      then show ?thesis
        using d True in64 by (simp add: is_prime_loop.simps[of n i] mods dvd_eq_mod_eq_0)
    next
      case d: False
      have "\<not> e dvd n" if "1 < e" "e < i + 6" for e
      proof (cases "e < i")
        case True
        then show ?thesis using less.prems(4) that by blast
      next
        case False
        then show ?thesis
          using next_candidates[OF less.prems(2), of e] d that assms(3,4) dvd_trans[of _ e n] by auto
      qed
      moreover have "(i + 6) mod 6 = 5" using less.prems(2) by presburger
      moreover have "i \<le> n" using \<open>i + 2 < n\<close> by simp
      ultimately have "is_prime_loop n (i + 6) = Some (prime_number n)"
        using less.prems(1) True by (intro less.hyps) simp_all
      then show ?thesis
        using d True in64 by (simp add: is_prime_loop.simps[of n i] mods dvd_eq_mod_eq_0)
    qed
  qed
qed

lemma is_prime_exact:
  assumes "n < 9000000000000000000"
  shows "is_prime n = Some (prime_number n)"
proof -
  consider "n \<le> 1" | "n = 2" | "n = 3" | "3 < n" by linarith
  then show ?thesis
  proof cases
    case 1
    then show ?thesis by (simp add: is_prime_def prime_number_def)
  next
    case 2
    have "\<not> (1 < d \<and> d < n)" for d using 2 by presburger
    moreover have "1 < n" using 2 by simp
    ultimately have "prime_number n" unfolding prime_number_def by blast
    then show ?thesis using 2 by (simp add: is_prime_def)
  next
    case 3
    have "\<not> d dvd 3" if "1 < d" "d < 3" for d :: int
    proof -
      have "d = 2" using that by simp
      then show ?thesis by simp
    qed
    then show ?thesis using 3 by (auto simp: is_prime_def prime_number_def)
  next
    case 4
    have m: "c_mod n 2 = n mod 2" "c_mod n 3 = n mod 3" using 4 by (simp_all add: c_mod_nonneg)
    show ?thesis
    proof (cases "2 dvd n \<or> 3 dvd n")
      case True
      then have "\<not> prime_number n" using 4 by (force simp: prime_number_def)
      then show ?thesis using 4 True m by (simp add: is_prime_def dvd_eq_mod_eq_0)
    next
      case False
      have "\<not> d dvd n" if "1 < d" "d < 5" for d
      proof -
        have "d = 2 \<or> d = 3 \<or> d = 4" using that by presburger
        then show ?thesis using False dvd_trans[of 2 4 n] by auto
      qed
      then have "is_prime_loop n 5 = Some (prime_number n)"
        using 4 False assms by (intro is_prime_loop_correct) auto
      then show ?thesis using 4 False m by (simp add: is_prime_def dvd_eq_mod_eq_0)
    qed
  qed
qed

text \<open>
  Property C29. The optimised test is exact: \<^verbatim>\<open>is_prime\<close>, which tries only divisors next to multiples
  of six up to the square root, returns for every number below 9 * 10^18 without overflow, and says
  whether it is prime.
\<close>

theorem is_prime_correct:
  assumes "n < 9000000000000000000"
  shows "is_prime n = Some (prime_number n)"
  using assms by (rule is_prime_exact)

theorem is_prime_correct_witness: "is_prime 1000003 = Some (prime_number 1000003) \<and> is_prime 25 = Some False"
proof -
  have "\<not> prime_number 25" by (auto simp: prime_number_def intro!: exI[of _ 5])
  then show ?thesis using is_prime_correct[of 1000003] is_prime_correct[of 25] by simp
qed

section \<open>Fibonacci numbers\<close>

definition fib_step :: "int \<times> int \<Rightarrow> (int \<times> int) option" where
  "fib_step p = (case p of (a, b) \<Rightarrow> let c = a + b in if in_i64 c then Some (b, c) else None)"

fun fib_loop :: "nat \<Rightarrow> int \<times> int \<Rightarrow> (int \<times> int) option" where
  "fib_loop 0 p = Some p"
| "fib_loop (Suc k) p = do { p \<leftarrow> fib_step p; fib_loop k p }"

definition fibonacci :: "int \<Rightarrow> int option" where
  "fibonacci n = (if n \<le> 1 then Some n else map_option snd (fib_loop (nat (n - 1)) (0, 1)))"

fun fib :: "nat \<Rightarrow> int" where
  "fib 0 = 0"
| "fib (Suc 0) = 1"
| "fib (Suc (Suc n)) = fib n + fib (Suc n)"

lemma fib_nonneg: "0 \<le> fib n"
  by (induction n rule: fib.induct) simp_all

lemma fib_mono: "fib n \<le> fib (Suc n)"
  by (cases n) (simp_all add: fib_nonneg)

lemma fib_loop_snoc: "fib_loop (Suc k) p = do { p \<leftarrow> fib_loop k p; fib_step p }"
proof (induction k arbitrary: p)
  case 0
  show ?case by (cases "fib_step p") simp_all
next
  case (Suc k)
  show ?case using Suc by (cases "fib_step p") simp_all
qed

lemma fib_loop_value:
  "fib_loop k (0, 1) = (if in_i64 (fib (Suc k)) then Some (fib k, fib (Suc k)) else None)"
proof (induction k)
  case 0
  show ?case by (simp add: in_i64_def)
next
  case (Suc k)
  have "in_i64 (fib (Suc k))" if "in_i64 (fib (Suc (Suc k)))"
    using that fib_mono[of "Suc k"] fib_nonneg[of "Suc k"] by (simp add: in_i64_def del: fib.simps)
  with Suc show ?case
    unfolding fib_loop_snoc by (auto simp: fib_step_def Let_def)
qed

fun fib_pair :: "nat \<Rightarrow> int \<times> int" where
  "fib_pair 0 = (0, 1)"
| "fib_pair (Suc n) = (let (a, b) = fib_pair n in (b, a + b))"

lemma fib_pair: "fib_pair n = (fib n, fib (Suc n))"
  by (induction n) simp_all

lemma fib_limits: "fib 92 = 7540113804746346429" "fib 93 = 12200160415121876738"
proof -
  have "fib_pair 92 = (7540113804746346429, 12200160415121876738)" by code_simp
  then have "fib 92 = 7540113804746346429 \<and> fib (Suc 92) = 12200160415121876738" unfolding fib_pair by blast
  then show "fib 92 = 7540113804746346429" "fib 93 = 12200160415121876738" by simp_all
qed

lemma fib_le: "m \<le> n \<Longrightarrow> fib m \<le> fib n"
  by (rule lift_Suc_mono_le[of fib]) (rule fib_mono)

text \<open>
  \<^verbatim>\<open>fibonacci(n)\<close> is the n-th Fibonacci number up to n = 92 (the program asks for 40 to
  44), overflows from 93 on, and returns negative arguments unchanged.
\<close>

theorem fibonacci_correct:
  "fibonacci n = (if n < 0 then Some n else if n \<le> 92 then Some (fib (nat n)) else None)"
proof -
  consider "n < 0" | "n = 0" | "n = 1" | "1 < n" "n \<le> 92" | "92 < n" by linarith
  then show ?thesis
  proof cases
    case 4
    have s: "Suc (nat (n - 1)) = nat n" using 4 by simp
    have "fib (nat n) \<le> fib 92" using 4 by (intro fib_le) simp
    then have "in_i64 (fib (nat n))" using fib_nonneg[of "nat n"] fib_limits by (simp add: in_i64_def)
    then show ?thesis using 4 by (simp add: fibonacci_def fib_loop_value s del: fib.simps)
  next
    case 5
    have s: "Suc (nat (n - 1)) = nat n" using 5 by simp
    have "fib 93 \<le> fib (nat n)" using 5 by (intro fib_le) simp
    then have "\<not> in_i64 (fib (nat n))" using fib_limits by (simp add: in_i64_def)
    then show ?thesis using 5 by (simp add: fibonacci_def fib_loop_value s del: fib.simps)
  qed (simp_all add: fibonacci_def)
qed

section \<open>Matrix multiplication\<close>

type_synonym 'a matrix = "nat \<Rightarrow> nat \<Rightarrow> 'a"

definition mat_set :: "nat \<Rightarrow> nat \<Rightarrow> 'a \<Rightarrow> 'a matrix \<Rightarrow> 'a matrix" where
  "mat_set i j v r = r(i := (r i)(j := v))"

definition matrix_multiply ::
  "'a::{zero, plus, times} matrix \<Rightarrow> 'a matrix \<Rightarrow> 'a matrix \<Rightarrow> nat \<Rightarrow> 'a matrix" where
  "matrix_multiply a b result n =
     fold (\<lambda>i result.
       fold (\<lambda>j result.
         fold (\<lambda>k result. mat_set i j (result i j + a i k * b k j) result) [0..<n]
           (mat_set i j 0 result))
         [0..<n] result)
       [0..<n] result"

lemma mat_set_apply: "mat_set i j v r p q = (if p = i \<and> q = j then v else r p q)"
  by (simp add: mat_set_def)

lemma inner_loop:
  "fold (\<lambda>k r. mat_set i j (r i j + f k) r) ks r
     = mat_set i j (foldl (\<lambda>s k. s + f k) (r i j) ks) r"
  by (induction ks arbitrary: r) (auto simp: mat_set_def fun_upd_def intro!: ext)

lemma row_loop:
  "fold (\<lambda>j r. mat_set i j (v j) r) [0..<n] r p q = (if p = i \<and> q < n then v q else r p q)"
  by (induction n) (auto simp: mat_set_apply)

lemma all_rows:
  assumes "\<And>i r p q. F i r p q = (if p = i \<and> q < m then v i q else r p q)"
  shows "fold F [0..<n] r p q = (if p < n \<and> q < m then v p q else r p q)"
  by (induction n) (auto simp: assms)

text \<open>
  \<^verbatim>\<open>matrix_multiply\<close> fills the leading n by n square of \<^verbatim>\<open>result\<close> with the product
  of the matrices, each entry summed from 0 in the order of k whatever the rounding of + and * is,
  and changes nothing else; the old contents of \<^verbatim>\<open>result\<close> do not matter.
\<close>

theorem matrix_multiply_correct:
  "matrix_multiply a b result n p q =
     (if p < n \<and> q < n then foldl (\<lambda>s k. s + a p k * b k q) 0 [0..<n] else result p q)"
proof -
  have cell: "fold (\<lambda>k r. mat_set i j (r i j + a i k * b k j) r) [0..<n] (mat_set i j 0 r)
      = mat_set i j (foldl (\<lambda>s k. s + a i k * b k j) 0 [0..<n]) r" for i j r
    unfolding inner_loop by (simp add: mat_set_def)
  show ?thesis
    unfolding matrix_multiply_def cell by (rule all_rows) (rule row_loop)
qed

section \<open>The arguments\<close>

text \<open>The two arguments after \<^verbatim>\<open>atoi\<close>, absent ones being \<^verbatim>\<open>None\<close>.\<close>

definition cpu_arguments :: "int option \<Rightarrow> int option \<Rightarrow> int \<times> int" where
  "cpu_arguments a1 a2 =
     (let run_time = (case a1 of None \<Rightarrow> 30 | Some v \<Rightarrow> v);
          num_threads = (case a2 of None \<Rightarrow> 2 | Some v \<Rightarrow> v);
          run_time = (if run_time \<le> 0 then 30 else run_time);
          num_threads = (if num_threads \<le> 0 \<or> 64 < num_threads then 2 else num_threads)
      in (run_time, num_threads))"

lemma cpu_arguments_bounds:
  "cpu_arguments a1 a2 = (rt, n) \<Longrightarrow> 0 < rt \<and> 0 < n \<and> n \<le> 64"
  by (auto simp: cpu_arguments_def Let_def split: if_splits option.splits)

section \<open>The threads\<close>

datatype worker = NotCreated | CreateFailed | Started | Working | Leaving | Ended

datatype main_pc = Creating nat | Waiting int | Joining nat | Returned | UndefinedJoin

record cpu_state =
  running :: bool
  active_threads :: int
  workers :: "worker list"
  main_at :: main_pc

definition cpu_start :: "nat \<Rightarrow> cpu_state" where
  "cpu_start n = \<lparr>running = True, active_threads = 0, workers = replicate n NotCreated, main_at = Creating 0\<rparr>"

text \<open>
  One step of the program: of the main thread, of a worker, or the delivery of a signal. What a
  worker does under \<^verbatim>\<open>count_mutex\<close> is one step.
\<close>

inductive cpu_step :: "int \<Rightarrow> cpu_state \<Rightarrow> cpu_state \<Rightarrow> bool" for run_time where
  create: "main_at s = Creating i \<Longrightarrow> i < length (workers s) \<Longrightarrow>
     cpu_step run_time s (s\<lparr>workers := (workers s)[i := Started], main_at := Creating (i + 1)\<rparr>)"
| create_fails: "main_at s = Creating i \<Longrightarrow> i < length (workers s) \<Longrightarrow>
     cpu_step run_time s (s\<lparr>workers := (workers s)[i := CreateFailed], main_at := Creating (i + 1)\<rparr>)"
| created: "main_at s = Creating i \<Longrightarrow> i = length (workers s) \<Longrightarrow>
     cpu_step run_time s (s\<lparr>main_at := Waiting 0\<rparr>)"
| second: "main_at s = Waiting e \<Longrightarrow> running s \<Longrightarrow> e < run_time \<Longrightarrow>
     cpu_step run_time s (s\<lparr>main_at := Waiting (e + 1)\<rparr>)"
| stop: "main_at s = Waiting e \<Longrightarrow> \<not> (running s \<and> e < run_time) \<Longrightarrow>
     cpu_step run_time s (s\<lparr>running := False, main_at := Joining 0\<rparr>)"
| join: "main_at s = Joining i \<Longrightarrow> i < length (workers s) \<Longrightarrow> workers s ! i = Ended \<Longrightarrow>
     cpu_step run_time s (s\<lparr>main_at := Joining (i + 1)\<rparr>)"
| join_garbage: "main_at s = Joining i \<Longrightarrow> i < length (workers s) \<Longrightarrow> workers s ! i = CreateFailed \<Longrightarrow>
     cpu_step run_time s (s\<lparr>main_at := UndefinedJoin\<rparr>)"
| joined: "main_at s = Joining i \<Longrightarrow> i = length (workers s) \<Longrightarrow>
     cpu_step run_time s (s\<lparr>main_at := Returned\<rparr>)"
| handle_signal: "running s \<Longrightarrow> cpu_step run_time s (s\<lparr>running := False\<rparr>)"
| worker_starts: "w < length (workers s) \<Longrightarrow> workers s ! w = Started \<Longrightarrow>
     cpu_step run_time s
       (s\<lparr>workers := (workers s)[w := Working], active_threads := active_threads s + 1\<rparr>)"
| worker_iterates: "w < length (workers s) \<Longrightarrow> workers s ! w = Working \<Longrightarrow> running s \<Longrightarrow>
     cpu_step run_time s s"
| worker_leaves: "w < length (workers s) \<Longrightarrow> workers s ! w = Working \<Longrightarrow> \<not> running s \<Longrightarrow>
     cpu_step run_time s (s\<lparr>workers := (workers s)[w := Leaving]\<rparr>)"
| worker_ends: "w < length (workers s) \<Longrightarrow> workers s ! w = Leaving \<Longrightarrow>
     cpu_step run_time s
       (s\<lparr>workers := (workers s)[w := Ended], active_threads := active_threads s - 1\<rparr>)"

inductive cpu_reach :: "int \<Rightarrow> nat \<Rightarrow> cpu_state \<Rightarrow> bool" for run_time n where
  init: "cpu_reach run_time n (cpu_start n)"
| step: "cpu_reach run_time n s \<Longrightarrow> cpu_step run_time s t \<Longrightarrow> cpu_reach run_time n t"

definition counted :: "worker \<Rightarrow> bool" where
  "counted w \<longleftrightarrow> w = Working \<or> w = Leaving"

definition before_join :: "main_pc \<Rightarrow> nat \<Rightarrow> nat" where
  "before_join pc n = (case pc of Joining i \<Rightarrow> i | Returned \<Rightarrow> n | _ \<Rightarrow> 0)"

text \<open>Workers below this index have been created (or have failed to be).\<close>

definition created_upto :: "main_pc \<Rightarrow> nat \<Rightarrow> nat" where
  "created_upto pc n = (case pc of Creating i \<Rightarrow> i | _ \<Rightarrow> n)"

definition cpu_inv :: "nat \<Rightarrow> cpu_state \<Rightarrow> bool" where
  "cpu_inv n s \<longleftrightarrow> length (workers s) = n
     \<and> active_threads s = (\<Sum>w\<leftarrow>workers s. of_bool (counted w))
     \<and> before_join (main_at s) n \<le> n
     \<and> (\<forall>i < before_join (main_at s) n. workers s ! i = Ended)
     \<and> created_upto (main_at s) n \<le> n
     \<and> (\<forall>j < n. workers s ! j = NotCreated \<longleftrightarrow> created_upto (main_at s) n \<le> j)
     \<and> ((\<exists>i. main_at s = Joining i) \<or> main_at s = Returned \<longrightarrow> \<not> running s)"

lemma sum_list_change:
  fixes f :: "'a \<Rightarrow> int"
  assumes "i < length xs"
  shows "(\<Sum>x\<leftarrow>xs[i := y]. f x) = (\<Sum>x\<leftarrow>xs. f x) - f (xs ! i) + f y"
  using assms
proof (induction xs arbitrary: i)
  case Nil
  then show ?case by simp
next
  case (Cons x xs)
  then show ?case by (cases i) simp_all
qed

lemma cpu_inv_start: "cpu_inv n (cpu_start n)"
  by (simp add: cpu_inv_def cpu_start_def before_join_def created_upto_def counted_def map_replicate_const
      sum_list_replicate)

lemmas cpu_inv_simps = cpu_inv_def before_join_def created_upto_def counted_def sum_list_change nth_list_update

lemma cpu_inv_step:
  assumes "cpu_step rt s t" and "cpu_inv n s"
  shows "cpu_inv n t"
  using assms
proof cases
  case (join i)
  then show ?thesis using assms(2) by (auto simp: cpu_inv_simps less_Suc_eq)
qed (use assms(2) in \<open>auto simp: cpu_inv_simps split: main_pc.splits if_splits\<close>)

lemma cpu_reach_inv: "cpu_reach rt n s \<Longrightarrow> cpu_inv n s"
  by (induction rule: cpu_reach.induct) (auto intro: cpu_inv_start cpu_inv_step)

lemma counted_sum_bounds:
  "0 \<le> (\<Sum>w\<leftarrow>ws. of_bool (counted w) :: int)" "(\<Sum>w\<leftarrow>ws. of_bool (counted w)) \<le> int (length ws)"
  by (induction ws) simp_all

lemma all_ended: "cpu_inv n s \<Longrightarrow> main_at s = Returned \<Longrightarrow> workers s = replicate n Ended"
  by (auto simp: cpu_inv_def before_join_def intro: nth_equalityI)

text \<open>
  Property C28. \<^verbatim>\<open>active_threads\<close> counts the workers between the two critical sections in every state
  the program can reach, under every interleaving and every signal, and stays between 0 and the
  number of threads; when \<^verbatim>\<open>main\<close> returns it is 0 and every worker has ended.
\<close>

theorem active_threads_counts:
  assumes "cpu_reach rt n s"
  shows "active_threads s = (\<Sum>w\<leftarrow>workers s. of_bool (counted w))
    \<and> 0 \<le> active_threads s \<and> active_threads s \<le> int n
    \<and> (main_at s = Returned \<longrightarrow> active_threads s = 0 \<and> workers s = replicate n Ended)"
proof -
  note inv = cpu_reach_inv[OF assms]
  then have "active_threads s = (\<Sum>w\<leftarrow>workers s. of_bool (counted w))" "length (workers s) = n"
    by (simp_all add: cpu_inv_def)
  then show ?thesis
    using counted_sum_bounds[of "workers s"] all_ended[OF inv]
    by (auto simp: counted_def sum_list_replicate)
qed

abbreviation one_worker :: "bool \<Rightarrow> int \<Rightarrow> worker \<Rightarrow> main_pc \<Rightarrow> cpu_state" where
  "one_worker r a w pc \<equiv> \<lparr>running = r, active_threads = a, workers = [w], main_at = pc\<rparr>"

lemma one_worker_run: "cpu_reach 1 1 (one_worker False 1 Working (Joining 0))"
  "cpu_reach 1 1 (one_worker False 0 Ended Returned)"
proof -
  have "cpu_reach 1 1 (one_worker True 0 NotCreated (Creating 0))"
    using cpu_reach.init[of 1 1] by (simp add: cpu_start_def)
  from cpu_reach.step[OF this cpu_step.create[of _ 0]]
  have "cpu_reach 1 1 (one_worker True 0 Started (Creating 1))" by simp
  from cpu_reach.step[OF this cpu_step.created[of _ 1]]
  have "cpu_reach 1 1 (one_worker True 0 Started (Waiting 0))" by simp
  from cpu_reach.step[OF this cpu_step.worker_starts[of 0]]
  have "cpu_reach 1 1 (one_worker True 1 Working (Waiting 0))" by simp
  from cpu_reach.step[OF this cpu_step.second[of _ 0]]
  have "cpu_reach 1 1 (one_worker True 1 Working (Waiting 1))" by simp
  from cpu_reach.step[OF this cpu_step.stop[of _ 1]]
  show j: "cpu_reach 1 1 (one_worker False 1 Working (Joining 0))" by simp
  from cpu_reach.step[OF j cpu_step.worker_leaves[of 0]]
  have "cpu_reach 1 1 (one_worker False 1 Leaving (Joining 0))" by simp
  from cpu_reach.step[OF this cpu_step.worker_ends[of 0]]
  have "cpu_reach 1 1 (one_worker False 0 Ended (Joining 0))" by simp
  from cpu_reach.step[OF this cpu_step.join[of _ 0]]
  have "cpu_reach 1 1 (one_worker False 0 Ended (Joining 1))" by simp
  from cpu_reach.step[OF this cpu_step.joined[of _ 1]]
  show "cpu_reach 1 1 (one_worker False 0 Ended Returned)" by simp
qed

theorem active_threads_counts_witness:
  "cpu_reach 1 1 (one_worker False 0 Ended Returned)
     \<and> active_threads (one_worker False 0 Ended Returned) = 0"
  using active_threads_counts[OF one_worker_run(2)] one_worker_run(2) by simp

text \<open>The steps a worker, and the main thread, still have to take once \<^verbatim>\<open>running\<close> is cleared.\<close>

definition worker_work :: "worker \<Rightarrow> nat" where
  "worker_work w = (case w of Started \<Rightarrow> 3 | Working \<Rightarrow> 2 | Leaving \<Rightarrow> 1 | _ \<Rightarrow> 0)"

definition cpu_work :: "cpu_state \<Rightarrow> nat" where
  "cpu_work s = (\<Sum>w\<leftarrow>workers s. worker_work w)
     + (case main_at s of Joining i \<Rightarrow> length (workers s) + 1 - i | _ \<Rightarrow> 0)"

definition stopping :: "nat \<Rightarrow> cpu_state \<Rightarrow> bool" where
  "stopping n s \<longleftrightarrow> cpu_inv n s \<and> CreateFailed \<notin> set (workers s)
     \<and> ((\<exists>i. main_at s = Joining i) \<or> main_at s = Returned)"

lemma work_change:
  assumes "w < length ws"
  shows "(\<Sum>w\<leftarrow>ws[w := y]. worker_work w) + worker_work (ws ! w) = (\<Sum>w\<leftarrow>ws. worker_work w) + worker_work y"
  using assms
proof (induction ws arbitrary: w)
  case Nil
  then show ?case by simp
next
  case (Cons x ws)
  then show ?case by (cases w) simp_all
qed

lemma not_failed_update: "CreateFailed \<notin> set ws \<Longrightarrow> x \<noteq> CreateFailed \<Longrightarrow> CreateFailed \<notin> set (ws[w := x])"
  using set_update_subset_insert[of ws w x] by auto

lemma stopping_step:
  assumes "cpu_step rt s t" and "stopping n s"
  shows "stopping n t \<and> cpu_work t < cpu_work s"
proof -
  have inv: "cpu_inv n s" "cpu_inv n t" "\<not> running s" "CreateFailed \<notin> set (workers s)"
    using assms cpu_inv_step by (auto simp: stopping_def cpu_inv_def)
  from assms(1) show ?thesis
  proof cases
    case (worker_starts w)
    then show ?thesis
      using inv assms(2) work_change[of w "workers s" Working]
      by (auto simp: stopping_def cpu_work_def worker_work_def not_failed_update split: main_pc.splits)
  next
    case (worker_leaves w)
    then show ?thesis
      using inv assms(2) work_change[of w "workers s" Leaving]
      by (auto simp: stopping_def cpu_work_def worker_work_def not_failed_update split: main_pc.splits)
  next
    case (worker_ends w)
    then show ?thesis
      using inv assms(2) work_change[of w "workers s" Ended]
      by (auto simp: stopping_def cpu_work_def worker_work_def not_failed_update split: main_pc.splits)
  next
    case (join_garbage i)
    then have "CreateFailed \<in> set (workers s)" using nth_mem by metis
    then show ?thesis using inv(4) by simp
  qed (use inv assms(2) in \<open>auto simp: stopping_def cpu_work_def\<close>)
qed

lemma stopping_progress:
  assumes "stopping n s" and "main_at s \<noteq> Returned"
  shows "\<exists>t. cpu_step rt s t"
proof -
  obtain i where i: "main_at s = Joining i" using assms by (auto simp: stopping_def)
  have inv: "cpu_inv n s" "CreateFailed \<notin> set (workers s)" using assms by (auto simp: stopping_def)
  then have run: "\<not> running s" and "i \<le> n" and len: "length (workers s) = n"
    using i by (auto simp: cpu_inv_def before_join_def)
  show ?thesis
  proof (cases "i = n")
    case True
    then show ?thesis using i len by (blast intro: cpu_step.joined)
  next
    case False
    then have lt: "i < length (workers s)" using \<open>i \<le> n\<close> len by simp
    have "workers s ! i \<noteq> CreateFailed" using inv(2) nth_mem[OF lt] by metis
    moreover have "workers s ! i \<noteq> NotCreated"
      using inv(1) i len lt by (simp add: cpu_inv_def created_upto_def)
    ultimately show ?thesis
      using i lt run
      by (cases "workers s ! i")
        (auto intro: cpu_step.join cpu_step.worker_starts cpu_step.worker_leaves cpu_step.worker_ends)
  qed
qed

lemma stopping_accp:
  assumes "stopping n s"
  shows "Wellfounded.accp (\<lambda>t s. cpu_step rt s t) s"
  using assms
proof (induction "cpu_work s" arbitrary: s rule: less_induct)
  case less
  then show ?case by (blast intro: accp.accI dest: stopping_step)
qed

lemma stopping_steps: "(cpu_step rt)\<^sup>*\<^sup>* s t \<Longrightarrow> stopping n s \<Longrightarrow> stopping n t"
  by (induction rule: rtranclp_induct) (auto dest: stopping_step)

text \<open>
  Property C26. Once the main thread has cleared \<^verbatim>\<open>running\<close> and starts to join, and if every thread
  could be created, every interleaving is finite and can end only with \<^verbatim>\<open>main\<close> having returned and
  all workers ended: no worker misses the flag and no join waits for ever.
\<close>

theorem cpu_load_stops:
  assumes "cpu_reach rt n s" and "main_at s = Joining i" and "CreateFailed \<notin> set (workers s)"
  shows "Wellfounded.accp (\<lambda>t s. cpu_step rt s t) s
    \<and> (\<forall>t. (cpu_step rt)\<^sup>*\<^sup>* s t \<and> \<not> (\<exists>u. cpu_step rt t u) \<longrightarrow>
          main_at t = Returned \<and> workers t = replicate n Ended \<and> active_threads t = 0)"
proof -
  have st: "stopping n s"
    using assms cpu_reach_inv by (auto simp: stopping_def)
  have "main_at t = Returned \<and> workers t = replicate n Ended \<and> active_threads t = 0"
    if "(cpu_step rt)\<^sup>*\<^sup>* s t" "\<not> (\<exists>u. cpu_step rt t u)" for t
  proof -
    have t: "stopping n t" using stopping_steps[OF that(1) st] .
    then have ret: "main_at t = Returned" using stopping_progress that(2) by blast
    have inv: "cpu_inv n t" using t by (simp add: stopping_def)
    then have "workers t = replicate n Ended" using ret by (rule all_ended)
    moreover from this have "active_threads t = 0"
      using inv by (simp add: cpu_inv_def counted_def sum_list_replicate)
    ultimately show ?thesis using ret by simp
  qed
  then show ?thesis using stopping_accp[OF st] by blast
qed

theorem cpu_load_stops_witness:
  "Wellfounded.accp (\<lambda>t s. cpu_step 1 s t) (one_worker False 1 Working (Joining 0))"
  using cpu_load_stops[OF one_worker_run(1), of 0] by simp

end
