(* ===== verification/Cpu_Worker.thy ===== *)
theory Cpu_Worker
  imports Syscalls C_Text Cpu_Load Complex_Main
begin

text \<open>
  The threads of \<^verbatim>\<open>cpu_intensive.c\<close> from inside: \<^verbatim>\<open>cpu_worker\<close> and \<^verbatim>\<open>main\<close> as programs over the calls
  they make, with the four computations of a worker on any type of \<^verbatim>\<open>double\<close>. A block of memory is a
  handle and an access to one is a \<open>Use\<close>, once per block and loop nest rather than once per element,
  so a program is \<open>disciplined\<close> when it never reads or writes through NULL or a freed block.
\<close>

section \<open>The computations\<close>

text \<open>The conversion of an integer, the constants, and the functions of \<^verbatim>\<open>libm\<close>, on a type of \<^verbatim>\<open>double\<close>.\<close>

record 'd math =
  conv :: "int \<Rightarrow> 'd"
  half :: 'd
  M_PI :: 'd
  sin_d :: "'d \<Rightarrow> 'd"
  cos_d :: "'d \<Rightarrow> 'd"
  exp_d :: "'d \<Rightarrow> 'd"

definition integral_step :: "'d::{plus, times} math \<Rightarrow> 'd \<Rightarrow> 'd \<Rightarrow> nat \<Rightarrow> 'd \<Rightarrow> 'd" where
  "integral_step D start step_size i acc =
     (let x = start + (conv D (int i) + half D) * step_size
      in acc + sin_d D x * cos_d D x * exp_d D (sin_d D x))"

definition numerical_integral :: "'d::{zero, plus, minus, times, inverse} math \<Rightarrow> 'd \<Rightarrow> 'd \<Rightarrow> nat \<Rightarrow> 'd" where
  "numerical_integral D start stop steps =
     (let step_size = (stop - start) / conv D (int steps)
      in fold (integral_step D start step_size) [0..<steps] 0 * step_size)"

text \<open>The tasks of a worker, adding to \<^verbatim>\<open>cpu_result\<close>; \<open>None\<close> is an overflow of \<^verbatim>\<open>long long\<close>.\<close>

fun add_primes :: "'d::plus math \<Rightarrow> int list \<Rightarrow> 'd \<Rightarrow> 'd option" where
  "add_primes D [] r = Some r"
| "add_primes D (i # is) r =
     do { p \<leftarrow> is_prime i; add_primes D is (if p then r + conv D i else r) }"

definition prime_task :: "'d::plus math \<Rightarrow> int \<Rightarrow> 'd \<Rightarrow> 'd option" where
  "prime_task D iteration r =
     (if in_i64 (1000000 + iteration + 100)
      then add_primes D [1000000 + iteration .. 1000000 + iteration + 99] r else None)"

fun add_fibonacci :: "'d::plus math \<Rightarrow> int list \<Rightarrow> 'd \<Rightarrow> 'd option" where
  "add_fibonacci D [] r = Some r"
| "add_fibonacci D (i # is) r = do { v \<leftarrow> fibonacci i; add_fibonacci D is (r + conv D v) }"

definition fibonacci_task :: "'d::plus math \<Rightarrow> 'd \<Rightarrow> 'd option" where
  "fibonacci_task D r = add_fibonacci D [40..44] r"

definition integral_task :: "'d::{zero, plus, minus, times, inverse} math \<Rightarrow> 'd \<Rightarrow> 'd" where
  "integral_task D r = fold (\<lambda>i r. r + numerical_integral D 0 (M_PI D) 100000) [0..<10] r"

section \<open>The matrices\<close>

definition touch :: "int \<Rightarrow> unit prog" where
  "touch h = do_call (Use ''access'' h 0)"

fun touch_all :: "int list \<Rightarrow> unit prog" where
  "touch_all [] = Ret ()"
| "touch_all (h # hs) = seq_unit (touch h) (touch_all hs)"

definition rand_double :: "'d::inverse math \<Rightarrow> int \<Rightarrow> 'd" where
  "rand_double D v = conv D v / conv D 2147483647"

fun fill_rows :: "'d::inverse math \<Rightarrow> int \<Rightarrow> int \<Rightarrow> nat list \<Rightarrow> (nat \<Rightarrow> 'd) \<times> (nat \<Rightarrow> 'd) \<Rightarrow>
    ((nat \<Rightarrow> 'd) \<times> (nat \<Rightarrow> 'd)) prog" where
  "fill_rows D a b [] rows = Ret rows"
| "fill_rows D a b (j # js) rows =
     Sys (Other ''rand'') (\<lambda>u. seq_unit (touch a)
       (Sys (Other ''rand'') (\<lambda>v. seq_unit (touch b)
         (fill_rows D a b js ((fst rows)(j := rand_double D u), (snd rows)(j := rand_double D v))))))"

text \<open>The rows so far in the order of their allocation, and the contents of the first two matrices.\<close>

type_synonym 'd rows = "int list \<times> 'd matrix \<times> 'd matrix"

fun alloc_rows :: "'d::inverse math \<Rightarrow> int \<Rightarrow> int \<Rightarrow> int \<Rightarrow> nat list \<Rightarrow> 'd rows \<Rightarrow> 'd rows prog" where
  "alloc_rows D a b result [] s = Ret s"
| "alloc_rows D a b result (i # is) (rows, A, B) =
     Sys (Acquire ''malloc(50 * sizeof(double))'') (\<lambda>ai. seq_unit (touch a)
       (Sys (Acquire ''malloc(50 * sizeof(double))'') (\<lambda>bi. seq_unit (touch b)
         (Sys (Acquire ''malloc(50 * sizeof(double))'') (\<lambda>ri. seq_unit (touch result)
           (seq (fill_rows D ai bi [0..<50] (A i, B i)) (\<lambda>(x, y).
             alloc_rows D a b result is (rows @ [ai, bi, ri], A(i := x), B(i := y)))))))))"

definition add_matrix :: "'d::plus matrix \<Rightarrow> nat \<Rightarrow> 'd \<Rightarrow> 'd" where
  "add_matrix R n r = fold (\<lambda>i r. fold (\<lambda>j r. r + R i j) [0..<n] r) [0..<n] r"

text \<open>\<open>garbage\<close> is what \<^verbatim>\<open>malloc\<close> finds in the blocks.\<close>

definition matrix_task :: "'d::{zero, plus, times, inverse} math \<Rightarrow> 'd matrix \<Rightarrow> 'd \<Rightarrow> 'd prog" where
  "matrix_task D garbage r =
     Sys (Acquire ''malloc(50 * sizeof(double*))'') (\<lambda>a.
     Sys (Acquire ''malloc(50 * sizeof(double*))'') (\<lambda>b.
     Sys (Acquire ''malloc(50 * sizeof(double*))'') (\<lambda>result.
       seq (alloc_rows D a b result [0..<50] ([], garbage, garbage)) (\<lambda>(rows, A, B).
         let blocks = [a, b, result] @ rows
         in seq_unit (touch_all blocks)
              (seq_unit (touch_all blocks)
                (seq_unit (release_all ''free'' (rows @ [a, b, result]))
                  (Ret (add_matrix (matrix_multiply A B garbage 50) 50 r))))))))"

section \<open>The worker\<close>

definition cpu_task ::
  "'d::{zero, plus, minus, times, inverse} math \<Rightarrow> 'd matrix \<Rightarrow> int \<Rightarrow> 'd \<Rightarrow> 'd option prog" where
  "cpu_task D garbage iteration r =
     (let c = c_mod iteration 4
      in if c = 0 then Ret (prime_task D iteration r)
         else if c = 1 then Ret (fibonacci_task D r)
         else if c = 2 then Ret (Some (integral_task D r))
         else if c = 3 then seq (matrix_task D garbage r) (\<lambda>r. Ret (Some r))
         else Ret (Some r))"

definition show_progress :: "int \<Rightarrow> int \<Rightarrow> unit prog" where
  "show_progress thread_id iteration =
     (if thread_id = 0 \<and> c_mod iteration 10000 = 0 then do_call (Other ''printf'') else Ret ())"

text \<open>At most the given number of turns of the loop on \<^verbatim>\<open>running\<close>.\<close>

fun cpu_turns :: "nat \<Rightarrow> 'd::{zero, plus, minus, times, inverse} math \<Rightarrow> 'd matrix \<Rightarrow> int \<Rightarrow> int \<Rightarrow> 'd \<Rightarrow>
    (int \<times> 'd) option prog" where
  "cpu_turns 0 D garbage thread_id iteration r = Cut"
| "cpu_turns (Suc n) D garbage thread_id iteration r =
     Sys (Other ''running'') (\<lambda>run.
       if run = 0 then Ret (Some (iteration, r))
       else seq (cpu_task D garbage iteration r) (\<lambda>x.
         case x of None \<Rightarrow> Ret None
         | Some r \<Rightarrow>
             seq_unit (show_progress thread_id (iteration + 1))
               (cpu_turns n D garbage thread_id (iteration + 1) r)))"

abbreviation count_threads :: "unit prog" where
  "count_threads \<equiv> seq_unit (do_call (Other ''pthread_mutex_lock'')) (do_call (Other ''pthread_mutex_unlock''))"

definition cpu_worker :: "nat \<Rightarrow> 'd::{zero, plus, minus, times, inverse} math \<Rightarrow> 'd matrix \<Rightarrow> int \<Rightarrow> int \<Rightarrow>
    (int \<times> 'd) option prog" where
  "cpu_worker n D garbage arg thread_id =
     seq_unit (touch arg) (seq_unit count_threads
       (seq (cpu_turns n D garbage thread_id 0 0) (\<lambda>x.
         case x of None \<Rightarrow> Ret None
         | Some _ \<Rightarrow> seq_unit count_threads (seq_unit (do_call (Release ''free'' arg)) (Ret x)))))"

section \<open>The memory of a worker\<close>

text \<open>\<open>owns H hs H'\<close>: besides \<open>H\<close> exactly the blocks \<open>hs\<close> are held, each once, and none is NULL.\<close>

definition owns :: "int set \<Rightarrow> int list \<Rightarrow> int set \<Rightarrow> bool" where
  "owns H hs H' \<longleftrightarrow> distinct hs \<and> set hs \<inter> H = {} \<and> H' = H \<union> set hs \<and> -1 \<notin> set hs"

lemma owns_array: "owns H hs H' \<Longrightarrow> array_of H hs H'"
proof -
  assume o: "owns H hs H'"
  then have "opened hs = hs" unfolding opened_def by (intro filter_True) (auto simp: owns_def)
  then show ?thesis using o by (simp add: array_of_def owns_def)
qed

lemma owns_row:
  assumes "owns H (rows @ ys) H'" and "ai \<notin> H'" "bi \<notin> insert ai H'" "ri \<notin> insert bi (insert ai H')"
    and "ai \<noteq> -1" "bi \<noteq> -1" "ri \<noteq> -1"
  shows "owns H ((rows @ [ai, bi, ri]) @ ys) (insert ri (insert bi (insert ai H')))"
  using assms by (auto simp: owns_def)

lemma wp_touch_each: "set hs \<subseteq> H \<Longrightarrow> Q H () \<Longrightarrow> wp F (while_granted (touch_all hs)) H Q"
  by (induction hs) (simp_all add: touch_def)

lemma wp_fill_rows:
  "a \<in> H \<Longrightarrow> b \<in> H \<Longrightarrow> (\<And>x. Q H x) \<Longrightarrow> wp F (while_granted (fill_rows D a b js s)) H Q"
  by (induction js arbitrary: s) (simp_all add: touch_def)

lemma while_granted_release_all [simp]: "while_granted (release_all s hs) = release_all s hs"
  by (induction hs) (auto simp: do_call_def)

lemma wp_alloc_rows:
  assumes "owns H (rows @ [a, b, result]) H'"
    and "\<And>rows A B H'. owns H (rows @ [a, b, result]) H' \<Longrightarrow> Q H' (rows, A, B)"
  shows "wp F (while_granted (alloc_rows D a b result is (rows, A, B))) H' Q"
  using assms(1)
proof (induction "is" arbitrary: rows A B H')
  case Nil
  then show ?case using assms(2) by simp
next
  case (Cons i "is")
  have top: "a \<in> H'" "b \<in> H'" "result \<in> H'" using Cons.prems by (auto simp: owns_def)
  have row: "wp F (while_granted (fill_rows D ai bi [0..<50] (A i, B i))) (insert ri (insert bi (insert ai H')))
      (\<lambda>H'' s. wp F (while_granted (case s of (x, y) \<Rightarrow>
         alloc_rows D a b result is (rows @ [ai, bi, ri], A(i := x), B(i := y)))) H'' Q)"
    if "ai \<notin> H'" "bi \<notin> insert ai H'" "ri \<notin> insert bi (insert ai H')" "ai \<noteq> -1" "bi \<noteq> -1" "ri \<noteq> -1"
    for ai bi ri
  proof (rule wp_fill_rows)
    fix x :: "(nat \<Rightarrow> 'a) \<times> (nat \<Rightarrow> 'a)"
    have "owns H ((rows @ [ai, bi, ri]) @ [a, b, result]) (insert ri (insert bi (insert ai H')))"
      using Cons.prems that by (rule owns_row)
    then show "wp F (while_granted (case x of (x, y) \<Rightarrow>
        alloc_rows D a b result is (rows @ [ai, bi, ri], A(i := x), B(i := y)))) (insert ri (insert bi (insert ai H'))) Q"
      using Cons.IH by (simp split: prod.split)
  qed simp_all
  show ?case using top row by (auto simp: touch_def)
qed

lemma matrix_task_balanced: "balanced F (while_granted (matrix_task D garbage r))"
proof -
  have "wp F (while_granted (matrix_task D garbage r)) H (\<lambda>H' _. H' = H)" for H
  proof -
    have rest: "wp F (while_granted (alloc_rows D a b result [0..<50] ([], garbage, garbage)))
        (insert result (insert b (insert a H)))
        (\<lambda>H' s. wp F (while_granted (case s of (rows, A, B) \<Rightarrow>
           let blocks = [a, b, result] @ rows
           in seq_unit (touch_all blocks)
              (seq_unit (touch_all blocks)
                (seq_unit (release_all ''free'' (rows @ [a, b, result]))
                  (Ret (add_matrix (matrix_multiply A B garbage 50) 50 r)))))) H' (\<lambda>H' _. H' = H))"
      if "a \<notin> H" "a \<noteq> -1" "b \<notin> insert a H" "b \<noteq> -1" "result \<notin> insert b (insert a H)" "result \<noteq> -1" for a b result
    proof (rule wp_alloc_rows[where H = H])
      show "owns H ([] @ [a, b, result]) (insert result (insert b (insert a H)))"
        using that by (auto simp: owns_def)
    next
      fix rows A B H'
      assume o: "owns H (rows @ [a, b, result]) H'"
      then have "set ([a, b, result] @ rows) \<subseteq> H'" by (auto simp: owns_def)
      then show "wp F (while_granted (case (rows, A, B) of (rows, A, B) \<Rightarrow>
           let blocks = [a, b, result] @ rows
           in seq_unit (touch_all blocks)
              (seq_unit (touch_all blocks)
                (seq_unit (release_all ''free'' (rows @ [a, b, result]))
                  (Ret (add_matrix (matrix_multiply A B garbage 50) 50 r)))))) H' (\<lambda>H' _. H' = H)"
        using wp_release_all[OF owns_array[OF o]]
        by (simp add: Let_def wp_touch_each del: append_Cons append_Nil touch_all.simps)
    qed
    show ?thesis using rest by (auto simp: matrix_task_def)
  qed
  then show ?thesis by (simp add: balanced_def)
qed

section \<open>The worker as a whole\<close>

lemma add_primes_value:
  "\<forall>i\<in>set is. i < 9000000000000000000 \<Longrightarrow>
   add_primes D is r = Some (fold (\<lambda>i r. if prime_number i then r + conv D i else r) is r)"
  by (induction "is" arbitrary: r) (simp_all add: is_prime_exact)

lemma prime_task_value:
  assumes "0 \<le> it" and "it < 8000000000000000000"
  shows "prime_task D it r = Some (fold (\<lambda>i r. if prime_number i then r + conv D i else r)
           [1000000 + it .. 1000000 + it + 99] r)"
  using assms by (simp add: prime_task_def in_i64_def add_primes_value)

lemma fibonacci_task_value: "fibonacci_task D r = Some (fold (\<lambda>i r. r + conv D (fib (nat i))) [40..44] r)"
proof -
  have "add_fibonacci D is r = Some (fold (\<lambda>i r. r + conv D (fib (nat i))) is r)"
    if "\<forall>i\<in>set is. 0 \<le> i \<and> i \<le> 92" for "is"
    using that by (induction "is" arbitrary: r) (simp_all add: fibonacci_correct)
  from this[of "[40..44]"] show ?thesis by (auto simp: fibonacci_task_def)
qed

lemma wp_cpu_task:
  assumes "0 \<le> it" and "it < 8000000000000000000" and "\<And>r. Q H (Some r)"
  shows "wp F (while_granted (cpu_task D garbage it r)) H Q"
proof -
  have "wp F (while_granted (matrix_task D garbage r)) H (\<lambda>H' a. Q H' (Some a))"
    by (rule balancedD[OF matrix_task_balanced]) (rule assms(3))
  then show ?thesis
    using assms by (simp add: cpu_task_def Let_def prime_task_value fibonacci_task_value)
qed

lemma wp_show_progress [simp]: "wp F (while_granted (show_progress tid it)) H Q \<longleftrightarrow> Q H ()"
  by (simp add: show_progress_def)

lemma wp_cpu_turns:
  assumes "0 \<le> it" and "it + int n \<le> 8000000000000000000"
    and "\<And>i r. it \<le> i \<Longrightarrow> i < it + int n \<Longrightarrow> Q H (Some (i, r))"
  shows "wp F (while_granted (cpu_turns n D garbage tid it r)) H Q"
  using assms
proof (induction n arbitrary: it r)
  case (Suc n)
  have "wp F (while_granted (cpu_turns n D garbage tid (it + 1) r)) H Q" for r
    using Suc.prems by (intro Suc.IH) auto
  then have "wp F (while_granted (cpu_task D garbage it r)) H (\<lambda>H' x. wp F (while_granted
      (case x of None \<Rightarrow> Ret None
       | Some r \<Rightarrow> seq_unit (show_progress tid (it + 1))
           (cpu_turns n D garbage tid (it + 1) r))) H' Q)"
    using Suc.prems by (intro wp_cpu_task) auto
  then show ?case using Suc.prems(3) by simp
qed simp

lemma wp_cpu_worker:
  assumes "int n \<le> 8000000000000000000" and "arg \<in> H"
  shows "wp F (while_granted (cpu_worker n D garbage arg tid)) H
     (\<lambda>H' x. H' = H - {arg} \<and> (\<exists>it r. x = Some (it, r) \<and> 0 \<le> it \<and> it < int n))"
  using assms by (simp add: cpu_worker_def touch_def wp_cpu_turns)

lemma matrix_task_null:
  assumes "-1 \<notin> H"
  shows "\<not> disciplined H (fst (run (matrix_task D garbage r) ([-1, b, result, ai, u] @ answers)))"
proof -
  have rows: "[0..<50] = 0 # [Suc 0..<50]" by (simp add: upt_conv_Cons)
  show ?thesis
    using assms by (simp add: matrix_task_def rows touch_def do_call_def split_beta)
qed

text \<open>
  Property C27. A worker, for any number of turns up to 8 * 10^18, any arithmetic on \<^verbatim>\<open>double\<close> and
  any moment at which \<^verbatim>\<open>running\<close> is cleared: as long as no \<^verbatim>\<open>malloc\<close> is refused it reads, writes and
  frees only blocks it holds, no computation overflows, and when it ends its matrices and its
  argument are freed. It never looks at what \<^verbatim>\<open>malloc\<close> answers: where the first array of the matrix
  task is refused, its next access to memory goes through NULL.
\<close>

theorem cpu_worker_memory:
  assumes "int n \<le> 8000000000000000000"
  shows "(\<forall>answers tr x. run (cpu_worker n D garbage arg thread_id) answers = (tr, x) \<and> permitted F {arg} tr \<and> granted tr \<longrightarrow>
      disciplined {arg} tr \<and> (x = None \<or> held {arg} tr = {} \<and> (\<exists>it r. x = Some (Some (it, r)) \<and> it < int n)))
    \<and> (\<forall>b result ai u answers. - 1 \<notin> H \<longrightarrow>
        \<not> disciplined H (fst (run (matrix_task D garbage r) ([-1, b, result, ai, u] @ answers))))"
  (is "?safe \<and> ?null")
proof
  have "disciplined {arg} tr \<and> (x = None \<or> held {arg} tr = {} \<and> (\<exists>it r. x = Some (Some (it, r)) \<and> it < int n))"
    if "run (cpu_worker n D garbage arg thread_id) answers = (tr, x)" "permitted F {arg} tr" "granted tr"
    for answers tr x
    using granted_run[OF wp_cpu_worker[OF assms, of arg "{arg}"] that(1,3,2)] by auto
  then show ?safe by blast
qed (simp add: matrix_task_null del: append_Cons)

definition real_math :: "real math" where
  "real_math = \<lparr>conv = of_int, half = 1 / 2, M_PI = pi, sin_d = sin, cos_d = cos, exp_d = exp\<rparr>"

text \<open>Two turns, the second of which finds \<^verbatim>\<open>running\<close> cleared, with the argument in block 7.\<close>

theorem cpu_worker_memory_witness:
  "disciplined {7} (fst (run (cpu_worker 2 real_math (\<lambda>i j. 0) 7 0) [0, 0, 0, 1, 0, 0, 0, 0]))
   \<and> held {7} (fst (run (cpu_worker 2 real_math (\<lambda>i j. 0) 7 0) [0, 0, 0, 1, 0, 0, 0, 0])) = {}"
proof -
  define p where "p = cpu_worker 2 real_math (\<lambda>i j. 0) 7 0"
  obtain tr x where r: "run p [0, 0, 0, 1, 0, 0, 0, 0] = (tr, x)" by force
  have "\<exists>v. prime_task real_math 0 0 = Some v" by (rule exI, rule prime_task_value) simp_all
  then obtain v where v: "prime_task real_math 0 0 = Some v" by blast
  have h: "permitted {} {7} tr \<and> granted tr" "x \<noteq> None"
    using r by (auto simp: p_def cpu_worker_def touch_def do_call_def numeral_2_eq_2 cpu_task_def
        c_mod_def c_div_def v show_progress_def)
  then show ?thesis
    using cpu_worker_memory[of 2, THEN conjunct1, rule_format, OF _ conjI, OF _ r[unfolded p_def] h(1)] r h(2)
    unfolding p_def by auto
qed

section \<open>The integral\<close>

text \<open>
  In exact arithmetic the integral of \<^verbatim>\<open>sin(x) * cos(x) * exp(sin(x))\<close> that a worker computes is 0
  for every number of steps: the midpoints lie symmetrically in the interval and the function is odd
  about its middle. What \<^verbatim>\<open>integral_task\<close> adds to the result is rounding error.
\<close>

theorem numerical_integral_zero: "numerical_integral real_math 0 pi steps = 0"
proof (cases "steps = 0")
  case False
  define h where "h = pi / real steps"
  define g where "g i = (let x = (real i + 1 / 2) * h in sin x * cos x * exp (sin x))" for i :: nat
  have loop: "fold (integral_step real_math 0 h) [0..<n] a = a + (\<Sum>i<n. g i)" for n a
    by (induction n) (simp_all add: integral_step_def real_math_def g_def Let_def)
  have mirror: "g (steps - Suc i) = - g i" if "i < steps" for i
  proof -
    have "real steps * h = pi" using False by (simp add: h_def)
    then have "(real (steps - Suc i) + 1 / 2) * h = pi - (real i + 1 / 2) * h"
      using that by (simp add: of_nat_diff algebra_simps)
    then show ?thesis by (simp add: g_def Let_def)
  qed
  have "(\<Sum>i < steps. g i) = (\<Sum>i < steps. g (steps - Suc i))" by (rule sum.nat_diff_reindex[symmetric])
  also have "\<dots> = - (\<Sum>i < steps. g i)" by (simp add: mirror sum_negf)
  finally have "(\<Sum>i < steps. g i) = 0" by simp
  moreover have "(pi - 0) / conv real_math (int steps) = h" by (simp add: real_math_def h_def)
  ultimately show ?thesis by (simp add: numerical_integral_def loop)
qed (simp add: numerical_integral_def)

section \<open>The main thread\<close>

text \<open>
  \<^verbatim>\<open>pthread_create\<close> answers a new thread or an error, which is -1 here. A thread that is created frees
  its argument itself: the pseudo call \<^verbatim>\<open>taken by the thread\<close> marks that the block is no longer the
  main thread's. The answer is the array of threads, with -1 for an element that was not set.
\<close>

fun create_workers :: "int \<Rightarrow> int \<Rightarrow> nat list \<Rightarrow> int list \<Rightarrow> int list prog" where
  "create_workers threads thread_ids [] ts = Ret ts"
| "create_workers threads thread_ids (i # is) ts =
     seq_unit (touch thread_ids)
       (Sys (Acquire ''malloc(sizeof(int))'') (\<lambda>arg. seq_unit (touch arg) (seq_unit (touch threads)
         (Sys (Acquire ''pthread_create'') (\<lambda>t.
           seq_unit (do_call (Release (if t = -1 then ''free'' else ''taken by the thread'') arg))
             (create_workers threads thread_ids is (ts @ [t])))))))"

text \<open>The loop of one-second sleeps, with the seconds still to go; it answers \<^verbatim>\<open>elapsed\<close>.\<close>

fun wait_seconds :: "nat \<Rightarrow> int \<Rightarrow> int prog" where
  "wait_seconds 0 elapsed = Sys (Other ''running'') (\<lambda>_. Ret elapsed)"
| "wait_seconds (Suc n) elapsed =
     Sys (Other ''running'') (\<lambda>run.
       if run = 0 then Ret elapsed
       else seq_unit (do_call (Other ''sleep(1)''))
         (seq_unit (if c_mod (elapsed + 1) 5 = 0 then do_call (Other ''printf'') else Ret ())
           (wait_seconds n (elapsed + 1))))"

text \<open>To join a thread that was never created is undefined, the result \<open>None\<close>.\<close>

fun join_all :: "int \<Rightarrow> int list \<Rightarrow> unit option prog" where
  "join_all threads [] = Ret (Some ())"
| "join_all threads (t # ts) =
     seq_unit (touch threads)
       (if t = -1 then Ret None else Sys (Release ''pthread_join'' t) (\<lambda>_. join_all threads ts))"

text \<open>The exit status, and the seconds that it reports; \<open>None\<close> is undefined behaviour.\<close>

definition cpu_main :: "string list \<Rightarrow> (int \<times> int) option prog" where
  "cpu_main args =
     (if asks_help args then seq_unit (do_call (Other ''show_usage'')) (Ret (Some (0, 0)))
      else if \<not> numbers_fit args [0, 1] then Ret None else
      let (run_time, num_threads) = cpu_arguments (int_arg args 0) (int_arg args 1) in
      seq_unit (do_call (Other ''signal(SIGINT)'')) (seq_unit (do_call (Other ''signal(SIGTERM)''))
      (seq_unit (do_call (Other ''srand''))
      (Sys (Acquire ''malloc(num_threads * sizeof(pthread_t))'') (\<lambda>threads.
       Sys (Acquire ''malloc(num_threads * sizeof(int))'') (\<lambda>thread_ids.
         if threads = -1 \<or> thread_ids = -1 then Ret (Some (1, 0))
         else seq (create_workers threads thread_ids [0..<nat num_threads] []) (\<lambda>ts.
           seq (wait_seconds (nat run_time) 0) (\<lambda>elapsed.
             seq_unit (do_call (Other ''running = 0''))
             (seq (join_all threads ts) (\<lambda>joined.
               if joined = None then Ret None
               else seq_unit (do_call (Release ''free'' threads))
                 (seq_unit (do_call (Release ''free'' thread_ids))
                 (seq_unit (do_call (Other ''pthread_mutex_destroy''))
                   (Ret (Some (0, elapsed)))))))))))))))"

text \<open>\<open>threads_of H ts H'\<close>: besides \<open>H\<close> exactly the threads \<open>ts\<close> are held.\<close>

definition threads_of :: "int set \<Rightarrow> int list \<Rightarrow> int set \<Rightarrow> bool" where
  "threads_of H ts H' \<longleftrightarrow> distinct ts \<and> -1 \<notin> set ts \<and> set ts \<inter> H = {} \<and> H' = H \<union> set ts"

lemma wp_create_workers:
  "threads \<in> H \<Longrightarrow> ids \<in> H \<Longrightarrow> threads_of H ts H' \<Longrightarrow> (\<And>ts H'. threads_of H ts H' \<Longrightarrow> Q H' ts) \<Longrightarrow>
   wp F (while_granted (create_workers threads ids is ts)) H' Q"
proof (induction "is" arbitrary: ts H')
  case (Cons i "is")
  have more: "wp F (while_granted (create_workers threads ids is (ts @ [t]))) (insert t (insert arg H') - {arg}) Q"
    if "0 \<le> t" "t \<notin> insert arg H'" "arg \<notin> H'" for arg t
    using that Cons.prems(3) by (intro Cons.IH Cons.prems) (auto simp: threads_of_def)
  show ?case using Cons.prems(1-3) more by (auto simp: touch_def threads_of_def)
qed simp

lemma wp_join_all:
  "threads \<in> H \<Longrightarrow> threads_of H ts H' \<Longrightarrow> Q H (Some ()) \<Longrightarrow> wp F (while_granted (join_all threads ts)) H' Q"
proof (induction ts arbitrary: H')
  case (Cons t ts)
  have "wp F (while_granted (join_all threads ts)) (H' - {t}) Q"
    using Cons.prems by (intro Cons.IH) (auto simp: threads_of_def)
  then show ?case using Cons.prems by (auto simp: touch_def threads_of_def)
qed (simp add: threads_of_def)

lemma wp_wait_seconds:
  "(\<And>e. elapsed \<le> e \<Longrightarrow> e \<le> elapsed + int n \<Longrightarrow> Q H e) \<Longrightarrow> wp F (while_granted (wait_seconds n elapsed)) H Q"
  by (induction n arbitrary: elapsed) simp_all

lemma wp_cpu_main:
  "wp F (while_granted (cpu_main args)) H
     (\<lambda>H' x. H' = H \<and> (if asks_help args \<or> numbers_fit args [0, 1]
        then \<exists>elapsed. x = Some (0, elapsed) \<and> 0 \<le> elapsed \<and> elapsed \<le> fst (cpu_arguments (int_arg args 0) (int_arg args 1))
        else x = None))"
proof -
  obtain rt n where a: "cpu_arguments (int_arg args 0) (int_arg args 1) = (rt, n)" by force
  then have b: "0 < rt" "0 < n" using cpu_arguments_bounds by blast+
  have gone: "insert ids (insert ts H) - {ts} - {ids} = H" if "ts \<notin> H" "ids \<notin> insert ts H" for ts ids
    using that by auto
  have create: "wp F (while_granted (create_workers ts ids is [])) (insert ids (insert ts H)) Q"
    if "\<And>tids H'. threads_of (insert ids (insert ts H)) tids H' \<Longrightarrow> Q H' tids" for ts ids "is" Q
    by (rule wp_create_workers[where H = "insert ids (insert ts H)"]) (auto intro: that simp: threads_of_def[of _ "[]"])
  have join: "wp F (while_granted (join_all ts tids)) H' Q"
    if "threads_of (insert ids (insert ts H)) tids H'" "Q (insert ids (insert ts H)) (Some ())" for ts ids tids H' Q
    by (rule wp_join_all[where H = "insert ids (insert ts H)"]) (use that in simp_all)
  show ?thesis
    using b by (auto simp: cpu_main_def a a[unfolded One_nat_def] gone intro!: create wp_wait_seconds join)
qed

text \<open>The main thread fulfils the contract of the example programs while its requests are granted.\<close>

interpretation cpu_main: balanced_program F "\<lambda>args. while_granted (cpu_main args)" for F
  by unfold_locales (auto simp: balanced_def intro!: wp_mono[OF wp_cpu_main])

text \<open>
  The main thread, for every command line whose numbers fit in \<^verbatim>\<open>int\<close> and every moment at which a signal
  clears \<^verbatim>\<open>running\<close>: while its requests for memory and threads are granted it uses only blocks it holds,
  gives back or hands over each of them, joins every thread, runs for at most the time it was asked
  for and returns 0. When the second of its arrays is refused it returns 1 with the first one still
  allocated, and when a thread is refused it joins one that does not exist.
\<close>

theorem cpu_main_memory:
  assumes "asks_help args \<or> numbers_fit args [0, 1]"
  shows "(run (cpu_main args) answers = (tr, x) \<and> permitted F {} tr \<and> granted tr \<longrightarrow>
      disciplined {} tr \<and> (x = None \<or> held {} tr = {} \<and>
        (\<exists>elapsed. x = Some (Some (0, elapsed)) \<and> 0 \<le> elapsed \<and> elapsed \<le> fst (cpu_arguments (int_arg args 0) (int_arg args 1)))))
   \<and> (\<not> asks_help args \<and> threads \<noteq> -1 \<longrightarrow> (let (tr, x) = run (cpu_main args) ([0, 0, 0, threads, -1] @ answers)
        in x = Some (Some (1, 0)) \<and> held {} tr = {threads}))
   \<and> run (join_all threads [-1]) [0] = ([(Use ''access'' threads 0, 0)], Some None)"
  (is "?granted \<and> ?refused \<and> ?unset")
proof (intro conjI)
  show ?granted using granted_run[OF wp_cpu_main[of F args "{}"]] assms by (cases x) fastforce+
  show ?refused using assms by (auto simp: cpu_main_def do_call_def Let_def split_beta)
  show ?unset by (simp add: touch_def do_call_def)
qed

end
