(* ===== verification/Byte_Store.thy ===== *)
theory Byte_Store
  imports Prelude
begin

text \<open>
  Byte-addressed memory of the 64-bit little-endian target (\<^verbatim>\<open>-mabi=lp64 -march=rv64gc\<close>):
  a total map from addresses to bytes, with the 64-bit and the 8-bit accesses the allocator
  makes through its block headers, and \<^verbatim>\<open>memset\<close> and \<^verbatim>\<open>memcpy\<close> of the C library.
  The locale \<open>byte_cells\<close> states the interface (read after write, the frame, reads depend
  on their own bytes only); both widths are interpretations of it.
\<close>

type_synonym ram = "u64 \<Rightarrow> u8"

definition load8 :: "ram \<Rightarrow> u64 \<Rightarrow> u8" where
  "load8 m a = m a"

definition store8 :: "ram \<Rightarrow> u64 \<Rightarrow> u8 \<Rightarrow> ram" where
  "store8 m a v = m(a := v)"

definition le64 :: "u8 \<Rightarrow> u8 \<Rightarrow> u8 \<Rightarrow> u8 \<Rightarrow> u8 \<Rightarrow> u8 \<Rightarrow> u8 \<Rightarrow> u8 \<Rightarrow> u64" where
  "le64 b0 b1 b2 b3 b4 b5 b6 b7 =
     ucast b0 OR push_bit 8 (ucast b1) OR push_bit 16 (ucast b2) OR push_bit 24 (ucast b3)
     OR push_bit 32 (ucast b4) OR push_bit 40 (ucast b5) OR push_bit 48 (ucast b6)
     OR push_bit 56 (ucast b7)"

definition load64 :: "ram \<Rightarrow> u64 \<Rightarrow> u64" where
  "load64 m a = le64 (m a) (m (a + 1)) (m (a + 2)) (m (a + 3))
                     (m (a + 4)) (m (a + 5)) (m (a + 6)) (m (a + 7))"

definition store64 :: "ram \<Rightarrow> u64 \<Rightarrow> u64 \<Rightarrow> ram" where
  "store64 m a v = m(a := ucast v, a + 1 := ucast (drop_bit 8 v),
     a + 2 := ucast (drop_bit 16 v), a + 3 := ucast (drop_bit 24 v),
     a + 4 := ucast (drop_bit 32 v), a + 5 := ucast (drop_bit 40 v),
     a + 6 := ucast (drop_bit 48 v), a + 7 := ucast (drop_bit 56 v))"

fun memset :: "ram \<Rightarrow> u64 \<Rightarrow> u8 \<Rightarrow> nat \<Rightarrow> ram" where
  "memset m a v 0 = m"
| "memset m a v (Suc n) = memset (store8 m a v) (a + 1) v n"

fun memcpy :: "ram \<Rightarrow> u64 \<Rightarrow> u64 \<Rightarrow> nat \<Rightarrow> ram" where
  "memcpy m dst src 0 = m"
| "memcpy m dst src (Suc n) = memcpy (store8 m dst (load8 m src)) (dst + 1) (src + 1) n"

section \<open>The interface\<close>

text \<open>
  \<open>agree m m' a n\<close>: the two memories hold the same \<open>n\<close> bytes from \<open>a\<close> on.
\<close>

definition agree :: "ram \<Rightarrow> ram \<Rightarrow> u64 \<Rightarrow> nat \<Rightarrow> bool" where
  "agree m m' a n \<longleftrightarrow> (\<forall>k<n. m' (a + of_nat k) = m (a + of_nat k))"

text \<open>
  \<open>apart a n b k\<close>: the ranges \<open>[a, a+n)\<close> and \<open>[b, b+k)\<close> do not wrap and do not meet.
\<close>

definition apart :: "u64 \<Rightarrow> nat \<Rightarrow> u64 \<Rightarrow> nat \<Rightarrow> bool" where
  "apart a n b k \<longleftrightarrow> unat a + n \<le> 2 ^ 64 \<and> unat b + k \<le> 2 ^ 64 \<and>
     (unat a + n \<le> unat b \<or> unat b + k \<le> unat a)"

lemma apart_sym: "apart a n b k \<longleftrightarrow> apart b k a n"
  by (auto simp: apart_def)

lemma apart_distance:
  assumes "apart a n b k" and "i < n"
  shows "k \<le> unat (a + of_nat i - b)"
proof -
  have i: "unat (of_nat i :: u64) = i"
    using assms unat_lt_64[of a] by (intro unat_of_nat_small) (simp add: apart_def)
  have ai: "unat (a + of_nat i) = unat a + i"
    using assms by (subst unat_add_exact) (simp_all add: apart_def i)
  show ?thesis
  proof (cases "unat b \<le> unat a + i")
    case True
    then show ?thesis using assms by (subst unat_diff_exact) (auto simp: ai apart_def)
  next
    case False
    then show ?thesis using assms by (subst unat_diff_wrap) (auto simp: ai apart_def)
  qed
qed

locale byte_cells =
  fixes rd :: "ram \<Rightarrow> u64 \<Rightarrow> 'v"
    and wr :: "ram \<Rightarrow> u64 \<Rightarrow> 'v \<Rightarrow> ram"
    and width :: nat
  assumes rd_wr: "rd (wr m a v) a = v"
    and wr_frame: "width \<le> unat (x - a) \<Longrightarrow> wr m a v x = m x"
    and rd_cong: "agree m m' a width \<Longrightarrow> rd m' a = rd m a"
begin

lemma wr_agree: "apart a n b width \<Longrightarrow> agree m (wr m b v) a n"
  by (auto simp: agree_def intro!: wr_frame apart_distance)

lemma rd_wr_apart: "apart a width b width \<Longrightarrow> rd (wr m b v) a = rd m a"
  by (rule rd_cong) (rule wr_agree)

lemma wr_outside: "apart x 1 b width \<Longrightarrow> wr m b v x = m x"
  using wr_agree[of x 1 b m v] by (simp add: agree_def)

end

section \<open>Both widths provide it\<close>

lemma take_bit_join:
  fixes v :: u64
  shows "take_bit n v OR push_bit n (take_bit k (drop_bit n v)) = take_bit (n + k) v"
  by (rule bit_eqI) (auto simp: bit_or_iff bit_push_bit_iff bit_take_bit_iff bit_drop_bit_eq)

lemma ucast_u8_u64: "ucast (ucast (v :: u64) :: u8) = take_bit 8 v"
  by (rule bit_eqI) (auto simp: bit_ucast_iff bit_take_bit_iff)

lemma le64_parts:
  "le64 (ucast v) (ucast (drop_bit 8 v)) (ucast (drop_bit 16 v)) (ucast (drop_bit 24 v))
     (ucast (drop_bit 32 v)) (ucast (drop_bit 40 v)) (ucast (drop_bit 48 v))
     (ucast (drop_bit 56 v)) = v"
  using take_bit_join[of 8 v 8] take_bit_join[of 16 v 8] take_bit_join[of 24 v 8]
    take_bit_join[of 32 v 8] take_bit_join[of 40 v 8] take_bit_join[of 48 v 8]
    take_bit_join[of 56 v 8] take_bit_word_eq_self[of 64 v]
  by (simp add: le64_def ucast_u8_u64 or.assoc[symmetric])

lemma load64_store64: "load64 (store64 m a v) a = v"
  by (simp add: load64_def store64_def le64_parts)

lemma store64_frame:
  assumes "8 \<le> unat (x - a)"
  shows "store64 m a v x = m x"
proof -
  have ne: "x \<noteq> a + of_nat k" if "k < 8" for k
  proof
    assume "x = a + of_nat k"
    then have "unat (x - a) = k" using that by (simp add: unat_of_nat)
    with assms that show False by simp
  qed
  show ?thesis
    using ne[of 0] ne[of 1] ne[of 2] ne[of 3] ne[of 4] ne[of 5] ne[of 6] ne[of 7]
    by (simp add: store64_def)
qed

lemma agree_nth: "agree m m' a n \<Longrightarrow> k < n \<Longrightarrow> m' (a + of_nat k) = m (a + of_nat k)"
  by (simp add: agree_def)

lemma load64_cong: "agree m m' a 8 \<Longrightarrow> load64 m' a = load64 m a"
  using agree_nth[of m m' a 8 0] agree_nth[of m m' a 8 1] agree_nth[of m m' a 8 2]
    agree_nth[of m m' a 8 3] agree_nth[of m m' a 8 4] agree_nth[of m m' a 8 5]
    agree_nth[of m m' a 8 6] agree_nth[of m m' a 8 7]
  by (simp add: load64_def)

interpretation w64: byte_cells load64 store64 8
  by unfold_locales (auto intro: load64_store64 store64_frame load64_cong)

interpretation w8: byte_cells load8 store8 1
proof unfold_locales
  fix m a v show "load8 (store8 m a v) a = v" by (simp add: load8_def store8_def)
next
  fix x a :: u64 and m v
  assume "1 \<le> unat (x - a)"
  then have "x \<noteq> a" by auto
  then show "store8 m a v x = m x" by (simp add: store8_def)
next
  fix m m' a assume "agree m m' a 1"
  then show "load8 m' a = load8 m a" by (simp add: agree_def load8_def)
qed

lemmas cell_laws = w64.rd_wr w8.rd_wr w64.rd_wr_apart w8.rd_wr_apart

declare cell_laws [mem_laws]

lemma load8_store64: "apart a 1 b 8 \<Longrightarrow> load8 (store64 m b v) a = load8 m a"
  by (rule w8.rd_cong) (rule w64.wr_agree)

lemma load64_store8: "apart a 8 b 1 \<Longrightarrow> load64 (store8 m b v) a = load64 m a"
  by (rule w64.rd_cong) (rule w8.wr_agree)

declare load8_store64 [mem_laws] load64_store8 [mem_laws]

lemma agree_trans: "agree m m' a n \<Longrightarrow> agree m' m'' a n \<Longrightarrow> agree m m'' a n"
  by (simp add: agree_def)

lemma agree_refl [simp]: "agree m m a n"
  by (simp add: agree_def)

section \<open>memset and memcpy\<close>

lemma memset_agree:
  "apart a n b k \<Longrightarrow> agree m (memset m b v k) a n"
proof (induction k arbitrary: m b)
  case 0
  then show ?case by simp
next
  case (Suc k)
  show ?case
  proof (cases "k = 0")
    case True
    with Suc.prems show ?thesis by (simp add: w8.wr_agree)
  next
    case False
    then have b1: "unat (b + 1) = unat b + 1"
      using Suc.prems by (subst unat_add_exact) (auto simp: apart_def)
    have "agree (store8 m b v) (memset (store8 m b v) (b + 1) v k) a n"
      using Suc.prems by (intro Suc.IH) (auto simp: apart_def b1)
    moreover have "agree m (store8 m b v) a n"
      using Suc.prems by (intro w8.wr_agree) (auto simp: apart_def)
    ultimately show ?thesis by (auto intro: agree_trans)
  qed
qed

lemma memset_reads:
  "unat a + n \<le> 2 ^ 64 \<Longrightarrow> k < n \<Longrightarrow> memset m a v n (a + of_nat k) = v"
proof (induction n arbitrary: m a k)
  case 0
  then show ?case by simp
next
  case (Suc n)
  show ?case
  proof (cases "n = 0")
    case True
    with Suc.prems show ?thesis by (simp add: store8_def)
  next
    case False
    then have a1: "unat (a + 1) = unat a + 1"
      using Suc.prems by (subst unat_add_exact) auto
    show ?thesis
    proof (cases k)
      case 0
      have "agree (store8 m a v) (memset (store8 m a v) (a + 1) v n) a 1"
        using Suc.prems by (intro memset_agree) (auto simp: apart_def a1)
      then show ?thesis using 0 by (simp add: agree_def store8_def)
    next
      case (Suc j)
      have "memset (store8 m a v) (a + 1) v n (a + 1 + of_nat j) = v"
        using Suc.prems \<open>k = Suc j\<close> a1 by (intro Suc.IH) auto
      then show ?thesis using Suc by (simp add: add.assoc)
    qed
  qed
qed

lemma memcpy_agree:
  "apart a n b k \<Longrightarrow> agree m (memcpy m b c k) a n"
proof (induction k arbitrary: m b c)
  case 0
  then show ?case by simp
next
  case (Suc k)
  have now: "agree m (store8 m b (load8 m c)) a n"
    using Suc.prems by (intro w8.wr_agree) (auto simp: apart_def)
  show ?case
  proof (cases "k = 0")
    case True
    then show ?thesis using now by simp
  next
    case False
    then have "unat (b + 1) = unat b + 1"
      using Suc.prems by (subst unat_add_exact) (auto simp: apart_def)
    then show ?thesis
      using Suc.prems now Suc.IH[of "b + 1" "store8 m b (load8 m c)" "c + 1"]
      by (auto simp: apart_def intro: agree_trans)
  qed
qed

lemma memcpy_reads:
  "apart d n c n \<Longrightarrow> k < n \<Longrightarrow> memcpy m d c n (d + of_nat k) = m (c + of_nat k)"
proof (induction n arbitrary: m d c k)
  case 0
  then show ?case by simp
next
  case (Suc n)
  define m1 where "m1 = store8 m d (load8 m c)"
  show ?case
  proof (cases "n = 0")
    case True
    with Suc.prems show ?thesis by (simp add: store8_def load8_def)
  next
    case False
    then have d1: "unat (d + 1) = unat d + 1" and c1: "unat (c + 1) = unat c + 1"
      using Suc.prems by (subst unat_add_exact; auto simp: apart_def)+
    show ?thesis
    proof (cases k)
      case 0
      have "agree m1 (memcpy m1 (d + 1) (c + 1) n) d 1"
        using Suc.prems by (intro memcpy_agree) (auto simp: apart_def d1)
      then show ?thesis using 0 by (simp add: agree_def m1_def store8_def load8_def)
    next
      case (Suc j)
      have "memcpy m1 (d + 1) (c + 1) n (d + 1 + of_nat j) = m1 (c + 1 + of_nat j)"
        using Suc.prems \<open>k = Suc j\<close> by (intro Suc.IH) (auto simp: apart_def d1 c1)
      moreover have "agree m m1 c (Suc n)"
        unfolding m1_def using Suc.prems by (intro w8.wr_agree) (auto simp: apart_def)
      then have "m1 (c + of_nat (Suc j)) = m (c + of_nat (Suc j))"
        using Suc.prems \<open>k = Suc j\<close> by (intro agree_nth) auto
      ultimately show ?thesis using Suc by (simp add: m1_def add.assoc)
    qed
  qed
qed

end
