(* ===== verification/Kmem.thy ===== *)
theory Kmem
  imports Byte_Store
begin

text \<open>
  The free-list allocator of \<^verbatim>\<open>lab3-1-sparrowos-memory-module/src/memory.c\<close> with the types
  of \<^verbatim>\<open>src/memory.h\<close>. The manager's static variables, the byte memory and the lines printed
  with \<^verbatim>\<open>printk\<close> (as a list of message constructors) are one record. Block headers live in
  the byte memory, at the offsets the lp64 ABI gives: \<^verbatim>\<open>free_block_t\<close> is \<open>next\<close> at 0,
  \<open>size\<close> at 8, \<open>magic\<close> at 16, 24 bytes in all; \<^verbatim>\<open>block_header_t\<close> is \<open>size\<close> at 0,
  \<open>magic\<close> at 8, \<open>used\<close> at 9, 16 bytes. A loop over the free list is a
  \<^theory_text>\<open>partial_function\<close>: \<open>None\<close> means it does not return (the list in memory is cyclic).
\<close>

section \<open>State\<close>

datatype kmsg =
    MsgAlreadyInit
  | MsgInit
  | MsgHeapRegion u64 u64 u64
  | MsgFirstBlock u64
  | MsgInitDone
  | MsgCorruptMagic u64 u8
  | MsgOutOfMemory u64
  | MsgFreeMemory u64
  | MsgOutsideHeap u64
  | MsgCorruptHeader u64
  | MsgDoubleFree u64
  | MsgCheckStart
  | MsgFreeMismatch u64 u64
  | MsgInconsistent
  | MsgCheckSummary u32 u64
  | MsgStats u64 u64 u64 u64 u64
  | MsgFragmentation u64 u64
  | MsgFreeBlock u32 u64 u64
  | MsgMoreBlocks u32
  | MsgDumpRegion u64 u64
  | MsgDumpBlock u32 u64 u64 bool

record kheap =
  free_list :: u64
  total_memory :: u64
  free_memory :: u64
  used_memory :: u64
  alloc_count :: u64
  free_count :: u64
  heap_start :: u64
  heap_end :: u64
  initialized :: u8
  ram :: ram
  klog :: "kmsg list"

text \<open>The zero-initialised \<^verbatim>\<open>mem_manager\<close> over some memory contents.\<close>

definition boot :: "ram \<Rightarrow> kheap" where
  "boot m = \<lparr>free_list = 0, total_memory = 0, free_memory = 0, used_memory = 0,
     alloc_count = 0, free_count = 0, heap_start = 0, heap_end = 0, initialized = 0,
     ram = m, klog = []\<rparr>"

definition log_line :: "kmsg \<Rightarrow> kheap \<Rightarrow> kheap" where
  "log_line x st = st\<lparr>klog := klog st @ [x]\<rparr>"

section \<open>Constants and layout\<close>

definition BLOCK_MAGIC :: u8 where "BLOCK_MAGIC = 0xAB"
definition FREE_BLOCK_SIZE :: u64 where "FREE_BLOCK_SIZE = 24"
definition HEADER_SIZE :: u64 where "HEADER_SIZE = 16"
definition MIN_BLOCK_SIZE :: u64 where "MIN_BLOCK_SIZE = FREE_BLOCK_SIZE + 8"
definition MEM_ALIGNMENT :: u64 where "MEM_ALIGNMENT = 8"
definition SIZE_MAX :: u64 where "SIZE_MAX = - 1"

definition ALIGN_UP :: "u64 \<Rightarrow> u64 \<Rightarrow> u64" where
  "ALIGN_UP x a = (x + (a - 1)) AND NOT (a - 1)"

definition ALIGN_DOWN :: "u64 \<Rightarrow> u64 \<Rightarrow> u64" where
  "ALIGN_DOWN x a = x AND NOT (a - 1)"

definition BLOCK_FROM_PTR :: "u64 \<Rightarrow> u64" where
  "BLOCK_FROM_PTR p = p - HEADER_SIZE"

definition PTR_FROM_BLOCK :: "u64 \<Rightarrow> u64" where
  "PTR_FROM_BLOCK b = b + HEADER_SIZE"

text \<open>Fields of \<^verbatim>\<open>free_block_t\<close>.\<close>

definition blk_next :: "ram \<Rightarrow> u64 \<Rightarrow> u64" where "blk_next m b = load64 m b"
definition blk_size :: "ram \<Rightarrow> u64 \<Rightarrow> u64" where "blk_size m b = load64 m (b + 8)"
definition blk_magic :: "ram \<Rightarrow> u64 \<Rightarrow> u8" where "blk_magic m b = load8 m (b + 16)"
definition set_next :: "u64 \<Rightarrow> u64 \<Rightarrow> ram \<Rightarrow> ram" where "set_next b v m = store64 m b v"
definition set_size :: "u64 \<Rightarrow> u64 \<Rightarrow> ram \<Rightarrow> ram" where "set_size b v m = store64 m (b + 8) v"
definition set_magic :: "u64 \<Rightarrow> u8 \<Rightarrow> ram \<Rightarrow> ram" where "set_magic b v m = store8 m (b + 16) v"

text \<open>Fields of \<^verbatim>\<open>block_header_t\<close>.\<close>

definition hdr_size :: "ram \<Rightarrow> u64 \<Rightarrow> u64" where "hdr_size m h = load64 m h"
definition hdr_magic :: "ram \<Rightarrow> u64 \<Rightarrow> u8" where "hdr_magic m h = load8 m (h + 8)"
definition hdr_used :: "ram \<Rightarrow> u64 \<Rightarrow> u8" where "hdr_used m h = load8 m (h + 9)"
definition set_hdr_size :: "u64 \<Rightarrow> u64 \<Rightarrow> ram \<Rightarrow> ram" where "set_hdr_size h v m = store64 m h v"
definition set_hdr_magic :: "u64 \<Rightarrow> u8 \<Rightarrow> ram \<Rightarrow> ram" where "set_hdr_magic h v m = store8 m (h + 8) v"
definition set_hdr_used :: "u64 \<Rightarrow> u8 \<Rightarrow> ram \<Rightarrow> ram" where "set_hdr_used h v m = store8 m (h + 9) v"

definition upd_ram :: "(ram \<Rightarrow> ram) \<Rightarrow> kheap \<Rightarrow> kheap" where
  "upd_ram f st = st\<lparr>ram := f (ram st)\<rparr>"

section \<open>Initialisation\<close>

definition memory_init :: "u64 \<Rightarrow> u64 \<Rightarrow> kheap \<Rightarrow> kheap" where
  "memory_init mem_start mem_end st =
     (if initialized st \<noteq> 0 then log_line MsgAlreadyInit st
      else
        let st = log_line MsgInit st;
            s = ALIGN_UP mem_start MEM_ALIGNMENT;
            e = ALIGN_DOWN mem_end MEM_ALIGNMENT;
            st = st\<lparr>heap_start := s, heap_end := e, total_memory := e - s\<rparr>;
            st = upd_ram (set_size s (total_memory st - FREE_BLOCK_SIZE)) st;
            st = upd_ram (set_next s 0) st;
            st = upd_ram (set_magic s BLOCK_MAGIC) st;
            st = st\<lparr>free_list := s, free_memory := blk_size (ram st) s, used_memory := 0,
                    alloc_count := 0, free_count := 0, initialized := 1\<rparr>;
            st = log_line (MsgHeapRegion (heap_start st) (heap_end st) (total_memory st)) st;
            st = log_line (MsgFirstBlock (blk_size (ram st) s)) st
        in log_line MsgInitDone st)"

section \<open>Free-list helpers\<close>

definition check_block_integrity :: "u64 \<Rightarrow> kheap \<Rightarrow> kheap" where
  "check_block_integrity b st =
     (if blk_magic (ram st) b \<noteq> BLOCK_MAGIC
      then log_line (MsgCorruptMagic b (blk_magic (ram st) b)) st else st)"

definition split_block :: "u64 \<Rightarrow> u64 \<Rightarrow> kheap \<Rightarrow> kheap" where
  "split_block block sz st =
     (let remaining = blk_size (ram st) block - sz - FREE_BLOCK_SIZE
      in if remaining < MIN_BLOCK_SIZE then st
         else
           let new_block = block + FREE_BLOCK_SIZE + sz;
               st = upd_ram (set_size new_block remaining) st;
               st = upd_ram (set_magic new_block BLOCK_MAGIC) st;
               st = upd_ram (set_next new_block (blk_next (ram st) block)) st;
               st = upd_ram (set_size block sz) st;
               st = upd_ram (set_next block new_block) st
           in st\<lparr>free_memory := free_memory st - FREE_BLOCK_SIZE\<rparr>)"

text \<open>The \<^verbatim>\<open>while (curr)\<close> loop of \<^verbatim>\<open>coalesce_blocks\<close>; its \<^verbatim>\<open>prev\<close> is written but never read.\<close>

partial_function (option) coalesce_loop :: "u64 \<Rightarrow> kheap \<Rightarrow> kheap option" where
  "coalesce_loop cur st =
     (if cur = 0 then Some st
      else
        let st = check_block_integrity cur st;
            next = blk_next (ram st) cur
        in if next \<noteq> 0 \<and> cur + FREE_BLOCK_SIZE + blk_size (ram st) cur = next
           then
             let st = upd_ram (set_size cur (blk_size (ram st) cur +
                         (FREE_BLOCK_SIZE + blk_size (ram st) next))) st;
                 st = upd_ram (set_next cur (blk_next (ram st) next)) st;
                 st = st\<lparr>free_memory := free_memory st + FREE_BLOCK_SIZE\<rparr>
             in coalesce_loop cur st
           else coalesce_loop (blk_next (ram st) cur) st)"

definition coalesce_blocks :: "kheap \<Rightarrow> kheap option" where
  "coalesce_blocks st = coalesce_loop (free_list st) st"

partial_function (option) best_fit_loop ::
  "u64 \<Rightarrow> u64 \<Rightarrow> u64 \<Rightarrow> u64 \<Rightarrow> kheap \<Rightarrow> (u64 \<times> kheap) option" where
  "best_fit_loop sz cur best best_size st =
     (if cur = 0 then Some (best, st)
      else
        let st = check_block_integrity cur st;
            csize = blk_size (ram st) cur
        in if sz \<le> csize \<and> csize < best_size
           then (if csize = sz then Some (cur, st)
                 else best_fit_loop sz (blk_next (ram st) cur) cur csize st)
           else best_fit_loop sz (blk_next (ram st) cur) best best_size st)"

definition find_best_fit :: "u64 \<Rightarrow> kheap \<Rightarrow> (u64 \<times> kheap) option" where
  "find_best_fit sz st = best_fit_loop sz (free_list st) 0 SIZE_MAX st"

definition add_to_free_list :: "u64 \<Rightarrow> kheap \<Rightarrow> kheap" where
  "add_to_free_list block st =
     (let st = upd_ram (set_magic block BLOCK_MAGIC) st;
          st = upd_ram (set_next block (free_list st)) st
      in st\<lparr>free_list := block\<rparr>)"

partial_function (option) find_pred :: "u64 \<Rightarrow> u64 \<Rightarrow> ram \<Rightarrow> u64 option" where
  "find_pred block cur m =
     (if cur \<noteq> 0 \<and> blk_next m cur \<noteq> block then find_pred block (blk_next m cur) m
      else Some cur)"

definition remove_from_free_list :: "u64 \<Rightarrow> kheap \<Rightarrow> kheap option" where
  "remove_from_free_list block st =
     (if free_list st = block then Some (st\<lparr>free_list := blk_next (ram st) block\<rparr>)
      else do {
        cur \<leftarrow> find_pred block (free_list st) (ram st);
        Some (if cur \<noteq> 0 then upd_ram (set_next cur (blk_next (ram st) block)) st else st)
      })"

section \<open>kmalloc and kfree\<close>

text \<open>The part of \<^verbatim>\<open>kmalloc\<close> after a block has been found.\<close>

definition kmalloc_take :: "u64 \<Rightarrow> u64 \<Rightarrow> kheap \<Rightarrow> (u64 \<times> kheap) option" where
  "kmalloc_take block sz st = do {
     st \<leftarrow> remove_from_free_list block (split_block block sz st);
     let st = upd_ram (set_hdr_size block sz) st;
     let st = upd_ram (set_hdr_magic block BLOCK_MAGIC) st;
     let st = upd_ram (set_hdr_used block 1) st;
     let st = st\<lparr>used_memory := used_memory st + (sz + HEADER_SIZE),
                 free_memory := free_memory st - (sz + HEADER_SIZE),
                 alloc_count := alloc_count st + 1\<rparr>;
     Some (PTR_FROM_BLOCK block, st)
   }"

definition kmalloc :: "u64 \<Rightarrow> kheap \<Rightarrow> (u64 \<times> kheap) option" where
  "kmalloc sz st =
     (if initialized st = 0 \<or> sz = 0 then Some (0, st)
      else do {
        let sz = ALIGN_UP sz MEM_ALIGNMENT;
        (block, st) \<leftarrow> find_best_fit sz st;
        if block \<noteq> 0 then kmalloc_take block sz st
        else do {
          st \<leftarrow> coalesce_blocks st;
          (block, st) \<leftarrow> find_best_fit sz st;
          if block \<noteq> 0 then kmalloc_take block sz st
          else Some (0, log_line (MsgFreeMemory (free_memory st)) (log_line (MsgOutOfMemory sz) st))
        }
      })"

definition kfree :: "u64 \<Rightarrow> kheap \<Rightarrow> kheap option" where
  "kfree p st =
     (if p = 0 \<or> initialized st = 0 then Some st
      else
        let block = BLOCK_FROM_PTR p
        in if block < heap_start st \<or> heap_end st \<le> block then Some (log_line (MsgOutsideHeap p) st)
           else if hdr_magic (ram st) block \<noteq> BLOCK_MAGIC then Some (log_line (MsgCorruptHeader p) st)
           else if hdr_used (ram st) block = 0 then Some (log_line (MsgDoubleFree p) st)
           else
             let st = upd_ram (set_hdr_used block 0) st;
                 st = add_to_free_list block st;
                 st = st\<lparr>used_memory := used_memory st - (hdr_size (ram st) block + HEADER_SIZE)\<rparr>;
                 st = st\<lparr>free_memory := free_memory st + (hdr_size (ram st) block + HEADER_SIZE)\<rparr>;
                 st = st\<lparr>free_count := free_count st + 1\<rparr>
             in coalesce_blocks st)"

definition kcalloc :: "u64 \<Rightarrow> u64 \<Rightarrow> kheap \<Rightarrow> (u64 \<times> kheap) option" where
  "kcalloc num sz st = do {
     let total = num * sz;
     (p, st) \<leftarrow> kmalloc total st;
     Some (p, if p \<noteq> 0 then upd_ram (\<lambda>m. memset m p 0 (unat total)) st else st)
   }"

definition krealloc :: "u64 \<Rightarrow> u64 \<Rightarrow> kheap \<Rightarrow> (u64 \<times> kheap) option" where
  "krealloc p sz st =
     (if p = 0 then kmalloc sz st
      else if sz = 0 then do { st \<leftarrow> kfree p st; Some (0, st) }
      else
        let old_size = hdr_size (ram st) (BLOCK_FROM_PTR p)
        in if sz \<le> old_size then Some (p, st)
           else do {
             (new_ptr, st) \<leftarrow> kmalloc sz st;
             if new_ptr = 0 then Some (0, st)
             else do {
               let hs = hdr_size (ram st) (BLOCK_FROM_PTR p);
               let copy_size = (if hs < sz then hs else sz);
               let st = upd_ram (\<lambda>m. memcpy m new_ptr p (unat copy_size)) st;
               st \<leftarrow> kfree p st;
               Some (new_ptr, st)
             }
           })"

section \<open>Statistics and debugging output\<close>

definition get_total_memory :: "kheap \<Rightarrow> u64" where "get_total_memory st = total_memory st"
definition get_free_memory :: "kheap \<Rightarrow> u64" where "get_free_memory st = free_memory st"
definition get_used_memory :: "kheap \<Rightarrow> u64" where "get_used_memory st = used_memory st"

partial_function (option) integrity_loop ::
  "u64 \<Rightarrow> u64 \<Rightarrow> u32 \<Rightarrow> kheap \<Rightarrow> (u64 \<times> u32 \<times> kheap) option" where
  "integrity_loop cur calculated_free count st =
     (if cur = 0 then Some (calculated_free, count, st)
      else
        let st = check_block_integrity cur st
        in integrity_loop (blk_next (ram st) cur)
             (calculated_free + (blk_size (ram st) cur + FREE_BLOCK_SIZE)) (count + 1) st)"

definition memory_integrity_check :: "kheap \<Rightarrow> kheap option" where
  "memory_integrity_check st = do {
     let st = log_line MsgCheckStart st;
     (calculated_free, count, st) \<leftarrow> integrity_loop (free_list st) 0 0 st;
     let st = (if calculated_free \<noteq> free_memory st
               then log_line (MsgFreeMismatch calculated_free (free_memory st)) st else st);
     let st = (if used_memory st + free_memory st \<noteq> total_memory st
               then log_line MsgInconsistent st else st);
     Some (log_line (MsgCheckSummary count calculated_free) st)
   }"

partial_function (option) stats_loop :: "u64 \<Rightarrow> u32 \<Rightarrow> kheap \<Rightarrow> (u64 \<times> u32 \<times> kheap) option" where
  "stats_loop cur count st =
     (if cur \<noteq> 0 \<and> count < 10
      then stats_loop (blk_next (ram st) cur) (count + 1)
             (log_line (MsgFreeBlock count cur (blk_size (ram st) cur)) st)
      else Some (cur, count, st))"

definition memory_stats :: "kheap \<Rightarrow> kheap option" where
  "memory_stats st = do {
     let st = log_line (MsgStats (total_memory st) (used_memory st) (free_memory st)
                       (alloc_count st) (free_count st)) st;
     let st = log_line (MsgFragmentation (total_memory st - free_memory st) (total_memory st)) st;
     (cur, count, st) \<leftarrow> stats_loop (free_list st) 0 st;
     Some (if cur \<noteq> 0 then log_line (MsgMoreBlocks count) st else st)
   }"

partial_function (option) dump_loop :: "u64 \<Rightarrow> u32 \<Rightarrow> kheap \<Rightarrow> kheap option" where
  "dump_loop addr block_num st =
     (if heap_end st \<le> addr then Some st
      else if hdr_magic (ram st) addr \<noteq> BLOCK_MAGIC then dump_loop (addr + 8) block_num st
      else dump_loop (addr + (HEADER_SIZE + hdr_size (ram st) addr)) (block_num + 1)
             (log_line (MsgDumpBlock block_num (addr + HEADER_SIZE) (hdr_size (ram st) addr)
                (hdr_used (ram st) addr \<noteq> 0)) st))"

definition memory_dump :: "kheap \<Rightarrow> kheap option" where
  "memory_dump st = dump_loop (heap_start st) 0
     (log_line (MsgDumpRegion (heap_start st) (heap_end st)) st)"

end
