(* ===== verification/Free_Chain.thy ===== *)
theory Free_Chain
  imports Kmem
begin

text \<open>
  The abstraction of the allocator: the free list in memory represents a list of blocks
  (address, payload size). \<open>free_chain\<close> is the representation relation, \<open>heap_inv\<close> adds that
  the blocks lie inside the heap and do not overlap. The lemmas are the frame and update
  rules from which the theorems about each operation follow.
\<close>

type_synonym blk = "u64 \<times> u64"

fun free_chain :: "ram \<Rightarrow> u64 \<Rightarrow> blk list \<Rightarrow> bool" where
  "free_chain m p [] \<longleftrightarrow> p = 0"
| "free_chain m p ((a, s) # bs) \<longleftrightarrow>
     p = a \<and> a \<noteq> 0 \<and> blk_size m a = s \<and> blk_magic m a = BLOCK_MAGIC \<and>
     free_chain m (blk_next m a) bs"

text \<open>A block with its header occupies \<open>[a, a + 24 + s)\<close>.\<close>

fun blk_within :: "nat \<Rightarrow> nat \<Rightarrow> blk \<Rightarrow> bool" where
  "blk_within lo hi (a, s) \<longleftrightarrow> lo \<le> unat a \<and> unat a + 24 + unat s \<le> hi"

fun blk_apart :: "blk \<Rightarrow> blk \<Rightarrow> bool" where
  "blk_apart (a, s) (b, t) \<longleftrightarrow>
     unat a + 24 + unat s \<le> unat b \<or> unat b + 24 + unat t \<le> unat a"

fun blk_bytes :: "blk \<Rightarrow> nat" where
  "blk_bytes (a, s) = unat s + 24"

definition free_bytes :: "blk list \<Rightarrow> nat" where
  "free_bytes bs = sum_list (map blk_bytes bs)"

definition blocks_ok :: "nat \<Rightarrow> nat \<Rightarrow> blk list \<Rightarrow> bool" where
  "blocks_ok lo hi bs \<longleftrightarrow> (\<forall>b\<in>set bs. blk_within lo hi b) \<and> sorted_wrt blk_apart bs"

definition heap_inv :: "kheap \<Rightarrow> blk list \<Rightarrow> bool" where
  "heap_inv st bs \<longleftrightarrow> initialized st \<noteq> 0 \<and> free_chain (ram st) (free_list st) bs \<and>
     blocks_ok (unat (heap_start st)) (unat (heap_end st)) bs"

section \<open>Field offsets\<close>

lemma agree_sub:
  assumes "agree m m' a n" and "i + k \<le> n"
  shows "agree m m' (a + of_nat i) k"
  unfolding agree_def
proof (intro allI impI)
  fix j assume "j < k"
  with assms have "m' (a + of_nat (i + j)) = m (a + of_nat (i + j))"
    by (intro agree_nth) auto
  then show "m' (a + of_nat i + of_nat j) = m (a + of_nat i + of_nat j)"
    by (simp add: add.assoc)
qed

lemma agree_mono: "agree m m' a n \<Longrightarrow> k \<le> n \<Longrightarrow> agree m m' a k"
  by (simp add: agree_def)

lemma fields_cong:
  assumes "agree m m' a 24"
  shows "blk_next m' a = blk_next m a" and "blk_size m' a = blk_size m a"
    and "blk_magic m' a = blk_magic m a"
proof -
  show "blk_next m' a = blk_next m a"
    unfolding blk_next_def by (rule load64_cong) (rule agree_mono[OF assms], simp)
  show "blk_size m' a = blk_size m a"
    unfolding blk_size_def using agree_sub[OF assms, of 8 8] by (intro load64_cong) simp
  show "blk_magic m' a = blk_magic m a"
    unfolding blk_magic_def using agree_sub[OF assms, of 16 1] by (intro w8.rd_cong) simp
qed

lemma unat_plus_small:
  "unat (a :: u64) + 24 \<le> 18446744073709551616 \<Longrightarrow> k < 24 \<Longrightarrow>
   unat (a + of_nat k) = unat a + k"
  by (subst unat_add_exact) (auto simp: unat_of_nat)

lemma unat_offsets:
  assumes "unat (a :: u64) + 24 \<le> 18446744073709551616"
  shows "unat (a + 8) = unat a + 8" and "unat (a + 16) = unat a + 16"
    and "unat (a + 9) = unat a + 9"
  using unat_plus_small[OF assms, of 8] unat_plus_small[OF assms, of 16]
    unat_plus_small[OF assms, of 9] by simp_all

text \<open>The three field writes of one header do not disturb each other.\<close>

lemma same_header:
  assumes "unat (a :: u64) + 24 \<le> 18446744073709551616"
  shows "blk_next (set_next a v m) a = v"
    and "blk_next (set_size a v m) a = blk_next m a"
    and "blk_next (set_magic a w m) a = blk_next m a"
    and "blk_size (set_next a v m) a = blk_size m a"
    and "blk_size (set_size a v m) a = v"
    and "blk_size (set_magic a w m) a = blk_size m a"
    and "blk_magic (set_next a v m) a = blk_magic m a"
    and "blk_magic (set_size a v m) a = blk_magic m a"
    and "blk_magic (set_magic a w m) a = w"
  using assms unat_offsets[OF assms]
  by (simp_all add: blk_next_def blk_size_def blk_magic_def set_next_def set_size_def
        set_magic_def mem_laws apart_def)

text \<open>A header write leaves every range that is apart from the header alone.\<close>

lemma header_writes_agree:
  assumes "apart b n a 24"
  shows "agree m (set_next a v m) b n" and "agree m (set_size a v m) b n"
    and "agree m (set_magic a w m) b n"
    and "agree m (set_hdr_size a v m) b n" and "agree m (set_hdr_magic a w m) b n"
    and "agree m (set_hdr_used a w m) b n"
proof -
  have a: "unat a + 24 \<le> 18446744073709551616" using assms by (simp add: apart_def)
  show "agree m (set_next a v m) b n"
    unfolding set_next_def using assms by (intro w64.wr_agree) (auto simp: apart_def)
  show "agree m (set_size a v m) b n"
    unfolding set_size_def using assms unat_offsets[OF a]
    by (intro w64.wr_agree) (auto simp: apart_def)
  show "agree m (set_magic a w m) b n"
    unfolding set_magic_def using assms unat_offsets[OF a]
    by (intro w8.wr_agree) (auto simp: apart_def)
  show "agree m (set_hdr_size a v m) b n"
    unfolding set_hdr_size_def using assms by (intro w64.wr_agree) (auto simp: apart_def)
  show "agree m (set_hdr_magic a w m) b n"
    unfolding set_hdr_magic_def using assms unat_offsets[OF a]
    by (intro w8.wr_agree) (auto simp: apart_def)
  show "agree m (set_hdr_used a w m) b n"
    unfolding set_hdr_used_def using assms unat_offsets[OF a]
    by (intro w8.wr_agree) (auto simp: apart_def)
qed

section \<open>Chains\<close>

lemma chain_frame:
  "(\<And>a s. (a, s) \<in> set bs \<Longrightarrow> agree m m' a 24) \<Longrightarrow> free_chain m p bs \<Longrightarrow> free_chain m' p bs"
proof (induction bs arbitrary: p)
  case Nil
  then show ?case by simp
next
  case (Cons b bs)
  obtain a s where b: "b = (a, s)" by force
  have ag: "agree m m' a 24" using Cons.prems(1)[of a s] b by simp
  show ?case using Cons b by (auto simp: fields_cong[OF ag])
qed

lemma chain_append:
  "free_chain m p (xs @ (a, s) # ys) \<Longrightarrow> free_chain m a ((a, s) # ys)"
  by (induction xs arbitrary: p) auto

lemma chain_replace_tail:
  assumes "free_chain m p (xs @ (a, s) # ys)"
    and "\<And>b u. (b, u) \<in> set xs \<Longrightarrow> agree m m' b 24"
    and "free_chain m' a ((a, s') # zs)"
  shows "free_chain m' p (xs @ (a, s') # zs)"
  using assms(1,2)
proof (induction xs arbitrary: p)
  case Nil
  then show ?case using assms(3) by simp
next
  case (Cons v xs)
  obtain b u where v: "v = (b, u)" by force
  have "agree m m' b 24" by (rule Cons.prems(2)[of b u]) (simp add: v)
  note cong = fields_cong[OF this]
  have "free_chain m (blk_next m b) (xs @ (a, s) # ys)" using Cons.prems(1) v by simp
  then have "free_chain m' (blk_next m b) (xs @ (a, s') # zs)"
    by (rule Cons.IH) (use Cons.prems(2) in force)
  then show ?case using Cons.prems(1) v by (simp add: cong)
qed

lemma blocks_ok_Cons:
  "blocks_ok lo hi (b # bs) \<longleftrightarrow> blk_within lo hi b \<and> (\<forall>c\<in>set bs. blk_apart b c) \<and> blocks_ok lo hi bs"
  by (auto simp: blocks_ok_def)

lemma blocks_ok_append:
  "blocks_ok lo hi (xs @ ys) \<longleftrightarrow>
     blocks_ok lo hi xs \<and> blocks_ok lo hi ys \<and> (\<forall>x\<in>set xs. \<forall>y\<in>set ys. blk_apart x y)"
  by (auto simp: blocks_ok_def sorted_wrt_append)

lemma blocks_ok_within: "blocks_ok lo hi bs \<Longrightarrow> b \<in> set bs \<Longrightarrow> blk_within lo hi b"
  by (simp add: blocks_ok_def)

lemma blk_apart_sym: "blk_apart b c \<longleftrightarrow> blk_apart c b"
  by (cases b; cases c) auto

lemma blk_apart_headers:
  assumes "blk_apart (a, s) (b, t)" and "blk_within lo hi (a, s)" and "blk_within lo hi (b, t)"
    and "hi \<le> 18446744073709551616"
  shows "apart a 24 b 24" and "a \<noteq> b"
  using assms by (auto simp: apart_def)

lemma within_offset:
  "blk_within lo hi (a, s) \<Longrightarrow> hi \<le> 18446744073709551616 \<Longrightarrow>
   unat a + 24 \<le> 18446744073709551616"
  by simp

lemma blocks_distinct:
  assumes "blocks_ok lo hi bs" and "hi \<le> 18446744073709551616"
  shows "distinct (map fst bs)"
  using assms(1)
proof (induction bs)
  case Nil
  then show ?case by simp
next
  case (Cons b bs)
  obtain a s where b: "b = (a, s)" by force
  have "a \<notin> fst ` set bs"
  proof
    assume "a \<in> fst ` set bs"
    then obtain t where "(a, t) \<in> set bs" by force
    then have "blk_apart (a, s) (a, t)" using Cons.prems b by (auto simp: blocks_ok_Cons)
    then show False by simp
  qed
  then show ?case using Cons b by (simp add: blocks_ok_Cons)
qed

end
