(* ===== verification/Kmem_Ops.thy ===== *)
theory Kmem_Ops
  imports Free_Chain
begin

text \<open>
  The list-level effect of each free-list helper of \<^verbatim>\<open>memory.c\<close>: what the search loop finds,
  what splitting, unlinking and coalescing do to the represented block list, and which bytes
  they leave alone.
\<close>

section \<open>Search\<close>

lemma check_ok: "blk_magic (ram st) b = BLOCK_MAGIC \<Longrightarrow> check_block_integrity b st = st"
  by (simp add: check_block_integrity_def)

definition best_among :: "u64 \<Rightarrow> u64 \<Rightarrow> u64 \<Rightarrow> blk list \<Rightarrow> u64 \<Rightarrow> bool" where
  "best_among sz best bsz bs r \<longleftrightarrow>
     (r = best \<and> (\<forall>(a, s)\<in>set bs. sz \<le> s \<longrightarrow> bsz \<le> s)) \<or>
     (\<exists>s. (r, s) \<in> set bs \<and> sz \<le> s \<and> s < bsz \<and> (\<forall>(a, t)\<in>set bs. sz \<le> t \<longrightarrow> s \<le> t))"

lemma best_fit_loop_spec:
  "free_chain (ram st) p bs \<Longrightarrow>
   \<exists>r. best_fit_loop sz p best bsz st = Some (r, st) \<and> best_among sz best bsz bs r"
proof (induction bs arbitrary: p best bsz)
  case Nil
  then show ?case by (subst best_fit_loop.simps) (simp add: best_among_def)
next
  case (Cons b bs)
  obtain a s where b: "b = (a, s)" by force
  note unfold = best_fit_loop.simps[of sz p best bsz st]
  have p: "p = a" "a \<noteq> 0" "blk_size (ram st) a = s" "blk_magic (ram st) a = BLOCK_MAGIC"
    and tl: "free_chain (ram st) (blk_next (ram st) a) bs"
    using Cons.prems b by auto
  note IH = Cons.IH[OF tl]
  show ?case
  proof (cases "sz \<le> s \<and> s < bsz")
    case better: True
    show ?thesis
    proof (cases "s = sz")
      case True
      then show ?thesis using p b better unfold by (auto simp: check_ok best_among_def)
    next
      case False
      obtain r where "best_fit_loop sz (blk_next (ram st) a) a s st = Some (r, st)"
        "best_among sz a s bs r" using IH by blast
      then show ?thesis using p b better unfold False
        by (auto simp: check_ok best_among_def dest: order.strict_trans)
    qed
  next
    case worse: False
    obtain r where "best_fit_loop sz (blk_next (ram st) a) best bsz st = Some (r, st)"
      "best_among sz best bsz bs r" using IH by blast
    then show ?thesis using p b worse unfold
      by (auto simp: check_ok best_among_def not_less intro: order.trans less_imp_le)
  qed
qed

lemma find_best_fit_chain:
  assumes "free_chain (ram st) (free_list st) bs"
  shows "\<exists>r. find_best_fit sz st = Some (r, st) \<and> best_among sz 0 SIZE_MAX bs r"
  using best_fit_loop_spec[OF assms, of sz 0 SIZE_MAX] by (simp add: find_best_fit_def)

lemma best_among_result:
  assumes "best_among sz 0 SIZE_MAX bs r" and "\<forall>(a, s)\<in>set bs. a \<noteq> 0"
  shows "r = 0 \<Longrightarrow> (a, s) \<in> set bs \<Longrightarrow> sz \<le> s \<Longrightarrow> s = SIZE_MAX"
    and "r \<noteq> 0 \<Longrightarrow> \<exists>s. (r, s) \<in> set bs \<and> sz \<le> s \<and> (\<forall>(a, t)\<in>set bs. sz \<le> t \<longrightarrow> s \<le> t)"
  using assms by (auto simp: best_among_def SIZE_MAX_def intro: order.antisym)

lemma chain_nonnull: "free_chain m p bs \<Longrightarrow> (a, s) \<in> set bs \<Longrightarrow> a \<noteq> 0"
  by (induction bs arbitrary: p) auto

section \<open>Unlinking\<close>

lemma find_pred_chain:
  assumes "free_chain m p (xs @ (c, t) # (a, s) # ys)"
    and "distinct (map fst (xs @ (c, t) # (a, s) # ys))"
  shows "find_pred a p m = Some c"
  using assms
proof (induction xs arbitrary: p)
  case Nil
  then show ?case by (subst find_pred.simps) simp
next
  case (Cons x xs)
  obtain b u where x: "x = (b, u)" by force
  have tl: "free_chain m (blk_next m b) (xs @ (c, t) # (a, s) # ys)"
    using Cons.prems x by simp
  moreover have "blk_next m b \<noteq> a"
    using tl Cons.prems(2) x by (cases xs) auto
  ultimately show ?case
    using Cons x by (subst find_pred.simps) auto
qed

lemma remove_from_free_list_chain:
  assumes chain: "free_chain (ram st) (free_list st) (xs @ (a, s) # ys)"
    and ok: "blocks_ok lo hi (xs @ (a, s) # ys)" and hi: "hi \<le> 18446744073709551616"
  obtains st' where "remove_from_free_list a st = Some st'"
    and "free_chain (ram st') (free_list st') (xs @ ys)"
    and "\<And>b n. (\<And>c t. (c, t) \<in> set xs \<Longrightarrow> apart b n c 24) \<Longrightarrow> agree (ram st) (ram st') b n"
    and "st'\<lparr>ram := ram st, free_list := free_list st\<rparr> = st"
proof (cases xs rule: rev_cases)
  case Nil
  then have fl: "free_list st = a" using chain by simp
  show ?thesis
    by (rule that[of "st\<lparr>free_list := blk_next (ram st) a\<rparr>"])
      (use fl Nil chain in \<open>auto simp: remove_from_free_list_def\<close>)
next
  case (snoc us x)
  obtain c t where x: "x = (c, t)" by force
  note dist = blocks_distinct[OF ok hi]
  have chain': "free_chain (ram st) (free_list st) (us @ (c, t) # (a, s) # ys)"
    using chain snoc x by simp
  have fp: "find_pred a (free_list st) (ram st) = Some c"
    by (rule find_pred_chain[OF chain']) (use dist snoc x in simp)
  have c0: "c \<noteq> 0" using chain_append[OF chain'] by simp
  have nhead: "free_list st \<noteq> a"
    using chain' dist snoc x by (cases us) auto
  define st' where "st' = upd_ram (set_next c (blk_next (ram st) a)) st"
  have c24: "unat c + 24 \<le> 18446744073709551616"
    using ok hi snoc x by (auto simp: blocks_ok_def)
  have others: "agree (ram st) (ram st') b 24" if "(b, u) \<in> set (us @ ys)" for b u
  proof -
    have "blk_apart (b, u) (c, t)"
      using ok snoc x that by (auto simp: blocks_ok_append blocks_ok_Cons blk_apart_sym)
    moreover have "blk_within lo hi (b, u)" "blk_within lo hi (c, t)"
      by (rule blocks_ok_within[OF ok], use snoc x that in force)+
    ultimately have "apart b 24 c 24" using hi by (rule blk_apart_headers)
    then show ?thesis by (simp add: st'_def upd_ram_def header_writes_agree)
  qed
  have ys: "free_chain (ram st') (blk_next (ram st) a) ys"
    by (rule chain_frame[where m = "ram st"])
      (use others chain_append[OF chain'] in auto)
  have "free_chain (ram st') c ((c, t) # ys)"
    using chain_append[OF chain'] ys c24
    by (simp add: st'_def upd_ram_def same_header)
  have us: "free_chain (ram st') (free_list st) (us @ (c, t) # ys)"
    by (rule chain_replace_tail[OF chain']) (use others \<open>free_chain (ram st') c ((c, t) # ys)\<close> in auto)
  show ?thesis
  proof (rule that[of st'])
    show "remove_from_free_list a st = Some st'"
      using nhead fp c0 by (simp add: remove_from_free_list_def st'_def)
    show "free_chain (ram st') (free_list st') (xs @ ys)"
      using us snoc x by (simp add: st'_def upd_ram_def)
    show "st'\<lparr>ram := ram st, free_list := free_list st\<rparr> = st"
      by (simp add: st'_def upd_ram_def)
    show "agree (ram st) (ram st') b n" if "\<And>c t. (c, t) \<in> set xs \<Longrightarrow> apart b n c 24" for b n
      using that[of c t] snoc x by (simp add: st'_def upd_ram_def header_writes_agree)
  qed
qed

section \<open>Splitting\<close>

lemma unat_24 [simp]: "unat (24 :: u64) = 24" by simp

definition tail_block :: "u64 \<Rightarrow> u64 \<Rightarrow> u64 \<Rightarrow> blk" where
  "tail_block a s sz = (a + FREE_BLOCK_SIZE + sz, s - sz - FREE_BLOCK_SIZE)"

definition splits :: "u64 \<Rightarrow> u64 \<Rightarrow> bool" where
  "splits s sz \<longleftrightarrow> MIN_BLOCK_SIZE \<le> s - sz - FREE_BLOCK_SIZE"

lemma split_numbers:
  assumes "unat sz + 24 \<le> unat s" and "blk_within lo hi (a, s)" and "hi < 18446744073709551616"
  shows "unat (s - sz - FREE_BLOCK_SIZE) = unat s - unat sz - 24"
    and "unat (a + FREE_BLOCK_SIZE + sz) = unat a + 24 + unat sz"
    and "splits s sz \<longleftrightarrow> unat sz + 56 \<le> unat s"
proof -
  have 1: "unat (s - sz) = unat s - unat sz" using assms by (intro unat_diff_exact) simp
  show r: "unat (s - sz - FREE_BLOCK_SIZE) = unat s - unat sz - 24"
    unfolding FREE_BLOCK_SIZE_def using assms 1 by (subst unat_diff_exact) simp_all
  have 2: "unat (a + 24) = unat a + 24" using assms by (subst unat_add_exact) simp_all
  show "unat (a + FREE_BLOCK_SIZE + sz) = unat a + 24 + unat sz"
    unfolding FREE_BLOCK_SIZE_def using assms 2 by (subst unat_add_exact) simp_all
  show "splits s sz \<longleftrightarrow> unat sz + 56 \<le> unat s"
    unfolding splits_def word_le_nat_alt r using assms
    by (auto simp: MIN_BLOCK_SIZE_def FREE_BLOCK_SIZE_def)
qed

lemma split_block_keeps:
  "\<not> splits (blk_size (ram st) a) sz \<Longrightarrow> split_block a sz st = st"
  by (simp add: split_block_def splits_def not_le Let_def)

lemma split_block_chain:
  assumes chain: "free_chain (ram st) (free_list st) (xs @ (a, s) # ys)"
    and ok: "blocks_ok lo hi (xs @ (a, s) # ys)" and hi: "hi < 18446744073709551616"
    and room: "unat sz + 24 \<le> unat s" and sp: "splits s sz"
  defines "st' \<equiv> split_block a sz st"
  shows "free_chain (ram st') (free_list st') (xs @ (a, sz) # tail_block a s sz # ys)"
    and "blocks_ok lo hi (xs @ (a, sz) # tail_block a s sz # ys)"
    and "apart b n a (24 + unat s) \<Longrightarrow> agree (ram st) (ram st') b n"
    and "st' = st\<lparr>ram := ram st', free_memory := free_memory st - FREE_BLOCK_SIZE\<rparr>"
proof -
  define nb rem where "nb = a + FREE_BLOCK_SIZE + sz" and "rem = s - sz - FREE_BLOCK_SIZE"
  have within: "blk_within lo hi (a, s)" by (rule blocks_ok_within[OF ok]) simp
  note num = split_numbers[OF room within hi, folded nb_def rem_def]
  have s: "blk_size (ram st) a = s" and a0: "a \<noteq> 0" and am: "blk_magic (ram st) a = BLOCK_MAGIC"
    and tl: "free_chain (ram st) (blk_next (ram st) a) ys"
    using chain_append[OF chain] by auto
  have big: "unat sz + 56 \<le> unat s" using sp num by simp
  have a24: "unat a + 24 \<le> 18446744073709551616" and nb24: "unat nb + 24 \<le> 18446744073709551616"
    using within hi num big by auto
  have ap: "apart a 24 nb 24" "apart nb 24 a 24"
    using a24 nb24 num by (auto simp: apart_def)
  define m1 where "m1 = set_next nb (blk_next (ram st) a)
     (set_magic nb BLOCK_MAGIC (set_size nb rem (ram st)))"
  define m2 where "m2 = set_next a nb (set_size a sz m1)"
  have nexta: "blk_next (set_magic nb BLOCK_MAGIC (set_size nb rem (ram st))) a = blk_next (ram st) a"
    using ap by (simp add: fields_cong(1)[OF header_writes_agree(2)]
        fields_cong(1)[OF header_writes_agree(3)])
  have st': "st' = st\<lparr>ram := m2, free_memory := free_memory st - FREE_BLOCK_SIZE\<rparr>"
    using sp nexta unfolding st'_def split_block_def splits_def s
    by (simp add: Let_def upd_ram_def m1_def m2_def nb_def rem_def not_le)
  have ag: "agree (ram st) m2 b n" if "apart b n a 24" "apart b n nb 24" for b n
    unfolding m2_def m1_def
    by (intro agree_trans[OF agree_trans[OF agree_trans[OF agree_trans
          [OF header_writes_agree(2) header_writes_agree(3)] header_writes_agree(1)]
          header_writes_agree(2)] header_writes_agree(1)] that)
  have hdr_nb: "blk_next m2 nb = blk_next (ram st) a" "blk_size m2 nb = rem"
      "blk_magic m2 nb = BLOCK_MAGIC"
  proof -
    have "agree m1 m2 nb 24" unfolding m2_def
      by (intro agree_trans[OF header_writes_agree(2) header_writes_agree(1)] ap)
    note c = fields_cong[OF this]
    show "blk_next m2 nb = blk_next (ram st) a" "blk_size m2 nb = rem"
      "blk_magic m2 nb = BLOCK_MAGIC"
      using nb24 by (simp_all add: c m1_def same_header)
  qed
  have hdr_a: "blk_next m2 a = nb" "blk_size m2 a = sz" "blk_magic m2 a = BLOCK_MAGIC"
  proof -
    have "agree (ram st) m1 a 24" unfolding m1_def
      by (intro agree_trans[OF agree_trans[OF header_writes_agree(2) header_writes_agree(3)]
            header_writes_agree(1)] ap)
    note c = fields_cong[OF this]
    show "blk_next m2 a = nb" "blk_size m2 a = sz" "blk_magic m2 a = BLOCK_MAGIC"
      using a24 am by (simp_all add: m2_def same_header c)
  qed
  have others: "agree (ram st) m2 b 24" if bu: "(b, u) \<in> set (xs @ ys)" for b u
  proof -
    have "blk_apart (b, u) (a, s)"
      using ok bu by (auto simp: blocks_ok_append blocks_ok_Cons blk_apart_sym)
    moreover have "blk_within lo hi (b, u)" using bu by (intro blocks_ok_within[OF ok]) auto
    ultimately have "apart b 24 a 24" "apart b 24 nb 24"
      using within hi num big nb24 by (auto simp: apart_def)
    then show ?thesis by (rule ag)
  qed
  have nb0: "nb \<noteq> 0" using num(2) by (metis add_is_0 unat_0 zero_neq_numeral)
  have tail: "free_chain m2 a ((a, sz) # (nb, rem) # ys)"
  proof -
    have "free_chain m2 (blk_next (ram st) a) ys"
      by (rule chain_frame[OF _ tl]) (use others in auto)
    then show ?thesis by (simp add: hdr_a hdr_nb a0 nb0)
  qed
  have "free_chain m2 (free_list st) (xs @ (a, sz) # (nb, rem) # ys)"
    by (rule chain_replace_tail[OF chain]) (use others tail in auto)
  then show "free_chain (ram st') (free_list st') (xs @ (a, sz) # tail_block a s sz # ys)"
    by (simp add: st' tail_block_def flip: nb_def rem_def)
  show "st' = st\<lparr>ram := ram st', free_memory := free_memory st - FREE_BLOCK_SIZE\<rparr>"
    by (simp add: st')
  show "agree (ram st) (ram st') b n" if "apart b n a (24 + unat s)"
    using that num big within hi by (simp add: st') (intro ag; auto simp: apart_def)
  have "blk_apart c (a, sz) \<and> blk_apart c (nb, rem)" if "blk_apart c (a, s)" for c
    using that num big by (cases c) auto
  moreover have "blk_apart (a, sz) c \<and> blk_apart (nb, rem) c" if "blk_apart (a, s) c" for c
    using that num big by (cases c) auto
  moreover have "blk_apart (a, sz) (nb, rem)" "blk_within lo hi (a, sz)" "blk_within lo hi (nb, rem)"
    using num big within by auto
  ultimately show "blocks_ok lo hi (xs @ (a, sz) # tail_block a s sz # ys)"
    using ok unfolding tail_block_def nb_def[symmetric] rem_def[symmetric]
    by (auto simp: blocks_ok_append blocks_ok_Cons simp del: blk_apart.simps blk_within.simps)
qed

end
