(* ===== verification/Kmem_Alloc.thy ===== *)
theory Kmem_Alloc
  imports Kmem_Ops
begin

text \<open>
  \<^verbatim>\<open>kmalloc_take\<close> (split, unlink, write the header) and \<^verbatim>\<open>coalesce_blocks\<close> at the level of
  the represented block list.
\<close>

section \<open>Taking a block\<close>

definition allocated :: "kheap \<Rightarrow> u64 \<Rightarrow> u64 \<Rightarrow> bool" where
  "allocated st p sz \<longleftrightarrow> hdr_size (ram st) (BLOCK_FROM_PTR p) = sz \<and>
     hdr_magic (ram st) (BLOCK_FROM_PTR p) = BLOCK_MAGIC \<and> hdr_used (ram st) (BLOCK_FROM_PTR p) = 1"

definition rest_after :: "u64 \<Rightarrow> u64 \<Rightarrow> u64 \<Rightarrow> blk list" where
  "rest_after a s sz = (if splits s sz then [tail_block a s sz] else [])"

lemma header_write_read:
  assumes "unat (a :: u64) + 24 \<le> 18446744073709551616"
    and "m' = set_hdr_used a 1 (set_hdr_magic a BLOCK_MAGIC (set_hdr_size a v m))"
  shows "hdr_size m' a = v" and "hdr_magic m' a = BLOCK_MAGIC" and "hdr_used m' a = 1"
  using assms(1) unat_offsets[OF assms(1)]
  by (simp_all add: assms(2) hdr_size_def hdr_magic_def hdr_used_def set_hdr_size_def
        set_hdr_magic_def set_hdr_used_def mem_laws apart_def)

lemma header_write_agree:
  "apart b n a 24 \<Longrightarrow>
   agree m (set_hdr_used a 1 (set_hdr_magic a BLOCK_MAGIC (set_hdr_size a v m))) b n"
  by (intro agree_trans[OF agree_trans[OF header_writes_agree(4) header_writes_agree(5)]
        header_writes_agree(6)])

text \<open>What \<^verbatim>\<open>split_block\<close> leaves, whether it splits or not.\<close>

lemma split_either:
  assumes chain: "free_chain (ram st) (free_list st) (xs @ (a, s) # ys)"
    and ok: "blocks_ok lo hi (xs @ (a, s) # ys)" and hi: "hi < 18446744073709551616"
    and room: "unat sz + 24 \<le> unat s"
  obtains t f where "sz \<le> t" and "t \<le> s"
    and "free_chain (ram (split_block a sz st)) (free_list (split_block a sz st))
           (xs @ (a, t) # rest_after a s sz @ ys)"
    and "blocks_ok lo hi (xs @ (a, t) # rest_after a s sz @ ys)"
    and "\<And>b n. apart b n a (24 + unat s) \<Longrightarrow> agree (ram st) (ram (split_block a sz st)) b n"
    and "split_block a sz st = st\<lparr>ram := ram (split_block a sz st), free_memory := f\<rparr>"
proof (cases "splits s sz")
  case True
  have "sz \<le> s" using room by (simp add: word_le_nat_alt)
  with split_block_chain[OF chain ok hi room True] True show ?thesis
    by (intro that[of sz "free_memory st - FREE_BLOCK_SIZE"]) (simp_all add: rest_after_def)
next
  case False
  have "blk_size (ram st) a = s" using chain_append[OF chain] by simp
  with False have "split_block a sz st = st" by (intro split_block_keeps) simp
  then show ?thesis
    using chain ok False room
    by (intro that[of s "free_memory st"]) (simp_all add: rest_after_def word_le_nat_alt)
qed

lemma kmalloc_take_chain:
  assumes inv: "heap_inv st (xs @ (a, s) # ys)" and room: "unat sz + 24 \<le> unat s"
  obtains st' where "kmalloc_take a sz st = Some (PTR_FROM_BLOCK a, st')"
    and "heap_inv st' (xs @ rest_after a s sz @ ys)"
    and "allocated st' (PTR_FROM_BLOCK a) sz"
    and "\<forall>b\<in>set (xs @ rest_after a s sz @ ys). blk_apart (a, sz) b"
    and "\<And>b n. (\<And>c t. (c, t) \<in> set (xs @ (a, s) # ys) \<Longrightarrow> apart b n c (24 + unat t)) \<Longrightarrow>
           agree (ram st) (ram st') b n"
    and "used_memory st' = used_memory st + (sz + HEADER_SIZE)"
    and "alloc_count st' = alloc_count st + 1"
    and "heap_start st' = heap_start st" and "heap_end st' = heap_end st" and "klog st' = klog st"
proof -
  define lo hi where "lo = unat (heap_start st)" and "hi = unat (heap_end st)"
  have chain: "free_chain (ram st) (free_list st) (xs @ (a, s) # ys)"
    and ok: "blocks_ok lo hi (xs @ (a, s) # ys)" and init: "initialized st \<noteq> 0"
    using inv by (auto simp: heap_inv_def lo_def hi_def)
  have hi: "hi < 18446744073709551616" unfolding hi_def by (rule unat_lt_64)
  have within: "blk_within lo hi (a, s)" by (rule blocks_ok_within[OF ok]) simp
  have a24: "unat a + 24 \<le> 18446744073709551616" using within hi by simp
  define rest where "rest = rest_after a s sz"
  define st1 where "st1 = split_block a sz st"
  obtain t f where t: "sz \<le> t" "t \<le> s"
    and chain1: "free_chain (ram st1) (free_list st1) (xs @ (a, t) # rest @ ys)"
    and ok1: "blocks_ok lo hi (xs @ (a, t) # rest @ ys)"
    and ag1: "\<And>b n. apart b n a (24 + unat s) \<Longrightarrow> agree (ram st) (ram st1) b n"
    and st1: "st1 = st\<lparr>ram := ram st1, free_memory := f\<rparr>"
    by (rule split_either[OF chain ok hi room, folded rest_def st1_def]) blast
  obtain st2 where rm: "remove_from_free_list a st1 = Some st2"
    and chain2: "free_chain (ram st2) (free_list st2) (xs @ rest @ ys)"
    and ag2: "\<And>b n. (\<And>c u. (c, u) \<in> set xs \<Longrightarrow> apart b n c 24) \<Longrightarrow> agree (ram st1) (ram st2) b n"
    and st2: "st2\<lparr>ram := ram st1, free_list := free_list st1\<rparr> = st1"
    by (rule remove_from_free_list_chain[OF chain1 ok1 less_imp_le[OF hi]]) blast
  define m3 where "m3 = set_hdr_used a 1 (set_hdr_magic a BLOCK_MAGIC (set_hdr_size a sz (ram st2)))"
  define st' where "st' = st2\<lparr>ram := m3, used_memory := used_memory st2 + (sz + HEADER_SIZE),
     free_memory := free_memory st2 - (sz + HEADER_SIZE), alloc_count := alloc_count st2 + 1\<rparr>"
  have ok2: "blocks_ok lo hi (xs @ rest @ ys)" and apt: "\<forall>b\<in>set (xs @ rest @ ys). blk_apart (a, t) b"
    using ok1 by (auto simp: blocks_ok_append blocks_ok_Cons blk_apart_sym)
  have same: "heap_start st2 = heap_start st" "heap_end st2 = heap_end st" "klog st2 = klog st"
    "initialized st2 = initialized st" "used_memory st2 = used_memory st"
    "alloc_count st2 = alloc_count st"
    using arg_cong[OF st2, of heap_start] arg_cong[OF st2, of heap_end] arg_cong[OF st2, of klog]
      arg_cong[OF st2, of initialized] arg_cong[OF st2, of used_memory]
      arg_cong[OF st2, of alloc_count] arg_cong[OF st1, of heap_start] arg_cong[OF st1, of heap_end]
      arg_cong[OF st1, of klog] arg_cong[OF st1, of initialized] arg_cong[OF st1, of used_memory]
      arg_cong[OF st1, of alloc_count]
    by simp_all
  have hdrs: "apart b 24 a 24" if "(b, u) \<in> set (xs @ rest @ ys)" for b u
  proof -
    have "blk_apart (b, u) (a, t)" using apt that by (subst blk_apart_sym) blast
    moreover have "blk_within lo hi (b, u)" by (rule blocks_ok_within[OF ok2 that])
    moreover have "blk_within lo hi (a, t)" by (rule blocks_ok_within[OF ok1]) simp
    ultimately show ?thesis using hi by (intro blk_apart_headers) (auto intro: less_imp_le)
  qed
  have chain3: "free_chain m3 (free_list st2) (xs @ rest @ ys)"
    by (rule chain_frame[OF _ chain2]) (use hdrs in \<open>auto simp: m3_def intro: header_write_agree\<close>)
  show ?thesis
  proof (rule that[of st'])
    show "kmalloc_take a sz st = Some (PTR_FROM_BLOCK a, st')"
      using rm by (simp add: kmalloc_take_def st'_def m3_def upd_ram_def flip: st1_def)
    show "heap_inv st' (xs @ rest_after a s sz @ ys)"
      using chain3 ok2 init same by (simp add: heap_inv_def st'_def lo_def hi_def flip: rest_def)
    show "allocated st' (PTR_FROM_BLOCK a) sz"
      using header_write_read[OF a24 m3_def]
      by (simp add: allocated_def st'_def BLOCK_FROM_PTR_def PTR_FROM_BLOCK_def)
    have "unat sz \<le> unat t" using t by (simp add: word_le_nat_alt)
    then have "blk_apart (a, sz) b" if "blk_apart (a, t) b" for b using that by (cases b) auto
    with apt show "\<forall>b\<in>set (xs @ rest_after a s sz @ ys). blk_apart (a, sz) b"
      by (simp flip: rest_def del: blk_apart.simps)
    show "agree (ram st) (ram st') b n"
      if far: "\<And>c t. (c, t) \<in> set (xs @ (a, s) # ys) \<Longrightarrow> apart b n c (24 + unat t)" for b n
    proof -
      have "apart b n a (24 + unat s)" by (rule far) simp
      moreover have "apart b n c 24" if "(c, u) \<in> set xs" for c u
        using far[of c u] that by (auto simp: apart_def)
      moreover from calculation have "apart b n a 24" by (auto simp: apart_def)
      ultimately show ?thesis
        using ag1[of b n] ag2[of b n] header_write_agree[of b n a "ram st2" sz]
        by (simp add: st'_def m3_def) (blast intro: agree_trans)
    qed
    show "used_memory st' = used_memory st + (sz + HEADER_SIZE)"
      "alloc_count st' = alloc_count st + 1" "heap_start st' = heap_start st"
      "heap_end st' = heap_end st" "klog st' = klog st"
      by (simp_all add: st'_def same)
  qed
qed

section \<open>Coalescing\<close>

text \<open>One pass over the list, merging a block with its list successor when they touch.\<close>

fun coalesce_list :: "blk list \<Rightarrow> blk list" where
  "coalesce_list ((a, s) # (b, t) # bs) =
     (if a + FREE_BLOCK_SIZE + s = b then coalesce_list ((a, s + (FREE_BLOCK_SIZE + t)) # bs)
      else (a, s) # coalesce_list ((b, t) # bs))"
| "coalesce_list [b] = [b]"
| "coalesce_list [] = []"

lemma merge_numbers:
  assumes "blocks_ok lo hi (xs @ (a, s) # (b, t) # bs)" and "hi < 18446744073709551616"
    and "a + FREE_BLOCK_SIZE + s = b"
  shows "unat b = unat a + 24 + unat s"
    and "unat (s + (FREE_BLOCK_SIZE + t)) = unat s + 24 + unat t"
proof -
  have wa: "blk_within lo hi (a, s)" and wb: "blk_within lo hi (b, t)"
    by (rule blocks_ok_within[OF assms(1)], force)+
  have 1: "unat (a + 24) = unat a + 24"
    using wa assms(2) by (subst unat_add_exact) simp_all
  have "unat (a + FREE_BLOCK_SIZE + s) = unat a + 24 + unat s"
    unfolding FREE_BLOCK_SIZE_def using wa assms(2) 1 by (subst unat_add_exact) simp_all
  with assms(3) show b: "unat b = unat a + 24 + unat s" by simp
  have 2: "unat (24 + t) = 24 + unat t" using wb assms(2) by (subst unat_add_exact) simp_all
  show "unat (s + (FREE_BLOCK_SIZE + t)) = unat s + 24 + unat t"
    unfolding FREE_BLOCK_SIZE_def using wa wb b 2 assms(2)
    by (subst unat_add_exact) simp_all
qed

lemma merge_blocks_ok:
  assumes ok: "blocks_ok lo hi (xs @ (a, s) # (b, t) # bs)" and "hi < 18446744073709551616"
    and "a + FREE_BLOCK_SIZE + s = b"
  shows "blocks_ok lo hi (xs @ (a, s + (FREE_BLOCK_SIZE + t)) # bs)"
proof -
  note num = merge_numbers[OF assms]
  have "blk_within lo hi (a, s)" and "blk_within lo hi (b, t)"
    by (rule blocks_ok_within[OF ok], force)+
  then have "blk_within lo hi (a, s + (FREE_BLOCK_SIZE + t))" using num by simp
  moreover have "blk_apart c (a, s + (FREE_BLOCK_SIZE + t))"
    if "blk_apart c (a, s)" "blk_apart c (b, t)" for c
    using that num by (cases c) auto
  moreover have "blk_apart (a, s + (FREE_BLOCK_SIZE + t)) c"
    if "blk_apart (a, s) c" "blk_apart (b, t) c" for c
    using that num by (cases c) auto
  ultimately show ?thesis
    using ok by (auto simp: blocks_ok_append blocks_ok_Cons simp del: blk_apart.simps blk_within.simps)
qed

lemma coalesce_merge_step:
  assumes chain: "free_chain (ram st) (free_list st) (xs @ (a, s) # (b, t) # bs)"
    and ok: "blocks_ok lo hi (xs @ (a, s) # (b, t) # bs)" and hi: "hi < 18446744073709551616"
  defines "m' \<equiv> set_next a (blk_next (ram st) b) (set_size a (s + (FREE_BLOCK_SIZE + t)) (ram st))"
  shows "free_chain m' (free_list st) (xs @ (a, s + (FREE_BLOCK_SIZE + t)) # bs)"
    and "blk_next (set_size a (s + (FREE_BLOCK_SIZE + t)) (ram st)) b = blk_next (ram st) b"
    and "apart c n a 24 \<Longrightarrow> agree (ram st) m' c n"
proof -
  have wa: "blk_within lo hi (a, s)" by (rule blocks_ok_within[OF ok]) force
  have a24: "unat a + 24 \<le> 18446744073709551616" using wa hi by simp
  have hdr: "apart c 24 a 24" if "(c, u) \<in> set (xs @ (b, t) # bs)" for c u
  proof -
    have "blk_apart (c, u) (a, s)"
      using ok that by (auto simp: blocks_ok_append blocks_ok_Cons blk_apart_sym)
    moreover have "blk_within lo hi (c, u)" by (rule blocks_ok_within[OF ok]) (use that in force)
    ultimately show ?thesis using wa hi by (intro blk_apart_headers) (auto intro: less_imp_le)
  qed
  show ag: "agree (ram st) m' c n" if "apart c n a 24" for c n
    unfolding m'_def by (intro agree_trans[OF header_writes_agree(2) header_writes_agree(1)] that)
  have "apart b 24 a 24" using hdr by auto
  then show "blk_next (set_size a (s + (FREE_BLOCK_SIZE + t)) (ram st)) b = blk_next (ram st) b"
    by (rule fields_cong(1)[OF header_writes_agree(2)])
  have "free_chain m' (blk_next (ram st) b) bs"
    by (rule chain_frame[of bs "ram st"]) (use hdr ag chain_append[OF chain] in auto)
  then have "free_chain m' a ((a, s + (FREE_BLOCK_SIZE + t)) # bs)"
    using chain_append[OF chain] a24 by (simp add: m'_def same_header)
  then show "free_chain m' (free_list st) (xs @ (a, s + (FREE_BLOCK_SIZE + t)) # bs)"
    by (rule chain_replace_tail[OF chain, rotated]) (use hdr ag in auto)
qed

definition chain_head :: "blk list \<Rightarrow> u64" where
  "chain_head zs = (case zs of [] \<Rightarrow> 0 | (a, s) # _ \<Rightarrow> a)"

text \<open>\<open>coalesced\<close>: what the pass may change, and the bytes it must leave alone.\<close>

definition coalesced :: "kheap \<Rightarrow> blk list \<Rightarrow> kheap \<Rightarrow> bool" where
  "coalesced st zs st' \<longleftrightarrow>
     st' = st\<lparr>ram := ram st', free_memory := free_memory st'\<rparr> \<and>
     free_memory st' = free_memory st +
       FREE_BLOCK_SIZE * of_nat (length zs - length (coalesce_list zs)) \<and>
     (\<forall>b n. (\<forall>(c, u)\<in>set zs. apart b n c 24) \<longrightarrow> agree (ram st) (ram st') b n)"

lemma coalesce_list_length: "length (coalesce_list zs) \<le> length zs"
  by (induction zs rule: coalesce_list.induct) auto

lemma coalesce_loop_spec:
  assumes "free_chain (ram st) (free_list st) (xs @ zs)" and "blocks_ok lo hi (xs @ zs)"
    and "hi < 18446744073709551616"
  shows "\<exists>st'. coalesce_loop (chain_head zs) st = Some st' \<and>
     free_chain (ram st') (free_list st') (xs @ coalesce_list zs) \<and>
     blocks_ok lo hi (xs @ coalesce_list zs) \<and> coalesced st zs st'"
  using assms(1,2)
proof (induction zs arbitrary: xs st rule: coalesce_list.induct)
  case (1 a s b t bs)
  note prems = "1.prems"
  have a: "a \<noteq> 0" "blk_size (ram st) a = s" "blk_magic (ram st) a = BLOCK_MAGIC"
    "blk_next (ram st) a = b" "b \<noteq> 0" "blk_size (ram st) b = t"
    using chain_append[OF prems(1)] by auto
  note unfold = coalesce_loop.simps[of a st]
  show ?case
  proof (cases "a + FREE_BLOCK_SIZE + s = b")
    case True
    note step = coalesce_merge_step[OF prems assms(3)]
    note ok' = merge_blocks_ok[OF prems(2) assms(3) True]
    define st1 where "st1 = st\<lparr>ram := set_next a (blk_next (ram st) b)
        (set_size a (s + (FREE_BLOCK_SIZE + t)) (ram st)),
      free_memory := free_memory st + FREE_BLOCK_SIZE\<rparr>"
    have run: "coalesce_loop a st = coalesce_loop a st1"
      using a True step(2) unfolding unfold
      by (simp add: check_ok Let_def upd_ram_def st1_def)
    obtain st' where IH: "coalesce_loop a st1 = Some st'"
      "free_chain (ram st') (free_list st') (xs @ coalesce_list ((a, s + (FREE_BLOCK_SIZE + t)) # bs))"
      "blocks_ok lo hi (xs @ coalesce_list ((a, s + (FREE_BLOCK_SIZE + t)) # bs))"
      "coalesced st1 ((a, s + (FREE_BLOCK_SIZE + t)) # bs) st'"
      using "1.IH"(1)[OF True, of st1 xs] step(1) ok' by (auto simp: st1_def chain_head_def)
    have len: "length (coalesce_list ((a, s + (FREE_BLOCK_SIZE + t)) # bs)) \<le> Suc (length bs)"
      using coalesce_list_length[of "(a, s + (FREE_BLOCK_SIZE + t)) # bs"] by simp
    have "agree (ram st) (ram st') c n"
      if far: "\<forall>(d, u)\<in>set ((a, s) # (b, t) # bs). apart c n d 24" for c n
    proof (rule agree_trans)
      show "agree (ram st) (ram st1) c n"
        using step(3)[of c n] far by (simp add: st1_def)
      show "agree (ram st1) (ram st') c n"
        using IH(4) far by (simp add: coalesced_def)
    qed
    moreover have "st' = st\<lparr>ram := ram st', free_memory := free_memory st'\<rparr>"
    proof -
      have "st' = st1\<lparr>ram := ram st', free_memory := free_memory st'\<rparr>"
        using IH(4) unfolding coalesced_def by blast
      then show ?thesis unfolding st1_def by simp
    qed
    moreover have "free_memory st' = free_memory st + FREE_BLOCK_SIZE *
        of_nat (length ((a, s) # (b, t) # bs) - length (coalesce_list ((a, s) # (b, t) # bs)))"
      using IH(4) len True unfolding coalesced_def st1_def
      by (simp add: Suc_diff_le algebra_simps)
    ultimately have "coalesced st ((a, s) # (b, t) # bs) st'"
      unfolding coalesced_def by blast
    then show ?thesis using IH run True by (auto simp: chain_head_def)
  next
    case False
    have run: "coalesce_loop a st = coalesce_loop b st"
      using a False unfolding unfold by (simp add: check_ok Let_def)
    obtain st' where IH: "coalesce_loop b st = Some st'"
      "free_chain (ram st') (free_list st') ((xs @ [(a, s)]) @ coalesce_list ((b, t) # bs))"
      "blocks_ok lo hi ((xs @ [(a, s)]) @ coalesce_list ((b, t) # bs))"
      "coalesced st ((b, t) # bs) st'"
      using "1.IH"(2)[OF False, of st "xs @ [(a, s)]"] prems by (auto simp: chain_head_def)
    then have "coalesced st ((a, s) # (b, t) # bs) st'"
      using False coalesce_list_length[of "(b, t) # bs"]
      by (auto simp: coalesced_def)
    then show ?thesis using IH run False by (auto simp: chain_head_def)
  qed
next
  case 3
  then show ?case by (auto simp: chain_head_def coalesce_loop.simps coalesced_def)
next
  case (2 v)
  obtain a s where v: "v = (a, s)" by force
  then have "a \<noteq> 0" "blk_magic (ram st) a = BLOCK_MAGIC" "blk_next (ram st) a = 0"
    using "2.prems" chain_append[of "ram st" _ xs a s "[]"] by auto
  then show ?case using "2.prems" v
    by (simp add: chain_head_def coalesce_loop.simps[of a st] coalesce_loop.simps[of 0 st]
        check_ok coalesced_def Let_def)
qed

lemma chain_head_free_list: "free_chain m p zs \<Longrightarrow> chain_head zs = p"
  by (cases zs) (auto simp: chain_head_def)

lemma coalesce_blocks_chain:
  assumes "heap_inv st bs"
  shows "\<exists>st'. coalesce_blocks st = Some st' \<and> heap_inv st' (coalesce_list bs) \<and> coalesced st bs st'"
proof -
  have c: "free_chain (ram st) (free_list st) ([] @ bs)"
    and ok: "blocks_ok (unat (heap_start st)) (unat (heap_end st)) ([] @ bs)"
    and init: "initialized st \<noteq> 0"
    using assms by (auto simp: heap_inv_def)
  obtain st' where st': "coalesce_loop (chain_head bs) st = Some st'"
    "free_chain (ram st') (free_list st') ([] @ coalesce_list bs)"
    "blocks_ok (unat (heap_start st)) (unat (heap_end st)) ([] @ coalesce_list bs)"
    "coalesced st bs st'"
    using coalesce_loop_spec[OF c ok unat_lt_64] by blast
  have "initialized st' = initialized st" "heap_start st' = heap_start st"
    "heap_end st' = heap_end st"
    using st'(4) unfolding coalesced_def by (metis kheap.select_convs kheap.surjective kheap.update_convs)+
  then show ?thesis
    using st' init chain_head_free_list[OF c] by (simp add: coalesce_blocks_def heap_inv_def)
qed

end
