(* ===== verification/Kmem_Facts.thy ===== *)
theory Kmem_Facts
  imports Kmem_Alloc
begin

text \<open>
  The allocator's theorems: what \<^verbatim>\<open>memory_init\<close>, \<^verbatim>\<open>kmalloc\<close>, \<^verbatim>\<open>coalesce_blocks\<close>,
  \<^verbatim>\<open>kfree\<close>, \<^verbatim>\<open>kcalloc\<close> and \<^verbatim>\<open>krealloc\<close> guarantee, with the arithmetic facts on alignment
  they rest on.
\<close>

section \<open>Alignment\<close>

lemma not7: "(- 8 :: u64) = NOT (mask 3)"
  by (simp add: mask_eq_exp_minus_1)

lemma and_not7: "(x :: u64) AND - 8 = push_bit 3 (drop_bit 3 x)"
  unfolding not7
  by (auto intro!: bit_eqI simp: bit_and_iff bit_not_iff bit_push_bit_iff bit_drop_bit_eq bit_mask_iff)

lemma unat_and_not7: "unat ((x :: u64) AND - 8) = 8 * (unat x div 8)"
proof -
  have 1: "unat (x div 8) = unat x div 8" by (simp add: unat_div)
  have "unat (8 * (x div 8)) = 8 * unat (x div 8)"
    using 1 unat_lt_64[of x] by (simp add: unat_word_ariths)
  then show ?thesis by (simp add: and_not7 push_bit_eq_mult drop_bit_eq_div 1 mult.commute)
qed

lemma ALIGN_UP_8:
  assumes "unat x \<le> 18446744073709551608"
  shows "unat (ALIGN_UP x MEM_ALIGNMENT) = 8 * ((unat x + 7) div 8)"
proof -
  have "unat (x + 7) = unat x + 7" using assms by (subst unat_add_exact) simp_all
  then show ?thesis by (simp add: ALIGN_UP_def MEM_ALIGNMENT_def unat_and_not7)
qed

lemma ALIGN_DOWN_8: "unat (ALIGN_DOWN x MEM_ALIGNMENT) = 8 * (unat x div 8)"
  by (simp add: ALIGN_DOWN_def MEM_ALIGNMENT_def unat_and_not7)

text \<open>
  For every request that does not exceed \<open>2^64 - 8\<close> bytes, \<^verbatim>\<open>ALIGN_UP\<close> with
  \<^verbatim>\<open>MEM_ALIGNMENT\<close> gives the least multiple of eight that is at least the request.
\<close>

theorem align_up_least_multiple:
  assumes "unat x \<le> 18446744073709551608"
  shows "8 dvd unat (ALIGN_UP x MEM_ALIGNMENT) \<and> unat x \<le> unat (ALIGN_UP x MEM_ALIGNMENT) \<and>
    (\<forall>k. 8 dvd k \<and> unat x \<le> k \<longrightarrow> unat (ALIGN_UP x MEM_ALIGNMENT) \<le> k)"
proof -
  have "unat (ALIGN_UP x MEM_ALIGNMENT) \<le> k" if "8 dvd k" "unat x \<le> k" for k
    using that by (auto simp: ALIGN_UP_8[OF assms] dvd_def)
  then show ?thesis by (auto simp: ALIGN_UP_8[OF assms])
qed

theorem align_up_least_multiple_witness:
  "unat (ALIGN_UP 13 MEM_ALIGNMENT) \<le> 16 \<and> 13 \<le> unat (ALIGN_UP 13 MEM_ALIGNMENT)"
  using align_up_least_multiple[of 13] by auto

section \<open>Initialisation\<close>

lemma memory_init_inv:
  assumes "initialized st = 0" and "unat s0 \<le> 18446744073709551608"
    and "0 < unat s0" and "unat s0 + 32 \<le> unat e0"
  defines "s \<equiv> ALIGN_UP s0 MEM_ALIGNMENT" and "e \<equiv> ALIGN_DOWN e0 MEM_ALIGNMENT"
  shows "heap_inv (memory_init s0 e0 st) [(s, e - s - FREE_BLOCK_SIZE)]"
    and "unat (e - s - FREE_BLOCK_SIZE) = unat e - unat s - 24"
    and "unat s + 24 \<le> unat e"
    and "heap_start (memory_init s0 e0 st) = s" and "heap_end (memory_init s0 e0 st) = e"
    and "total_memory (memory_init s0 e0 st) = e - s"
    and "free_memory (memory_init s0 e0 st) = e - s - FREE_BLOCK_SIZE"
    and "used_memory (memory_init s0 e0 st) = 0"
    and "free_list (memory_init s0 e0 st) = s"
proof -
  have us: "unat s = 8 * ((unat s0 + 7) div 8)" using assms by (simp add: ALIGN_UP_8 s_def)
  have ue: "unat e = 8 * (unat e0 div 8)" by (simp add: e_def ALIGN_DOWN_8)
  have gap: "8 * q + 24 \<le> 8 * r" if "8 * q \<le> a + 7" "a + 32 \<le> b" "b < 8 * r + 8"
    for q r a b :: nat using that by presburger
  show le: "unat s + 24 \<le> unat e" unfolding us ue
    by (rule gap[OF _ assms(4)]) simp_all
  have s24: "unat s + 24 \<le> 18446744073709551616" using le unat_lt_64[of e] by simp
  have 1: "unat (e - s) = unat e - unat s" using le by (intro unat_diff_exact) simp
  show num: "unat (e - s - FREE_BLOCK_SIZE) = unat e - unat s - 24"
    unfolding FREE_BLOCK_SIZE_def using le 1 by (subst unat_diff_exact) simp_all
  have "s \<noteq> 0" using us assms(3) by auto
  define m' where "m' = set_magic s BLOCK_MAGIC (set_next s 0 (set_size s (e - s - FREE_BLOCK_SIZE) (ram st)))"
  have m': "blk_next m' s = 0" "blk_size m' s = e - s - FREE_BLOCK_SIZE" "blk_magic m' s = BLOCK_MAGIC"
    using s24 by (simp_all add: m'_def same_header)
  note unfold = memory_init_def Let_def log_line_def upd_ram_def s_def[symmetric] e_def[symmetric]
  show "heap_inv (memory_init s0 e0 st) [(s, e - s - FREE_BLOCK_SIZE)]"
    using assms(1) m' \<open>s \<noteq> 0\<close> num le
    by (simp add: unfold heap_inv_def blocks_ok_def flip: m'_def)
  show "heap_start (memory_init s0 e0 st) = s" "heap_end (memory_init s0 e0 st) = e"
    "total_memory (memory_init s0 e0 st) = e - s"
    "free_memory (memory_init s0 e0 st) = e - s - FREE_BLOCK_SIZE"
    "used_memory (memory_init s0 e0 st) = 0" "free_list (memory_init s0 e0 st) = s"
    using assms(1) m' by (simp_all add: unfold flip: m'_def)
qed


text \<open>A fresh heap for the closed examples: 4096 bytes at \<open>0x80000000\<close>.\<close>

definition fresh_heap :: kheap where
  "fresh_heap = memory_init 0x80000000 0x80001000 (boot (\<lambda>_. 0))"

lemma fresh_heap_inv: "heap_inv fresh_heap [(0x80000000, 4072)]"
proof -
  have "ALIGN_UP 0x80000000 MEM_ALIGNMENT = 0x80000000"
    and "ALIGN_DOWN 0x80001000 MEM_ALIGNMENT = 0x80001000"
    by (simp_all add: ALIGN_UP_def ALIGN_DOWN_def MEM_ALIGNMENT_def)
  then show ?thesis
    using memory_init_inv(1)[of "boot (\<lambda>_. 0)" "0x80000000" "0x80001000"]
    by (simp add: fresh_heap_def boot_def FREE_BLOCK_SIZE_def)
qed

text \<open>
  After \<^verbatim>\<open>memory_init\<close> on a region of at least 32 bytes (not at address 0, not
  in the last eight bytes of the address space), the free list is one block that covers the
  aligned region: payload \<open>total_memory - 24\<close>, and nothing is recorded as used.
\<close>

theorem memory_init_one_block:
  assumes "initialized st = 0" and "unat s0 \<le> 18446744073709551608"
    and "0 < unat s0" and "unat s0 + 32 \<le> unat e0"
  shows "heap_inv (memory_init s0 e0 st)
           [(ALIGN_UP s0 MEM_ALIGNMENT, total_memory (memory_init s0 e0 st) - FREE_BLOCK_SIZE)] \<and>
         unat (total_memory (memory_init s0 e0 st)) =
           unat (ALIGN_DOWN e0 MEM_ALIGNMENT) - unat (ALIGN_UP s0 MEM_ALIGNMENT) \<and>
         used_memory (memory_init s0 e0 st) = 0"
proof -
  note i = memory_init_inv[OF assms]
  have "unat (ALIGN_DOWN e0 MEM_ALIGNMENT - ALIGN_UP s0 MEM_ALIGNMENT) =
      unat (ALIGN_DOWN e0 MEM_ALIGNMENT) - unat (ALIGN_UP s0 MEM_ALIGNMENT)"
    using i(3) by (intro unat_diff_exact) simp
  then show ?thesis using i by simp
qed

theorem memory_init_one_block_witness:
  "used_memory (memory_init 0x80000000 0x80001000 (boot (\<lambda>_. 0))) = 0"
  using memory_init_one_block[of "boot (\<lambda>_. 0)" "0x80000000" "0x80001000"]
  by (simp add: boot_def)

section \<open>The search\<close>

lemma heap_inv_within:
  "heap_inv st bs \<Longrightarrow> b \<in> set bs \<Longrightarrow> blk_within (unat (heap_start st)) (unat (heap_end st)) b"
  unfolding heap_inv_def by (blast intro: blocks_ok_within)

lemma find_best_fit_result:
  assumes "heap_inv st bs"
  shows "\<exists>r. find_best_fit sz st = Some (r, st) \<and>
    (r = 0 \<longleftrightarrow> (\<forall>(a, s)\<in>set bs. s < sz)) \<and>
    (r \<noteq> 0 \<longrightarrow> (\<exists>s. (r, s) \<in> set bs \<and> sz \<le> s \<and> (\<forall>(a, t)\<in>set bs. sz \<le> t \<longrightarrow> s \<le> t)))"
proof -
  have chain: "free_chain (ram st) (free_list st) bs" using assms by (simp add: heap_inv_def)
  obtain r where r: "find_best_fit sz st = Some (r, st)" and best: "best_among sz 0 SIZE_MAX bs r"
    using find_best_fit_chain[OF chain] by blast
  have not_max: "s \<noteq> SIZE_MAX" if "(a, s) \<in> set bs" for a s
  proof
    assume "s = SIZE_MAX"
    then have "unat s = 18446744073709551615" by (simp add: SIZE_MAX_def unsigned_minus_1_eq_mask mask_eq_exp_minus_1)
    moreover have "blk_within (unat (heap_start st)) (unat (heap_end st)) (a, s)"
      by (rule heap_inv_within[OF assms that])
    ultimately show False using unat_lt_64[of "heap_end st"] by simp
  qed
  have nz: "\<forall>(a, s)\<in>set bs. a \<noteq> 0" using chain_nonnull[OF chain] by blast
  note res = best_among_result[OF best nz]
  have "r = 0 \<longleftrightarrow> (\<forall>(a, s)\<in>set bs. s < sz)"
    using res not_max chain_nonnull[OF chain] by (fastforce simp: not_le)
  then show ?thesis using r res(2) by blast
qed

text \<open>
  Property C8. On a well-formed free list \<^verbatim>\<open>find_best_fit\<close> returns, and changes nothing; it
  answers NULL exactly when no block is large enough, and otherwise a block of the list that is
  large enough and that no large-enough block undercuts.
\<close>

theorem find_best_fit_minimal:
  assumes "heap_inv st bs"
  shows "\<exists>r. find_best_fit sz st = Some (r, st) \<and>
    (r = 0 \<longleftrightarrow> (\<forall>(a, s)\<in>set bs. s < sz)) \<and>
    (r \<noteq> 0 \<longrightarrow> (\<exists>s. (r, s) \<in> set bs \<and> sz \<le> s \<and> (\<forall>(a, t)\<in>set bs. sz \<le> t \<longrightarrow> s \<le> t)))"
  by (rule find_best_fit_result[OF assms])

theorem find_best_fit_minimal_witness:
  "\<exists>r. find_best_fit 64 fresh_heap = Some (r, fresh_heap) \<and> r \<noteq> 0"
  using find_best_fit_minimal[OF fresh_heap_inv, of 64] by auto

section \<open>Coalescing\<close>

fun touching :: "blk \<Rightarrow> blk \<Rightarrow> bool" where
  "touching (a, s) (b, t) \<longleftrightarrow> a + FREE_BLOCK_SIZE + s = b"

definition no_touching :: "blk list \<Rightarrow> bool" where
  "no_touching bs \<longleftrightarrow> (\<forall>i. Suc i < length bs \<longrightarrow> \<not> touching (bs ! i) (bs ! Suc i))"

lemma coalesce_list_hd: "bs \<noteq> [] \<Longrightarrow> coalesce_list bs \<noteq> [] \<and> fst (hd (coalesce_list bs)) = fst (hd bs)"
  by (induction bs rule: coalesce_list.induct) auto

lemma no_touching_Cons:
  "no_touching (b # bs) \<longleftrightarrow> (bs = [] \<or> \<not> touching b (hd bs)) \<and> no_touching bs"
  by (cases bs) (auto simp: no_touching_def nth_Cons split: nat.splits)

lemma coalesce_list_no_touching: "no_touching (coalesce_list bs)"
proof (induction bs rule: coalesce_list.induct)
  case (1 a s b t bs)
  show ?case
  proof (cases "a + FREE_BLOCK_SIZE + s = b")
    case True
    then show ?thesis using 1 by simp
  next
    case False
    obtain c u cs where c: "coalesce_list ((b, t) # bs) = (c, u) # cs" "c = b"
      using coalesce_list_hd[of "(b, t) # bs"] by (cases "coalesce_list ((b, t) # bs)") auto
    then show ?thesis using 1 False by (simp add: no_touching_Cons)
  qed
qed (simp_all add: no_touching_def)

lemma coalesce_list_bytes:
  assumes "blocks_ok lo hi bs" and "hi < 18446744073709551616"
  shows "free_bytes (coalesce_list bs) = free_bytes bs"
  using assms(1)
proof (induction bs rule: coalesce_list.induct)
  case (1 a s b t bs)
  show ?case
  proof (cases "a + FREE_BLOCK_SIZE + s = b")
    case True
    have "blocks_ok lo hi ((a, s + (FREE_BLOCK_SIZE + t)) # bs)"
      using merge_blocks_ok[of lo hi "[]"] 1(3) assms(2) True by simp
    then show ?thesis
      using 1(1) True merge_numbers(2)[of lo hi "[]"] 1(3) assms(2)
      by (simp add: free_bytes_def)
  next
    case False
    then show ?thesis using 1 by (simp add: free_bytes_def blocks_ok_Cons)
  qed
qed (simp_all add: free_bytes_def)

text \<open>
  Property C4. On a well-formed free list \<^verbatim>\<open>coalesce_blocks\<close> terminates and keeps the list
  well-formed; afterwards no block ends where its list successor begins, the free bytes
  (headers included) are the same, and only headers of free blocks were written.
\<close>

theorem coalesce_blocks_merges:
  assumes "heap_inv st bs"
  shows "\<exists>st' bs'. coalesce_blocks st = Some st' \<and> heap_inv st' bs' \<and> no_touching bs' \<and>
    free_bytes bs' = free_bytes bs \<and>
    free_memory st' = free_memory st + FREE_BLOCK_SIZE * of_nat (length bs - length bs') \<and>
    (\<forall>b n. (\<forall>(c, u)\<in>set bs. apart b n c 24) \<longrightarrow> agree (ram st) (ram st') b n)"
proof -
  have "free_bytes (coalesce_list bs) = free_bytes bs"
    using assms coalesce_list_bytes[OF _ unat_lt_64] by (auto simp: heap_inv_def)
  then show ?thesis
    using coalesce_blocks_chain[OF assms] coalesce_list_no_touching unfolding coalesced_def by blast
qed

theorem coalesce_blocks_merges_witness:
  "\<exists>st' bs'. coalesce_blocks fresh_heap = Some st' \<and> heap_inv st' bs' \<and> free_bytes bs' = 4096"
  using coalesce_blocks_merges[OF fresh_heap_inv] by (auto simp: free_bytes_def)

section \<open>kmalloc\<close>

definition aligned :: "blk list \<Rightarrow> bool" where
  "aligned bs \<longleftrightarrow> (\<forall>(a, s)\<in>set bs. 8 dvd unat a)"

text \<open>No free block that could serve the request leaves less than a header behind.\<close>

definition roomy :: "u64 \<Rightarrow> blk list \<Rightarrow> bool" where
  "roomy sz bs \<longleftrightarrow> (\<forall>(a, s)\<in>set bs. sz \<le> s \<longrightarrow> unat sz + 24 \<le> unat s)"

lemma coalesce_list_aligned: "aligned bs \<Longrightarrow> aligned (coalesce_list bs)"
  by (induction bs rule: coalesce_list.induct) (auto simp: aligned_def)

lemma apart_join:
  assumes "apart b n a (24 + s)" and "apart b n (a + of_nat (24 + s)) (24 + t)" and "0 < n"
    and "unat (a + of_nat (24 + s)) = unat a + 24 + s" and "unat a + 24 + s + 24 + t \<le> 2 ^ 64"
  shows "apart b n a (24 + (s + 24 + t))"
  using assms by (auto simp: apart_def)

lemma coalesce_list_apart:
  assumes "blocks_ok lo hi bs" and "hi < 18446744073709551616" and "0 < n"
    and "\<forall>(c, u)\<in>set bs. apart b n c (24 + unat u)"
  shows "\<forall>(c, u)\<in>set (coalesce_list bs). apart b n c (24 + unat u)"
  using assms(1,4)
proof (induction bs rule: coalesce_list.induct)
  case (1 a s b' t bs)
  show ?case
  proof (cases "a + FREE_BLOCK_SIZE + s = b'")
    case True
    note num = merge_numbers[of lo hi "[]" a s b' t bs, simplified, OF 1(3) assms(2) True]
    have "blk_within lo hi (b', t)" by (rule blocks_ok_within[OF 1(3)]) simp
    then have "apart b n a (24 + unat (s + (FREE_BLOCK_SIZE + t)))"
      using 1(4) num assms(2,3) by (auto simp: apart_def)
    moreover have "blocks_ok lo hi ((a, s + (FREE_BLOCK_SIZE + t)) # bs)"
      using merge_blocks_ok[of lo hi "[]"] 1(3) assms(2) True by simp
    ultimately show ?thesis using 1(1)[OF True] 1(4) True by simp
  next
    case False
    have "blocks_ok lo hi ((b', t) # bs)" using 1(3) by (simp add: blocks_ok_Cons)
    then show ?thesis using 1(2)[OF False] 1(4) False by auto
  qed
qed auto

definition kmalloc_ok :: "u64 \<Rightarrow> kheap \<Rightarrow> u64 \<Rightarrow> kheap \<Rightarrow> blk list \<Rightarrow> bool" where
  "kmalloc_ok sz st p st' bs' \<longleftrightarrow>
     p \<noteq> 0 \<and> allocated st' p sz \<and>
     unat (heap_start st) + 16 \<le> unat p \<and> unat p + unat sz \<le> unat (heap_end st) \<and>
     (\<forall>b\<in>set bs'. blk_apart (BLOCK_FROM_PTR p, sz) b) \<and>
     used_memory st' = used_memory st + (sz + HEADER_SIZE)"

text \<open>
  \<open>spares\<close>: every region that meets no free block keeps its contents, and the new block does
  not meet it either.
\<close>

definition spares :: "blk list \<Rightarrow> u64 \<Rightarrow> kheap \<Rightarrow> u64 \<Rightarrow> kheap \<Rightarrow> bool" where
  "spares bs sz st p st' \<longleftrightarrow>
     (\<forall>b n. 0 < n \<and> (\<forall>(c, t)\<in>set bs. apart b n c (24 + unat t)) \<longrightarrow>
       agree (ram st) (ram st') b n \<and> (p \<noteq> 0 \<longrightarrow> apart b n (BLOCK_FROM_PTR p) (24 + unat sz)))"

lemma kmalloc_take_safe:
  assumes inv: "heap_inv st bs" and r: "(a, s) \<in> set bs" and room: "unat sz + 24 \<le> unat s"
    and sz8: "8 dvd unat sz"
  shows "\<exists>st' bs'. kmalloc_take a sz st = Some (PTR_FROM_BLOCK a, st') \<and> heap_inv st' bs' \<and>
    kmalloc_ok sz st (PTR_FROM_BLOCK a) st' bs' \<and>
    (aligned bs \<longrightarrow> aligned bs' \<and> 8 dvd unat (PTR_FROM_BLOCK a)) \<and>
    spares bs sz st (PTR_FROM_BLOCK a) st'"
proof -
  obtain xs ys where bs: "bs = xs @ (a, s) # ys" using r by (meson split_list)
  obtain st' where st': "kmalloc_take a sz st = Some (PTR_FROM_BLOCK a, st')"
    "heap_inv st' (xs @ rest_after a s sz @ ys)" "allocated st' (PTR_FROM_BLOCK a) sz"
    "\<forall>b\<in>set (xs @ rest_after a s sz @ ys). blk_apart (a, sz) b"
    "\<And>b n. (\<And>c t. (c, t) \<in> set (xs @ (a, s) # ys) \<Longrightarrow> apart b n c (24 + unat t)) \<Longrightarrow>
       agree (ram st) (ram st') b n"
    "used_memory st' = used_memory st + (sz + HEADER_SIZE)"
    by (rule kmalloc_take_chain[OF inv[unfolded bs] room]) blast
  have within: "blk_within (unat (heap_start st)) (unat (heap_end st)) (a, s)"
    by (rule heap_inv_within[OF inv r])
  have p: "unat (PTR_FROM_BLOCK a) = unat a + 16"
    unfolding PTR_FROM_BLOCK_def HEADER_SIZE_def using within unat_lt_64[of "heap_end st"]
    by (subst unat_add_exact) simp_all
  then have "PTR_FROM_BLOCK a \<noteq> 0" by (metis add_is_0 unat_0 zero_neq_numeral)
  moreover have undo: "BLOCK_FROM_PTR (PTR_FROM_BLOCK a) = a"
    by (simp add: BLOCK_FROM_PTR_def PTR_FROM_BLOCK_def)
  ultimately have ok: "kmalloc_ok sz st (PTR_FROM_BLOCK a) st' (xs @ rest_after a s sz @ ys)"
    using st' p within room by (simp add: kmalloc_ok_def del: blk_apart.simps)
  have al: "aligned (xs @ rest_after a s sz @ ys) \<and> 8 dvd unat (PTR_FROM_BLOCK a)" if "aligned bs"
  proof -
    have "8 dvd unat a" using that r by (auto simp: aligned_def)
    moreover have "8 dvd unat (a + FREE_BLOCK_SIZE + sz)"
      using split_numbers(2)[OF room within unat_lt_64] calculation sz8 by simp
    ultimately show ?thesis
      using that bs p by (auto simp: aligned_def rest_after_def tail_block_def)
  qed
  have "spares bs sz st (PTR_FROM_BLOCK a) st'"
    unfolding spares_def
  proof (intro allI impI conjI)
    fix b n assume far: "0 < n \<and> (\<forall>(c, t)\<in>set bs. apart b n c (24 + unat t))"
    then show "agree (ram st) (ram st') b n" using st'(5) bs by blast
    have "apart b n a (24 + unat s)" using far r by blast
    then show "apart b n (BLOCK_FROM_PTR (PTR_FROM_BLOCK a)) (24 + unat sz)"
      using room unfolding undo by (auto simp: apart_def)
  qed
  then show ?thesis
    using st'(1,2) ok al by (intro exI[of _ st'] exI[of _ "xs @ rest_after a s sz @ ys"]) blast
qed

lemma kmalloc_result:
  assumes inv: "heap_inv st bs" and "sz \<noteq> 0" and "unat sz \<le> 18446744073709551608"
    and "roomy (ALIGN_UP sz MEM_ALIGNMENT) bs"
    and "roomy (ALIGN_UP sz MEM_ALIGNMENT) (coalesce_list bs)"
  shows "\<exists>p st' bs'. kmalloc sz st = Some (p, st') \<and> heap_inv st' bs' \<and>
    (if p = 0 then \<forall>(a, s)\<in>set (coalesce_list bs). s < ALIGN_UP sz MEM_ALIGNMENT
     else kmalloc_ok (ALIGN_UP sz MEM_ALIGNMENT) st p st' bs' \<and>
          (aligned bs \<longrightarrow> aligned bs' \<and> 8 dvd unat p)) \<and>
    spares bs (ALIGN_UP sz MEM_ALIGNMENT) st p st'"
proof -
  define z where "z = ALIGN_UP sz MEM_ALIGNMENT"
  have z8: "8 dvd unat z" by (simp add: z_def ALIGN_UP_8[OF assms(3)])
  have init: "initialized st \<noteq> 0" using inv by (simp add: heap_inv_def)
  have take: "\<exists>st' bs'. kmalloc_take r z u = Some (PTR_FROM_BLOCK r, st') \<and> heap_inv st' bs' \<and>
      kmalloc_ok z u (PTR_FROM_BLOCK r) st' bs' \<and>
      (aligned cs \<longrightarrow> aligned bs' \<and> 8 dvd unat (PTR_FROM_BLOCK r)) \<and>
      spares cs z u (PTR_FROM_BLOCK r) st'"
    if "heap_inv u cs" "roomy z cs" "\<exists>s. (r, s) \<in> set cs \<and> z \<le> s" for u cs r
    using that kmalloc_take_safe[OF that(1) _ _ z8] by (auto simp: roomy_def)
  obtain r where r: "find_best_fit z st = Some (r, st)" "r = 0 \<longleftrightarrow> (\<forall>(a, s)\<in>set bs. s < z)"
    "r \<noteq> 0 \<longrightarrow> (\<exists>s. (r, s) \<in> set bs \<and> z \<le> s)"
    using find_best_fit_result[OF inv, of z] by blast
  note unfold = kmalloc_def z_def[symmetric]
  show ?thesis
  proof (cases "r = 0")
    case False
    have "kmalloc sz st = kmalloc_take r z st"
      using assms(2) init r(1) False by (simp add: unfold)
    moreover have "PTR_FROM_BLOCK r \<noteq> 0" if "kmalloc_ok z st (PTR_FROM_BLOCK r) st' bs'" for st' bs'
      using that by (simp add: kmalloc_ok_def)
    ultimately show ?thesis
      using take[OF inv assms(4)[folded z_def], of r] r(3) False unfolding z_def[symmetric]
      by (auto 4 4)
  next
    case True
    obtain st1 where st1: "coalesce_blocks st = Some st1" "heap_inv st1 (coalesce_list bs)"
      "coalesced st bs st1"
      using coalesce_blocks_chain[OF inv] by blast
    have "st1 = st\<lparr>ram := ram st1, free_memory := free_memory st1\<rparr>"
      using st1(3) unfolding coalesced_def by blast
    then have same: "heap_start st1 = heap_start st" "heap_end st1 = heap_end st"
      "used_memory st1 = used_memory st"
      by (metis kheap.select_convs kheap.surjective kheap.update_convs)+
    have ag1: "agree (ram st) (ram st1) b n"
      if "0 < n" "\<forall>(c, t)\<in>set bs. apart b n c (24 + unat t)" for b n
    proof -
      have "apart b n c 24" if "(c, t) \<in> set bs" for c t
        using \<open>\<forall>(c, t)\<in>set bs. apart b n c (24 + unat t)\<close> that by (fastforce simp: apart_def)
      then show ?thesis using st1(3) unfolding coalesced_def by blast
    qed
    have far: "\<forall>(c, t)\<in>set (coalesce_list bs). apart b n c (24 + unat t)"
      if "0 < n" "\<forall>(c, t)\<in>set bs. apart b n c (24 + unat t)" for b n
      using inv that by (intro coalesce_list_apart[OF _ unat_lt_64]) (auto simp: heap_inv_def)
    obtain r2 where r2: "find_best_fit z st1 = Some (r2, st1)"
      "r2 = 0 \<longleftrightarrow> (\<forall>(a, s)\<in>set (coalesce_list bs). s < z)"
      "r2 \<noteq> 0 \<longrightarrow> (\<exists>s. (r2, s) \<in> set (coalesce_list bs) \<and> z \<le> s)"
      using find_best_fit_result[OF st1(2), of z] by blast
    show ?thesis
    proof (cases "r2 = 0")
      case True
      define st2 where "st2 = log_line (MsgFreeMemory (free_memory st1)) (log_line (MsgOutOfMemory z) st1)"
      have "kmalloc sz st = Some (0, st2)"
        using assms(2) init r(1) \<open>r = 0\<close> st1(1) r2(1) True by (simp add: unfold st2_def)
      moreover have "heap_inv st2 (coalesce_list bs)" "ram st2 = ram st1"
        using st1(2) by (simp_all add: st2_def log_line_def heap_inv_def)
      ultimately show ?thesis
        using r2(2) True ag1 unfolding z_def[symmetric] spares_def by auto
    next
      case False
      have run: "kmalloc sz st = kmalloc_take r2 z st1"
        using assms(2) init r(1) \<open>r = 0\<close> st1(1) r2(1) False by (simp add: unfold)
      obtain st' bs' where t: "kmalloc_take r2 z st1 = Some (PTR_FROM_BLOCK r2, st')" "heap_inv st' bs'"
        "kmalloc_ok z st1 (PTR_FROM_BLOCK r2) st' bs'"
        "aligned (coalesce_list bs) \<longrightarrow> aligned bs' \<and> 8 dvd unat (PTR_FROM_BLOCK r2)"
        "spares (coalesce_list bs) z st1 (PTR_FROM_BLOCK r2) st'"
        using take[OF st1(2) assms(5)[folded z_def], of r2] r2(3) False by blast
      have ok: "kmalloc_ok z st (PTR_FROM_BLOCK r2) st' bs'" "PTR_FROM_BLOCK r2 \<noteq> 0"
        using t(3) same by (simp_all add: kmalloc_ok_def)
      have "spares bs z st (PTR_FROM_BLOCK r2) st'"
        unfolding spares_def
      proof (intro allI impI)
        fix b n assume c: "0 < n \<and> (\<forall>(c, t)\<in>set bs. apart b n c (24 + unat t))"
        then have "agree (ram st1) (ram st') b n \<and>
            apart b n (BLOCK_FROM_PTR (PTR_FROM_BLOCK r2)) (24 + unat z)"
          using t(5) far[of n b] ok(2) unfolding spares_def by simp
        then show "agree (ram st) (ram st') b n \<and> (PTR_FROM_BLOCK r2 \<noteq> 0 \<longrightarrow>
            apart b n (BLOCK_FROM_PTR (PTR_FROM_BLOCK r2)) (24 + unat z))"
          using ag1[of n b] c by (simp add: agree_trans[of "ram st" "ram st1"])
      qed
      then show ?thesis
        using run t(1,2,4) ok coalesce_list_aligned[of bs] unfolding z_def[symmetric]
        by (intro exI[of _ "PTR_FROM_BLOCK r2"] exI[of _ st'] exI[of _ bs']) auto
    qed
  qed
qed

text \<open>
  Property C1. On a well-formed heap, for every request of 1 to \<open>2^64 - 8\<close> bytes that no
  free block fits too tightly (within one header), \<^verbatim>\<open>kmalloc\<close> returns and keeps the free list
  well-formed. Either it answers NULL, and then no block of the coalesced list is large enough;
  or the pointer lies inside the heap behind a valid header, the payload overlaps no free block,
  and it is eight-byte aligned if the free blocks were. In both cases a region that meets no
  free block keeps its contents and does not meet the new block: live allocations stay intact
  and disjoint.
\<close>

theorem kmalloc_safe:
  assumes inv: "heap_inv st bs" and "sz \<noteq> 0" and "unat sz \<le> 18446744073709551608"
    and "roomy (ALIGN_UP sz MEM_ALIGNMENT) bs"
    and "roomy (ALIGN_UP sz MEM_ALIGNMENT) (coalesce_list bs)"
  shows "\<exists>p st' bs'. kmalloc sz st = Some (p, st') \<and> heap_inv st' bs' \<and>
    (if p = 0 then \<forall>(a, s)\<in>set (coalesce_list bs). s < ALIGN_UP sz MEM_ALIGNMENT
     else kmalloc_ok (ALIGN_UP sz MEM_ALIGNMENT) st p st' bs' \<and>
          (aligned bs \<longrightarrow> aligned bs' \<and> 8 dvd unat p)) \<and>
    spares bs (ALIGN_UP sz MEM_ALIGNMENT) st p st'"
  by (rule kmalloc_result[OF assms])

theorem kmalloc_safe_witness:
  "\<exists>p st' bs'. kmalloc 100 fresh_heap = Some (p, st') \<and> heap_inv st' bs' \<and> p \<noteq> 0 \<and> 8 dvd unat p"
proof -
  have z: "ALIGN_UP 100 MEM_ALIGNMENT = 104" by (simp add: ALIGN_UP_def MEM_ALIGNMENT_def)
  have r: "roomy (ALIGN_UP 100 MEM_ALIGNMENT) [(0x80000000, 4072)]"
    and a: "aligned [(0x80000000, 4072)]"
    by (simp_all add: z roomy_def aligned_def)
  from kmalloc_safe[OF fresh_heap_inv, of 100] r a z show ?thesis
    by (auto split: if_splits)
qed

end
