(* ===== verification/Kmem_Free.thy ===== *)
theory Kmem_Free
  imports Kmem_Facts
begin

text \<open>
  \<^verbatim>\<open>kfree\<close>, \<^verbatim>\<open>kcalloc\<close>, \<^verbatim>\<open>krealloc\<close> and the consistency check: the guards that reject a bad
  pointer, the zeroing and copying guarantees, and what the code does at the edges its guards
  do not cover (a block that fits too tightly, a freed header that is read back through the
  other structure, a product that wraps).
\<close>

section \<open>Guards of kfree\<close>

definition valid_header :: "u64 \<Rightarrow> kheap \<Rightarrow> bool" where
  "valid_header p st \<longleftrightarrow>
     heap_start st \<le> BLOCK_FROM_PTR p \<and> BLOCK_FROM_PTR p < heap_end st \<and>
     hdr_magic (ram st) (BLOCK_FROM_PTR p) = BLOCK_MAGIC \<and> hdr_used (ram st) (BLOCK_FROM_PTR p) \<noteq> 0"

text \<open>
  \<^verbatim>\<open>kfree\<close> of NULL or before initialisation does nothing; of a pointer whose header
  lies outside the heap, has the wrong magic byte or is already free, it prints exactly one
  diagnostic and leaves the heap, its memory and its counters as they are.
\<close>

theorem kfree_rejects:
  assumes "\<not> (p \<noteq> 0 \<and> initialized st \<noteq> 0 \<and> valid_header p st)"
  shows "kfree p st = Some
    (if p = 0 \<or> initialized st = 0 then st
     else st\<lparr>klog := klog st @
       [if BLOCK_FROM_PTR p < heap_start st \<or> heap_end st \<le> BLOCK_FROM_PTR p then MsgOutsideHeap p
        else if hdr_magic (ram st) (BLOCK_FROM_PTR p) \<noteq> BLOCK_MAGIC then MsgCorruptHeader p
        else MsgDoubleFree p]\<rparr>)"
  using assms by (auto simp: kfree_def valid_header_def log_line_def Let_def not_le not_less)

theorem kfree_rejects_witness:
  "kfree 0x1000 fresh_heap = Some (fresh_heap\<lparr>klog := klog fresh_heap @ [MsgOutsideHeap 0x1000]\<rparr>)"
proof -
  have init: "initialized fresh_heap \<noteq> 0" using fresh_heap_inv by (simp add: heap_inv_def)
  have "ALIGN_UP 0x80000000 MEM_ALIGNMENT = 0x80000000" by (simp add: ALIGN_UP_def MEM_ALIGNMENT_def)
  then have lo: "BLOCK_FROM_PTR 0x1000 < heap_start fresh_heap"
    using memory_init_inv(4)[of "boot (\<lambda>_. 0)" "0x80000000" "0x80001000"]
    by (simp add: fresh_heap_def boot_def BLOCK_FROM_PTR_def HEADER_SIZE_def)
  then have "\<not> (0x1000 \<noteq> (0::u64) \<and> initialized fresh_heap \<noteq> 0 \<and> valid_header 0x1000 fresh_heap)"
    by (simp add: valid_header_def not_le)
  from kfree_rejects[OF this] init lo show ?thesis by simp
qed

section \<open>The header is read back as the other structure\<close>

lemma le64_low16: "le64 b0 b1 b2 b3 b4 b5 b6 b7 AND 0xFFFF = ucast b0 OR push_bit 8 (ucast b1)"
proof -
  have low: "x AND 0xFFFF = take_bit 16 x" for x :: u64
    by (simp add: take_bit_eq_mask mask_eq_exp_minus_1)
  have byte: "take_bit n (ucast b :: u64) = ucast b" if "8 \<le> n" for n and b :: u8
    using that bit_imp_le_length[of b]
    by (fastforce intro!: bit_eqI simp: bit_take_bit_iff bit_ucast_iff)
  show ?thesis by (simp add: low le64_def take_bit_push_bit byte)
qed

text \<open>What \<^verbatim>\<open>kfree\<close> has done when it calls \<^verbatim>\<open>coalesce_blocks\<close>.\<close>

lemma kfree_pushes_header:
  assumes "p \<noteq> 0" and "initialized st \<noteq> 0" and "valid_header p st"
    and "unat (BLOCK_FROM_PTR p) + 24 \<le> 18446744073709551616"
  shows "\<exists>st1. kfree p st = coalesce_blocks st1 \<and> free_list st1 = BLOCK_FROM_PTR p \<and>
    blk_next (ram st1) (BLOCK_FROM_PTR p) = free_list st \<and>
    blk_size (ram st1) (BLOCK_FROM_PTR p) AND 0xFFFF = 0xAB \<and>
    load8 (ram st1) p = BLOCK_MAGIC \<and>
    used_memory st1 = used_memory st - (free_list st + HEADER_SIZE) \<and>
    free_memory st1 = free_memory st + (free_list st + HEADER_SIZE)"
proof -
  define b where "b = BLOCK_FROM_PTR p"
  note off = unat_offsets[OF assms(4)[folded b_def]]
  have off9: "b + 8 + 1 = b + 9" by simp
  define m where "m = set_next b (free_list st) (set_magic b BLOCK_MAGIC (set_hdr_used b 0 (ram st)))"
  define st1 where "st1 = st\<lparr>ram := m, free_list := b,
    used_memory := used_memory st - (hdr_size m b + HEADER_SIZE),
    free_memory := free_memory st + (hdr_size m b + HEADER_SIZE), free_count := free_count st + 1\<rparr>"
  have g: "\<not> b < heap_start st" "\<not> heap_end st \<le> b" "hdr_magic (ram st) b = BLOCK_MAGIC"
    "hdr_used (ram st) b \<noteq> 0"
    using assms(3) by (auto simp: valid_header_def b_def)
  have run: "kfree p st = coalesce_blocks st1"
    using assms(1,2) g[unfolded b_def]
    by (simp add: kfree_def Let_def upd_ram_def add_to_free_list_def st1_def m_def
        b_def)
  have next_m: "blk_next m b = free_list st"
    using same_header(1)[OF assms(4)[folded b_def]] by (simp add: m_def)
  then have hdr: "hdr_size m b = free_list st" by (simp add: hdr_size_def blk_next_def)
  have p: "b + 16 = p" by (simp add: b_def BLOCK_FROM_PTR_def HEADER_SIZE_def)
  have mag: "load8 m p = BLOCK_MAGIC"
    using same_header(7,9)[OF assms(4)[folded b_def]] p by (simp add: m_def blk_magic_def)
  have m8: "m (b + 8) = BLOCK_MAGIC" and m9: "m (b + 9) = 0"
    using assms(3) off w64.wr_outside[of _ b] w8.wr_outside[of _ "b + 16"] w8.wr_outside[of _ "b + 9"]
      assms(4)[folded b_def]
    by (simp_all add: m_def set_next_def set_magic_def set_hdr_used_def valid_header_def hdr_magic_def
        load8_def store8_def apart_def flip: b_def)
  have "blk_size m b AND 0xFFFF = ucast BLOCK_MAGIC OR push_bit 8 (ucast (0 :: u8))"
    unfolding blk_size_def load64_def le64_low16 off9 m8 m9 by (rule refl)
  then have "blk_size m b AND 0xFFFF = 0xAB" by (simp add: BLOCK_MAGIC_def)
  then show ?thesis
    using run next_m mag by (intro exI[of _ st1]) (simp add: st1_def hdr[unfolded b_def] b_def)
qed

text \<open>
  Property C21. Every \<^verbatim>\<open>kfree\<close> that passes the guards loses the size of the block: the allocated
  header keeps it at offset 0, the free block expects it at offset 8, and nothing moves it. The
  size the free list sees ends in the bytes \<^verbatim>\<open>00 AB\<close> (the cleared \<^verbatim>\<open>used\<close> flag and the magic
  byte), the first payload byte becomes the magic byte, and the counters move by the old list
  head plus 16 instead of by the size of the block.
\<close>

theorem kfree_loses_size:
  assumes "p \<noteq> 0" and "initialized st \<noteq> 0" and "valid_header p st"
    and "unat (BLOCK_FROM_PTR p) + 24 \<le> 18446744073709551616"
  shows "\<exists>st1. kfree p st = coalesce_blocks st1 \<and> free_list st1 = BLOCK_FROM_PTR p \<and>
    blk_next (ram st1) (BLOCK_FROM_PTR p) = free_list st \<and>
    blk_size (ram st1) (BLOCK_FROM_PTR p) AND 0xFFFF = 0xAB \<and>
    load8 (ram st1) p = BLOCK_MAGIC \<and>
    used_memory st1 = used_memory st - (free_list st + HEADER_SIZE) \<and>
    free_memory st1 = free_memory st + (free_list st + HEADER_SIZE)"
  by (rule kfree_pushes_header[OF assms])

text \<open>An allocated block at \<open>0x80000100\<close>, for the closed examples.\<close>

definition one_block :: kheap where
  "one_block = fresh_heap\<lparr>ram := set_hdr_used 0x80000100 1
     (set_hdr_magic 0x80000100 BLOCK_MAGIC (set_hdr_size 0x80000100 64 (ram fresh_heap)))\<rparr>"

lemma fresh_heap_bounds:
  "heap_start fresh_heap = 0x80000000" "heap_end fresh_heap = 0x80001000"
  "initialized fresh_heap \<noteq> 0" "free_list fresh_heap = 0x80000000"
  using memory_init_inv(4,5,9)[of "boot (\<lambda>_. 0)" "0x80000000" "0x80001000"] fresh_heap_inv
  by (simp_all add: fresh_heap_def boot_def ALIGN_UP_def ALIGN_DOWN_def MEM_ALIGNMENT_def heap_inv_def)

lemma one_block_valid: "valid_header 0x80000110 one_block"
  using fresh_heap_bounds
  by (simp add: valid_header_def one_block_def BLOCK_FROM_PTR_def HEADER_SIZE_def hdr_magic_def hdr_used_def
      set_hdr_used_def set_hdr_magic_def load8_def store8_def)

theorem kfree_loses_size_witness:
  "hdr_size (ram one_block) 0x80000100 = 64 \<and>
   (\<exists>st1. kfree 0x80000110 one_block = coalesce_blocks st1 \<and>
     blk_size (ram st1) 0x80000100 AND 0xFFFF = 0xAB)"
proof
  show "hdr_size (ram one_block) 0x80000100 = 64"
    by (simp add: one_block_def hdr_size_def set_hdr_size_def set_hdr_used_def set_hdr_magic_def
        mem_laws apart_def)
  have "initialized one_block \<noteq> 0" using fresh_heap_bounds by (simp add: one_block_def)
  then show "\<exists>st1. kfree 0x80000110 one_block = coalesce_blocks st1 \<and>
     blk_size (ram st1) 0x80000100 AND 0xFFFF = 0xAB"
    using kfree_loses_size[OF _ _ one_block_valid] by (auto simp: BLOCK_FROM_PTR_def HEADER_SIZE_def)
qed

section \<open>kcalloc\<close>

lemma payload_apart:
  assumes "kmalloc_ok z st p st' bs'" and "heap_inv st' bs'" and "n \<le> unat z"
    and "(c, t) \<in> set bs'"
  shows "apart c 24 p n"
proof -
  have b: "unat (BLOCK_FROM_PTR p) = unat p - 16"
    unfolding BLOCK_FROM_PTR_def HEADER_SIZE_def using assms(1)
    by (subst unat_diff_exact) (auto simp: kmalloc_ok_def)
  have "blk_apart (BLOCK_FROM_PTR p, z) (c, t)" using assms(1,4) by (auto simp: kmalloc_ok_def)
  moreover have "blk_within (unat (heap_start st')) (unat (heap_end st')) (c, t)"
    by (rule heap_inv_within[OF assms(2,4)])
  ultimately show ?thesis
    using assms(1,3) b unat_lt_64[of "heap_end st'"] unat_lt_64[of "heap_end st"]
    by (auto simp: apart_def kmalloc_ok_def)
qed

lemma payload_write:
  assumes "kmalloc_ok z st p st' bs'" and "heap_inv st' bs'" and "n \<le> unat z"
    and "\<And>b k. apart b k p n \<Longrightarrow> agree (ram st') m b k"
  shows "heap_inv (st'\<lparr>ram := m\<rparr>) bs'" and "allocated (st'\<lparr>ram := m\<rparr>) p z"
proof -
  have ag: "agree (ram st') m c 24" if "(c, t) \<in> set bs'" for c t
    by (rule assms(4)) (rule payload_apart[OF assms(1-3) that])
  show "heap_inv (st'\<lparr>ram := m\<rparr>) bs'"
    using assms(2) chain_frame[OF ag] by (auto simp: heap_inv_def)
  have p: "16 \<le> unat p" "unat p + unat z < 18446744073709551616"
    using assms(1) unat_lt_64[of "heap_end st"] by (auto simp: kmalloc_ok_def)
  then have b: "unat (BLOCK_FROM_PTR p) = unat p - 16"
    unfolding BLOCK_FROM_PTR_def HEADER_SIZE_def by (subst unat_diff_exact) auto
  have hdr: "agree (ram st') m (BLOCK_FROM_PTR p) 16"
    using assms(3) b p by (intro assms(4)) (auto simp: apart_def)
  note sub = agree_sub[OF hdr]
  show "allocated (st'\<lparr>ram := m\<rparr>) p z"
    using assms(1) load64_cong[OF agree_mono[OF hdr, of 8]] w8.rd_cong[OF sub[of 8 1]]
      w8.rd_cong[OF sub[of 9 1]]
    by (simp add: kmalloc_ok_def allocated_def hdr_size_def hdr_magic_def hdr_used_def)
qed

text \<open>
  When \<open>num * size\<close> does not overflow and fits as in \<^verbatim>\<open>kmalloc\<close>'s theorem,
  \<^verbatim>\<open>kcalloc\<close> returns, keeps the free list well-formed, and a non-NULL result is an allocated
  block whose first \<open>num * size\<close> bytes are all zero.
\<close>

theorem kcalloc_zeroes:
  assumes inv: "heap_inv st bs" and "num * sz \<noteq> 0"
    and "unat num * unat sz \<le> 18446744073709551608"
    and "roomy (ALIGN_UP (num * sz) MEM_ALIGNMENT) bs"
    and "roomy (ALIGN_UP (num * sz) MEM_ALIGNMENT) (coalesce_list bs)"
  shows "\<exists>p st' bs'. kcalloc num sz st = Some (p, st') \<and> heap_inv st' bs' \<and>
    (p \<noteq> 0 \<longrightarrow> allocated st' p (ALIGN_UP (num * sz) MEM_ALIGNMENT) \<and>
       (\<forall>k<unat num * unat sz. ram st' (p + of_nat k) = 0))"
proof -
  have n: "unat (num * sz) = unat num * unat sz" using assms(3) by (simp add: unat_word_ariths)
  obtain p st1 bs' where k: "kmalloc (num * sz) st = Some (p, st1)" "heap_inv st1 bs'"
    "p \<noteq> 0 \<longrightarrow> kmalloc_ok (ALIGN_UP (num * sz) MEM_ALIGNMENT) st p st1 bs'"
    using kmalloc_result[OF inv assms(2) _ assms(4,5)] assms(3) n by (auto split: if_splits)
  show ?thesis
  proof (cases "p = 0")
    case True
    then show ?thesis using k by (auto simp: kcalloc_def)
  next
    case False
    define m where "m = memset (ram st1) p 0 (unat (num * sz))"
    have ok: "kmalloc_ok (ALIGN_UP (num * sz) MEM_ALIGNMENT) st p st1 bs'" using k(3) False by simp
    have le: "unat (num * sz) \<le> unat (ALIGN_UP (num * sz) MEM_ALIGNMENT)"
      using assms(3) n by (subst ALIGN_UP_8) auto
    have "heap_inv (st1\<lparr>ram := m\<rparr>) bs'" "allocated (st1\<lparr>ram := m\<rparr>) p (ALIGN_UP (num * sz) MEM_ALIGNMENT)"
      using payload_write[OF ok k(2) le, of m] memset_agree unfolding m_def by auto
    moreover have "m (p + of_nat i) = 0" if "i < unat num * unat sz" for i
      unfolding m_def using that le ok n unat_lt_64[of "heap_end st"]
      by (intro memset_reads) (auto simp: kmalloc_ok_def)
    moreover have "kcalloc num sz st = Some (p, st1\<lparr>ram := m\<rparr>)"
      using k(1) False by (simp add: kcalloc_def m_def upd_ram_def)
    ultimately show ?thesis by auto
  qed
qed

lemma fresh_heap_roomy:
  assumes "unat sz \<le> 4000"
  shows "roomy (ALIGN_UP sz MEM_ALIGNMENT) [(0x80000000, 4072)]"
    and "\<not> 4072 < ALIGN_UP sz MEM_ALIGNMENT"
proof -
  have z: "unat (ALIGN_UP sz MEM_ALIGNMENT) \<le> 4008" using assms by (subst ALIGN_UP_8) auto
  have "unat (4072 :: u64) = 4072" by simp
  then show "roomy (ALIGN_UP sz MEM_ALIGNMENT) [(0x80000000, 4072)]"
    and "\<not> 4072 < ALIGN_UP sz MEM_ALIGNMENT"
    using z by (simp_all add: roomy_def word_less_nat_alt)
qed

theorem kcalloc_zeroes_witness:
  "\<exists>p st' bs'. kcalloc 4 8 fresh_heap = Some (p, st') \<and> heap_inv st' bs' \<and>
     (p \<noteq> 0 \<longrightarrow> (\<forall>k<32. ram st' (p + of_nat k) = 0))"
  using kcalloc_zeroes[OF fresh_heap_inv, of 4 8] fresh_heap_roomy(1)[of 32] by auto

text \<open>
  \<^verbatim>\<open>kcalloc\<close> does not check the product: asked for \<open>2^61 + 1\<close> elements of eight
  bytes on a fresh 4 KiB heap it succeeds, with a block of eight bytes.
\<close>

theorem kcalloc_overflow_unchecked:
  "\<exists>p st'. kcalloc 0x2000000000000001 8 fresh_heap = Some (p, st') \<and> p \<noteq> 0 \<and> allocated st' p 8"
proof -
  have z: "ALIGN_UP 8 MEM_ALIGNMENT = 8" by (simp add: ALIGN_UP_def MEM_ALIGNMENT_def)
  obtain p st1 bs' where k: "kmalloc 8 fresh_heap = Some (p, st1)" "heap_inv st1 bs'" "p \<noteq> 0"
    "kmalloc_ok 8 fresh_heap p st1 bs'"
    using kmalloc_result[OF fresh_heap_inv, of 8] fresh_heap_roomy[of 8] z by (auto split: if_splits)
  have "allocated (st1\<lparr>ram := memset (ram st1) p 0 8\<rparr>) p 8"
    using payload_write(2)[OF k(4,2), of 8 "memset (ram st1) p 0 8"] memset_agree by auto
  moreover have "kcalloc 0x2000000000000001 8 fresh_heap = Some (p, st1\<lparr>ram := memset (ram st1) p 0 8\<rparr>)"
  proof -
    have wrap: "(0x2000000000000001 :: u64) * 8 = 8" by simp
    show ?thesis unfolding kcalloc_def wrap Let_def using k(1,3) by (simp add: upd_ram_def)
  qed
  ultimately show ?thesis using k(3) by blast
qed

section \<open>krealloc\<close>

text \<open>
  Property C22. Growing a block on a well-formed heap, from a size above 0 to at most 2^64 - 8 bytes, when
  the live block (header and payload) meets no free block, and when every free block that is large
  enough for the request is so by at least the 24 bytes of a header, in the list as it is and in the list
  after merging: \<^verbatim>\<open>krealloc\<close> either answers NULL and leaves the old
  contents in place, or it hands the old block to \<^verbatim>\<open>kfree\<close> in a state where the new block holds a copy
  of all old bytes and is large enough for the request.
\<close>

theorem krealloc_copies:
  assumes inv: "heap_inv st bs" and "p \<noteq> 0" and "16 \<le> unat p"
    and old: "old = hdr_size (ram st) (BLOCK_FROM_PTR p)" "0 < old" "old < sz"
    and "unat sz \<le> 18446744073709551608"
    and "roomy (ALIGN_UP sz MEM_ALIGNMENT) bs"
    and "roomy (ALIGN_UP sz MEM_ALIGNMENT) (coalesce_list bs)"
    and live: "\<forall>(c, t)\<in>set bs. apart (BLOCK_FROM_PTR p) (16 + unat old) c (24 + unat t)"
  shows "\<exists>q st1. agree (ram st) (ram st1) p (unat old) \<and>
    (if q = 0 then krealloc p sz st = Some (0, st1)
     else krealloc p sz st = kfree p st1 \<bind> (\<lambda>st2. Some (q, st2)) \<and>
       allocated st1 q (ALIGN_UP sz MEM_ALIGNMENT) \<and> sz \<le> ALIGN_UP sz MEM_ALIGNMENT \<and>
       (\<forall>k<unat old. ram st1 (q + of_nat k) = ram st (p + of_nat k)))"
proof -
  define z where "z = ALIGN_UP sz MEM_ALIGNMENT"
  define b where "b = BLOCK_FROM_PTR p"
  have le: "unat sz \<le> unat z" using assms(7) unfolding z_def by (subst ALIGN_UP_8) auto
  have bp: "b + 16 = p" "unat b = unat p - 16"
    unfolding b_def BLOCK_FROM_PTR_def HEADER_SIZE_def using assms(3)
    by (simp, subst unat_diff_exact) auto
  have os: "unat old < unat sz" "0 < unat old" using old by (simp_all add: word_less_nat_alt unat_gt_0)
  then have "sz \<noteq> 0" by auto
  then obtain q st1 bs' where k: "kmalloc sz st = Some (q, st1)" "heap_inv st1 bs'"
    "q \<noteq> 0 \<longrightarrow> kmalloc_ok z st q st1 bs'" "spares bs z st q st1"
    using kmalloc_result[OF inv _ assms(7-9)] unfolding z_def[symmetric] by (auto split: if_splits)
  have sp: "agree (ram st) (ram st1) b (16 + unat old)" "q \<noteq> 0 \<longrightarrow> apart b (16 + unat old) (BLOCK_FROM_PTR q) (24 + unat z)"
    using k(4) live unfolding spares_def b_def by auto
  have pay: "agree (ram st) (ram st1) p (unat old)"
    using agree_sub[OF sp(1), of 16 "unat old"] bp by simp
  have hs: "hdr_size (ram st1) b = old"
    unfolding old b_def[symmetric] hdr_size_def
    by (rule load64_cong) (rule agree_mono[OF sp(1)], simp)
  show ?thesis
  proof (cases "q = 0")
    case True
    then show ?thesis
      using k(1) pay old assms(2) \<open>sz \<noteq> 0\<close>
      by (intro exI[of _ 0] exI[of _ st1]) (simp add: krealloc_def not_le)
  next
    case False
    have ok: "kmalloc_ok z st q st1 bs'" using k(3) False by simp
    have q: "16 \<le> unat q" "unat q + unat z < 18446744073709551616"
      using ok unat_lt_64[of "heap_end st"] by (auto simp: kmalloc_ok_def)
    then have bq: "unat (BLOCK_FROM_PTR q) = unat q - 16"
      unfolding BLOCK_FROM_PTR_def HEADER_SIZE_def by (subst unat_diff_exact) auto
    have ap: "apart q (unat old) p (unat old)" "apart p (unat old) q (unat old)"
      using sp(2) False bq q bp os le assms(3) by (auto simp: apart_def)
    define m where "m = memcpy (ram st1) q p (unat old)"
    have run: "krealloc p sz st = kfree p (st1\<lparr>ram := m\<rparr>) \<bind> (\<lambda>st2. Some (q, st2))"
      using k(1) False old(1) assms(2) \<open>sz \<noteq> 0\<close> hs old(3)
      by (auto simp add: krealloc_def upd_ram_def m_def b_def[symmetric])
    have "allocated (st1\<lparr>ram := m\<rparr>) q z"
      using payload_write(2)[OF ok k(2), of "unat old" m] memcpy_agree os le unfolding m_def by auto
    moreover have "m (q + of_nat i) = ram st (p + of_nat i)" if "i < unat old" for i
      unfolding m_def memcpy_reads[OF ap(1) that] by (rule agree_nth[OF pay that])
    moreover have "agree (ram st) m p (unat old)"
      using pay memcpy_agree[OF ap(2)] unfolding m_def by (blast intro: agree_trans)
    ultimately show ?thesis
      using run False le unfolding z_def[symmetric]
      by (intro exI[of _ q] exI[of _ "st1\<lparr>ram := m\<rparr>"]) (simp add: word_le_nat_alt)
  qed
qed

text \<open>A heap with one live block of 64 bytes, as \<^verbatim>\<open>kmalloc(64)\<close> leaves it.\<close>

lemma fresh_heap_kmalloc_64:
  "\<exists>st. kmalloc 64 fresh_heap = Some (0x80000010, st) \<and> heap_inv st [(0x80000058, 3984)] \<and>
     allocated st 0x80000010 64"
proof -
  have z: "ALIGN_UP 64 MEM_ALIGNMENT = 64" by (simp add: ALIGN_UP_def MEM_ALIGNMENT_def)
  have fit: "find_best_fit 64 fresh_heap = Some (0x80000000, fresh_heap)"
    using find_best_fit_result[OF fresh_heap_inv, of 64] by auto
  have rest: "rest_after 0x80000000 4072 64 = [(0x80000058, 3984)]"
    by (simp add: rest_after_def splits_def tail_block_def MIN_BLOCK_SIZE_def FREE_BLOCK_SIZE_def)
  have inv: "heap_inv fresh_heap ([] @ [(0x80000000, 4072)])" using fresh_heap_inv by simp
  have room: "unat (64 :: u64) + 24 \<le> unat (4072 :: u64)" by simp
  obtain st where
    "kmalloc_take 0x80000000 64 fresh_heap = Some (PTR_FROM_BLOCK 0x80000000, st)"
    "heap_inv st ([] @ rest_after 0x80000000 4072 64 @ [])" "allocated st (PTR_FROM_BLOCK 0x80000000) 64"
    by (rule kmalloc_take_chain[OF inv room]) blast
  then show ?thesis
    using fit z fresh_heap_bounds rest
    by (auto simp: kmalloc_def PTR_FROM_BLOCK_def HEADER_SIZE_def)
qed

theorem krealloc_copies_witness:
  "\<exists>st q st1. kmalloc 64 fresh_heap = Some (0x80000010, st) \<and>
     (q \<noteq> 0 \<longrightarrow> krealloc 0x80000010 200 st = kfree 0x80000010 st1 \<bind> (\<lambda>st2. Some (q, st2)) \<and>
       (\<forall>k<64. ram st1 (q + of_nat k) = ram st (0x80000010 + of_nat k)))"
proof -
  obtain st where st: "kmalloc 64 fresh_heap = Some (0x80000010, st)"
    "heap_inv st [(0x80000058, 3984)]" "allocated st 0x80000010 64"
    using fresh_heap_kmalloc_64 by blast
  have z: "ALIGN_UP 200 MEM_ALIGNMENT = 200" by (simp add: ALIGN_UP_def MEM_ALIGNMENT_def)
  have b: "BLOCK_FROM_PTR 0x80000010 = 0x80000000" by (simp add: BLOCK_FROM_PTR_def HEADER_SIZE_def)
  have hs: "64 = hdr_size (ram st) (BLOCK_FROM_PTR 0x80000010)" using st(3) by (simp add: allocated_def)
  have far: "\<forall>(c, t)\<in>set [(0x80000058, 3984)].
      apart (BLOCK_FROM_PTR 0x80000010) (16 + unat (64 :: u64)) c (24 + unat (t :: u64))"
    by (simp add: b apart_def)
  have r: "roomy (ALIGN_UP 200 MEM_ALIGNMENT) [(0x80000058, 3984)]"
    "roomy (ALIGN_UP 200 MEM_ALIGNMENT) (coalesce_list [(0x80000058, 3984)])"
    by (simp_all add: z roomy_def)
  have n: "(0x80000010 :: u64) \<noteq> 0" "16 \<le> unat (0x80000010 :: u64)" "(0 :: u64) < 64" "(64 :: u64) < 200"
    "unat (200 :: u64) \<le> 18446744073709551608" "unat (64 :: u64) = 64"
    by simp_all
  show ?thesis
    using krealloc_copies[OF st(2) n(1,2) hs n(3-5) r far] st(1) unfolding n(6) by metis
qed

section \<open>Where the guards end\<close>

text \<open>
  When a block's payload is at least the request but less than the request plus a
  header, \<^verbatim>\<open>split_block\<close> computes its remainder below zero: instead of keeping the block whole
  it links a free block that starts at \<open>block + 24 + size\<close>, reaches past the block's end and
  claims more than \<open>2^64 - 25\<close> bytes.
\<close>

theorem split_block_tight:
  assumes "unat sz \<le> unat (blk_size (ram st) a)" and "unat (blk_size (ram st) a) < unat sz + 24"
    and "unat a + unat sz + 48 \<le> 18446744073709551616"
  defines "nb \<equiv> a + FREE_BLOCK_SIZE + sz" and "st' \<equiv> split_block a sz st"
  shows "blk_next (ram st') a = nb \<and> blk_magic (ram st') nb = BLOCK_MAGIC \<and>
    unat a + 24 + unat (blk_size (ram st) a) < unat nb + 24 \<and>
    18446744073709551592 \<le> unat (blk_size (ram st') nb)"
proof -
  define s rem where "s = blk_size (ram st) a" and "rem = s - sz - FREE_BLOCK_SIZE"
  have d: "unat (s - sz) = unat s - unat sz" using assms(1) s_def by (intro unat_diff_exact) simp
  have rem: "18446744073709551592 \<le> unat rem"
    unfolding rem_def FREE_BLOCK_SIZE_def using assms(1,2) d s_def by (subst unat_diff_wrap) simp_all
  then have go: "\<not> rem < MIN_BLOCK_SIZE"
    by (simp add: MIN_BLOCK_SIZE_def FREE_BLOCK_SIZE_def word_less_nat_alt)
  have nb: "unat nb = unat a + 24 + unat sz"
  proof -
    have "unat (a + FREE_BLOCK_SIZE) = unat a + 24"
      using assms(3) by (subst unat_add_exact) (simp_all add: FREE_BLOCK_SIZE_def)
    then show ?thesis unfolding nb_def using assms(3) by (subst unat_add_exact) simp_all
  qed
  have ap: "apart nb 24 a 24" and a24: "unat a + 24 \<le> 18446744073709551616"
    and n24: "unat nb + 24 \<le> 18446744073709551616"
    using nb assms(3) by (simp_all add: apart_def)
  define m1 where "m1 = set_next nb (blk_next (set_magic nb BLOCK_MAGIC (set_size nb rem (ram st))) a)
    (set_magic nb BLOCK_MAGIC (set_size nb rem (ram st)))"
  have st': "ram st' = set_next a nb (set_size a sz m1)"
    using go unfolding st'_def split_block_def s_def[symmetric] rem_def[symmetric] nb_def m1_def
    by (simp add: Let_def upd_ram_def)
  have "agree m1 (ram st') nb 24"
    unfolding st' by (rule agree_trans[OF header_writes_agree(2)[OF ap] header_writes_agree(1)[OF ap]])
  note c = fields_cong[OF this]
  show ?thesis
    unfolding c(2,3) unfolding st' s_def[symmetric] using same_header[OF a24] same_header[OF n24] rem nb assms(1,2)
    by (simp add: m1_def s_def)
qed

theorem split_block_tight_witness:
  "free_list (fresh_heap) = 0x80000000 \<and> blk_size (ram fresh_heap) 0x80000000 = 4072 \<and>
   blk_next (ram (split_block 0x80000000 4072 fresh_heap)) 0x80000000 = heap_end fresh_heap"
proof -
  have s: "blk_size (ram fresh_heap) 0x80000000 = 4072" using fresh_heap_inv by (simp add: heap_inv_def)
  then show ?thesis
    using split_block_tight[of 4072 fresh_heap "0x80000000"] fresh_heap_bounds
    by (simp add: FREE_BLOCK_SIZE_def)
qed

text \<open>
  A request within seven bytes of \<open>2^64\<close> is rounded up to zero: instead of failing,
  \<^verbatim>\<open>kmalloc\<close> hands out a block recorded as zero bytes long.
\<close>

theorem kmalloc_huge_request:
  assumes "heap_inv st bs" and "bs \<noteq> []" and "\<forall>(a, s)\<in>set bs. 24 \<le> unat s"
    and "18446744073709551608 < unat sz"
  shows "\<exists>p st'. kmalloc sz st = Some (p, st') \<and> p \<noteq> 0 \<and> allocated st' p 0"
proof -
  have "unat (sz + 7) = unat sz + 7 - 18446744073709551616"
    using assms(4) unat_lt_64[of sz] by (simp add: unat_plus_if')
  then have "unat (ALIGN_UP sz MEM_ALIGNMENT) = 0"
    using unat_lt_64[of sz] by (simp add: ALIGN_UP_def MEM_ALIGNMENT_def unat_and_not7)
  then have z: "ALIGN_UP sz MEM_ALIGNMENT = 0" by (simp add: unat_eq_0)
  obtain r s where r: "find_best_fit 0 st = Some (r, st)" "r \<noteq> 0" "(r, s) \<in> set bs"
  proof -
    obtain a s where "(a, s) \<in> set bs"
      using assms(2) by (metis list.set_intros(1) neq_Nil_conv surj_pair)
    then have "\<not> (\<forall>(a, s)\<in>set bs. s < 0)" by (auto dest!: bspec)
    then show thesis using find_best_fit_result[OF assms(1), of 0] that by blast
  qed
  have "kmalloc sz st = kmalloc_take r 0 st"
    using r assms(1,4) z by (auto simp: kmalloc_def heap_inv_def)
  moreover have "unat (0 :: u64) + 24 \<le> unat s" using assms(3) r(3) by auto
  from kmalloc_take_safe[OF assms(1) r(3) this] obtain st' bs' where
    "kmalloc_take r 0 st = Some (PTR_FROM_BLOCK r, st')" "kmalloc_ok 0 st (PTR_FROM_BLOCK r) st' bs'"
    by auto
  ultimately show ?thesis by (auto simp: kmalloc_ok_def)
qed

theorem kmalloc_huge_request_witness:
  "\<exists>p st'. kmalloc 0xFFFFFFFFFFFFFFFF fresh_heap = Some (p, st') \<and> p \<noteq> 0 \<and> allocated st' p 0"
  by (rule kmalloc_huge_request[OF fresh_heap_inv]) simp_all

section \<open>memory_integrity_check\<close>

text \<open>
  On a heap that has just been initialised and is intact, \<^verbatim>\<open>memory_integrity_check\<close>
  reports a free-memory mismatch and an inconsistency: the check counts the header of the first
  block as free, \<^verbatim>\<open>memory_init\<close> does not.
\<close>

theorem memory_integrity_check_false_alarm:
  assumes "initialized st = 0" and "unat s0 \<le> 18446744073709551608"
    and "0 < unat s0" and "unat s0 + 32 \<le> unat e0"
  defines "st0 \<equiv> memory_init s0 e0 st"
  shows "memory_integrity_check st0 = Some (st0\<lparr>klog := klog st0 @
    [MsgCheckStart, MsgFreeMismatch (total_memory st0) (total_memory st0 - FREE_BLOCK_SIZE),
     MsgInconsistent, MsgCheckSummary 1 (total_memory st0)]\<rparr>)"
proof -
  note i = memory_init_inv[OF assms(1-4), folded st0_def]
  define T where "T = total_memory st0"
  define a where "a = ALIGN_UP s0 MEM_ALIGNMENT"
  have free: "free_memory st0 = T - FREE_BLOCK_SIZE" and used: "used_memory st0 = 0"
    and fl: "free_list st0 = a"
    using i unfolding T_def a_def by simp_all
  have chain: "a \<noteq> 0" "blk_size (ram st0) a = T - FREE_BLOCK_SIZE" "blk_magic (ram st0) a = BLOCK_MAGIC"
    "blk_next (ram st0) a = 0"
    using i(1,6) fl unfolding T_def by (auto simp: heap_inv_def a_def)
  have ne: "T - FREE_BLOCK_SIZE \<noteq> T" by (simp add: FREE_BLOCK_SIZE_def)
  define st1 where "st1 = log_line MsgCheckStart st0"
  have "integrity_loop a 0 0 st1 = Some (T, 1, st1)"
    using chain by (simp add: integrity_loop.simps[of a] integrity_loop.simps[of 0] check_ok Let_def
        st1_def log_line_def)
  then show ?thesis
    using free used fl ne
    by (simp add: memory_integrity_check_def st1_def log_line_def Let_def flip: T_def)
qed

theorem memory_integrity_check_false_alarm_witness:
  "\<exists>st. memory_integrity_check (memory_init 0x80000000 0x80001000 (boot (\<lambda>_. 0))) = Some st \<and>
     MsgInconsistent \<in> set (klog st)"
  using memory_integrity_check_false_alarm[of "boot (\<lambda>_. 0)" "0x80000000" "0x80001000"]
  by (simp add: boot_def)

end
