(* ===== verification/Kmem_Tests.thy ===== *)
theory Kmem_Tests
  imports Kmem_Free
begin

text \<open>
  The self tests of \<^verbatim>\<open>lab3-1-sparrowos-memory-module/src/memory_test.c\<close> and the kernel entry point
  \<^verbatim>\<open>kernel/main.c\<close>, as programs over the allocator of \<open>Kmem\<close>. A test returns 0 or -1 with the heap
  it leaves; \<open>None\<close> is an allocator loop that does not end. Whether \<^verbatim>\<open>char\<close> is signed is a
  parameter (C leaves it to the compiler), and so are the values of \<^verbatim>\<open>rand\<close>. The lines the tests
  print are left out.
\<close>

section \<open>What the tests use of the C library\<close>

definition char_value :: "bool \<Rightarrow> u8 \<Rightarrow> int" where
  "char_value sgn_char b = (if sgn_char then sint b else uint b)"

definition all_chars :: "bool \<Rightarrow> ram \<Rightarrow> u64 \<Rightarrow> int \<Rightarrow> nat \<Rightarrow> bool" where
  "all_chars sgn_char m p v n = list_all (\<lambda>i. char_value sgn_char (load8 m (p + of_nat i)) = v) [0..<n]"

definition load32 :: "ram \<Rightarrow> u64 \<Rightarrow> u32" where
  "load32 m a = ucast (m a) OR push_bit 8 (ucast (m (a + 1)))
     OR push_bit 16 (ucast (m (a + 2))) OR push_bit 24 (ucast (m (a + 3)))"

definition fill :: "u64 \<Rightarrow> u8 \<Rightarrow> nat \<Rightarrow> kheap \<Rightarrow> kheap" where
  "fill p v n st = upd_ram (\<lambda>m. memset m p v n) st"

definition c_bytes :: "string \<Rightarrow> u8 list" where
  "c_bytes s = map of_char s @ [0]"

definition strcpy :: "u64 \<Rightarrow> string \<Rightarrow> ram \<Rightarrow> ram" where
  "strcpy p s m = fold (\<lambda>(i, b) m. store8 m (p + of_nat i) b) (List.enumerate 0 (c_bytes s)) m"

text \<open>\<^verbatim>\<open>strcmp(p, s) == 0\<close>\<close>

definition str_equal :: "ram \<Rightarrow> u64 \<Rightarrow> string \<Rightarrow> bool" where
  "str_equal m p s = list_all (\<lambda>(i, b). load8 m (p + of_nat i) = b) (List.enumerate 0 (c_bytes s))"

section \<open>The tests\<close>

definition TEST_ASSERT :: "bool \<Rightarrow> kheap \<Rightarrow> (int \<times> kheap) option \<Rightarrow> (int \<times> kheap) option" where
  "TEST_ASSERT c st k = (if c then k else Some (-1, st))"

fun kfree_all :: "u64 list \<Rightarrow> kheap \<Rightarrow> kheap option" where
  "kfree_all [] st = Some st"
| "kfree_all (p # ps) st = do { st \<leftarrow> kfree p st; kfree_all ps st }"

definition test_basic_allocation :: "bool \<Rightarrow> kheap \<Rightarrow> (int \<times> kheap) option" where
  "test_basic_allocation sgn_char st = do {
     (ptr1, st) \<leftarrow> kmalloc 64 st;
     TEST_ASSERT (ptr1 \<noteq> 0) st (do {
     (ptr2, st) \<leftarrow> kmalloc 128 st;
     TEST_ASSERT (ptr2 \<noteq> 0) st (do {
     (ptr3, st) \<leftarrow> kmalloc 256 st;
     TEST_ASSERT (ptr3 \<noteq> 0) st (do {
     let st = fill ptr3 0xCC 256 (fill ptr2 0xBB 128 (fill ptr1 0xAA 64 st));
     TEST_ASSERT (all_chars sgn_char (ram st) ptr1 0xAA 64) st
     (TEST_ASSERT (all_chars sgn_char (ram st) ptr2 0xBB 128) st (do {
     st \<leftarrow> kfree_all [ptr1, ptr2, ptr3] st;
     Some (0, st) })) }) }) }) }"

definition test_edge_cases :: "kheap \<Rightarrow> (int \<times> kheap) option" where
  "test_edge_cases st = do {
     (ptr, st) \<leftarrow> kmalloc 0 st;
     TEST_ASSERT (ptr = 0) st (do {
     st \<leftarrow> kfree 0 st;
     (large, st) \<leftarrow> kmalloc 8192 st;
     TEST_ASSERT (large \<noteq> 0) st (do {
     (array, st) \<leftarrow> kcalloc 10 4 st;
     TEST_ASSERT (array \<noteq> 0) st
     (TEST_ASSERT (list_all (\<lambda>i. load32 (ram st) (array + 4 * of_nat i) = 0) [0..<10]) st (do {
     (str, st) \<leftarrow> kmalloc 10 st;
     TEST_ASSERT (str \<noteq> 0) st (do {
     let st = upd_ram (strcpy str ''Hello'') st;
     (new_str, st) \<leftarrow> krealloc str 20 st;
     TEST_ASSERT (new_str \<noteq> 0) st
     (TEST_ASSERT (str_equal (ram st) new_str ''Hello'') st (do {
     let st = upd_ram (strcpy (new_str + 5) '' World'') st;
     TEST_ASSERT (str_equal (ram st) new_str ''Hello World'') st (do {
     st \<leftarrow> kfree_all [large, array, new_str] st;
     Some (0, st) }) })) }) })) }) }) }"

text \<open>The first loop of the fragmentation test: the blocks, or \<open>None\<close> when one cannot be had.\<close>

fun fragment :: "nat list \<Rightarrow> u64 list \<Rightarrow> kheap \<Rightarrow> (u64 list option \<times> kheap) option" where
  "fragment [] blocks st = Some (Some blocks, st)"
| "fragment (i # is) blocks st = do {
     let sz = 16 + i * 8;
     (p, st) \<leftarrow> kmalloc (of_nat sz) st;
     if p = 0 then Some (None, st)
     else fragment is (blocks @ [p]) (fill p (0xA0 + of_nat i) sz st) }"

definition test_fragmentation :: "kheap \<Rightarrow> (int \<times> kheap) option" where
  "test_fragmentation st = do {
     (bs, st) \<leftarrow> fragment [0..<20] [] st;
     case bs of None \<Rightarrow> Some (-1, st) | Some blocks \<Rightarrow> do {
       st \<leftarrow> kfree_all (map ((!) blocks) (filter even [0..<20])) st;
       (large1, st) \<leftarrow> kmalloc 256 st;
       TEST_ASSERT (large1 \<noteq> 0) st (do {
       (large2, st) \<leftarrow> kmalloc 512 st;
       TEST_ASSERT (large2 \<noteq> 0) st (do {
       st \<leftarrow> kfree_all (map ((!) blocks) (filter odd [0..<20])) st;
       st \<leftarrow> kfree_all [large1, large2] st;
       st \<leftarrow> memory_stats st;
       Some (0, st) }) }) } }"

text \<open>\<open>rnd k\<close> is the k-th value of \<^verbatim>\<open>rand()\<close>.\<close>

definition stress_size :: "nat \<Rightarrow> nat" where
  "stress_size r = r mod 1024 + 1"

fun stress_fill :: "(nat \<Rightarrow> nat) \<Rightarrow> nat list \<Rightarrow> u64 list \<Rightarrow> kheap \<Rightarrow> (u64 list \<times> kheap) option" where
  "stress_fill rnd [] ps st = Some (ps, st)"
| "stress_fill rnd (i # is) ps st = do {
     let sz = stress_size (rnd i);
     (p, st) \<leftarrow> kmalloc (of_nat sz) st;
     stress_fill rnd is (ps @ [p]) (if p = 0 then st else fill p (of_nat (i mod 256)) sz st) }"

fun stress_cycles ::
  "(nat \<Rightarrow> nat) \<Rightarrow> nat list \<Rightarrow> nat \<Rightarrow> u64 list \<Rightarrow> kheap \<Rightarrow> (u64 list \<times> kheap) option" where
  "stress_cycles rnd [] k ps st = Some (ps, st)"
| "stress_cycles rnd (c # cs) k ps st =
     (let idx = rnd k mod 100
      in if ps ! idx \<noteq> 0 then do {
           st \<leftarrow> kfree (ps ! idx) st;
           stress_cycles rnd cs (k + 1) (ps[idx := 0]) st }
         else do {
           let sz = stress_size (rnd (k + 1));
           (p, st) \<leftarrow> kmalloc (of_nat sz) st;
           stress_cycles rnd cs (k + 2) (ps[idx := p])
             (if p = 0 then st else fill p (of_nat (c mod 256)) sz st) })"

definition test_stress_allocation :: "(nat \<Rightarrow> nat) \<Rightarrow> kheap \<Rightarrow> (int \<times> kheap) option" where
  "test_stress_allocation rnd st = do {
     (ps, st) \<leftarrow> stress_fill rnd [0..<100] [] st;
     (ps, st) \<leftarrow> stress_cycles rnd [0..<50] 100 ps st;
     st \<leftarrow> kfree_all (filter (\<lambda>p. p \<noteq> 0) ps) st;
     st \<leftarrow> memory_integrity_check st;
     Some (0, st) }"

fun alignment_loop :: "bool \<Rightarrow> nat list \<Rightarrow> kheap \<Rightarrow> (int \<times> kheap) option" where
  "alignment_loop sgn_char [] st = Some (0, st)"
| "alignment_loop sgn_char (i # is) st = do {
     (p, st) \<leftarrow> kmalloc (of_nat i) st;
     TEST_ASSERT (p \<noteq> 0) st
     (TEST_ASSERT (p mod MEM_ALIGNMENT = 0) st (do {
     let st = fill p 0x55 i st;
     TEST_ASSERT (all_chars sgn_char (ram st) p 0x55 i) st (do {
     st \<leftarrow> kfree p st;
     alignment_loop sgn_char is st }) })) }"

definition test_alignment :: "bool \<Rightarrow> kheap \<Rightarrow> (int \<times> kheap) option" where
  "test_alignment sgn_char st = alignment_loop sgn_char [1, 2, 4, 8, 16, 32, 64, 128, 256] st"

fun run_tests ::
  "(kheap \<Rightarrow> (int \<times> kheap) option) list \<Rightarrow> nat \<Rightarrow> nat \<Rightarrow> kheap \<Rightarrow> (nat \<times> nat \<times> kheap) option" where
  "run_tests [] passed count st = Some (passed, count, st)"
| "run_tests (t # ts) passed count st = do {
     (r, st) \<leftarrow> t st;
     run_tests ts (if r = 0 then passed + 1 else passed) (count + 1) st }"

definition run_all_tests :: "bool \<Rightarrow> (nat \<Rightarrow> nat) \<Rightarrow> kheap \<Rightarrow> (nat \<times> nat \<times> kheap) option" where
  "run_all_tests sgn_char rnd st = do {
     (passed, count, st) \<leftarrow> run_tests
       [test_basic_allocation sgn_char, test_edge_cases, test_fragmentation, test_alignment sgn_char,
        test_stress_allocation rnd] 0 0 st;
     st \<leftarrow> memory_stats st;
     Some (passed, count, st) }"

section \<open>The kernel\<close>

datatype trap_message = IllegalInstruction u64 | Breakpoint u64 | SupervisorEcall u64 | UnknownCause u64

text \<open>The message of the switch, and \<^verbatim>\<open>sepc\<close> on return.\<close>

definition trap_handler :: "u64 \<Rightarrow> u64 \<Rightarrow> trap_message \<times> u64" where
  "trap_handler scause sepc =
     (if scause = 2 then (IllegalInstruction sepc, sepc)
      else if scause = 3 then (Breakpoint sepc, sepc)
      else if scause = 9 then (SupervisorEcall sepc, sepc + 4)
      else (UnknownCause scause, sepc))"

fun kmalloc_n :: "nat \<Rightarrow> u64 \<Rightarrow> u64 list \<Rightarrow> kheap \<Rightarrow> (u64 list \<times> kheap) option" where
  "kmalloc_n 0 sz ps st = Some (ps, st)"
| "kmalloc_n (Suc n) sz ps st = do { (p, st) \<leftarrow> kmalloc sz st; kmalloc_n n sz (ps @ [p]) st }"

text \<open>\<^verbatim>\<open>main\<close> up to its idle loop, after \<^verbatim>\<open>early_init\<close> (which only prints).\<close>

definition kernel_main :: "bool \<Rightarrow> (nat \<Rightarrow> nat) \<Rightarrow> u64 \<Rightarrow> u64 \<Rightarrow> kheap \<Rightarrow> kheap option" where
  "kernel_main sgn_char rnd heap_lo heap_hi st = do {
     let st = memory_init heap_lo heap_hi st;
     st \<leftarrow> memory_stats st;
     (passed, count, st) \<leftarrow> run_all_tests sgn_char rnd st;
     (ptr1, st) \<leftarrow> kmalloc 64 st;
     (ptr2, st) \<leftarrow> kmalloc 128 st;
     (ptr3, st) \<leftarrow> kmalloc 256 st;
     st \<leftarrow> memory_stats st;
     st \<leftarrow> kfree ptr2 st;
     (ptr4, st) \<leftarrow> kmalloc 200 st;
     st \<leftarrow> memory_stats st;
     (small, st) \<leftarrow> kmalloc_n 10 32 [] st;
     st \<leftarrow> kfree_all (map ((!) small) [1, 3, 5, 7, 9]) st;
     (large, st) \<leftarrow> kmalloc 256 st;
     st \<leftarrow> memory_stats st;
     st \<leftarrow> memory_dump st;
     st \<leftarrow> memory_integrity_check st;
     st \<leftarrow> kfree_all [ptr1, ptr3, ptr4, large] st;
     st \<leftarrow> kfree_all (map ((!) small) [0, 2, 4, 6, 8]) st;
     memory_stats st }"

section \<open>Blocks cut from a single free block\<close>

text \<open>Overwriting the low two bytes of a number in memory.\<close>

lemma byte_above: "16 \<le> n \<Longrightarrow> push_bit n (ucast (b :: u8) :: u64) AND NOT (mask 16) = push_bit n (ucast b)"
  by (rule bit_eqI) (auto simp: bit_and_iff bit_not_iff bit_mask_iff bit_push_bit_iff)

lemma byte_below: "n \<le> 8 \<Longrightarrow> push_bit n (ucast (b :: u8) :: u64) AND NOT (mask 16) = 0"
  by (rule bit_eqI)
    (auto simp: bit_and_iff bit_not_iff bit_mask_iff bit_push_bit_iff bit_ucast_iff dest: bit_imp_le_length)

lemma le64_low: "le64 x y b2 b3 b4 b5 b6 b7
    = (le64 b0 b1 b2 b3 b4 b5 b6 b7 AND NOT (mask 16)) OR (ucast x OR push_bit 8 (ucast y))"
  using byte_below[of 0 b0] unfolding le64_def
  by (simp add: bit.conj_disj_distrib2 byte_above byte_below or.assoc or.commute or.left_commute)

lemma low_bytes:
  "load64 (store8 (store8 m a x) (a + 1) y) a
     = (load64 m a AND NOT (mask 16)) OR (ucast x OR push_bit 8 (ucast y))"
proof -
  have "load64 (store8 (store8 m a x) (a + 1) y) a
      = le64 x y (m (a + 2)) (m (a + 3)) (m (a + 4)) (m (a + 5)) (m (a + 6)) (m (a + 7))"
    by (simp add: load64_def store8_def)
  then show ?thesis unfolding load64_def by (rule trans) (rule le64_low)
qed

end
