(* ===== verification/Kmem_Test_Facts.thy ===== *)
theory Kmem_Test_Facts
  imports Kmem_Tests
begin

text \<open>
  What the self tests find and what they leave: the blocks one after another cut from a single
  free block, the verdict of the first test, and the free list after it.
\<close>

section \<open>A live block\<close>

text \<open>
  The sixteen header bytes of an allocated block; read as a free block they give the size
  \<open>0x01AB\<close> (magic and used flag).
\<close>

definition live_block :: "ram \<Rightarrow> u64 \<Rightarrow> u64 \<Rightarrow> bool" where
  "live_block m b z \<longleftrightarrow> hdr_size m b = z \<and> hdr_magic m b = BLOCK_MAGIC \<and> hdr_used m b = 1 \<and>
     blk_size m b = 0x01AB"

lemma live_block_cong: "agree m m' b 16 \<Longrightarrow> live_block m b z \<Longrightarrow> live_block m' b z"
  using load64_cong[OF agree_mono[of m m' b 16 8]] load64_cong[OF agree_sub[of m m' b 16 8 8]]
    agree_nth[of m m' b 16 8] agree_nth[of m m' b 16 9]
  by (simp add: live_block_def hdr_size_def hdr_magic_def hdr_used_def blk_size_def load8_def)

lemma kmalloc_take_live:
  assumes inv: "heap_inv st [(a, s)]" and room: "unat z + 24 \<le> unat s" and sp: "splits s z"
    and "unat z < 65536" and k: "kmalloc_take a z st = Some (p, st')"
  shows "live_block (ram st') a z"
proof -
  have within: "blk_within (unat (heap_start st)) (unat (heap_end st)) (a, s)"
    by (rule heap_inv_within[OF inv]) simp
  then have a24: "unat a + 24 \<le> 18446744073709551616"
    using unat_lt_64[of "heap_end st"] by simp
  define st1 where "st1 = split_block a z st"
  have "free_chain (ram st1) (free_list st1) [(a, z), tail_block a s z]"
    using split_block_chain(1)[of st "[]" a s "[]" "unat (heap_start st)" "unat (heap_end st)" z,
        OF _ _ unat_lt_64 room sp] inv
    by (simp add: heap_inv_def st1_def)
  then have sz: "blk_size (ram st1) a = z" and fl: "free_list st1 = a" by simp_all
  define m where "m = set_hdr_size a z (ram st1)"
  have st': "ram st' = set_hdr_used a 1 (set_hdr_magic a BLOCK_MAGIC m)"
    using k[folded st1_def, unfolded kmalloc_take_def] fl unfolding st1_def[symmetric]
    by (auto simp: remove_from_free_list_def upd_ram_def m_def)
  have "blk_size m a = z"
    using sz unat_offsets[OF a24] a24
    by (simp add: m_def blk_size_def set_hdr_size_def mem_laws apart_def)
  moreover have "z AND NOT (mask 16) = 0"
  proof -
    have "unat (take_bit 16 z) = unat z"
      using assms(4) by (simp add: unsigned_take_bit_eq take_bit_nat_eq_self)
    then have "z = z AND mask 16" by (simp add: take_bit_eq_mask word_unat_eq_iff)
    then have "z AND NOT (mask 16) = z AND (mask 16 AND NOT (mask 16))" by (metis and.assoc)
    then show ?thesis by simp
  qed
  moreover have "a + 8 + 1 = a + 9" by simp
  ultimately have "blk_size (ram st') a = 0x01AB"
    using low_bytes[of m "a + 8" BLOCK_MAGIC 1, unfolded \<open>a + 8 + 1 = a + 9\<close>]
    by (simp add: st' blk_size_def set_hdr_used_def set_hdr_magic_def BLOCK_MAGIC_def)
  then show ?thesis
    using header_write_read[OF a24, of "ram st'" z "ram st1"]
    by (simp add: live_block_def st' m_def)
qed

lemma kmalloc_single:
  assumes inv: "heap_inv st [(a, s)]" and z: "ALIGN_UP sz MEM_ALIGNMENT = z" "sz \<noteq> 0"
    and room: "unat z + 56 \<le> unat s" "unat z < 65536"
  obtains st' where "kmalloc sz st = Some (PTR_FROM_BLOCK a, st')"
    and "heap_inv st' [(a + FREE_BLOCK_SIZE + z, s - z - FREE_BLOCK_SIZE)]"
    and "live_block (ram st') a z"
    and "\<And>b n. apart b n a (24 + unat s) \<Longrightarrow> agree (ram st) (ram st') b n"
    and "heap_start st' = heap_start st" and "heap_end st' = heap_end st"
proof -
  have within: "blk_within (unat (heap_start st)) (unat (heap_end st)) (a, s)"
    by (rule heap_inv_within[OF inv]) simp
  have sp: "splits s z" using split_numbers(3)[OF _ within unat_lt_64] room by simp
  have "z \<le> s" using room by (simp add: word_le_nat_alt)
  then have "find_best_fit z st = Some (a, st)" and "a \<noteq> 0" and "initialized st \<noteq> 0"
    using find_best_fit_result[OF inv, of z] inv by (auto simp: heap_inv_def)
  then have run: "kmalloc sz st = kmalloc_take a z st" using z by (simp add: kmalloc_def)
  have room24: "unat z + 24 \<le> unat s" using room by simp
  obtain st' where st': "kmalloc_take a z st = Some (PTR_FROM_BLOCK a, st')"
    "heap_inv st' ([] @ rest_after a s z @ [])"
    "\<And>b n. (\<And>c t. (c, t) \<in> set ([] @ (a, s) # []) \<Longrightarrow> apart b n c (24 + unat t)) \<Longrightarrow>
           agree (ram st) (ram st') b n"
    "heap_start st' = heap_start st" "heap_end st' = heap_end st"
    by (rule kmalloc_take_chain[of st "[]" a s "[]" z, OF _ room24]) (use inv in \<open>simp, blast\<close>)
  show ?thesis
  proof (rule that[of st'])
    show "live_block (ram st') a z" by (rule kmalloc_take_live[OF inv room24 sp room(2) st'(1)])
    show "heap_inv st' [(a + FREE_BLOCK_SIZE + z, s - z - FREE_BLOCK_SIZE)]"
      using st'(2) sp by (simp add: rest_after_def tail_block_def)
  qed (use run st' in auto)
qed

section \<open>Freeing\<close>

lemma coalesce_loop_none:
  "free_chain (ram st) p bs \<Longrightarrow> no_touching bs \<Longrightarrow> coalesce_loop p st = Some st"
proof (induction bs arbitrary: p)
  case Nil
  then show ?case by (subst coalesce_loop.simps) simp
next
  case (Cons b bs)
  obtain a s where b: "b = (a, s)" by force
  have "blk_next (ram st) a = 0 \<or> a + FREE_BLOCK_SIZE + s \<noteq> blk_next (ram st) a"
    using Cons.prems b by (cases bs) (auto simp: no_touching_Cons)
  then show ?case
    using Cons b by (subst coalesce_loop.simps) (auto simp: check_ok no_touching_Cons)
qed

lemma no_touching_Nil: "no_touching []"
  by (simp add: no_touching_def)

lemma kfree_pushes:
  assumes b: "b \<noteq> 0" "unat b + 24 \<le> 18446744073709551616" "heap_start st \<le> b" "b < heap_end st"
    and "initialized st \<noteq> 0" and live: "live_block (ram st) b z"
    and chain: "free_chain (ram st) (free_list st) bs"
    and far: "\<And>c t. (c, t) \<in> set bs \<Longrightarrow> apart c 24 b 24"
    and notouch: "no_touching ((b, 0xAB) # bs)"
  obtains st' where "kfree (PTR_FROM_BLOCK b) st = Some st'"
    and "free_chain (ram st') (free_list st') ((b, 0xAB) # bs)"
    and "\<And>c n. apart c n b 24 \<Longrightarrow> agree (ram st) (ram st') c n"
    and "heap_start st' = heap_start st" and "heap_end st' = heap_end st"
    and "initialized st' = initialized st"
proof -
  note off = unat_offsets[OF b(2)]
  define m where "m = set_next b (free_list st) (set_magic b BLOCK_MAGIC (set_hdr_used b 0 (ram st)))"
  define st1 where "st1 = st\<lparr>ram := m, free_list := b,
    used_memory := used_memory st - (hdr_size m b + HEADER_SIZE),
    free_memory := free_memory st + (hdr_size m b + HEADER_SIZE), free_count := free_count st + 1\<rparr>"
  have p: "BLOCK_FROM_PTR (PTR_FROM_BLOCK b) = b"
    by (simp add: BLOCK_FROM_PTR_def PTR_FROM_BLOCK_def)
  have "unat (b + 16) = unat b + 16" by (rule off)
  then have nz: "PTR_FROM_BLOCK b \<noteq> 0"
    by (metis PTR_FROM_BLOCK_def HEADER_SIZE_def add_is_0 unat_0 zero_neq_numeral)
  have guards: "\<not> b < heap_start st" "\<not> heap_end st \<le> b" using b(3,4) by simp_all
  have run: "kfree (PTR_FROM_BLOCK b) st = coalesce_loop b st1"
    using nz assms(5,6) guards
    by (simp add: kfree_def p Let_def upd_ram_def add_to_free_list_def st1_def m_def live_block_def
        coalesce_blocks_def)
  have ag: "agree (ram st) m c n" if "apart c n b 24" for c n
    unfolding m_def
    by (intro agree_trans[OF agree_trans[OF header_writes_agree(6) header_writes_agree(3)]
          header_writes_agree(1)] that)
  have size: "blk_size m b = 0xAB"
  proof -
    have "ram st (b + 8) = BLOCK_MAGIC" using live by (simp add: live_block_def hdr_magic_def load8_def)
    then have "set_hdr_used b 0 (ram st) = store8 (store8 (ram st) (b + 8) BLOCK_MAGIC) (b + 8 + 1) 0"
      by (simp add: set_hdr_used_def store8_def fun_upd_idem add.commute)
    then have "blk_size (set_hdr_used b 0 (ram st)) b = 0xAB"
      using live low_bytes[of "ram st" "b + 8" BLOCK_MAGIC 0]
      by (simp add: blk_size_def live_block_def BLOCK_MAGIC_def mask_eq_exp_minus_1)
    then show ?thesis by (simp add: m_def same_header[OF b(2)])
  qed
  have tail: "free_chain m (free_list st) bs"
    by (rule chain_frame[OF _ chain]) (use far ag in blast)
  have ch: "free_chain m b ((b, 0xAB) # bs)"
    using tail size b(1) by (simp add: m_def same_header[OF b(2)])
  have "kfree (PTR_FROM_BLOCK b) st = Some st1"
    unfolding run by (rule coalesce_loop_none[OF _ notouch]) (use ch in \<open>simp add: st1_def\<close>)
  then show ?thesis
    by (rule that) (use ch ag in \<open>simp_all add: st1_def\<close>)
qed

section \<open>The first test\<close>

lemma align_sizes:
  "ALIGN_UP 64 MEM_ALIGNMENT = 64" "ALIGN_UP 128 MEM_ALIGNMENT = 128" "ALIGN_UP 256 MEM_ALIGNMENT = 256"
  by (simp_all add: ALIGN_UP_def MEM_ALIGNMENT_def)

text \<open>Where the three blocks of the test lie: at \<open>a\<close>, \<open>a + 88\<close> and \<open>a + 240\<close>; the rest starts at \<open>a + 520\<close>.\<close>

lemma cut_numbers:
  assumes "unat (a :: u64) + 24 + unat (s :: u64) < 18446744073709551616" and "700 \<le> unat s"
  shows "unat (a + 88) = unat a + 88" "unat (a + 240) = unat a + 240" "unat (a + 520) = unat a + 520"
    "unat (a + 16) = unat a + 16" "unat (a + 104) = unat a + 104" "unat (a + 256) = unat a + 256"
    "unat (s - 88) = unat s - 88" "unat (s - 240) = unat s - 240" "unat (s - 520) = unat s - 520"
  using assms by (simp_all add: unat_add_exact unat_diff_exact)

lemma three_blocks:
  assumes inv: "heap_inv st [(a, s)]" and room: "700 \<le> unat s"
  obtains st1 st2 st3 where "kmalloc 64 st = Some (a + 16, st1)"
    and "kmalloc 128 st1 = Some (a + 104, st2)" and "kmalloc 256 st2 = Some (a + 256, st3)"
    and "heap_inv st3 [(a + 520, s - 520)]"
    and "live_block (ram st3) a 64" "live_block (ram st3) (a + 88) 128" "live_block (ram st3) (a + 240) 256"
    and "heap_start st3 = heap_start st" and "heap_end st3 = heap_end st"
proof -
  have "blk_within (unat (heap_start st)) (unat (heap_end st)) (a, s)"
    by (rule heap_inv_within[OF inv]) simp
  then have fits: "unat a + 24 + unat s < 18446744073709551616"
    using unat_lt_64[of "heap_end st"] by simp
  note num = cut_numbers[OF fits room]
  have small: "unat (64 :: u64) = 64" "unat (128 :: u64) = 128" "unat (256 :: u64) = 256"
    "(64 :: u64) \<noteq> 0" "(128 :: u64) \<noteq> 0" "(256 :: u64) \<noteq> 0" by simp_all
  have r: "unat (64 :: u64) + 56 \<le> unat s" "unat (128 :: u64) + 56 \<le> unat (s - 88)"
    "unat (256 :: u64) + 56 \<le> unat (s - 240)" "unat (64 :: u64) < 65536" "unat (128 :: u64) < 65536"
    "unat (256 :: u64) < 65536"
    unfolding small num using room by simp_all
  have at: "PTR_FROM_BLOCK a = a + 16" "PTR_FROM_BLOCK (a + 88) = a + 104" "PTR_FROM_BLOCK (a + 240) = a + 256"
    "a + FREE_BLOCK_SIZE + 64 = a + 88" "a + 88 + FREE_BLOCK_SIZE + 128 = a + 240"
    "a + 240 + FREE_BLOCK_SIZE + 256 = a + 520" "s - 64 - FREE_BLOCK_SIZE = s - 88"
    "s - 88 - 128 - FREE_BLOCK_SIZE = s - 240" "s - 240 - 256 - FREE_BLOCK_SIZE = s - 520"
    by (simp_all add: PTR_FROM_BLOCK_def HEADER_SIZE_def FREE_BLOCK_SIZE_def)
  obtain st1 where st1: "kmalloc 64 st = Some (a + 16, st1)" "heap_inv st1 [(a + 88, s - 88)]"
    "live_block (ram st1) a 64" "heap_start st1 = heap_start st" "heap_end st1 = heap_end st"
    by (rule kmalloc_single[OF inv align_sizes(1) small(4) r(1,4)]) (simp only: at)
  obtain st2 where st2: "kmalloc 128 st1 = Some (a + 104, st2)" "heap_inv st2 [(a + 240, s - 240)]"
    "live_block (ram st2) (a + 88) 128" "heap_start st2 = heap_start st" "heap_end st2 = heap_end st"
    "\<And>b n. apart b n (a + 88) (24 + unat (s - 88)) \<Longrightarrow> agree (ram st1) (ram st2) b n"
    by (rule kmalloc_single[OF st1(2) align_sizes(2) small(5) r(2,5)]) (simp only: at st1(4,5))
  obtain st3 where st3: "kmalloc 256 st2 = Some (a + 256, st3)" "heap_inv st3 [(a + 520, s - 520)]"
    "live_block (ram st3) (a + 240) 256" "heap_start st3 = heap_start st" "heap_end st3 = heap_end st"
    "\<And>b n. apart b n (a + 240) (24 + unat (s - 240)) \<Longrightarrow> agree (ram st2) (ram st3) b n"
    by (rule kmalloc_single[OF st2(2) align_sizes(3) small(6) r(3,6)]) (simp only: at st2(4,5))
  have l1: "live_block (ram st3) a 64"
    using num fits room
    by (intro live_block_cong[OF st3(6)] live_block_cong[OF st2(6)] st1(3)) (auto simp: apart_def)
  have l2: "live_block (ram st3) (a + 88) 128"
    using num fits room by (intro live_block_cong[OF st3(6)] st2(3)) (auto simp: apart_def)
  show ?thesis by (rule that[OF st1(1) st2(1) st3(1,2) l1 l2 st3(3,4,5)])
qed

lemma all_chars_filled:
  assumes "\<And>i. i < n \<Longrightarrow> m (p + of_nat i) = b" and "0 < n"
  shows "all_chars sc m p v n \<longleftrightarrow> char_value sc b = v"
  using assms by (auto simp: all_chars_def list_all_iff load8_def)

text \<open>The three fills leave the headers and the rest of the heap alone.\<close>

lemma three_fills:
  assumes inv: "heap_inv st [(a + 520, s - 520)]"
    and live: "live_block (ram st) a 64" "live_block (ram st) (a + 88) 128" "live_block (ram st) (a + 240) 256"
    and fits: "unat a + 24 + unat s < 18446744073709551616" "700 \<le> unat s"
  defines "st' \<equiv> fill (a + 256) 0xCC 256 (fill (a + 104) 0xBB 128 (fill (a + 16) 0xAA 64 st))"
  shows "heap_inv st' [(a + 520, s - 520)]"
    and "live_block (ram st') a 64" "live_block (ram st') (a + 88) 128" "live_block (ram st') (a + 240) 256"
    and "all_chars sc (ram st') (a + 16) 0xAA 64 \<longleftrightarrow> \<not> sc" and "all_chars False (ram st') (a + 104) 0xBB 128"
    and "heap_start st' = heap_start st" "heap_end st' = heap_end st"
proof -
  note num = cut_numbers[OF fits]
  have ag: "agree (ram st) (ram st') b n"
    if "apart b n (a + 16) 64" "apart b n (a + 104) 128" "apart b n (a + 256) 256" for b n
    unfolding st'_def fill_def upd_ram_def using that
    by (simp add: agree_trans[OF agree_trans[OF memset_agree memset_agree] memset_agree])
  show "live_block (ram st') a 64" "live_block (ram st') (a + 88) 128" "live_block (ram st') (a + 240) 256"
    using num fits live by (auto intro!: live_block_cong[OF ag] simp: apart_def)
  have "free_chain (ram st') (a + 520) [(a + 520, s - 520)]"
    using inv num fits by (intro chain_frame[OF ag]) (auto simp: apart_def heap_inv_def)
  then show "heap_inv st' [(a + 520, s - 520)]"
    using inv by (auto simp: heap_inv_def st'_def fill_def upd_ram_def)
  define m1 where "m1 = memset (ram st) (a + 16) 0xAA 64"
  define m2 where "m2 = memset m1 (a + 104) 0xBB 128"
  have st': "ram st' = memset m2 (a + 256) 0xCC 256"
    by (simp add: st'_def fill_def upd_ram_def m1_def m2_def)
  have "ram st' (a + 16 + of_nat i) = 0xAA" if "i < 64" for i
  proof -
    have "agree m1 (ram st') (a + 16) 64"
      unfolding st' m2_def using num fits
      by (intro agree_trans[OF memset_agree memset_agree]) (simp_all add: apart_def)
    moreover have "m1 (a + 16 + of_nat i) = 0xAA"
      unfolding m1_def using num fits that by (intro memset_reads) simp_all
    ultimately show ?thesis using agree_nth that by metis
  qed
  then show "all_chars sc (ram st') (a + 16) 0xAA 64 \<longleftrightarrow> \<not> sc"
    by (subst all_chars_filled[of 64]) (auto simp: char_value_def)
  have "ram st' (a + 104 + of_nat i) = 0xBB" if "i < 128" for i
  proof -
    have "agree m2 (ram st') (a + 104) 128"
      unfolding st' using num fits by (intro memset_agree) (simp add: apart_def)
    moreover have "m2 (a + 104 + of_nat i) = 0xBB"
      unfolding m2_def using num fits that by (intro memset_reads) simp_all
    ultimately show ?thesis using agree_nth that by metis
  qed
  then show "all_chars False (ram st') (a + 104) 0xBB 128"
    by (subst all_chars_filled[of 128]) (auto simp: char_value_def)
  show "heap_start st' = heap_start st" "heap_end st' = heap_end st"
    by (simp_all add: st'_def fill_def upd_ram_def)
qed

lemma three_frees:
  assumes inv: "heap_inv st [(a + 520, s - 520)]"
    and live: "live_block (ram st) a 64" "live_block (ram st) (a + 88) 128" "live_block (ram st) (a + 240) 256"
    and a: "a \<noteq> 0" "unat (heap_start st) \<le> unat a" "unat a + 24 + unat s \<le> unat (heap_end st)"
    and room: "700 \<le> unat s"
  obtains st' where "kfree_all [a + 16, a + 104, a + 256] st = Some st'"
    and "free_chain (ram st') (free_list st')
      [(a + 240, 0xAB), (a + 88, 0xAB), (a, 0xAB), (a + 520, s - 520)]"
proof -
  have fits: "unat a + 24 + unat s < 18446744073709551616"
    using a(3) unat_lt_64[of "heap_end st"] by simp
  note num = cut_numbers[OF fits room]
  have nz: "a + 88 \<noteq> 0" "a + 240 \<noteq> 0" using num by (metis add_is_0 unat_0 zero_neq_numeral)+
  have at: "PTR_FROM_BLOCK a = a + 16" "PTR_FROM_BLOCK (a + 88) = a + 104" "PTR_FROM_BLOCK (a + 240) = a + 256"
    by (simp_all add: PTR_FROM_BLOCK_def HEADER_SIZE_def)
  have nt: "no_touching [(a, 0xAB), (a + 520, s - 520)]"
    "no_touching [(a + 88, 0xAB), (a, 0xAB), (a + 520, s - 520)]"
    "no_touching [(a + 240, 0xAB), (a + 88, 0xAB), (a, 0xAB), (a + 520, s - 520)]"
    by (simp_all add: no_touching_Cons no_touching_Nil FREE_BLOCK_SIZE_def)
  have ch: "free_chain (ram st) (free_list st) [(a + 520, s - 520)]" and init: "initialized st \<noteq> 0"
    using inv by (simp_all add: heap_inv_def)
  have in_heap: "heap_start st \<le> a" "a < heap_end st" "heap_start st \<le> a + 88" "a + 88 < heap_end st"
    "heap_start st \<le> a + 240" "a + 240 < heap_end st"
    using a num room by (simp_all add: word_le_nat_alt word_less_nat_alt)
  have ap: "apart (a + 520) 24 a 24" "apart (a + 520) 24 (a + 88) 24" "apart (a + 520) 24 (a + 240) 24"
    "apart a 24 (a + 88) 24" "apart a 24 (a + 240) 24" "apart (a + 88) 24 (a + 240) 24"
    "apart (a + 88) 16 a 24" "apart (a + 240) 16 a 24" "apart (a + 240) 16 (a + 88) 24"
    using num fits room by (simp_all add: apart_def)
  have top: "unat a + 24 \<le> 18446744073709551616" "unat (a + 88) + 24 \<le> 18446744073709551616"
    "unat (a + 240) + 24 \<le> 18446744073709551616" using num fits room by simp_all
  obtain st1 where st1: "kfree (a + 16) st = Some st1"
    "free_chain (ram st1) (free_list st1) [(a, 0xAB), (a + 520, s - 520)]"
    "\<And>c n. apart c n a 24 \<Longrightarrow> agree (ram st) (ram st1) c n"
    "heap_start st1 = heap_start st" "heap_end st1 = heap_end st" "initialized st1 = initialized st"
    by (rule kfree_pushes[OF a(1) top(1) in_heap(1,2) init live(1) ch _ nt(1)])
      (use ap in \<open>auto simp: at\<close>)
  have l2: "live_block (ram st1) (a + 88) 128" and l3: "live_block (ram st1) (a + 240) 256"
    by (rule live_block_cong[OF st1(3)], rule ap, rule live)+
  obtain st2 where st2: "kfree (a + 104) st1 = Some st2"
    "free_chain (ram st2) (free_list st2) [(a + 88, 0xAB), (a, 0xAB), (a + 520, s - 520)]"
    "\<And>c n. apart c n (a + 88) 24 \<Longrightarrow> agree (ram st1) (ram st2) c n"
    "heap_start st2 = heap_start st" "heap_end st2 = heap_end st" "initialized st2 = initialized st"
    by (rule kfree_pushes[OF nz(1) top(2) _ _ _ l2 st1(2) _ nt(2)])
      (use ap in_heap init st1(4-6) in \<open>auto simp: at\<close>)
  have l3: "live_block (ram st2) (a + 240) 256"
    by (rule live_block_cong[OF st2(3)], rule ap, rule l3)
  obtain st3 where st3: "kfree (a + 256) st2 = Some st3"
    "free_chain (ram st3) (free_list st3) [(a + 240, 0xAB), (a + 88, 0xAB), (a, 0xAB), (a + 520, s - 520)]"
    by (rule kfree_pushes[OF nz(2) top(3) _ _ _ l3 st2(2) _ nt(3)])
      (use ap in_heap init st2(4-6) in \<open>auto simp: at\<close>)
  show ?thesis by (rule that[of st3]) (use st1(1) st2(1) st3 in simp_all)
qed

lemma chain_unique: "free_chain m p bs \<Longrightarrow> free_chain m p cs \<Longrightarrow> bs = cs"
proof (induction bs arbitrary: p cs)
  case Nil
  then show ?case by (cases cs) auto
next
  case (Cons b bs)
  then show ?case by (cases b; cases cs) auto
qed

text \<open>
  Property C9. The first self test on a heap with one free block of at least 700 bytes. Where
  \<^verbatim>\<open>char\<close> is unsigned all its assertions hold and it passes, but the three blocks it frees come
  back with the size 171 instead of 64, 128 and 256: two of the free blocks overlap, so the free
  list it leaves to the next test is no longer well-formed. Where \<^verbatim>\<open>char\<close> is signed the test fails on a
  correct heap (it compares with 0xAA), and leaks the three blocks.
\<close>

theorem basic_test_breaks_heap:
  assumes inv: "heap_inv st [(a, s)]" and room: "700 \<le> unat s"
  shows "\<exists>st'. test_basic_allocation sc st = Some (if sc then -1 else 0, st') \<and>
    (if sc then heap_inv st' [(a + 520, s - 520)]
     else free_chain (ram st') (free_list st')
            [(a + 240, 0xAB), (a + 88, 0xAB), (a, 0xAB), (a + 520, s - 520)] \<and>
          (\<forall>bs. \<not> heap_inv st' bs))"
proof -
  have within: "blk_within (unat (heap_start st)) (unat (heap_end st)) (a, s)"
    by (rule heap_inv_within[OF inv]) simp
  then have fits: "unat a + 24 + unat s < 18446744073709551616"
    using unat_lt_64[of "heap_end st"] by simp
  note num = cut_numbers[OF fits room]
  have "a \<noteq> 0" using inv by (simp add: heap_inv_def)
  have nz: "a + 16 \<noteq> 0" "a + 104 \<noteq> 0" "a + 256 \<noteq> 0"
    using num by (metis add_is_0 unat_0 zero_neq_numeral)+
  obtain st1 st2 st3 where k: "kmalloc 64 st = Some (a + 16, st1)" "kmalloc 128 st1 = Some (a + 104, st2)"
    "kmalloc 256 st2 = Some (a + 256, st3)" "heap_inv st3 [(a + 520, s - 520)]"
    "live_block (ram st3) a 64" "live_block (ram st3) (a + 88) 128" "live_block (ram st3) (a + 240) 256"
    "heap_start st3 = heap_start st" "heap_end st3 = heap_end st"
    by (rule three_blocks[OF inv room])
  note fills = three_fills[OF k(4-7) fits room]
  define st4 where "st4 = fill (a + 256) 0xCC 256 (fill (a + 104) 0xBB 128 (fill (a + 16) 0xAA 64 st3))"
  have run: "test_basic_allocation sc st =
      (if sc then Some (-1, st4) else kfree_all [a + 16, a + 104, a + 256] st4 \<bind> (\<lambda>st. Some (0, st)))"
    using k(1-3) nz fills(5)[of sc] fills(6)
    by (simp add: test_basic_allocation_def TEST_ASSERT_def flip: st4_def)
  obtain st5 where st5: "kfree_all [a + 16, a + 104, a + 256] st4 = Some st5"
    "free_chain (ram st5) (free_list st5) [(a + 240, 0xAB), (a + 88, 0xAB), (a, 0xAB), (a + 520, s - 520)]"
    by (rule three_frees[OF fills(1-4)[folded st4_def] \<open>a \<noteq> 0\<close> _ _ room])
      (use within fills(7,8) k(8,9) in \<open>simp_all add: st4_def\<close>)
  have "\<not> heap_inv st5 bs" for bs
  proof
    assume "heap_inv st5 bs"
    then have "blocks_ok (unat (heap_start st5)) (unat (heap_end st5))
        [(a + 240, 0xAB), (a + 88, 0xAB), (a, 0xAB), (a + 520, s - 520)]"
      using chain_unique[OF st5(2)] by (auto simp: heap_inv_def)
    then show False using num by (simp add: blocks_ok_def)
  qed
  then show ?thesis using run st5 fills(1)[folded st4_def] by auto
qed

theorem basic_test_breaks_heap_witness:
  "\<exists>st'. test_basic_allocation False fresh_heap = Some (0, st') \<and> (\<forall>bs. \<not> heap_inv st' bs)"
  using basic_test_breaks_heap[OF fresh_heap_inv, of False] by auto

end
