(* ===== verification/Process_Tree.thy ===== *)
theory Process_Tree
  imports Prelude
begin

text \<open>
  The process trees of \<^verbatim>\<open>lab1-2-process-monitor/examples/sample_scripts/process_tree.c\<close>. A run is
  the tree of processes that \<^verbatim>\<open>fork\<close> made; each node carries its depth, its child number and its own
  copy of \<^verbatim>\<open>process_count\<close> when it ends. Whether a \<^verbatim>\<open>fork\<close> succeeds is a parameter: a predicate on the
  path of child numbers of the process it would make.
\<close>

section \<open>Arguments and names\<close>

text \<open>The three numbers after \<^verbatim>\<open>atoi\<close>, absent ones being \<^verbatim>\<open>None\<close>.\<close>

definition tree_arguments :: "int option \<Rightarrow> int option \<Rightarrow> int option \<Rightarrow> int \<times> int \<times> int" where
  "tree_arguments a1 a2 a3 =
     (let depth = (case a1 of None \<Rightarrow> 3 | Some v \<Rightarrow> v);
          branch_factor = (case a2 of None \<Rightarrow> 2 | Some v \<Rightarrow> v);
          sleep_time = (case a3 of None \<Rightarrow> 30 | Some v \<Rightarrow> v)
      in (if depth \<le> 0 then 3 else depth, if branch_factor \<le> 0 then 2 else branch_factor,
          if sleep_time \<le> 0 then 30 else sleep_time))"

definition name_types :: "string list" where
  "name_types = [''worker'', ''task'', ''service'', ''daemon'', ''thread'',
     ''processor'', ''handler'', ''manager'', ''controller'', ''executor'']"

definition name_domains :: "string list" where
  "name_domains = [''data'', ''network'', ''io'', ''compute'', ''memory'',
     ''storage'', ''cache'', ''queue'', ''log'', ''monitor'']"

text \<open>What \<^verbatim>\<open>snprintf\<close> would write, and what fits the buffer of 32.\<close>

definition full_name :: "nat \<Rightarrow> nat \<Rightarrow> nat \<Rightarrow> string" where
  "full_name pid depth child_num =
     name_types ! (depth * child_num mod 10) @ ''-'' @ name_domains ! ((depth + child_num) mod 10)
       @ ''-'' @ digits (pid mod 1000)"

definition generate_process_name :: "nat \<Rightarrow> nat \<Rightarrow> nat \<Rightarrow> string" where
  "generate_process_name pid depth child_num = take 31 (full_name pid depth child_num)"

definition tree_indent :: "nat \<Rightarrow> string" where
  "tree_indent depth = concat (replicate (min depth 15) ''  '')"

section \<open>The tree of workers\<close>

datatype ptree = Process (at_depth: nat) (child_no: nat) (process_count: nat) (children: "ptree list")

text \<open>
  \<open>path\<close> holds the child numbers from the root to this process, last first. A child starts with the
  count its parent has reached (\<^verbatim>\<open>fork\<close> copies it), and what it adds stays in its own copy.
\<close>

function worker_process :: "(nat list \<Rightarrow> bool) \<Rightarrow> nat list \<Rightarrow> nat \<Rightarrow> nat \<Rightarrow> nat \<Rightarrow> nat \<Rightarrow> nat \<Rightarrow> ptree" where
  "worker_process forks path depth max_depth branch_factor child count =
     (let count = count + 1
      in Process depth child count
        (if depth < max_depth
         then map (\<lambda>i. worker_process forks (i # path) (depth + 1) max_depth branch_factor i count)
                (filter (\<lambda>i. forks (i # path)) [0..<branch_factor])
         else []))"
  by pat_completeness auto
termination
  by (relation "measure (\<lambda>(forks, path, depth, max_depth, bf, child, count). max_depth - depth)") auto

declare worker_process.simps [simp del]

fun processes :: "ptree \<Rightarrow> nat" where
  "processes (Process d c n ts) = 1 + (\<Sum>t\<leftarrow>ts. processes t)"

text \<open>The estimate that \<^verbatim>\<open>main\<close> prints, in exact arithmetic; \<open>None\<close> is the division by zero.\<close>

definition estimated_processes :: "nat \<Rightarrow> nat \<Rightarrow> int option" where
  "estimated_processes branch_factor depth =
     (if branch_factor = 1 then None
      else Some ((1 - int branch_factor ^ (depth + 1)) div (1 - int branch_factor)))"

lemma processes_full:
  "processes (worker_process (\<lambda>_. True) path d m b c n) = (\<Sum>k\<le>m - d. b ^ k)"
proof (induction "m - d" arbitrary: path d c n)
  case 0
  then show ?case by (subst worker_process.simps) (simp add: Let_def)
next
  case (Suc j)
  then have "d < m" and j: "m - (d + 1) = j" "m - d = Suc j" by simp_all
  then have "processes (worker_process (\<lambda>_. True) path d m b c n) =
      1 + (\<Sum>i\<leftarrow>[0..<b]. processes (worker_process (\<lambda>_. True) (i # path) (d + 1) m b i (n + 1)))"
    by (subst worker_process.simps) (simp add: Let_def comp_def)
  also have "\<dots> = 1 + (\<Sum>i\<leftarrow>[0..<b]. \<Sum>k\<le>j. b ^ k)"
    using Suc(1)[of "d + 1"] j by simp
  also have "\<dots> = (\<Sum>k\<le>Suc j. b ^ k)"
    unfolding sum.atMost_Suc_shift by (simp add: sum_list_triv sum_distrib_left)
  finally show ?case using j by simp
qed

text \<open>All processes of a tree have counted the processes above them and themselves, and no other.\<close>

fun counts_own_branch :: "ptree \<Rightarrow> nat \<Rightarrow> bool" where
  "counts_own_branch (Process d c n ts) inherited \<longleftrightarrow>
     n = inherited + 1 \<and> (\<forall>t\<in>set ts. counts_own_branch t n)"

lemma worker_counts: "counts_own_branch (worker_process forks path d m b c n) n"
proof (induction forks path d m b c n rule: worker_process.induct)
  case (1 forks path d m b c n)
  then show ?case by (subst worker_process.simps) (auto simp: Let_def)
qed

lemma geometric: "(\<Sum>k\<le>d. Suc c ^ k) * c + 1 = Suc c ^ (d + 1)"
  by (induction d) (simp_all add: algebra_simps)

lemma estimate_exact:
  assumes "1 < b"
  shows "estimated_processes b d = Some (int (\<Sum>k\<le>d. b ^ k))"
proof -
  obtain c where b: "b = Suc c" using assms by (cases b) auto
  have "int ((\<Sum>k\<le>d. b ^ k) * c + 1) = int (b ^ (d + 1))" using geometric[where c = c] b by simp
  then have "1 - int b ^ (d + 1) = int (\<Sum>k\<le>d. b ^ k) * (1 - int b)"
    by (simp add: b algebra_simps)
  then show ?thesis using assms by (simp add: estimated_processes_def)
qed

text \<open>
  When every \<^verbatim>\<open>fork\<close> succeeds the program makes as many processes as the estimate it
  prints at the start (for a branch factor of 1 that estimate is a division by zero); yet the total
  it prints at the end is 1 for every tree, because each process counts in its own memory: a
  process at depth k ends with \<^verbatim>\<open>process_count\<close> k + 1.
\<close>

theorem worker_tree_counted:
  "(let t = worker_process (\<lambda>_. True) [] 0 depth branch_factor 0 0
    in int (processes t) = (\<Sum>k\<le>depth. int branch_factor ^ k)
       \<and> estimated_processes branch_factor depth = (if branch_factor = 1 then None else Some (int (processes t)))
       \<and> process_count t = 1 \<and> counts_own_branch t 0)"
proof -
  define t where "t = worker_process (\<lambda>_. True) [] 0 depth branch_factor 0 0"
  have p: "processes t = (\<Sum>k\<le>depth. branch_factor ^ k)" by (simp add: t_def processes_full)
  have c: "counts_own_branch t 0" unfolding t_def by (rule worker_counts)
  then have "process_count t = 1" by (cases t) simp
  moreover have "estimated_processes branch_factor depth = (if branch_factor = 1 then None else Some (int (processes t)))"
  proof (cases "branch_factor = 0")
    case True
    then have "processes t = 1" unfolding p by (simp add: power_0_left)
    then show ?thesis using True by (simp add: estimated_processes_def)
  next
    case False
    then show ?thesis using estimate_exact[of branch_factor depth] by (auto simp: p estimated_processes_def)
  qed
  ultimately show ?thesis using c p unfolding Let_def t_def[symmetric] by simp
qed

lemma digits_length: "n < 10 \<Longrightarrow> length (digits n) = 1" "n < 100 \<Longrightarrow> length (digits n) \<le> 2"
  "n < 1000 \<Longrightarrow> length (digits n) \<le> 3"
proof -
  show one: "length (digits n) = 1" if "n < 10" for n using that by (simp add: digits.simps[of n])
  show two: "length (digits n) \<le> 2" if "n < 100" for n
    using that one[of "n div 10"] by (subst digits.simps) simp
  show "length (digits n) \<le> 3" if "n < 1000" for n
    using that two[of "n div 10"] by (subst digits.simps) simp
qed

lemma name_lengths:
  "\<forall>t\<in>set name_types. length t \<le> 10" "\<forall>t\<in>set name_domains. length t \<le> 7"
  "length name_types = 10" "length name_domains = 10"
  by (simp_all add: name_types_def name_domains_def)

text \<open>
  The name of a process never needs more than 22 of the 31 characters its buffer
  holds, so \<^verbatim>\<open>snprintf\<close> never cuts it, and the indentation of the tree stays under 64 characters.
\<close>

theorem process_names_fit:
  "length (full_name pid depth child_num) \<le> 22 \<and>
   generate_process_name pid depth child_num = full_name pid depth child_num \<and>
   length (tree_indent depth) \<le> 30"
proof -
  have "length (name_types ! (depth * child_num mod 10)) \<le> 10"
    "length (name_domains ! ((depth + child_num) mod 10)) \<le> 7"
    using name_lengths nth_mem[of _ name_types] nth_mem[of _ name_domains] by auto
  moreover have "length (digits (pid mod 1000)) \<le> 3" by (rule digits_length(3)) simp
  ultimately have "length (full_name pid depth child_num) \<le> 22" by (simp add: full_name_def)
  then show ?thesis
    by (simp add: generate_process_name_def tree_indent_def length_concat sum_list_triv sum_list_replicate)
qed

section \<open>Waiting for the children\<close>

datatype wait_result = ChildExited | NoneExited | WaitFailed

text \<open>
  The loop over \<^verbatim>\<open>waitpid(-1, NULL, WNOHANG)\<close>. An observation is what one turn sees: \<^verbatim>\<open>running\<close> at its
  start, the answer of \<^verbatim>\<open>waitpid\<close>, and the clock. The result is the number of children still
  waited for, or \<open>None\<close> when the observations end before the loop does.
\<close>

fun wait_children :: "int \<Rightarrow> int \<Rightarrow> nat \<Rightarrow> (bool \<times> wait_result \<times> int) list \<Rightarrow> nat option" where
  "wait_children start sleep_time remaining [] = None"
| "wait_children start sleep_time remaining ((run, w, now) # obs) =
     (if \<not> run \<or> remaining = 0 then Some remaining
      else
        let remaining = (if w = ChildExited then remaining - 1 else remaining)
        in if w = WaitFailed then Some remaining
           else if 0 < sleep_time \<and> sleep_time \<le> now - start then Some remaining
           else wait_children start sleep_time remaining obs)"

lemma wait_children_ends:
  assumes "0 < sleep_time" and "\<exists>ob\<in>set obs. sleep_time \<le> snd (snd ob) - start"
  shows "wait_children start sleep_time n obs \<noteq> None"
  using assms by (induction obs arbitrary: n) (fastforce simp: Let_def)+

text \<open>
  The wait of a parent ends: with the one-second sleep of each turn the clock gains a
  second, and after at most \<^verbatim>\<open>sleep_time\<close> + 1 turns the loop is left, whatever \<^verbatim>\<open>waitpid\<close> answers, even
  when a child never ends.
\<close>

theorem wait_children_bounded:
  assumes "0 < sleep_time" and "nat sleep_time < length obs"
    and clock: "\<And>k. k < length obs \<Longrightarrow> start + int k \<le> snd (snd (obs ! k))"
  shows "\<exists>m \<le> n. wait_children start sleep_time n obs = Some m"
proof -
  have "obs ! nat sleep_time \<in> set obs" using assms(2) by simp
  moreover have "sleep_time \<le> snd (snd (obs ! nat sleep_time)) - start"
    using clock[OF assms(2)] assms(1) by simp
  ultimately have "\<exists>ob\<in>set obs. sleep_time \<le> snd (snd ob) - start" by blast
  then have "wait_children start sleep_time n obs \<noteq> None" using assms(1) by (intro wait_children_ends)
  moreover have "wait_children start sleep_time n obs = Some m \<Longrightarrow> m \<le> n" for m
    by (induction obs arbitrary: n) (fastforce simp: Let_def split: if_splits)+
  ultimately show ?thesis by blast
qed

theorem wait_children_bounded_witness:
  "\<exists>m \<le> 2. wait_children 100 3 2
     [(True, NoneExited, 100), (True, ChildExited, 101), (True, NoneExited, 102), (True, NoneExited, 103)] = Some m"
  by (rule wait_children_bounded) (auto simp: less_Suc_eq numeral_eq_Suc)

section \<open>The special topologies\<close>

text \<open>\<^verbatim>\<open>process_count\<close> stays 0: only \<^verbatim>\<open>worker_process\<close> counts.\<close>

function linear_topology :: "(nat \<Rightarrow> bool) \<Rightarrow> nat \<Rightarrow> ptree" where
  "linear_topology forks i =
     Process i i 0 (if i < 4 \<and> forks (i + 1) then [linear_topology forks (i + 1)] else [])"
  by pat_completeness auto
termination by (relation "measure (\<lambda>(forks, i). 4 - i)") auto

declare linear_topology.simps [simp del]

definition star_topology :: "(nat \<Rightarrow> bool) \<Rightarrow> ptree" where
  "star_topology forks = Process 0 0 0 (map (\<lambda>i. Process 1 i 0 []) (filter forks [0..<5]))"

function create_binary_tree :: "(nat list \<Rightarrow> bool) \<Rightarrow> nat list \<Rightarrow> nat \<Rightarrow> nat \<Rightarrow> ptree" where
  "create_binary_tree forks path depth max_depth =
     Process depth (case path of [] \<Rightarrow> 0 | i # _ \<Rightarrow> i) 0
       (if max_depth \<le> depth then []
        else map (\<lambda>i. create_binary_tree forks (i # path) (depth + 1) max_depth)
               (filter (\<lambda>i. forks (i # path)) [0, 1]))"
  by pat_completeness auto
termination by (relation "measure (\<lambda>(forks, path, depth, max_depth). max_depth - depth)") auto

declare create_binary_tree.simps [simp del]

text \<open>How many processes are alive at once when every parent waits for a child before it forks the next.\<close>

fun alive_in_turn :: "ptree \<Rightarrow> nat" where
  "alive_in_turn (Process d c n ts) = 1 + foldr max (map alive_in_turn ts) 0"

lemma binary_tree_size:
  "processes (create_binary_tree (\<lambda>_. True) path d m) + 1 = 2 ^ (m - d + 1)
     \<and> alive_in_turn (create_binary_tree (\<lambda>_. True) path d m) = m - d + 1"
proof (induction "m - d" arbitrary: path d)
  case 0
  then show ?case by (subst (1 2) create_binary_tree.simps) simp
next
  case (Suc j)
  then have "\<not> m \<le> d" "m - Suc d = j" "m - d = Suc j" by simp_all
  then show ?case
    using Suc(1)[of "Suc d" "0 # path"] Suc(1)[of "Suc d" "1 # path"]
    by (subst (1 2) create_binary_tree.simps) simp
qed

text \<open>
  The topologies: the chain has five processes, the star six, and the binary tree of
  depth 3 makes 15, of which at most four are ever alive together, since each node waits for its
  left subtree to end before it forks the right one: a monitor never sees a branching.
\<close>

theorem topology_sizes:
  "processes (linear_topology (\<lambda>_. True) 0) = 5 \<and> processes (star_topology (\<lambda>_. True)) = 6
   \<and> processes (create_binary_tree (\<lambda>_. True) [] 0 3) = 15
   \<and> alive_in_turn (create_binary_tree (\<lambda>_. True) [] 0 3) = 4"
proof -
  have "processes (linear_topology (\<lambda>_. True) 0) = 5"
    by (subst linear_topology.simps, simp)+
  moreover have "processes (star_topology (\<lambda>_. True)) = 6"
    by (simp add: star_topology_def upt_rec)
  ultimately show ?thesis using binary_tree_size[of "[]" 0 3] by simp
qed

end
