(* ===== verification/Tree_Programs.thy ===== *)
theory Tree_Programs
  imports C_Text Syscalls Process_Tree
begin

text \<open>
  \<^verbatim>\<open>process_tree.c\<close> from inside its processes: \<^verbatim>\<open>worker_process\<close>, the special topologies and \<^verbatim>\<open>main\<close> as
  programs over the calls they make. A run follows one process: after a \<^verbatim>\<open>fork\<close> that answers 0 it is
  the child. \<open>endings\<close> follows all of them, with answers of its own for every call of every process,
  and so makes the trees of \<open>Process_Tree\<close> again. The stack is taken to be large enough for the array
  of pids, and the printed lines without a number are left out.
\<close>

section \<open>Processes\<close>

text \<open>
  How a process leaves a function: it returns (with \<^verbatim>\<open>process_count\<close>), it has called \<^verbatim>\<open>exit\<close>, or it has
  computed a number that \<^verbatim>\<open>int\<close> cannot hold.
\<close>

datatype flow = Back nat | Exits | Overflow

abbreviation exits :: "flow prog" where
  "exits \<equiv> seq_unit (do_call (Other ''exit(0)'')) (Ret Exits)"

abbreviation printf :: "string \<Rightarrow> unit prog" where
  "printf s \<equiv> do_call (Other (''printf '' @ s))"

definition show_process_info :: "nat \<Rightarrow> nat \<Rightarrow> string \<Rightarrow> unit prog" where
  "show_process_info depth child_num action =
     Sys (Other ''getpid'') (\<lambda>pid. Sys (Other ''getpid'') (\<lambda>pid2. Sys (Other ''getppid'') (\<lambda>ppid.
       printf (generate_process_name (nat pid) depth child_num @ '' '' @ digits (nat pid2) @ '' ''
         @ digits (nat ppid) @ '' '' @ action))))"

definition show_process_tree_structure :: "int \<Rightarrow> nat \<Rightarrow> nat \<Rightarrow> unit prog" where
  "show_process_tree_structure root_pid depth child_num =
     Sys (Other ''getpid'') (\<lambda>pid.
       let name = generate_process_name (nat pid) depth child_num
       in if depth = 0 then printf (name @ '' '' @ digits (nat root_pid))
          else Sys (Other ''getpid'') (\<lambda>pid. Sys (Other ''getppid'') (\<lambda>ppid.
            printf (tree_indent depth @ name @ '' '' @ digits (nat pid) @ '' '' @ digits (nat ppid)))))"

section \<open>The worker\<close>

text \<open>
  The loop of \<^verbatim>\<open>fork\<close>s with what a child does: the recorded pids where the process is still the parent.
\<close>

fun fork_children :: "(nat \<Rightarrow> flow prog) \<Rightarrow> nat list \<Rightarrow> int list \<Rightarrow> (flow + int list) prog" where
  "fork_children child [] pids = Ret (Inr pids)"
| "fork_children child (i # is) pids =
     Sys (Other ''fork'') (\<lambda>pid.
       if pid = 0 then seq (child i) (\<lambda>x. case x of Back _ \<Rightarrow> seq exits (\<lambda>x. Ret (Inl x)) | _ \<Rightarrow> Ret (Inl x))
       else if 0 < pid then fork_children child is (pids @ [pid])
       else seq_unit (do_call (Other ''perror'')) (fork_children child is pids))"

text \<open>
  At most \<open>n\<close> turns of the loop over \<^verbatim>\<open>waitpid(-1, NULL, WNOHANG)\<close>; it answers the children still
  waited for. \<^verbatim>\<open>ECHILD\<close> is 10.
\<close>

fun wait_turns :: "nat \<Rightarrow> int \<Rightarrow> int \<Rightarrow> int \<Rightarrow> int prog" where
  "wait_turns 0 start sleep_time remaining = Cut"
| "wait_turns (Suc n) start sleep_time remaining =
     (let go_on = (\<lambda>remaining. seq_unit (do_call (Other ''sleep(1)'')) (wait_turns n start sleep_time remaining));
          timeout = (\<lambda>remaining.
            if 0 < sleep_time
            then Sys (Other ''time'') (\<lambda>now. if sleep_time \<le> now - start then Ret remaining else go_on remaining)
            else go_on remaining)
      in Sys (Other ''running'') (\<lambda>r.
           if r = 0 \<or> remaining \<le> 0 then Ret remaining
           else Sys (Other ''waitpid'') (\<lambda>pid.
             if 0 < pid then timeout (remaining - 1)
             else if pid = -1
               then Sys (Other ''errno'') (\<lambda>e.
                 if e \<noteq> 10 then seq_unit (do_call (Other ''perror'')) (Ret remaining) else timeout remaining)
             else timeout remaining)))"

fun kill_all :: "int list \<Rightarrow> unit prog" where
  "kill_all [] = Ret ()"
| "kill_all (pid # pids) = seq_unit (do_call (Use ''kill SIGTERM'' pid 0)) (kill_all pids)"

text \<open>What a parent does after it has forked; it answers the children not waited for.\<close>

definition mind_children :: "nat \<Rightarrow> int \<Rightarrow> int list \<Rightarrow> int prog" where
  "mind_children n sleep_time child_pids =
     Sys (Other ''time'') (\<lambda>start.
       seq (wait_turns n start sleep_time (int (length child_pids))) (\<lambda>remaining.
         if 0 < remaining
         then seq_unit (kill_all child_pids) (seq_unit (do_call (Other ''sleep(2)'')) (Ret remaining))
         else Ret remaining))"

text \<open>
  The loop of squares in a leaf. \<open>mul\<close> is the multiplication of \<^verbatim>\<open>int\<close>: \<open>c_mul\<close> as the C standard has
  it, \<open>wrap_mul\<close> as compilers without checks do it.
\<close>

definition c_mul :: "int \<Rightarrow> int \<Rightarrow> int option" where
  "c_mul a b = i32 (a * b)"

definition wrap_mul :: "int \<Rightarrow> int \<Rightarrow> int option" where
  "wrap_mul a b = Some (signed_take_bit 31 (a * b))"

definition work_cycle :: "(int \<Rightarrow> int \<Rightarrow> int option) \<Rightarrow> bool" where
  "work_cycle mul = list_all (\<lambda>i. mul i i \<noteq> None) [0..999999]"

fun leaf_turns :: "(int \<Rightarrow> int \<Rightarrow> int option) \<Rightarrow> nat \<Rightarrow> int \<Rightarrow> int \<Rightarrow> nat \<Rightarrow> bool prog" where
  "leaf_turns mul 0 start sleep_time work_cycles = Cut"
| "leaf_turns mul (Suc n) start sleep_time work_cycles =
     (let go_on = Sys (Other ''running'') (\<lambda>r.
            if r = 0 then Ret True else leaf_turns mul n start sleep_time (work_cycles + 1))
      in Sys (Other ''running'') (\<lambda>r.
           if r = 0 then Ret True
           else if \<not> work_cycle mul then Ret False
           else seq_unit (if (work_cycles + 1) mod 10 = 0 then do_call (Other ''printf'') else Ret ())
             (if 0 < sleep_time
              then Sys (Other ''time'') (\<lambda>now. if sleep_time \<le> now - start then Ret True else go_on)
              else go_on)))"

text \<open>
  \<^verbatim>\<open>worker_process\<close> with the levels still below it, \<^verbatim>\<open>max_depth - depth\<close>; the loops get \<open>n\<close> turns.
\<close>

fun tree_worker ::
  "(int \<Rightarrow> int \<Rightarrow> int option) \<Rightarrow> nat \<Rightarrow> nat \<Rightarrow> int \<Rightarrow> nat \<Rightarrow> nat \<Rightarrow> nat \<Rightarrow> nat \<Rightarrow> flow prog" where
  "tree_worker mul n branch_factor sleep_time levels depth child_num count =
     seq_unit (in_turn [do_call (Other ''signal(SIGINT)''), do_call (Other ''signal(SIGTERM)''),
       show_process_info depth child_num ''start''])
     (Sys (Other ''getpid'') (\<lambda>pid. seq_unit (show_process_tree_structure pid depth child_num)
     (let count = count + 1;
          leave = seq_unit (show_process_info depth child_num ''exit'') (Ret (Back count))
      in case levels of
           Suc levels \<Rightarrow>
             seq (fork_children (\<lambda>i. tree_worker mul n branch_factor sleep_time levels (depth + 1) i count)
                 [0..<branch_factor] []) (\<lambda>x.
               case x of Inl f \<Rightarrow> Ret f
               | Inr child_pids \<Rightarrow> seq (mind_children n sleep_time child_pids) (\<lambda>_. leave))
         | 0 \<Rightarrow>
             Sys (Other ''time'') (\<lambda>start.
               seq (leaf_turns mul n start sleep_time 0) (\<lambda>ok. if ok then leave else Ret Overflow)))))"

declare tree_worker.simps [simp del]

section \<open>The special topologies\<close>

text \<open>The nodes still to make; a child that is not the last goes on with the loop.\<close>

fun linear_chain :: "int \<Rightarrow> nat list \<Rightarrow> flow prog" where
  "linear_chain sleep_time [] = Ret (Back 0)"
| "linear_chain sleep_time (i # is) =
     Sys (Other ''fork'') (\<lambda>pid.
       if pid = 0 then
         seq_unit (printf (''chain-'' @ digits i))
           (if i < 4 then linear_chain sleep_time is
            else seq_unit (do_call (Other ''printf'')) (seq_unit (do_call (Other ''sleep'')) exits))
       else seq_unit (do_call (Other ''wait'')) (Ret (Back 0)))"

fun star_nodes :: "int \<Rightarrow> nat list \<Rightarrow> flow prog" where
  "star_nodes sleep_time [] = Ret (Back 0)"
| "star_nodes sleep_time (i # is) =
     Sys (Other ''fork'') (\<lambda>pid.
       if pid = 0 then seq_unit (printf (''star-'' @ digits i)) (seq_unit (do_call (Other ''sleep'')) exits)
       else star_nodes sleep_time is)"

text \<open>The nested function, with the levels still below the node.\<close>

fun binary_node :: "nat \<Rightarrow> nat \<Rightarrow> flow prog" where
  "binary_node 0 depth = Ret (Back 0)"
| "binary_node (Suc levels) depth =
     (let child = seq (binary_node levels (depth + 1)) (\<lambda>x. case x of Back _ \<Rightarrow> exits | _ \<Rightarrow> Ret x);
          wait = do_call (Other ''wait'')
      in seq_unit (printf (concat (replicate depth ''  '') @ digits depth))
        (Sys (Other ''fork'') (\<lambda>pid.
          if pid = 0 then child
          else seq_unit wait (Sys (Other ''fork'') (\<lambda>pid.
            if pid = 0 then child else seq_unit wait (Ret (Back 0)))))))"

definition create_special_topology :: "int \<Rightarrow> int \<Rightarrow> flow prog" where
  "create_special_topology topology_type sleep_time =
     (if topology_type = 1 then seq_unit (do_call (Other ''getpid'')) (linear_chain sleep_time [1..<5])
      else if topology_type = 2 then
        seq_unit (do_call (Other ''getpid'')) (seq_unit (do_call (Other ''printf''))
          (seq (star_nodes sleep_time [0..<5]) (\<lambda>x.
            case x of Back _ \<Rightarrow> seq_unit (in_turn (replicate 5 (do_call (Other ''wait'')))) (Ret (Back 0)) | _ \<Rightarrow> Ret x)))
      else if topology_type = 3 then binary_node 3 0
      else seq_unit (do_call (Other ''printf'')) (Ret (Back 0)))"

section \<open>The main program\<close>

definition special_topology :: "string list \<Rightarrow> int" where
  "special_topology args =
     (case args of [] \<Rightarrow> 0
      | a # _ \<Rightarrow> if a = ''linear'' then 1 else if a = ''star'' then 2 else if a = ''binary'' then 3 else 0)"

text \<open>The estimate is a \<^verbatim>\<open>double\<close> converted to \<^verbatim>\<open>int\<close>: undefined where it is no number or too large.\<close>

definition estimate_fits :: "nat \<Rightarrow> nat \<Rightarrow> bool" where
  "estimate_fits branch_factor depth =
     (case estimated_processes branch_factor depth of None \<Rightarrow> False | Some v \<Rightarrow> in_i32 v)"

text \<open>\<open>Back\<close> carries the total that \<^verbatim>\<open>main\<close> prints.\<close>

definition tree_main :: "(int \<Rightarrow> int \<Rightarrow> int option) \<Rightarrow> nat \<Rightarrow> string list \<Rightarrow> flow prog" where
  "tree_main mul n args =
     (if asks_help args then seq_unit (do_call (Other ''show_usage'')) (Ret (Back 0))
      else if \<not> numbers_fit args (if special_topology args = 0 then [0, 1, 2] else [1]) then Ret Overflow
      else
        let topology = special_topology args;
            (depth, branch_factor, sleep_time) =
              (if topology = 0 then tree_arguments (int_arg args 0) (int_arg args 1) (int_arg args 2)
               else tree_arguments None None (int_arg args 1))
        in if topology = 0 \<and> \<not> estimate_fits (nat branch_factor) (nat depth) then Ret Overflow
           else seq_unit (in_turn [do_call (Other ''getpid''), do_call (Other ''time''),
               do_call (Other ''signal(SIGINT)''), do_call (Other ''signal(SIGTERM)'')])
             (seq (if 0 < topology then create_special_topology topology sleep_time
                   else tree_worker mul n (nat branch_factor) sleep_time (nat depth) 0 0 0) (\<lambda>x.
               case x of Back count \<Rightarrow> seq_unit (printf (digits count)) (Ret (Back count)) | _ \<Rightarrow> Ret x)))"

section \<open>All processes of a run\<close>

text \<open>
  How the processes of a run end, \<open>None\<close> for one that has used up its turns, when every \<^verbatim>\<open>fork\<close>
  succeeds. A process is named by the calls at which it and the processes above it were forked, the
  last first; \<open>ans p i\<close> answers its \<open>i\<close>-th call, so the clock, \<^verbatim>\<open>running\<close> and \<^verbatim>\<open>waitpid\<close> may answer
  something else at each call and in each process. \<^verbatim>\<open>fork\<close> answers 0 to the child, which counts its
  own calls from 0, and a positive number to its parent.
\<close>

primrec endings :: "(nat list \<Rightarrow> nat \<Rightarrow> int) \<Rightarrow> nat list \<Rightarrow> nat \<Rightarrow> 'a prog \<Rightarrow> 'a option list" where
  "endings ans p i (Ret a) = [Some a]"
| "endings ans p i Cut = [None]"
| "endings ans p i (Sys c k) =
     (if c = Other ''fork'' then endings ans (i # p) 0 (k 0) @ endings ans p (i + 1) (k (max 1 (ans p i)))
      else endings ans p (i + 1) (k (ans p i)))"

text \<open>The same with the answers left open: the ways in which the processes of a program may end.\<close>

inductive ends :: "'a prog \<Rightarrow> 'a option list \<Rightarrow> bool" where
  ends_Ret: "ends (Ret a) [Some a]"
| ends_Cut: "ends Cut [None]"
| ends_fork: "ends (k 0) es \<Longrightarrow> 0 < pid \<Longrightarrow> ends (k pid) es' \<Longrightarrow> ends (Sys (Other ''fork'') k) (es @ es')"
| ends_Sys: "c \<noteq> Other ''fork'' \<Longrightarrow> ends (k r) es \<Longrightarrow> ends (Sys c k) es"

inductive_simps ends_Ret_iff [simp]: "ends (Ret a) es"
inductive_simps ends_Cut_iff [simp]: "ends Cut es"
inductive_simps ends_Sys_iff: "ends (Sys c k) es"

lemma endings_ends: "ends q (endings ans p i q)"
proof (induction q arbitrary: p i)
  case (Sys c k)
  have k: "ends (k r) (endings ans p i (k r))" for r p i using Sys by blast
  show ?case
  proof (cases "c = Other ''fork''")
    case True
    have "ends (Sys c k) (endings ans (i # p) 0 (k 0) @ endings ans p (i + 1) (k (max 1 (ans p i))))"
      unfolding True by (rule ends_fork[OF k _ k]) simp
    then show ?thesis using True by simp
  next
    case False
    then show ?thesis using ends_Sys[OF False k] by simp
  qed
qed (simp_all add: ends.intros)

lemma ends_call [simp]: "c \<noteq> Other ''fork'' \<Longrightarrow> ends (Sys c k) es \<longleftrightarrow> (\<exists>r. ends (k r) es)"
  by (auto simp: ends_Sys_iff)

lemma ends_fork_iff: "ends (Sys (Other ''fork'') k) es \<longleftrightarrow>
    (\<exists>es1 es2 pid. es = es1 @ es2 \<and> ends (k 0) es1 \<and> 0 < pid \<and> ends (k pid) es2)"
  by (auto simp: ends_Sys_iff)

text \<open>Sequences: what follows runs in every process that comes to it.\<close>

definition goes_on :: "('a \<Rightarrow> 'b prog) \<Rightarrow> 'a option \<Rightarrow> 'b option list \<Rightarrow> bool" where
  "goes_on f x es = (case x of None \<Rightarrow> es = [None] | Some a \<Rightarrow> ends (f a) es)"

lemma goes_on_simps [simp]: "goes_on f None es \<longleftrightarrow> es = [None]" "goes_on f (Some a) es \<longleftrightarrow> ends (f a) es"
  by (simp_all add: goes_on_def)

lemma ends_seq: "ends (seq q f) es \<Longrightarrow> \<exists>xs ess. ends q xs \<and> list_all2 (goes_on f) xs ess \<and> es = concat ess"
proof (induction q arbitrary: es)
  case (Ret a)
  then show ?case by (auto intro!: exI[of _ "[es]"])
next
  case Cut
  then show ?case by (auto intro!: exI[of _ "[es]"])
next
  case (Sys c k)
  note ih = Sys.IH[OF rangeI]
  show ?case
  proof (cases "c = Other ''fork''")
    case True
    obtain es1 es2 pid where e: "es = es1 @ es2" "ends (seq (k 0) f) es1" "0 < pid" "ends (seq (k pid) f) es2"
      using Sys.prems unfolding True by (auto simp: ends_fork_iff)
    obtain xs1 ess1 where 1: "ends (k 0) xs1" "list_all2 (goes_on f) xs1 ess1" "es1 = concat ess1" using ih[OF e(2)] by blast
    obtain xs2 ess2 where 2: "ends (k pid) xs2" "list_all2 (goes_on f) xs2 ess2" "es2 = concat ess2" using ih[OF e(4)] by blast
    have "ends (Sys c k) (xs1 @ xs2)" unfolding True using 1(1) e(3) 2(1) by (rule ends_fork)
    moreover have "list_all2 (goes_on f) (xs1 @ xs2) (ess1 @ ess2)" "es = concat (ess1 @ ess2)"
      using 1 2 e(1) by (simp_all add: list_all2_appendI)
    ultimately show ?thesis by blast
  next
    case False
    then show ?thesis using Sys.prems ih by fastforce
  qed
qed

lemma ends_unit: "ends (seq_unit (do_call c) q) es \<Longrightarrow> c \<noteq> Other ''fork'' \<Longrightarrow> ends q es"
  by (simp add: do_call_def)

text \<open>A part of the program that forks nobody, and what its result satisfies if there is one.\<close>

definition alone :: "('a \<Rightarrow> bool) \<Rightarrow> 'a prog \<Rightarrow> bool" where
  "alone P q \<longleftrightarrow> (\<forall>es. ends q es \<longrightarrow> (\<exists>x. es = [x] \<and> pred_option P x))"

abbreviation always :: "'a \<Rightarrow> bool" where
  "always \<equiv> \<lambda>_. True"

named_theorems alone_rules \<open>programs that fork nobody\<close>

lemma alone_seq [alone_rules]:
  assumes "alone always q" and "\<And>a. alone P (f a)"
  shows "alone P (seq q f)"
  unfolding alone_def
proof (intro allI impI)
  fix es assume "ends (seq q f) es"
  then obtain xs ess where x: "ends q xs" "list_all2 (goes_on f) xs ess" "es = concat ess" using ends_seq by blast
  then obtain y where "xs = [y]" using assms(1) by (auto simp: alone_def)
  then show "\<exists>x. es = [x] \<and> pred_option P x"
    using x(2,3) assms(2) by (cases y) (auto simp: alone_def list_all2_Cons1)
qed

lemma alone_Sys [alone_rules]: "c \<noteq> Other ''fork'' \<Longrightarrow> (\<And>r. alone P (k r)) \<Longrightarrow> alone P (Sys c k)"
  unfolding alone_def by auto

lemma alone_base [alone_rules]: "P a \<Longrightarrow> alone P (Ret a)" "alone P Cut"
  by (simp_all add: alone_def)

lemma alone_do_call [alone_rules]: "c \<noteq> Other ''fork'' \<Longrightarrow> alone always (do_call c)"
  by (simp add: alone_def do_call_def)

lemma alone_if [alone_rules]:
  "(b \<Longrightarrow> alone P p) \<Longrightarrow> (\<not> b \<Longrightarrow> alone P q) \<Longrightarrow> alone P (if b then p else q)"
  by simp

lemma alone_in_turn [alone_rules]: "list_all (alone always) ps \<Longrightarrow> alone always (in_turn ps)"
  by (induction ps) (auto intro!: alone_rules)

lemma alone_info [alone_rules]: "alone always (show_process_info d c a)"
  unfolding show_process_info_def by (intro alone_rules) simp_all

lemma alone_structure [alone_rules]: "alone always (show_process_tree_structure p d c)"
  unfolding show_process_tree_structure_def Let_def by (intro alone_rules) simp_all

lemma alone_wait [alone_rules]: "alone always (wait_turns n start sl r)"
proof (induction n arbitrary: r)
  case (Suc n)
  show ?case unfolding wait_turns.simps Let_def by (intro alone_rules Suc) simp_all
qed (simp add: alone_base)

lemma alone_kill [alone_rules]: "alone always (kill_all pids)"
  by (induction pids) (auto intro!: alone_rules)

lemma alone_mind [alone_rules]: "alone always (mind_children n sl pids)"
  unfolding mind_children_def by (intro alone_rules) simp_all

lemma alone_leaf [alone_rules]: "alone always (leaf_turns mul n start sl c)"
proof (induction n arbitrary: c)
  case (Suc n)
  show ?case unfolding leaf_turns.simps Let_def by (intro alone_rules Suc) simp_all
qed (simp add: alone_base)

text \<open>What runs before the forks: calls that always come to an end.\<close>

definition shown :: "unit prog \<Rightarrow> bool" where
  "shown q \<longleftrightarrow> (\<forall>es. ends q es \<longrightarrow> es = [Some ()])"

lemma shown_rules: "shown (Ret ())" "c \<noteq> Other ''fork'' \<Longrightarrow> shown (do_call c)" "shown (show_process_info d n a)"
    "shown (show_process_tree_structure p d n)"
  by (auto simp: shown_def do_call_def show_process_info_def show_process_tree_structure_def Let_def split: if_splits)

lemma shown_seq:
  assumes "shown q" and "ends (seq_unit q r) es"
  shows "ends r es"
proof -
  obtain xs ess where x: "ends q xs" "list_all2 (goes_on (\<lambda>_. r)) xs ess" "es = concat ess"
    using ends_seq[OF assms(2)] by blast
  then have "xs = [Some ()]" using assms(1) by (simp add: shown_def)
  then show ?thesis using x(2,3) by (auto simp: list_all2_Cons1)
qed

lemma shown_in_turn: "list_all shown ps \<Longrightarrow> shown (in_turn ps)"
  by (induction ps) (auto simp: shown_rules(1), auto simp: shown_def dest: shown_seq[unfolded shown_def, rotated])

text \<open>The children of a loop of forks, and after them the parent.\<close>

definition child_ending :: "flow option \<Rightarrow> flow option" where
  "child_ending = map_option (\<lambda>f. case f of Back _ \<Rightarrow> Exits | _ \<Rightarrow> f)"

lemma seq_assoc [simp]: "seq (seq p f) g = seq p (\<lambda>a. seq (f a) g)"
  by (induction p) auto

lemma seq_Ret [simp]: "seq p Ret = p"
  by (induction p) auto

lemma ends_exits: "ends (seq exits f) es \<longleftrightarrow> ends (f Exits) es"
  by (auto simp: do_call_def)

lemma child_leaves:
  assumes "list_all2 (goes_on (\<lambda>a. seq (case a of Back _ \<Rightarrow> seq exits (\<lambda>x. Ret (Inl x)) | _ \<Rightarrow> Ret (Inl a))
      (\<lambda>x. case x of Inl f \<Rightarrow> Ret f | Inr ps \<Rightarrow> g ps))) xs ess"
  shows "concat ess = List.map child_ending xs"
  using assms
proof (induction xs ess rule: list_all2_induct)
  case (Cons x xs e ess)
  have "e = [child_ending x]"
    using Cons.hyps(1) by (cases x) (auto simp: child_ending_def do_call_def split: flow.splits)
  then show ?case using Cons.IH by simp
qed simp

lemma fork_children_ends:
  "ends (seq (fork_children child is pids) (\<lambda>x. case x of Inl f \<Rightarrow> Ret f | Inr ps \<Rightarrow> g ps)) es \<Longrightarrow>
   \<exists>xss es' ps. es = List.map child_ending (concat xss) @ es' \<and> list_all2 (\<lambda>i xs. ends (child i) xs) is xss \<and> ends (g ps) es'"
proof (induction "is" arbitrary: pids es)
  case (Cons i "is")
  obtain es1 es2 pid where e: "es = es1 @ es2" "0 < pid"
    "ends (seq (child i) (\<lambda>a. seq (case a of Back _ \<Rightarrow> seq exits (\<lambda>x. Ret (Inl x)) | _ \<Rightarrow> Ret (Inl a))
       (\<lambda>x. case x of Inl f \<Rightarrow> Ret f | Inr ps \<Rightarrow> g ps))) es1"
    "ends (seq (fork_children child is (pids @ [pid])) (\<lambda>x. case x of Inl f \<Rightarrow> Ret f | Inr ps \<Rightarrow> g ps)) es2"
    using Cons.prems by (auto simp: ends_fork_iff)
  obtain xs where xs: "ends (child i) xs" "es1 = List.map child_ending xs"
    using ends_seq[OF e(3)] child_leaves by blast
  obtain xss es' ps where "es2 = List.map child_ending (concat xss) @ es'" "list_all2 (\<lambda>i xs. ends (child i) xs) is xss"
    "ends (g ps) es'" using Cons.IH[OF e(4)] by blast
  then show ?case
    using e(1) xs by (intro exI[of _ "xs # xss"]) auto
qed auto

definition family :: "nat \<Rightarrow> nat \<Rightarrow> flow option list \<Rightarrow> bool" where
  "family size_of count es \<longleftrightarrow> (\<exists>xs x. es = xs @ [x] \<and> length es = size_of
     \<and> list_all (\<lambda>y. \<forall>c. y \<noteq> Some (Back c)) xs \<and> (\<forall>c. x = Some (Back c) \<longrightarrow> c = count))"

lemma family_sizes: "list_all2 (\<lambda>i xs. length xs = s) is xss \<Longrightarrow> length (concat xss) = length is * s"
  by (induction "is" xss rule: list_all2_induct) simp_all

lemma tree_worker_family:
  "ends (tree_worker mul n b sl levels depth child count) es \<Longrightarrow> family (\<Sum>j\<le>levels. b ^ j) (count + 1) es"
proof (induction levels arbitrary: depth child count es)
  case 0
  have "alone (\<lambda>f. \<forall>c. f = Back c \<longrightarrow> c = count + 1) (tree_worker mul n b sl 0 depth child count)"
    unfolding tree_worker.simps[of _ _ _ _ 0] Let_def nat.case by (intro alone_rules; simp add: alone_rules)
  then obtain x where "es = [x]" "pred_option (\<lambda>f. \<forall>c. f = Back c \<longrightarrow> c = count + 1) x"
    using 0 unfolding alone_def by blast
  then show ?case by (auto simp: family_def)
next
  case (Suc k)
  let ?leave = "seq_unit (show_process_info depth child ''exit'') (Ret (Back (count + 1)))"
  let ?start = "in_turn [do_call (Other ''signal(SIGINT)''), do_call (Other ''signal(SIGTERM)''),
    show_process_info depth child ''start'']"
  have s: "shown ?start" by (rule shown_in_turn) (simp add: shown_rules)
  have h: "ends (seq_unit ?start (Sys (Other ''getpid'') (\<lambda>pid. seq_unit (show_process_tree_structure pid depth child)
      (seq (fork_children (\<lambda>i. tree_worker mul n b sl k (depth + 1) i (count + 1)) [0..<b] [])
        (\<lambda>x. case x of Inl f \<Rightarrow> Ret f | Inr ps \<Rightarrow> seq (mind_children n sl ps) (\<lambda>_. ?leave)))))) es"
    using Suc.prems by (simp only: tree_worker.simps[of _ _ _ _ "Suc k"] Let_def nat.case)
  have "Other ''getpid'' \<noteq> Other ''fork''" by simp
  then obtain pid where "ends (seq_unit (show_process_tree_structure pid depth child)
      (seq (fork_children (\<lambda>i. tree_worker mul n b sl k (depth + 1) i (count + 1)) [0..<b] [])
        (\<lambda>x. case x of Inl f \<Rightarrow> Ret f | Inr ps \<Rightarrow> seq (mind_children n sl ps) (\<lambda>_. ?leave)))) es"
    using iffD1[OF ends_call shown_seq[OF s h]] by blast
  from fork_children_ends[OF shown_seq[OF shown_rules(4) this]] obtain xss es' ps where
    e: "es = List.map child_ending (concat xss) @ es'" "ends (seq (mind_children n sl ps) (\<lambda>_. ?leave)) es'"
    and c: "list_all2 (\<lambda>i xs. ends (tree_worker mul n b sl k (depth + 1) i (count + 1)) xs) [0..<b] xss" by blast
  have "alone (\<lambda>f. f = Back (count + 1)) (seq (mind_children n sl ps) (\<lambda>_. ?leave))"
    by (intro alone_rules) simp
  then obtain z where z: "es' = [z]" "pred_option (\<lambda>f. f = Back (count + 1)) z"
    using e(2) unfolding alone_def by blast
  have "list_all2 (\<lambda>i xs. length xs = (\<Sum>j\<le>k. b ^ j)) [0..<b] xss"
    by (rule list_all2_mono[OF c]) (use Suc.IH in \<open>auto simp: family_def\<close>)
  then have "length (concat xss) + 1 = (\<Sum>j\<le>Suc k. b ^ j)"
    unfolding sum.atMost_Suc_shift by (simp add: family_sizes sum_distrib_left)
  moreover have "child_ending y \<noteq> Some (Back c)" for y c
    by (cases y) (auto simp: child_ending_def split: flow.split)
  ultimately show ?case
    using z(2) unfolding e(1) z(1) family_def by (auto simp: list_all_iff)
qed

text \<open>The topologies.\<close>

lemma linear_ends: "ends (linear_chain sl [1..<5]) es \<Longrightarrow> es = [Some Exits] @ replicate 4 (Some (Back 0))"
proof -
  have "[1..<5] = [1, 2, 3, 4 :: nat]" by (simp add: upt_rec)
  moreover assume "ends (linear_chain sl [1..<5]) es"
  ultimately show ?thesis by (auto simp: ends_fork_iff do_call_def numeral_eq_Suc)
qed

lemma star_ends: "ends (create_special_topology 2 sl) es \<Longrightarrow> es = replicate 5 (Some Exits) @ [Some (Back 0)]"
proof -
  have "[0..<5] = [0, 1, 2, 3, 4 :: nat]" by (simp add: upt_rec)
  moreover assume "ends (create_special_topology 2 sl) es"
  ultimately show ?thesis by (auto simp: create_special_topology_def ends_fork_iff do_call_def numeral_eq_Suc)
qed

lemma binary_child_leaves:
  "list_all2 (goes_on (\<lambda>x. case x of Back _ \<Rightarrow> exits | _ \<Rightarrow> Ret x)) (replicate m (Some Exits) @ [Some (Back 0)]) ess \<Longrightarrow>
   concat ess = replicate (m + 1) (Some Exits)"
proof (induction m arbitrary: ess)
  case 0
  then show ?case by (auto simp: list_all2_Cons1 do_call_def)
next
  case (Suc m)
  then show ?case by (auto simp: list_all2_Cons1)
qed

lemma binary_ends:
  "ends (binary_node levels depth) es \<Longrightarrow> \<exists>n. es = replicate n (Some Exits) @ [Some (Back 0)] \<and> n + 2 = 2 ^ (levels + 1)"
proof (induction levels arbitrary: depth es)
  case (Suc k)
  let ?child = "seq (binary_node k (depth + 1)) (\<lambda>x. case x of Back _ \<Rightarrow> exits | _ \<Rightarrow> Ret x)"
  have child: "es = replicate (2 ^ (k + 1) - 1) (Some Exits)" if c: "ends ?child es" for es
  proof -
    obtain xs ess where x: "ends (binary_node k (depth + 1)) xs" "es = concat ess"
      "list_all2 (goes_on (\<lambda>x. case x of Back _ \<Rightarrow> exits | _ \<Rightarrow> Ret x)) xs ess"
      using ends_seq[OF c] by blast
    obtain n where n: "xs = replicate n (Some Exits) @ [Some (Back 0)]" "n + 2 = 2 ^ (k + 1)" using Suc.IH[OF x(1)] by blast
    have "es = replicate (n + 1) (Some Exits)" using binary_child_leaves x(2,3) n(1) by simp
    moreover have "n + 1 = 2 ^ (k + 1) - 1" using n(2) by simp
    ultimately show ?thesis by (simp only:)
  qed
  obtain es1 es2 where e: "es = es1 @ es2 @ [Some (Back 0)]" "ends ?child es1" "ends ?child es2"
    using Suc.prems by (auto simp: Let_def do_call_def ends_fork_iff)
  have "es = replicate (2 * (2 ^ (k + 1) - 1)) (Some Exits) @ [Some (Back 0)]"
    unfolding e(1) child[OF e(2)] child[OF e(3)] by (simp add: replicate_add mult_2)
  moreover have "2 * (2 ^ (k + 1) - 1) + 2 = (2 :: nat) ^ (Suc k + 1)"
    using not0_implies_Suc[of "2 ^ k :: nat"] by auto
  ultimately show ?case by blast
qed simp

lemma main_ends:
  assumes "ends (seq q (\<lambda>x. case x of Back count \<Rightarrow> seq_unit (printf (digits count)) (Ret (Back count)) | _ \<Rightarrow> Ret x)) es"
  shows "ends q es"
proof -
  have "concat ess = xs" if "list_all2 (goes_on (\<lambda>x. case x of
      Back count \<Rightarrow> seq_unit (printf (digits count)) (Ret (Back count)) | _ \<Rightarrow> Ret x)) xs ess" for xs ess
    using that
  proof (induction xs ess rule: list_all2_induct)
    case (Cons x xs e ess)
    have "e = [x]" using Cons.hyps(1) by (cases x) (auto simp: do_call_def split: flow.splits)
    then show ?case using Cons.IH by simp
  qed simp
  then show ?thesis using ends_seq[OF assms] by blast
qed

lemma number_is_no_word:
  "\<not> asks_help (digits n # args)" "special_topology (digits n # args) = 0"
proof -
  obtain c cs where d: "digits n = c # cs" "isdigit c"
    using digits_read[of n] by (cases "digits n") auto
  have "\<not> isdigit (CHR ''-'')" "\<not> isdigit (CHR ''l'')" "\<not> isdigit (CHR ''s'')" "\<not> isdigit (CHR ''b'')"
    by (simp_all add: isdigit_def)
  then show "\<not> asks_help (digits n # args)" "special_topology (digits n # args) = 0"
    using d by (auto simp: asks_help_def special_topology_def)
qed

lemma estimate_fits_arguments:
  assumes "estimate_fits b d" and "0 < b" and "0 < d"
  shows "numbers_fit [digits d, digits b] [0, 1, 2]"
proof -
  have b: "1 < b" using assms(1,2) by (cases "b = 1") (auto simp: estimate_fits_def estimated_processes_def)
  then have s: "(\<Sum>k\<le>d. b ^ k) \<le> 2147483647"
    using assms(1) estimate_exact[OF b] by (simp add: estimate_fits_def in_i32_def del: of_nat_sum)
  have "b ^ d \<le> (\<Sum>k\<le>d. b ^ k)" by (rule member_le_sum) simp_all
  moreover have "b \<le> b ^ d" using assms(2,3) self_le_power[of b d] by simp
  moreover have "d < b ^ d" using power_gt_expt[of b d] b by simp
  ultimately have "b \<le> 2147483647 \<and> d \<le> 2147483647" using s by linarith
  then show ?thesis by (simp add: numbers_fit_def int_arg_def atoi_digits in_i32_def)
qed

text \<open>
  Property C34. Every process of a run counted, whatever each call of each process answers as long
  as no \<^verbatim>\<open>fork\<close> fails. For a depth d and a branch factor b from 1 on, when the estimate that \<^verbatim>\<open>main\<close> prints
  first is a number of \<^verbatim>\<open>int\<close>, the program consists of the processes of the tree, at most one of them
  comes back to \<^verbatim>\<open>main\<close>, and the total that it then prints is 1; when it is not (b is 1, where it
  divides by zero, or the tree has more than 2147483647 processes) \<^verbatim>\<open>main\<close> is undefined before the
  first \<^verbatim>\<open>fork\<close>. The chain has five processes of which four, not one, go through the end of \<^verbatim>\<open>main\<close> and
  print a total of 0 each; of the star and of the binary tree only the first one does.
\<close>

theorem tree_main_processes:
  assumes "0 < d" and "0 < b"
  shows "(let es = endings ans [] 0 (tree_main mul n [digits d, digits b])
      in if estimate_fits b d
         then length es = processes (worker_process (\<lambda>_. True) [] 0 d b 0 0)
           \<and> (\<exists>xs x. es = xs @ [x] \<and> (\<forall>c. Some (Back c) \<notin> set xs \<and> (x = Some (Back c) \<longrightarrow> c = 1)))
         else es = [Some Overflow])
    \<and> endings ans [] 0 (tree_main mul n [''linear'']) = [Some Exits] @ replicate 4 (Some (Back 0))
    \<and> endings ans [] 0 (tree_main mul n [''star'']) = replicate 5 (Some Exits) @ [Some (Back 0)]
    \<and> endings ans [] 0 (tree_main mul n [''binary'']) = replicate 14 (Some Exits) @ [Some (Back 0)]"
  (is "?tree \<and> ?linear \<and> ?star \<and> ?binary")
proof (intro conjI)
  have prologue: "ends (in_turn [do_call (Other ''getpid''), do_call (Other ''time''),
      do_call (Other ''signal(SIGINT)''), do_call (Other ''signal(SIGTERM)'')]) xs \<Longrightarrow> xs = [Some ()]" for xs
    using shown_in_turn[of "[do_call (Other ''getpid''), do_call (Other ''time''),
      do_call (Other ''signal(SIGINT)''), do_call (Other ''signal(SIGTERM)'')]"]
    by (simp add: shown_rules) (simp add: shown_def)
  have args: "tree_arguments (int_arg [digits d, digits b] 0) (int_arg [digits d, digits b] 1)
      (int_arg [digits d, digits b] 2) = (int d, int b, 30)"
    using assms by (simp add: tree_arguments_def int_arg_def atoi_digits)
  show ?tree
  proof (cases "estimate_fits b d")
    case True
    define es where "es = endings ans [] 0 (tree_main mul n [digits d, digits b])"
    have "ends (tree_main mul n [digits d, digits b]) es" unfolding es_def by (rule endings_ends)
    then have "ends (tree_worker mul n b 30 d 0 0 0) es"
      using True estimate_fits_arguments[OF True assms(2,1)]
      by (auto simp: tree_main_def number_is_no_word args args[simplified] do_call_def intro: main_ends)
    then have "family (\<Sum>j\<le>d. b ^ j) 1 es" using tree_worker_family by fastforce
    then show ?thesis unfolding Let_def es_def[symmetric] using True by (fastforce simp: family_def processes_full list_all_iff)
  qed (simp add: tree_main_def number_is_no_word args args[simplified])
  have main: "ends (create_special_topology k 30) es"
    if "es = endings ans [] 0 (tree_main mul n [w])" "special_topology [w] = k" "0 < k" "\<not> asks_help [w]" for es k w
  proof -
    have "ends (tree_main mul n [w]) es" unfolding that(1) by (rule endings_ends)
    then show ?thesis
      using that(2-4)
      by (auto simp: tree_main_def tree_arguments_def numbers_fit_def int_arg_def do_call_def intro: main_ends)
  qed
  have "ends (create_special_topology 1 30) es \<Longrightarrow> es = [Some Exits] @ replicate 4 (Some (Back 0))" for es
    using linear_ends by (auto simp: create_special_topology_def do_call_def)
  then show ?linear using main[OF refl, of "''linear''" 1] by (simp add: special_topology_def asks_help_def)
  show ?star using star_ends[OF main[OF refl, of "''star''" 2]] by (simp add: special_topology_def asks_help_def)
  have "es = replicate 14 (Some Exits) @ [Some (Back 0)]" if "ends (create_special_topology 3 30) es" for es
    using binary_ends[of 3 0 es] that by (auto simp: create_special_topology_def)
  then show ?binary using main[OF refl, of "''binary''" 3] by (simp add: special_topology_def asks_help_def)
qed

text \<open>Two levels of three children each, and the chain, in a run in which every process has its own clock.\<close>

theorem tree_main_processes_witness:
  "(let ans = (\<lambda>p i. int (length p) + int i)
    in length (endings ans [] 0 (tree_main wrap_mul 1 [digits 2, digits 3])) = 13
      \<and> length (endings ans [] 0 (tree_main wrap_mul 1 [''linear''])) = 5
      \<and> endings ans [] 0 (tree_main wrap_mul 1 [digits 2, digits 1]) = [Some Overflow])"
proof -
  define ans :: "nat list \<Rightarrow> nat \<Rightarrow> int" where "ans = (\<lambda>p i. int (length p) + int i)"
  have "estimate_fits 3 2" "\<not> estimate_fits 1 2"
    by (simp_all add: estimate_fits_def estimated_processes_def in_i32_def)
  then show ?thesis
    using tree_main_processes[of 2 3 ans wrap_mul 1] tree_main_processes[of 2 1 ans wrap_mul 1]
    by (simp add: Let_def processes_full numeral_2_eq_2 flip: ans_def)
qed

section \<open>The children that are signalled\<close>

fun killed :: "trace \<Rightarrow> int list" where
  "killed [] = []"
| "killed ((Use s pid n, r) # tr) = pid # killed tr"
| "killed (_ # tr) = killed tr"

fun reaped :: "trace \<Rightarrow> int list" where
  "reaped [] = []"
| "reaped ((c, r) # tr) = (if c = Other ''waitpid'' \<and> 0 < r then [r] else []) @ reaped tr"

lemma trace_append: "killed (tr @ tr') = killed tr @ killed tr'" "reaped (tr @ tr') = reaped tr @ reaped tr'"
  by (induction tr rule: killed.induct) simp_all

lemma wait_turns_ensures:
  "ensures (wait_turns n start sl m) (\<lambda>tr r. killed tr = [] \<and> r = m - int (length (reaped tr)))"
proof (induction n arbitrary: m)
  case (Suc n)
  show ?case
    by (auto simp: Let_def intro!: ensures_mono[OF Suc])
qed simp

lemma kill_all_ensures: "ensures (kill_all pids) (\<lambda>tr r. killed tr = pids \<and> reaped tr = [])"
  by (induction pids) simp_all

lemma mind_children_ensures:
  "ensures (mind_children n sl pids) (\<lambda>tr m. m = int (length pids) - int (length (reaped tr))
     \<and> killed tr = (if 0 < m then pids else []))"
proof -
  have "ensures (wait_turns n start sl (int (length pids))) (\<lambda>tr m. ensures
      (if 0 < m then seq_unit (kill_all pids) (seq_unit (do_call (Other ''sleep(2)'')) (Ret m)) else Ret m)
      (\<lambda>tr' m. m = int (length pids) - int (length (reaped (tr @ tr'))) \<and> killed (tr @ tr') = (if 0 < m then pids else [])))"
    for start
    by (rule ensures_mono[OF wait_turns_ensures])
      (auto simp: trace_append intro!: ensures_mono[OF kill_all_ensures])
  then show ?thesis by (simp add: mind_children_def)
qed

text \<open>
  Property C35. A parent keeps no book of the children that have ended: when it stops waiting with
  children left it signals every pid it has ever recorded, those included that it has reaped and
  that may belong to other processes by then; with none left it signals nobody.
\<close>

theorem parent_signals_reaped:
  assumes "run (mind_children n sleep_time child_pids) answers = (tr, Some remaining)"
    and "set (reaped tr) \<subseteq> set child_pids"
  shows "remaining = int (length child_pids) - int (length (reaped tr))
    \<and> killed tr = (if 0 < remaining then child_pids else [])
    \<and> (0 < remaining \<longrightarrow> set (reaped tr) \<subseteq> set (killed tr))"
  using ensures_run[OF mind_children_ensures assms(1)] assms(2) by auto

text \<open>Two children, of which the first ends in time.\<close>

theorem parent_signals_reaped_witness:
  "(let (tr, x) = run (mind_children 5 3 [41, 42]) [100, 1, 41, 101, 0, 1, 0, 103, 0, 0, 0]
    in x = Some 1 \<and> reaped tr = [41] \<and> killed tr = [41, 42])"
proof -
  obtain tr x where r: "run (mind_children 5 3 [41, 42]) [100, 1, 41, 101, 0, 1, 0, 103, 0, 0, 0] = (tr, x)" by force
  then have "x = Some 1 \<and> reaped tr = [41]"
    by (auto simp: mind_children_def do_call_def numeral_eq_Suc Let_def)
  then show ?thesis using parent_signals_reaped[of 5 3 "[41, 42]" _ tr 1] r by simp
qed

section \<open>The work of a leaf\<close>

text \<open>
  A leaf squares the numbers up to 999999 in \<^verbatim>\<open>int\<close>. From 46341 on the squares do not fit, so by the C
  standard the very first cycle of its work is undefined; with a multiplication that wraps, a leaf
  ends as intended.
\<close>

theorem leaf_overflows:
  "\<not> work_cycle c_mul \<and> work_cycle wrap_mul \<and>
   (r \<noteq> 0 \<longrightarrow> run (leaf_turns c_mul (Suc n) start sleep_time c) (r # answers) = ([(Other ''running'', r)], Some False))"
proof -
  have "\<not> in_i32 (46341 * 46341)" by (simp add: in_i32_def)
  then have "c_mul 46341 46341 = None" by (simp add: c_mul_def)
  moreover have "(46341 :: int) \<in> set [0..999999]" unfolding set_upto by simp
  ultimately have "\<not> work_cycle c_mul" unfolding work_cycle_def list_all_iff by blast
  moreover have "work_cycle wrap_mul" by (simp add: work_cycle_def wrap_mul_def list_all_iff del: set_upto)
  ultimately show ?thesis by (simp add: Let_def)
qed

end
