(* ===== verification/Mem_Load.thy ===== *)
theory Mem_Load
  imports Prelude
begin

text \<open>
  The memory load generator of
  \<^verbatim>\<open>lab1-2-process-monitor/examples/sample_scripts/memory_intensive.c\<close>. The heap of the C library is
  the set of live addresses; what \<^verbatim>\<open>malloc\<close>, \<^verbatim>\<open>calloc\<close>, \<^verbatim>\<open>mprotect\<close> and \<^verbatim>\<open>rand\<close> answer is a parameter, and a
  \<^verbatim>\<open>free\<close> of an address that is not live, or the use of an uninitialised pointer, is \<open>None\<close>.
\<close>

section \<open>Blocks and the counter\<close>

record mem_state =
  live :: "nat set"
  memory_allocated :: u32

record memory_block =
  self :: nat
  address :: nat
  block_size :: u64
  block_id :: nat

definition take_addr :: "nat \<Rightarrow> mem_state \<Rightarrow> mem_state" where
  "take_addr p st = st\<lparr>live := insert p (live st)\<rparr>"

definition free_addr :: "nat \<Rightarrow> mem_state \<Rightarrow> mem_state option" where
  "free_addr p st = (if p \<in> live st then Some (st\<lparr>live := live st - {p}\<rparr>) else None)"

text \<open>\<open>m1\<close> and \<open>m2\<close> are the answers of \<^verbatim>\<open>malloc\<close> and \<^verbatim>\<open>calloc\<close>.\<close>

definition allocate_memory_block ::
  "nat option \<Rightarrow> nat option \<Rightarrow> u64 \<Rightarrow> nat \<Rightarrow> mem_state \<Rightarrow> (memory_block option \<times> mem_state) option" where
  "allocate_memory_block m1 m2 sz ident st =
     (case m1 of None \<Rightarrow> Some (None, st)
      | Some p \<Rightarrow>
          let st = take_addr p st
          in case m2 of None \<Rightarrow> do { st \<leftarrow> free_addr p st; Some (None, st) }
             | Some q \<Rightarrow>
                 let st = take_addr q st;
                     st = st\<lparr>memory_allocated := memory_allocated st + ucast sz\<rparr>
                 in Some (Some \<lparr>self = p, address = q, block_size = sz, block_id = ident\<rparr>, st))"

definition free_memory_block :: "memory_block \<Rightarrow> mem_state \<Rightarrow> mem_state option" where
  "free_memory_block b st = do {
     let st = st\<lparr>memory_allocated := memory_allocated st - ucast (block_size b)\<rparr>;
     st \<leftarrow> free_addr (address b) st;
     free_addr (self b) st }"

section \<open>The access patterns\<close>

text \<open>The offsets one round of \<^verbatim>\<open>sequential_access\<close> writes and reads.\<close>

function sequential_from :: "nat \<Rightarrow> nat \<Rightarrow> nat list" where
  "sequential_from sz i = (if i < sz then i # sequential_from sz (i + 4096) else [])"
  by pat_completeness auto
termination by (relation "measure (\<lambda>(sz, i). sz - i)") auto

declare sequential_from.simps [simp del]

text \<open>\<^verbatim>\<open>rand() % (size - 1)\<close> in \<^verbatim>\<open>size_t\<close>; \<open>None\<close> is a division by zero.\<close>

definition random_position :: "u64 \<Rightarrow> nat \<Rightarrow> u64 option" where
  "random_position sz r = (if sz - 1 = 0 then None else Some (of_nat r mod (sz - 1)))"

text \<open>One turn of \<^verbatim>\<open>page_fault_intensive\<close>: the pages that are writable and the faults so far.\<close>

definition page_turn :: "nat \<Rightarrow> nat \<times> bool \<times> nat \<times> bool \<Rightarrow> nat set \<times> nat \<Rightarrow> nat set \<times> nat" where
  "page_turn page_count turn s =
     (case turn of (r, ok, r2, ok2) \<Rightarrow> case s of (rw, faults) \<Rightarrow>
        let page = r mod page_count;
            (rw, faults) = (if ok then (insert page rw, faults + 1) else (rw, faults))
        in if faults mod 100 = 0 \<and> 0 < faults \<and> ok2 then (rw - {r2 mod page_count}, faults) else (rw, faults))"

fun page_fault_intensive ::
  "nat \<Rightarrow> (nat \<times> bool \<times> nat \<times> bool) list \<Rightarrow> nat set \<times> nat \<Rightarrow> nat set \<times> nat" where
  "page_fault_intensive page_count [] s = s"
| "page_fault_intensive page_count (t # ts) s =
     (if snd s < 10000 then page_fault_intensive page_count ts (page_turn page_count t s) else s)"

text \<open>\<^verbatim>\<open>memory_leak_simulation\<close> over the answers of \<^verbatim>\<open>malloc\<close>: what it has leaked.\<close>

fun memory_leak_simulation :: "nat option list \<Rightarrow> nat list \<Rightarrow> nat list" where
  "memory_leak_simulation [] leaked = leaked"
| "memory_leak_simulation (m # ms) leaked =
     (if length leaked < 50
      then memory_leak_simulation ms (case m of None \<Rightarrow> leaked | Some p \<Rightarrow> leaked @ [p])
      else leaked)"

section \<open>The fragmentation test\<close>

record frag_state =
  blocks :: "nat list"
  block_sizes :: "nat list"
  active_blocks :: nat
  frag_live :: "nat set"

definition frag_start :: "nat set \<Rightarrow> frag_state" where
  "frag_start H = \<lparr>blocks = replicate 100 0, block_sizes = replicate 100 0, active_blocks = 0, frag_live = H\<rparr>"

text \<open>The values of \<^verbatim>\<open>rand\<close> one turn may use, and the answer of \<^verbatim>\<open>malloc\<close>.\<close>

record frag_turn =
  coin :: nat
  numer :: nat
  denom :: nat
  pick :: nat
  answer :: "nat option"

definition frag_size :: "nat \<Rightarrow> nat \<Rightarrow> nat" where
  "frag_size a b = (a mod 10 + 1) * 1024 * 1024 div (b mod 10 + 1)"

definition shift_down :: "nat \<Rightarrow> nat \<Rightarrow> 'a list \<Rightarrow> 'a list" where
  "shift_down i n xs = fold (\<lambda>j xs. xs[j := xs ! (j + 1)]) [i..<n - 1] xs"

definition frag_step :: "frag_turn \<Rightarrow> frag_state \<Rightarrow> frag_state option" where
  "frag_step t s =
     (let n = active_blocks s in
      if n < 50 \<and> coin t mod 100 < 70 then
        (case answer t of
           None \<Rightarrow> Some (s\<lparr>blocks := (blocks s)[n := 0]\<rparr>)
         | Some p \<Rightarrow> Some (s\<lparr>blocks := (blocks s)[n := p],
                             block_sizes := (block_sizes s)[n := frag_size (numer t) (denom t)],
                             active_blocks := n + 1, frag_live := insert p (frag_live s)\<rparr>))
      else if 0 < n then
        (let i = pick t mod n; p = blocks s ! i
         in if p \<notin> frag_live s then None
            else Some (s\<lparr>blocks := shift_down i n (blocks s), block_sizes := shift_down i n (block_sizes s),
                         active_blocks := n - 1, frag_live := frag_live s - {p}\<rparr>))
      else Some s)"

fun free_each :: "nat list \<Rightarrow> nat set \<Rightarrow> nat set option" where
  "free_each [] H = Some H"
| "free_each (p # ps) H = (if p \<in> H then free_each ps (H - {p}) else None)"

definition frag_cleanup :: "frag_state \<Rightarrow> nat set option" where
  "frag_cleanup s = free_each (map ((!) (blocks s)) [0..<active_blocks s]) (frag_live s)"

section \<open>The main program\<close>

text \<open>Run time, megabytes, mode and threads; \<open>mode\<close> is \<^verbatim>\<open>atoi\<close>'s value read as an unsigned enum.\<close>

definition mem_arguments :: "int option \<Rightarrow> int option \<Rightarrow> int option \<Rightarrow> int \<times> int \<times> nat \<times> nat" where
  "mem_arguments a1 a2 a3 =
     (let run_time = (case a1 of None \<Rightarrow> 30 | Some v \<Rightarrow> if v \<le> 0 then 30 else v);
          memory_mb = (case a2 of None \<Rightarrow> 100 | Some v \<Rightarrow> if v < 0 then 100 else v);
          mode = (case a3 of None \<Rightarrow> 0 | Some v \<Rightarrow> if v < 0 \<or> 4 < v then 0 else nat v)
      in if mode = 2 \<or> mode = 3 then (run_time, 0, mode, 1) else (run_time, memory_mb, mode, 2))"

datatype cell = Uninit | Null | Block memory_block

text \<open>The loop that fills \<^verbatim>\<open>memory_blocks\<close>, and whether it ran to its end.\<close>

fun fill_blocks ::
  "u64 \<Rightarrow> (nat \<Rightarrow> nat option \<times> nat option) \<Rightarrow> nat list \<Rightarrow> cell list \<Rightarrow> mem_state \<Rightarrow> (bool \<times> cell list \<times> mem_state) option"
where
  "fill_blocks sz res [] cells st = Some (True, cells, st)"
| "fill_blocks sz res (i # is) cells st = do {
     (b, st) \<leftarrow> allocate_memory_block (fst (res i)) (snd (res i)) sz i st;
     case b of None \<Rightarrow> Some (False, cells[i := Null], st)
     | Some b \<Rightarrow> fill_blocks sz res is (cells[i := Block b]) st }"

text \<open>The loop at the label \<^verbatim>\<open>cleanup\<close>.\<close>

fun mem_cleanup :: "cell list \<Rightarrow> mem_state \<Rightarrow> mem_state option" where
  "mem_cleanup [] st = Some st"
| "mem_cleanup (c # cs) st =
     (case c of Uninit \<Rightarrow> None | Null \<Rightarrow> mem_cleanup cs st
      | Block b \<Rightarrow> do { st \<leftarrow> free_memory_block b st; mem_cleanup cs st })"

definition thread_block_size :: "int \<Rightarrow> u64" where
  "thread_block_size memory_mb = of_int memory_mb * 1024 * 1024 div 2"

text \<open>
  What \<^verbatim>\<open>main\<close> does to the blocks between the allocation of \<^verbatim>\<open>memory_blocks\<close> and its return.
\<close>

definition mem_main ::
  "nat \<Rightarrow> int \<Rightarrow> bool \<Rightarrow> (nat \<Rightarrow> nat option \<times> nat option) \<Rightarrow> mem_state \<Rightarrow> mem_state option" where
  "mem_main mode memory_mb threads_ok res st =
     (if mode \<le> 1 then
        if \<not> threads_ok then mem_cleanup (replicate 2 Uninit) st
        else do {
          (ok, cells, st) \<leftarrow> fill_blocks (thread_block_size memory_mb) res [0, 1] (replicate 2 Uninit) st;
          mem_cleanup cells st }
      else mem_cleanup (replicate 1 Uninit) st)"

section \<open>The blocks of main\<close>

definition answers :: "(nat \<Rightarrow> nat option \<times> nat option) \<Rightarrow> nat list" where
  "answers res = concat (map (\<lambda>r. case r of None \<Rightarrow> [] | Some p \<Rightarrow> [p])
     [fst (res 0), snd (res 0), fst (res 1), snd (res 1)])"

lemmas mem_simps = allocate_memory_block_def free_memory_block_def take_addr_def free_addr_def Let_def

lemma state_restored: "st\<lparr>live := live st, memory_allocated := memory_allocated st\<rparr> = (st :: mem_state)"
  by simp

text \<open>
  With the fresh addresses \<^verbatim>\<open>malloc\<close> gives, \<^verbatim>\<open>main\<close> returns every block and brings the
  counter back exactly when the mode is 0 or 1, the thread array was allocated, and the first
  block was too (even when the second was not). In every other run, so in the modes 2 to 4
  always, the cleanup loop uses a pointer that was never initialised.
\<close>

theorem mem_main_cleans_up:
  assumes "distinct (answers res)" and "set (answers res) \<inter> live st = {}"
  shows "mem_main mode memory_mb threads_ok res st =
    (if mode \<le> 1 \<and> threads_ok \<and> fst (res 0) \<noteq> None \<and> snd (res 0) \<noteq> None then Some st else None)"
proof -
  obtain m1 m2 n1 n2 where r: "res 0 = (m1, m2)" "res 1 = (n1, n2)" by (metis prod.exhaust)
  then have r': "res (Suc 0) = (n1, n2)" by simp
  have two: "replicate 2 Uninit = [Uninit, Uninit]" "replicate 1 Uninit = [Uninit]"
    by (simp_all add: numeral_2_eq_2)
  note fresh = assms[unfolded answers_def r fst_conv snd_conv]
  show ?thesis
    using fresh
    by (cases m1; cases m2; cases n1; cases n2)
      (auto simp: mem_main_def two r r' mem_simps insert_Diff_if intro!: mem_state.equality)
qed

theorem mem_main_cleans_up_witness:
  "mem_main 0 100 True (\<lambda>i. if i = 0 then (Some 16, Some 32) else (Some 48, None)) \<lparr>live = {}, memory_allocated = 0\<rparr>
     = Some \<lparr>live = {}, memory_allocated = 0\<rparr>"
  by (subst mem_main_cleans_up) (auto simp: answers_def)

section \<open>The fragmentation test\<close>

lemma shift_down_length: "length (shift_down i n xs) = length xs"
proof -
  have "length (fold (\<lambda>j xs. xs[j := xs ! (j + 1)]) js xs) = length xs" for js and xs :: "'a list"
    by (induction js arbitrary: xs) simp_all
  then show ?thesis by (simp add: shift_down_def)
qed

lemma shift_down_nth:
  assumes "n \<le> length xs" and "i < n" and "k < n - 1"
  shows "shift_down i n xs ! k = (if k < i then xs ! k else xs ! (k + 1))"
proof -
  have "fold (\<lambda>j xs. xs[j := xs ! (j + 1)]) [i..<i + d] xs ! k
      = (if i \<le> k \<and> k < i + d then xs ! (k + 1) else xs ! k)
    \<and> length (fold (\<lambda>j xs. xs[j := xs ! (j + 1)]) [i..<i + d] xs) = length xs"
    if "i + d < length xs" "k < length xs" for d k
    using that
  proof (induction d arbitrary: k)
    case 0
    then show ?case by auto
  next
    case (Suc d)
    then show ?case using Suc.IH[of k] Suc.IH[of "i + d + 1"] by (auto simp: nth_list_update)
  qed
  from this[of "n - 1 - i" k] show ?thesis using assms by (auto simp: shift_down_def)
qed

lemma shift_down_take:
  assumes "n \<le> length xs" and "i < n"
  shows "take (n - 1) (shift_down i n xs) = take i xs @ drop (i + 1) (take n xs)"
proof (rule nth_equalityI)
  show "length (take (n - 1) (shift_down i n xs)) = length (take i xs @ drop (i + 1) (take n xs))"
    using assms by (simp add: shift_down_length)
next
  fix k assume "k < length (take (n - 1) (shift_down i n xs))"
  then have "k < n - 1" by simp
  then show "take (n - 1) (shift_down i n xs) ! k = (take i xs @ drop (i + 1) (take n xs)) ! k"
    using assms by (simp add: shift_down_nth nth_append)
qed

lemma free_each_all: "distinct ps \<Longrightarrow> set ps \<inter> H = {} \<Longrightarrow> free_each ps (H \<union> set ps) = Some H"
  by (induction ps arbitrary: H) (auto simp: insert_Diff_if Un_commute)

definition frag_inv :: "nat set \<Rightarrow> frag_state \<Rightarrow> bool" where
  "frag_inv H s \<longleftrightarrow> length (blocks s) = 100 \<and> active_blocks s \<le> 50
     \<and> distinct (take (active_blocks s) (blocks s)) \<and> set (take (active_blocks s) (blocks s)) \<inter> H = {}
     \<and> frag_live s = H \<union> set (take (active_blocks s) (blocks s))"

inductive frag_reach :: "nat set \<Rightarrow> frag_state \<Rightarrow> bool" for H where
  start: "frag_reach H (frag_start H)"
| turn: "frag_reach H s \<Longrightarrow> (\<And>p. answer t = Some p \<Longrightarrow> p \<notin> frag_live s) \<Longrightarrow> frag_step t s = Some s' \<Longrightarrow>
     frag_reach H s'"

lemma removed:
  assumes "distinct xs" and "i < length xs"
  shows "set (take i xs @ drop (i + 1) xs) = set xs - {xs ! i}" "distinct (take i xs @ drop (i + 1) xs)"
proof -
  have "distinct (take i xs @ xs ! i # drop (i + 1) xs)" "set xs = set (take i xs @ xs ! i # drop (i + 1) xs)"
    using assms by (simp_all flip: id_take_nth_drop)
  then show "set (take i xs @ drop (i + 1) xs) = set xs - {xs ! i}"
    "distinct (take i xs @ drop (i + 1) xs)" by auto
qed

lemma frag_step_inv:
  assumes inv: "frag_inv H s" and fresh: "\<And>p. answer t = Some p \<Longrightarrow> p \<notin> frag_live s"
  shows "\<exists>s'. frag_step t s = Some s' \<and> frag_inv H s'"
proof -
  define n xs where "n = active_blocks s" and "xs = take n (blocks s)"
  have n: "n \<le> 50" and len: "length (blocks s) = 100" and d: "distinct xs" "set xs \<inter> H = {}"
    and l: "frag_live s = H \<union> set xs"
    using inv by (simp_all add: frag_inv_def n_def xs_def)
  consider (alloc) "n < 50 \<and> coin t mod 100 < 70" | (free) "\<not> (n < 50 \<and> coin t mod 100 < 70)" "0 < n"
    | (idle) "\<not> (n < 50 \<and> coin t mod 100 < 70)" "n = 0" by blast
  then show ?thesis
  proof cases
    case alloc
    have "take (n + 1) ((blocks s)[n := p]) = xs @ [p]" for p
      using n len by (simp add: take_Suc_conv_app_nth xs_def)
    moreover have "take n ((blocks s)[n := p]) = xs" for p by (simp add: xs_def)
    ultimately show ?thesis
      using alloc fresh n len d l
      by (cases "answer t") (auto simp: frag_step_def frag_inv_def Let_def simp flip: n_def)
  next
    case free
    define i where "i = pick t mod n"
    have i: "i < n" using free by (simp add: i_def)
    have lx: "length xs = n" using n len by (simp add: xs_def)
    have p: "blocks s ! i = xs ! i" using i by (simp add: xs_def)
    have x: "xs ! i \<in> set xs" using i lx by simp
    then have "xs ! i \<notin> H" using d(2) by blast
    moreover have "take (n - 1) (shift_down i n (blocks s)) = take i xs @ drop (i + 1) xs"
      using shift_down_take[of n "blocks s" i] i n len by (simp add: xs_def min_def)
    ultimately show ?thesis
      using x free n len d l removed[OF d(1), of i] i lx p
      by (auto simp: frag_step_def frag_inv_def Let_def shift_down_length simp flip: n_def i_def)
  next
    case idle
    then show ?thesis using inv by (auto simp: frag_step_def Let_def simp flip: n_def)
  qed
qed

lemma frag_reach_inv: "frag_reach H s \<Longrightarrow> frag_inv H s"
proof (induction rule: frag_reach.induct)
  case start
  show ?case by (simp add: frag_inv_def frag_start_def)
next
  case (turn s t s')
  then show ?case using frag_step_inv[of H s t] by auto
qed

text \<open>
  Property C30. Whatever \<^verbatim>\<open>rand\<close> and \<^verbatim>\<open>malloc\<close> answer, the fragmentation test never holds more than 50
  of its 100 slots, never frees an address twice, and its cleanup leaves exactly the heap it
  started from.
\<close>

theorem fragmentation_test_safe:
  assumes "frag_reach H s" and "\<And>p. answer t = Some p \<Longrightarrow> p \<notin> frag_live s"
  shows "active_blocks s \<le> 50 \<and> frag_step t s \<noteq> None \<and> frag_cleanup s = Some H"
proof -
  note inv = frag_reach_inv[OF assms(1)]
  have "map ((!) (blocks s)) [0..<active_blocks s] = take (active_blocks s) (blocks s)"
    using inv by (intro nth_equalityI) (auto simp: frag_inv_def)
  then have "frag_cleanup s = Some H"
    using inv free_each_all[of "take (active_blocks s) (blocks s)" H]
    by (simp add: frag_cleanup_def frag_inv_def)
  moreover obtain s' where "frag_step t s = Some s'" using frag_step_inv[OF inv, of t] assms(2) by blast
  moreover have "active_blocks s \<le> 50" using inv by (simp add: frag_inv_def)
  ultimately show ?thesis by simp
qed

theorem fragmentation_test_safe_witness:
  "frag_cleanup (the (frag_step \<lparr>coin = 3, numer = 4, denom = 1, pick = 0, answer = Some 64\<rparr> (frag_start {16}))) = Some {16}"
proof -
  define t s where "t = \<lparr>coin = 3, numer = 4, denom = 1, pick = 0, answer = Some (64 :: nat)\<rparr>"
    and "s = the (frag_step t (frag_start {16}))"
  have "frag_step t (frag_start {16}) = Some s"
    by (simp add: s_def t_def frag_step_def frag_start_def)
  then have "frag_reach {16} s"
    by (rule frag_reach.turn[OF frag_reach.start, rotated]) (simp add: t_def frag_start_def)
  from fragmentation_test_safe[OF this, of "t\<lparr>answer := None\<rparr>"]
  show ?thesis by (simp add: s_def t_def)
qed

section \<open>Sizes and positions\<close>

lemma frag_size_bounds: "104857 \<le> frag_size a b \<and> frag_size a b \<le> 10485760"
proof -
  have b: "1 \<le> b mod 10 + 1" "b mod 10 + 1 \<le> 10" by simp_all
  have "1 * 1024 * 1024 div 10 \<le> (a mod 10 + 1) * 1024 * 1024 div (b mod 10 + 1)"
    by (rule order.trans[OF div_le_mono[of _ "(a mod 10 + 1) * 1024 * 1024"] div_le_mono2]) simp_all
  moreover have "(a mod 10 + 1) * 1024 * 1024 div (b mod 10 + 1) \<le> 10 * 1024 * 1024 div 1"
    by (rule order.trans[OF div_le_mono2[of 1] div_le_mono]) simp_all
  ultimately show ?thesis by (simp add: frag_size_def)
qed

text \<open>
  \<^verbatim>\<open>random_access\<close> stays inside its block, and never touches the last byte, when the block
  has at least two bytes; with one byte it divides by zero, and with none (0 MB is accepted) it
  writes at \<^verbatim>\<open>rand()\<close> bytes past a block of size 0.
\<close>

theorem random_position_range:
  assumes "r < 2147483648"
  shows "(2 \<le> sz \<longrightarrow> (\<exists>p. random_position sz r = Some p \<and> p < sz - 1))
    \<and> random_position 1 r = None \<and> random_position 0 r = Some (of_nat r)"
proof (intro conjI impI)
  assume sz: "2 \<le> sz"
  have "sz \<noteq> 1" using sz by (auto simp: word_le_nat_alt)
  then have "sz - 1 \<noteq> 0" by simp
  then show "\<exists>p. random_position sz r = Some p \<and> p < sz - 1"
    using word_mod_less_divisor[of "sz - 1" "of_nat r"] by (auto simp: random_position_def word_gt_0)
next
  show "random_position 1 r = None" by (simp add: random_position_def)
next
  have "unat (of_nat r :: u64) = r" using assms by (simp add: unat_of_nat take_bit_nat_eq_self)
  then have "(of_nat r :: u64) < - 1" using assms by (simp add: word_less_nat_alt unsigned_minus_1_eq_mask mask_eq_exp_minus_1)
  then have "unat ((of_nat r :: u64) mod - 1) = unat (of_nat r :: u64)"
    by (simp only: unat_mod_distrib word_less_nat_alt mod_less)
  then have "(of_nat r :: u64) mod - 1 = of_nat r" by (simp only: word_unat_eq_iff)
  then show "random_position 0 r = Some (of_nat r)" by (simp add: random_position_def)
qed

theorem random_position_range_witness:
  "random_position 52428800 99999999 \<noteq> None \<and> random_position 0 7 = Some 7"
  using random_position_range[of 99999999 52428800] random_position_range[of 7 2] by auto

lemma thread_block_size_exact:
  assumes "0 \<le> mb" and "mb < 2147483648"
  shows "uint (thread_block_size mb) = mb * 524288"
proof -
  have "uint (of_int mb * 1024 * 1024 :: u64) = uint (of_int (mb * 1048576) :: u64)"
    by (simp add: mult.commute)
  also have "\<dots> = mb * 1048576"
    using assms by (subst unsigned_of_int) (simp add: take_bit_int_eq_self)
  finally show ?thesis by (simp add: thread_block_size_def uint_div_distrib)
qed

text \<open>
  \<^verbatim>\<open>memory_allocated\<close> is an \<^verbatim>\<open>int\<close>: after both blocks are allocated it holds the requested
  megabytes in bytes modulo 2^32, and the amount the program reports is right exactly when fewer
  than 2048 MB were asked for.
\<close>

theorem reported_memory:
  assumes "0 \<le> mb" and "mb < 2147483648"
    and "\<And>i. fst (res i) \<noteq> None \<and> snd (res i) \<noteq> None" and "memory_allocated st = 0"
  shows "\<exists>cells' st'. fill_blocks (thread_block_size mb) res [0, 1] cells st = Some (True, cells', st')
    \<and> memory_allocated st' = of_int (mb * 1048576)
    \<and> (sint (memory_allocated st') = mb * 1048576 \<longleftrightarrow> mb < 2048)"
proof -
  obtain p q p' q' where r: "res 0 = (Some p, Some q)" "res 1 = (Some p', Some q')"
    using assms(3)[of 0] assms(3)[of 1] by (metis option.exhaust prod.collapse)
  then have r': "res (Suc 0) = (Some p', Some q')" by simp
  have "(ucast (thread_block_size mb) + ucast (thread_block_size mb) :: u32)
      = of_int (uint (thread_block_size mb) + uint (thread_block_size mb))"
    by (simp only: ucast_eq of_int_add)
  then have sum: "(ucast (thread_block_size mb) + ucast (thread_block_size mb) :: u32) = of_int (mb * 1048576)"
    using assms(1,2) by (simp add: thread_block_size_exact)
  have "sint (of_int (mb * 1048576) :: u32) = mb * 1048576 \<longleftrightarrow> mb < 2048"
    using assms(1) by (subst signed_of_int) (auto simp: signed_take_bit_int_eq_self_iff)
  then show ?thesis
    using assms(4) sum by (simp add: r r' mem_simps)
qed

end
