(* ===== verification/Mem_Programs.thy ===== *)
theory Mem_Programs
  imports Syscalls C_Text Mem_Load
begin

text \<open>
  The threads of \<^verbatim>\<open>memory_intensive.c\<close> from inside: each access pattern and \<^verbatim>\<open>main\<close> as programs over
  the calls they make, with their accesses to memory as uses of blocks. A result \<open>None\<close> is undefined
  behaviour: an access outside a block, a remainder by zero, a pointer or a thread that was never set,
  or a number outside \<^verbatim>\<open>int\<close>. Each thread is a program of its own: the theorems on \<^verbatim>\<open>main\<close> are about the
  main thread, and \<open>access_threads_safe\<close> is about the others while their block is held. What \<^verbatim>\<open>main\<close>
  prints is left out, so also that after a \<^verbatim>\<open>goto cleanup\<close> it prints an \<^verbatim>\<open>elapsed\<close> that was never set.
\<close>

section \<open>Memory information\<close>

fun status_lines :: "nat \<Rightarrow> int \<Rightarrow> unit prog" where
  "status_lines 0 f = Cut"
| "status_lines (Suc n) f =
     Sys (Use ''fgets'' f 255) (\<lambda>r.
       if r = -1 then Ret ()
       else Sys (Other ''strstr'') (\<lambda>m.
         seq_unit (if m \<noteq> 0 then do_call (Other ''printf'') else Ret ()) (status_lines n f)))"

definition show_own_memory :: "nat \<Rightarrow> unit prog" where
  "show_own_memory n =
     seq_unit (do_call (Other ''getpid''))
       (Sys (Acquire ''fopen /proc/self/status'') (\<lambda>f.
         if f = -1 then Ret () else seq_unit (status_lines n f) (do_call (Release ''fclose'' f))))"

section \<open>Access patterns\<close>

text \<open>An access at an offset of a block of the given size, if \<^verbatim>\<open>running\<close> still holds.\<close>

fun sweep :: "string \<Rightarrow> int \<Rightarrow> nat \<Rightarrow> nat list \<Rightarrow> unit option prog" where
  "sweep access data sz [] = Ret (Some ())"
| "sweep access data sz (i # is) =
     Sys (Other ''running'') (\<lambda>r.
       if r = 0 then Ret (Some ())
       else if sz \<le> i then Ret None
       else seq_unit (do_call (Use access data 0)) (sweep access data sz is))"

fun sequential_access :: "nat \<Rightarrow> int \<Rightarrow> nat \<Rightarrow> unit option prog" where
  "sequential_access 0 data sz = Cut"
| "sequential_access (Suc n) data sz =
     Sys (Other ''running'') (\<lambda>r.
       if r = 0 then Ret (Some ())
       else seq (sweep ''write'' data sz (sequential_from sz 0)) (\<lambda>x. case x of None \<Rightarrow> Ret None | Some _ \<Rightarrow>
         seq (sweep ''read'' data sz (sequential_from sz 0)) (\<lambda>x. case x of None \<Rightarrow> Ret None | Some _ \<Rightarrow>
           seq_unit (do_call (Other ''usleep'')) (sequential_access n data sz))))"

fun pokes :: "bool \<Rightarrow> int \<Rightarrow> u64 \<Rightarrow> nat \<Rightarrow> unit option prog" where
  "pokes write data sz 0 = Ret (Some ())"
| "pokes write data sz (Suc k) =
     Sys (Other ''running'') (\<lambda>r.
       if r = 0 then Ret (Some ())
       else Sys (Other ''rand'') (\<lambda>v.
         case random_position sz (nat v) of None \<Rightarrow> Ret None
         | Some p \<Rightarrow>
             if sz \<le> p then Ret None
             else seq_unit (if write then do_call (Other ''rand'') else Ret ())
               (seq_unit (do_call (Use (if write then ''write'' else ''read'') data 0)) (pokes write data sz k))))"

fun random_turns :: "nat \<Rightarrow> int \<Rightarrow> u64 \<Rightarrow> unit option prog" where
  "random_turns 0 data sz = Cut"
| "random_turns (Suc n) data sz =
     Sys (Other ''running'') (\<lambda>r.
       if r = 0 then Ret (Some ())
       else seq (pokes True data sz 1000) (\<lambda>x. case x of None \<Rightarrow> Ret None | Some _ \<Rightarrow>
         seq (pokes False data sz 1000) (\<lambda>x. case x of None \<Rightarrow> Ret None | Some _ \<Rightarrow>
           seq_unit (do_call (Other ''usleep'')) (random_turns n data sz))))"

definition random_access :: "nat \<Rightarrow> int \<Rightarrow> u64 \<Rightarrow> unit option prog" where
  "random_access n data sz =
     seq_unit (do_call (Other ''time'')) (seq_unit (do_call (Other ''srand'')) (random_turns n data sz))"

fun fault_turns :: "nat \<Rightarrow> int \<Rightarrow> nat \<Rightarrow> nat prog" where
  "fault_turns 0 memory faults = Cut"
| "fault_turns (Suc n) memory faults =
     Sys (Other ''running'') (\<lambda>r.
       if r = 0 \<or> 10000 \<le> faults then Ret faults
       else Sys (Other ''rand'') (\<lambda>page. Sys (Use ''mprotect(PROT_READ | PROT_WRITE)'' memory 0) (\<lambda>ok.
         let faults' = (if ok = 0 then faults + 1 else faults)
         in seq_unit (if ok = 0 then do_call (Use ''write'' memory 0) else Ret ())
           (seq_unit (if faults' mod 100 = 0 \<and> 0 < faults'
               then seq_unit (do_call (Other ''rand'')) (do_call (Use ''mprotect(PROT_NONE)'' memory 0)) else Ret ())
             (seq_unit (do_call (Other ''usleep'')) (fault_turns n memory faults'))))))"

definition page_fault_thread :: "nat \<Rightarrow> nat prog" where
  "page_fault_thread n =
     seq_unit (do_call (Other ''getpagesize''))
       (Sys (Acquire ''mmap(256 MB, PROT_NONE)'') (\<lambda>memory.
         if memory = -1 then seq_unit (do_call (Other ''perror'')) (Ret 0)
         else seq (fault_turns n memory 0) (\<lambda>faults.
           seq_unit (do_call (Release ''munmap'' memory)) (Ret faults))))"

fun leak_turns :: "nat \<Rightarrow> nat \<Rightarrow> nat prog" where
  "leak_turns 0 leak_count = Cut"
| "leak_turns (Suc n) leak_count =
     Sys (Other ''running'') (\<lambda>r.
       if r = 0 \<or> 50 \<le> leak_count then Ret leak_count
       else Sys (Acquire ''malloc(1 MB)'') (\<lambda>p.
         seq_unit (if p \<noteq> -1 then do_call (Use ''memset'' p 0) else Ret ())
           (seq_unit (do_call (Other ''sleep(2)'')) (leak_turns n (if p \<noteq> -1 then leak_count + 1 else leak_count)))))"

section \<open>The fragmentation test\<close>

fun free_upto :: "int list \<Rightarrow> unit prog" where
  "free_upto [] = Ret ()"
| "free_upto (p # ps) = seq_unit (do_call (Release ''free'' p)) (free_upto ps)"

fun frag_turns :: "nat \<Rightarrow> int list \<Rightarrow> nat \<Rightarrow> unit prog" where
  "frag_turns 0 bs active = Cut"
| "frag_turns (Suc n) bs active =
     (let again = (\<lambda>bs active. seq_unit (do_call (Other ''usleep'')) (frag_turns n bs active));
          free_one =
            (if 0 < active
             then Sys (Other ''rand'') (\<lambda>v. let i = nat v mod active in
               Sys (Release ''free'' (bs ! i)) (\<lambda>_. again (shift_down i active bs) (active - 1)))
             else again bs active);
          take_one = Sys (Other ''rand'') (\<lambda>a. Sys (Other ''rand'') (\<lambda>b.
            Sys (Acquire (''malloc '' @ digits (frag_size (nat a) (nat b)))) (\<lambda>p.
              if p = -1 then again (bs[active := -1]) active
              else Sys (Other ''rand'') (\<lambda>_. seq_unit (do_call (Use ''memset'' p 0))
                (again (bs[active := p]) (active + 1))))))
      in Sys (Other ''running'') (\<lambda>r.
           if r = 0 then free_upto (List.map ((!) bs) [0..<active])
           else if active < 50 then Sys (Other ''rand'') (\<lambda>c. if nat c mod 100 < 70 then take_one else free_one)
           else free_one))"

definition memory_fragmentation_test :: "nat \<Rightarrow> unit prog" where
  "memory_fragmentation_test n =
     seq_unit (do_call (Other ''time'')) (seq_unit (do_call (Other ''srand'')) (frag_turns n (replicate 100 (-1)) 0))"

section \<open>The main program\<close>

text \<open>A block with its memory: both handles and \<^verbatim>\<open>size\<close>. The counter \<^verbatim>\<open>memory_allocated\<close> is passed along.\<close>

definition allocate_block :: "u64 \<Rightarrow> u32 \<Rightarrow> ((int \<times> int \<times> u64) option \<times> u32) prog" where
  "allocate_block sz m =
     Sys (Acquire ''malloc(sizeof(memory_block_t))'') (\<lambda>p.
       if p = -1 then Ret (None, m)
       else Sys (Acquire ''calloc(1, size)'') (\<lambda>q.
         if q = -1 then seq_unit (do_call (Release ''free'' p)) (Ret (None, m))
         else seq_unit (do_call (Other ''pthread_mutex_lock''))
           (seq_unit (do_call (Other ''pthread_mutex_unlock''))
             (Ret (Some (p, q, sz), m + ucast sz)))))"

definition free_block :: "int \<times> int \<times> u64 \<Rightarrow> u32 \<Rightarrow> u32 prog" where
  "free_block b m = (case b of (p, q, sz) \<Rightarrow>
     seq_unit (do_call (Other ''pthread_mutex_lock'')) (seq_unit (do_call (Other ''pthread_mutex_unlock''))
       (seq_unit (do_call (Release ''free'' q)) (seq_unit (do_call (Release ''free'' p))
         (Ret (m - ucast sz))))))"

text \<open>An element of \<^verbatim>\<open>memory_blocks\<close>: never set, NULL, or a block with its memory.\<close>

datatype block_slot = Unset | NoBlock | Holds "int \<times> int \<times> u64"

text \<open>
  \<^verbatim>\<open>pthread_create\<close> answers a new thread, or -1 for an error, when it sets nothing. An element of
  \<^verbatim>\<open>threads\<close> that was not set is -1 here.
\<close>

definition start_thread :: "int \<Rightarrow> string \<Rightarrow> int prog" where
  "start_thread threads body =
     Sys (Acquire (''pthread_create '' @ body)) (\<lambda>t.
       if t = -1 then Ret (-1) else seq_unit (do_call (Use ''write'' threads 0)) (Ret t))"

text \<open>
  The loop that allocates a block and starts its thread: whether it ran to its end, the blocks, the
  threads and the counter.
\<close>

fun start_threads ::
  "int \<Rightarrow> int \<Rightarrow> string \<Rightarrow> u64 \<Rightarrow> nat list \<Rightarrow> block_slot list \<Rightarrow> int list \<Rightarrow> u32 \<Rightarrow> (bool \<times> block_slot list \<times> int list \<times> u32) prog"
where
  "start_threads memory_blocks threads body sz [] slots ts m = Ret (True, slots, ts, m)"
| "start_threads memory_blocks threads body sz (i # is) slots ts m =
     seq (allocate_block sz m) (\<lambda>(b, m).
       seq_unit (do_call (Use ''write'' memory_blocks 0))
         (case b of None \<Rightarrow> Ret (False, slots[i := NoBlock], ts, m)
          | Some b \<Rightarrow>
              seq (start_thread threads body) (\<lambda>t.
                start_threads memory_blocks threads body sz is (slots[i := Holds b]) (ts[i := t]) m)))"

text \<open>The wait in steps of five seconds; it answers \<^verbatim>\<open>elapsed\<close>, or \<open>None\<close> where that overflows.\<close>

function five_seconds :: "nat \<Rightarrow> int \<Rightarrow> int \<Rightarrow> int option prog" where
  "five_seconds n run_time elapsed =
     Sys (Other ''running'') (\<lambda>r.
       if r = 0 \<or> run_time \<le> elapsed then Ret (Some elapsed)
       else seq_unit (do_call (Other ''sleep(5)''))
         (if \<not> in_i32 (elapsed + 5) then Ret None
          else seq_unit (show_own_memory n) (five_seconds n run_time (elapsed + 5))))"
  by pat_completeness auto
termination by (relation "measure (\<lambda>(n, run_time, elapsed). nat (run_time - elapsed))") auto

declare five_seconds.simps [simp del]

text \<open>To join a thread that was never created is undefined.\<close>

fun join_threads :: "int \<Rightarrow> int list \<Rightarrow> unit option prog" where
  "join_threads threads [] = Ret (Some ())"
| "join_threads threads (t # ts) =
     seq_unit (do_call (Use ''read'' threads 0))
       (if t = -1 then Ret None else Sys (Release ''pthread_join'' t) (\<lambda>_. join_threads threads ts))"

text \<open>It answers the counter.\<close>

fun cleanup_blocks :: "int \<Rightarrow> block_slot list \<Rightarrow> u32 \<Rightarrow> u32 option prog" where
  "cleanup_blocks memory_blocks [] m = seq_unit (do_call (Release ''free'' memory_blocks)) (Ret (Some m))"
| "cleanup_blocks memory_blocks (s # ss) m =
     seq_unit (do_call (Use ''read'' memory_blocks 0))
       (case s of Unset \<Rightarrow> Ret None | NoBlock \<Rightarrow> cleanup_blocks memory_blocks ss m
        | Holds b \<Rightarrow> seq (free_block b m) (cleanup_blocks memory_blocks ss))"

text \<open>What \<^verbatim>\<open>main\<close> does once its threads run, up to \<^verbatim>\<open>cleanup\<close>.\<close>

definition wait_and_join :: "nat \<Rightarrow> int \<Rightarrow> int \<Rightarrow> int list \<Rightarrow> unit option prog" where
  "wait_and_join n run_time threads ts =
     seq (five_seconds n run_time 0) (\<lambda>elapsed.
       if elapsed = None then Ret None
       else seq_unit (do_call (Other ''running = 0''))
         (if threads \<noteq> -1
          then seq (join_threads threads ts) (\<lambda>joined.
            if joined = None then Ret None else seq_unit (do_call (Release ''free'' threads)) (Ret (Some ())))
          else Ret (Some ())))"

definition thread_body :: "nat \<Rightarrow> string" where
  "thread_body mode =
     [''sequential_access'', ''random_access'', ''page_fault_intensive'', ''memory_leak_simulation'',
      ''memory_fragmentation_test''] ! mode"

text \<open>\<^verbatim>\<open>main\<close>: its exit status and the last \<^verbatim>\<open>memory_allocated\<close>. \<open>cleanup\<close> is the code behind that label.\<close>

definition mem_program :: "nat \<Rightarrow> string list \<Rightarrow> (int \<times> u32) option prog" where
  "mem_program n args =
     (if asks_help args then seq_unit (do_call (Other ''show_usage'')) (Ret (Some (0, 0)))
      else if \<not> numbers_fit args [0, 1, 2] then Ret None
      else
        let (run_time, memory_mb, mode, num_threads) = mem_arguments (int_arg args 0) (int_arg args 1) (int_arg args 2);
            cleanup = (\<lambda>memory_blocks slots m. seq (cleanup_blocks memory_blocks slots m) (\<lambda>x.
              case x of None \<Rightarrow> Ret None
              | Some m \<Rightarrow> seq_unit (show_own_memory n)
                  (seq_unit (do_call (Other ''pthread_mutex_destroy'')) (Ret (Some (0, m))))))
        in seq_unit (show_own_memory n) (seq_unit (do_call (Other ''signal(SIGINT)''))
          (seq_unit (do_call (Other ''signal(SIGTERM)''))
          (Sys (Acquire ''malloc(num_threads * sizeof(memory_block_t*))'') (\<lambda>memory_blocks.
            if memory_blocks = -1 then Ret (Some (1, 0))
            else if mode \<le> 1 then
              Sys (Acquire ''malloc(num_threads * sizeof(pthread_t))'') (\<lambda>threads.
                if threads = -1 then cleanup memory_blocks (replicate num_threads Unset) 0
                else seq (start_threads memory_blocks threads (thread_body mode) (thread_block_size memory_mb)
                    [0..<num_threads] (replicate num_threads Unset) (replicate num_threads (-1)) 0) (\<lambda>(ok, slots, ts, m).
                  seq (if ok then wait_and_join n run_time threads ts else Ret (Some ())) (\<lambda>x.
                    if x = None then Ret None else cleanup memory_blocks slots m)))
            else
              Sys (Acquire ''malloc(sizeof(pthread_t))'') (\<lambda>threads.
                seq (start_thread threads (thread_body mode)) (\<lambda>t.
                  seq (wait_and_join n run_time threads [t]) (\<lambda>x.
                    if x = None then Ret None else cleanup memory_blocks (replicate 1 Unset) 0))))))))"

section \<open>The access patterns\<close>

lemma wp_status_lines: "f \<in> H \<Longrightarrow> Q H () \<Longrightarrow> wp F (status_lines n f) H Q"
  by (induction n) auto

lemma show_own_memory_balanced: "balanced F (show_own_memory n)"
  by (auto simp: balanced_def show_own_memory_def wp_status_lines)

lemma sequential_from_below: "list_all (\<lambda>j. j < sz) (sequential_from sz i)"
proof (induction sz i rule: sequential_from.induct)
  case (1 sz i)
  then show ?case by (subst sequential_from.simps) simp
qed

lemma wp_sweep:
  "list_all (\<lambda>j. j < sz) is \<Longrightarrow> data \<in> H \<Longrightarrow> Q H (Some ()) \<Longrightarrow> wp F (sweep access data sz is) H Q"
  by (induction "is") (simp_all add: not_le)

lemma wp_sequential_access: "data \<in> H \<Longrightarrow> Q H (Some ()) \<Longrightarrow> wp F (sequential_access n data sz) H Q"
  by (induction n) (simp_all add: wp_sweep sequential_from_below)

lemma random_position_inside: "2 \<le> sz \<Longrightarrow> \<exists>p. random_position sz v = Some p \<and> p < sz"
proof -
  assume sz: "2 \<le> sz"
  have "sz \<noteq> 1" using sz by (auto simp: word_le_nat_alt)
  then have "sz - 1 \<noteq> 0" by simp
  moreover have "sz - 1 < sz" using sz by (auto simp: word_le_nat_alt word_less_nat_alt unat_diff_exact)
  ultimately show ?thesis
    using word_mod_less_divisor[of "sz - 1" "of_nat v"] by (auto simp: random_position_def word_gt_0)
qed

lemma wp_pokes: "2 \<le> sz \<Longrightarrow> data \<in> H \<Longrightarrow> Q H (Some ()) \<Longrightarrow> wp F (pokes w data sz k) H Q"
proof (induction k)
  case (Suc k)
  have "\<exists>p. random_position sz (nat v) = Some p \<and> \<not> sz \<le> p" for v
    using random_position_inside[OF Suc.prems(1), of "nat v"] by (auto simp: not_le)
  then obtain f where f: "\<And>v. random_position sz (nat v) = Some (f v)" "\<And>v. \<not> sz \<le> f v" by metis
  show ?case using Suc by (cases w) (simp_all add: f)
qed simp

lemma wp_random_turns: "2 \<le> sz \<Longrightarrow> data \<in> H \<Longrightarrow> Q H (Some ()) \<Longrightarrow> wp F (random_turns n data sz) H Q"
  by (induction n) (simp_all add: wp_pokes del: pokes.simps)

lemma wp_random_access: "2 \<le> sz \<Longrightarrow> data \<in> H \<Longrightarrow> Q H (Some ()) \<Longrightarrow> wp F (random_access n data sz) H Q"
  by (simp add: random_access_def wp_random_turns)

lemma wp_fault_turns:
  "memory \<in> H \<Longrightarrow> faults \<le> 10000 \<Longrightarrow> (\<And>f. f \<le> 10000 \<Longrightarrow> Q H f) \<Longrightarrow> wp F (fault_turns n memory faults) H Q"
  by (induction n arbitrary: faults) (simp_all add: Let_def)

lemma wp_page_fault_thread: "wp F (page_fault_thread n) H (\<lambda>H' f. H' = H \<and> f \<le> 10000)"
  by (auto simp: page_fault_thread_def wp_fault_turns)

lemma wp_leak_turns:
  "finite H \<Longrightarrow> c \<le> 50 \<Longrightarrow>
   (\<And>H' c'. c \<le> c' \<Longrightarrow> c' \<le> 50 \<Longrightarrow> H \<subseteq> H' \<Longrightarrow> finite H' \<Longrightarrow> card H' + c = card H + c' \<Longrightarrow> Q H' c') \<Longrightarrow>
   wp F (leak_turns n c) H Q"
proof (induction n arbitrary: c H)
  case (Suc n)
  have "wp F (leak_turns n (c + 1)) (insert p H) Q" if "c < 50" "p \<notin> H" for p
    using Suc.prems(1) that by (intro Suc.IH) (auto intro!: Suc.prems(3))
  moreover have "wp F (leak_turns n c) H Q" using Suc by simp
  ultimately show ?case using Suc.prems by auto
qed simp

section \<open>The fragmentation test\<close>

text \<open>Besides \<open>H\<close> exactly the first \<open>n\<close> blocks of the array are held, each once.\<close>

definition frag_holds :: "int set \<Rightarrow> int list \<Rightarrow> nat \<Rightarrow> int set \<Rightarrow> bool" where
  "frag_holds H bs n H' \<longleftrightarrow> length bs = 100 \<and> n \<le> 50 \<and> distinct (take n bs) \<and> set (take n bs) \<inter> H = {}
     \<and> H' = H \<union> set (take n bs)"

lemma frag_holds_take:
  assumes "frag_holds H bs n H'" and "n < 50"
  shows "frag_holds H (bs[n := p]) n H'" and "p \<notin> H' \<Longrightarrow> frag_holds H (bs[n := p]) (Suc n) (insert p H')"
  using assms by (auto simp: frag_holds_def take_Suc_conv_app_nth)

lemma frag_holds_free:
  assumes "frag_holds H bs n H'" and "i < n"
  shows "bs ! i \<in> H'" and "frag_holds H (shift_down i n bs) (n - 1) (H' - {bs ! i})"
proof -
  have i: "i < length (take n bs)" "take n bs ! i = bs ! i" using assms by (auto simp: frag_holds_def)
  then have x: "bs ! i \<in> set (take n bs)" by (metis nth_mem)
  then show "bs ! i \<in> H'" using assms(1) by (auto simp: frag_holds_def)
  have "bs ! i \<notin> H" using x assms(1) by (auto simp: frag_holds_def)
  moreover have "take (n - 1) (shift_down i n bs) = take i (take n bs) @ drop (i + 1) (take n bs)"
    using shift_down_take[of n bs i] assms by (simp add: frag_holds_def min_def)
  ultimately show "frag_holds H (shift_down i n bs) (n - 1) (H' - {bs ! i})"
    using assms(1) removed[of "take n bs" i] i by (auto simp: frag_holds_def shift_down_length)
qed

lemma wp_free_upto: "distinct ps \<Longrightarrow> set ps \<subseteq> H \<Longrightarrow> Q (H - set ps) () \<Longrightarrow> wp F (free_upto ps) H Q"
proof (induction ps arbitrary: H)
  case (Cons p ps)
  have "H - {p} - set ps = H - set (p # ps)" by auto
  then show ?case using Cons.prems by (auto intro!: Cons.IH)
qed simp

lemma frag_holds_cleanup:
  assumes "frag_holds H bs n H'"
  shows "wp F (free_upto (List.map ((!) bs) [0..<n])) H' (\<lambda>H'' _. H'' = H)"
proof (rule wp_free_upto)
  have "List.map ((!) bs) [0..<n] = take n bs"
    using assms by (intro nth_equalityI) (auto simp: frag_holds_def)
  then show "distinct (List.map ((!) bs) [0..<n])" "set (List.map ((!) bs) [0..<n]) \<subseteq> H'"
    "H' - set (List.map ((!) bs) [0..<n]) = H"
    using assms by (auto simp: frag_holds_def)
qed

lemma wp_frag_turns: "frag_holds H bs active H' \<Longrightarrow> wp F (frag_turns n bs active) H' (\<lambda>H'' _. H'' = H)"
proof (induction n arbitrary: bs active H')
  case (Suc n)
  note inv = Suc.prems
  have stop: "wp F (free_upto (List.map ((!) bs) [0..<active])) H' (\<lambda>H'' _. H'' = H)"
    by (rule frag_holds_cleanup[OF inv])
  have idle: "wp F (frag_turns n bs active) H' (\<lambda>H'' _. H'' = H)" by (rule Suc.IH[OF inv])
  have take: "wp F (frag_turns n (bs[active := -1]) active) H' (\<lambda>H'' _. H'' = H)"
    "\<And>p. p \<notin> H' \<Longrightarrow> wp F (frag_turns n (bs[active := p]) (Suc active)) (insert p H') (\<lambda>H'' _. H'' = H)"
    if "active < 50"
    using frag_holds_take[OF inv that] by (auto intro: Suc.IH)
  have free: "bs ! (nat v mod active) \<in> H'"
    "wp F (frag_turns n (shift_down (nat v mod active) active bs) (active - 1)) (H' - {bs ! (nat v mod active)}) (\<lambda>H'' _. H'' = H)"
    if "0 < active" for v
    using frag_holds_free[OF inv, of "nat v mod active"] that by (auto intro: Suc.IH)
  show ?case using stop idle take free by (auto simp: Let_def)
qed simp

lemma memory_fragmentation_balanced: "balanced F (memory_fragmentation_test n)"
proof -
  have "frag_holds H (replicate 100 (-1)) 0 H" for H by (simp add: frag_holds_def)
  then show ?thesis by (auto simp: balanced_def memory_fragmentation_test_def intro!: wp_frag_turns)
qed

text \<open>These parts give back what they take, whatever is refused.\<close>

interpretation memory_info: balanced_program F show_own_memory for F
  by unfold_locales (rule show_own_memory_balanced)

interpretation fragmentation: balanced_program F memory_fragmentation_test for F
  by unfold_locales (rule memory_fragmentation_balanced)

interpretation page_faults: balanced_program F page_fault_thread for F
  by unfold_locales (auto simp: balanced_def intro!: wp_mono[OF wp_page_fault_thread])

section \<open>The main program\<close>

lemma wp_granted_info: "(\<And>a. Q H a) \<Longrightarrow> wp F (while_granted (show_own_memory n)) H Q"
  by (rule wp_while_granted, rule balancedD[OF show_own_memory_balanced])

text \<open>Counted in fives, a run time up to 2147483645 stays in \<^verbatim>\<open>int\<close>.\<close>

lemma wp_five_seconds:
  "rt \<le> 2147483645 \<Longrightarrow> 5 dvd e \<Longrightarrow> 0 \<le> e \<Longrightarrow> (\<And>e. Q H (Some e)) \<Longrightarrow>
   wp F (while_granted (five_seconds n rt e)) H Q"
proof (induction n rt e rule: five_seconds.induct)
  case (1 n rt e)
  have "in_i32 (e + 5)" if "\<not> rt \<le> e"
  proof -
    obtain k where k: "e = 5 * k" using 1(3) by blast
    then have "k < 429496729" using 1(2) that by simp
    then show ?thesis using 1(4) k by (simp add: in_i32_def)
  qed
  then show ?case by (subst five_seconds.simps) (use 1 in \<open>auto intro!: wp_granted_info\<close>)
qed

lemma wp_start_thread:
  "threads \<in> H \<Longrightarrow> (\<And>t. 0 \<le> t \<Longrightarrow> t \<notin> H \<Longrightarrow> Q (insert t H) t) \<Longrightarrow> wp F (while_granted (start_thread threads b)) H Q"
  by (simp add: start_thread_def)

lemma wp_join_threads:
  "threads \<in> H \<Longrightarrow> distinct ts \<Longrightarrow> -1 \<notin> set ts \<Longrightarrow> set ts \<subseteq> H \<Longrightarrow> threads \<notin> set ts \<Longrightarrow> Q (H - set ts) (Some ()) \<Longrightarrow>
   wp F (while_granted (join_threads threads ts)) H Q"
proof (induction ts arbitrary: H)
  case (Cons t ts)
  have "H - {t} - set ts = H - set (t # ts)" by auto
  then have "wp F (while_granted (join_threads threads ts)) (H - {t}) Q"
    using Cons.prems by (intro Cons.IH) auto
  then show ?case using Cons.prems by auto
qed simp

lemma wp_wait_and_join:
  assumes "rt \<le> 2147483645" "threads \<in> H" "threads \<noteq> -1" "distinct ts" "-1 \<notin> set ts" "set ts \<subseteq> H" "threads \<notin> set ts"
    and "Q (H - set ts - {threads}) (Some ())"
  shows "wp F (while_granted (wait_and_join n rt threads ts)) H Q"
  using assms by (auto simp: wait_and_join_def intro!: wp_five_seconds wp_join_threads)

lemma wp_allocate_block:
  "(\<And>p q. p \<notin> H \<Longrightarrow> q \<notin> insert p H \<Longrightarrow> Q (insert q (insert p H)) (Some (p, q, sz), m + ucast sz)) \<Longrightarrow>
   wp F (while_granted (allocate_block sz m)) H Q"
  by (simp add: allocate_block_def)

fun slot_handles :: "block_slot list \<Rightarrow> int list" where
  "slot_handles [] = []"
| "slot_handles (Holds b # ss) = fst (snd b) # fst b # slot_handles ss"
| "slot_handles (_ # ss) = slot_handles ss"

fun slot_bytes :: "block_slot list \<Rightarrow> u32" where
  "slot_bytes [] = 0"
| "slot_bytes (Holds b # ss) = ucast (snd (snd b)) + slot_bytes ss"
| "slot_bytes (_ # ss) = slot_bytes ss"

lemma wp_cleanup:
  "Unset \<notin> set slots \<Longrightarrow> distinct (mb # slot_handles slots) \<Longrightarrow> set (mb # slot_handles slots) \<subseteq> H \<Longrightarrow>
   Q (H - set (slot_handles slots) - {mb}) (Some (m - slot_bytes slots)) \<Longrightarrow>
   wp F (while_granted (cleanup_blocks mb slots m)) H Q"
proof (induction slots arbitrary: H m rule: slot_handles.induct)
  case (2 b ss)
  obtain p q sz where b: "b = (p, q, sz)" by (metis prod_cases3)
  have "wp F (while_granted (cleanup_blocks mb ss (m - ucast sz))) (H - {q} - {p}) Q"
  proof (rule "2.IH")
    have "H - {q} - {p} - set (slot_handles ss) - {mb} = H - set (slot_handles (Holds b # ss)) - {mb}"
      by (auto simp: b)
    then show "Q (H - {q} - {p} - set (slot_handles ss) - {mb}) (Some (m - ucast sz - slot_bytes ss))"
      using "2.prems"(4) by (simp add: b algebra_simps)
  qed (use "2.prems" b in auto)
  then show ?case using "2.prems" by (auto simp: free_block_def b)
qed simp_all

text \<open>The two blocks of the modes 0 and 1, from the start of the threads to the cleanup.\<close>

lemma wp_two_threads:
  assumes "rt \<le> 2147483645" "mb \<in> H" "threads \<in> H" "mb \<noteq> threads" "threads \<noteq> -1"
    and "Q (H - {threads} - {mb}) (Some 0)"
  shows "wp F (while_granted (start_threads mb threads body sz [0..<2] (replicate 2 Unset) (replicate 2 (-1)) 0)) H
    (\<lambda>H' (ok, slots, ts, m). ok \<and> wp F (while_granted (wait_and_join n rt threads ts)) H'
       (\<lambda>H' x. x = Some () \<and> wp F (while_granted (cleanup_blocks mb slots m)) H' Q))"
proof -
  have two: "[0..<2] = [0, Suc 0]" "replicate 2 Unset = [Unset, Unset]" "replicate 2 (-1) = [-1, -1 :: int]"
    by (simp_all add: numeral_2_eq_2 upt_rec)
  have gone: "insert t' (insert q' (insert p' (insert t (insert q (insert p H))))) - {t, t'} - {threads} - {q, p, q', p'} - {mb}
      = H - {threads} - {mb}"
    if "p \<notin> H" "q \<notin> insert p H" "t \<notin> insert q (insert p H)" "p' \<notin> insert t (insert q (insert p H))"
      "q' \<notin> insert p' (insert t (insert q (insert p H)))" "t' \<notin> insert q' (insert p' (insert t (insert q (insert p H))))"
    for p q t p' q' t'
    using that by auto
  have finish: "wp F (while_granted (wait_and_join n rt threads [t, t'])) H'
      (\<lambda>H' x. x = Some () \<and> wp F (while_granted (cleanup_blocks mb [Holds (p, q, sz), Holds (p', q', sz)] (2 * ucast sz))) H' Q)"
    if h: "p \<notin> H" "q \<notin> insert p H" "t \<notin> insert q (insert p H)" "p' \<notin> insert t (insert q (insert p H))"
      "q' \<notin> insert p' (insert t (insert q (insert p H)))" "t' \<notin> insert q' (insert p' (insert t (insert q (insert p H))))"
      "0 \<le> t" "0 \<le> t'"
      "H' = insert t' (insert q' (insert p' (insert t (insert q (insert p H)))))" for p q t p' q' t' H'
  proof (rule wp_wait_and_join[OF assms(1)])
    have "wp F (while_granted (cleanup_blocks mb [Holds (p, q, sz), Holds (p', q', sz)] (2 * ucast sz)))
        (H' - {t, t'} - {threads}) Q"
      by (rule wp_cleanup) (use h assms gone[OF h(1-6)] in auto)
    then show "Some () = Some () \<and> wp F (while_granted (cleanup_blocks mb [Holds (p, q, sz), Holds (p', q', sz)] (2 * ucast sz)))
        (H' - set [t, t'] - {threads}) Q" by simp
  qed (use h assms in auto)
  show ?thesis
    using assms
    by (auto simp: two simp del: cleanup_blocks.simps intro!: wp_allocate_block wp_start_thread finish)
qed

lemma mem_arguments_threads:
  "mem_arguments a b c = (rt, mb, mode, k) \<Longrightarrow> mode \<le> 1 \<Longrightarrow> k = 2"
  by (auto simp: mem_arguments_def Let_def split: if_splits)

lemma wp_mem_program:
  assumes m: "mem_arguments (int_arg args 0) (int_arg args 1) (int_arg args 2) = (rt, mb, mode, k)"
    and fits: "asks_help args \<or> numbers_fit args [0, 1, 2] \<and> rt \<le> 2147483645"
  shows "wp F (while_granted (mem_program n args)) H (\<lambda>H' x.
    if asks_help args \<or> mode \<le> 1 then H' = H \<and> x = Some (0, 0) else x = None)"
proof (cases "asks_help args")
  case False
  then have rt: "rt \<le> 2147483645" "numbers_fit args [0, 1, 2]" using fits by simp_all
  let ?Q = "\<lambda>H' x. H' = H \<and> x = Some (0 :: int, 0 :: u32)"
  let ?fin = "\<lambda>x. case x of None \<Rightarrow> Ret None | Some m \<Rightarrow>
    seq_unit (show_own_memory n) (seq_unit (do_call (Other ''pthread_mutex_destroy'')) (Ret (Some (0 :: int, m :: u32))))"
  have two: "wp F (while_granted (seq (start_threads blocks threads body sz [0..<k] (replicate k Unset) (replicate k (-1)) 0)
      (\<lambda>(ok, slots, ts, m). seq (if ok then wait_and_join n rt threads ts else Ret (Some ())) (\<lambda>x.
         if x = None then Ret None else seq (cleanup_blocks blocks slots m) ?fin))))
      (insert threads (insert blocks H)) ?Q"
    if "mode \<le> 1" "blocks \<notin> H" "threads \<notin> insert blocks H" "threads \<noteq> -1" for blocks threads body sz
  proof -
    have k: "k = 2" using mem_arguments_threads m that(1) by blast
    have "insert threads (insert blocks H) - {threads} - {blocks} = H" using that by auto
    then have "wp F (while_granted (start_threads blocks threads body sz [0..<2] (replicate 2 Unset) (replicate 2 (-1)) 0))
      (insert threads (insert blocks H))
      (\<lambda>H' (ok, slots, ts, m). ok \<and> wp F (while_granted (wait_and_join n rt threads ts)) H'
         (\<lambda>H' x. x = Some () \<and> wp F (while_granted (cleanup_blocks blocks slots m)) H' (\<lambda>H' x. wp F (while_granted (?fin x)) H' ?Q)))"
      using that rt by (intro wp_two_threads) (auto intro!: wp_granted_info)
    then show ?thesis
      unfolding k while_granted_seq wp_seq by (rule wp_mono) (auto elim!: wp_mono split: prod.splits)
  qed
  have one: "wp F (while_granted (wait_and_join n rt threads [t])) (insert t (insert threads (insert blocks H)))
      (\<lambda>H' x. x = Some () \<longrightarrow> blocks \<in> H')"
    if "blocks \<notin> H" "threads \<notin> insert blocks H" "threads \<noteq> -1" "t \<notin> insert threads (insert blocks H)" "0 \<le> t" for blocks threads t
    using that rt by (intro wp_wait_and_join) auto
  show ?thesis
    using two False rt(2)
    by (auto simp: mem_program_def m m[unfolded One_nat_def] Let_def intro!: wp_granted_info wp_start_thread one)
qed (simp add: mem_program_def)

definition mem_mode :: "string list \<Rightarrow> nat" where
  "mem_mode args = fst (snd (snd (mem_arguments (int_arg args 0) (int_arg args 1) (int_arg args 2))))"

definition mem_run_time :: "string list \<Rightarrow> int" where
  "mem_run_time args = fst (mem_arguments (int_arg args 0) (int_arg args 1) (int_arg args 2))"

text \<open>
  Property C31. The main thread of the memory load generator, on arguments whose numbers fit in \<^verbatim>\<open>int\<close> and
  a run time of at most 2147483645 seconds (beyond that \<^verbatim>\<open>elapsed\<close> overflows), for every moment at which
  \<^verbatim>\<open>running\<close> is cleared and as long as no block, stream or thread is refused: it uses only blocks and
  streams that it holds; in the modes 0 and 1 it joins every thread, gives everything back,
  returns 0 and leaves \<^verbatim>\<open>memory_allocated\<close> at 0; in the modes 2, 3 and 4 it never gets to
  its end, because the cleanup reads an element of \<^verbatim>\<open>memory_blocks\<close> that was never set. What the other
  threads do with their blocks is not part of it. A thread that is refused is joined all the same,
  which is undefined.
\<close>

theorem mem_program_modes:
  assumes "asks_help args \<or> numbers_fit args [0, 1, 2] \<and> mem_run_time args \<le> 2147483645"
    and "run (mem_program n args) replies = (tr, x)" and "permitted F {} tr" and "granted tr"
  shows "disciplined {} tr \<and> (x = None \<or>
    (if asks_help args \<or> mem_mode args \<le> 1 then x = Some (Some (0, 0)) \<and> held {} tr = {} else x = Some None))
    \<and> (\<forall>threads ts. snd (run (join_threads threads (-1 # ts)) [0]) = Some None)"
proof -
  obtain rt mb mode k where m: "mem_arguments (int_arg args 0) (int_arg args 1) (int_arg args 2) = (rt, mb, mode, k)"
    by (metis prod_cases4)
  then have "mem_mode args = mode" "mem_run_time args = rt" by (simp_all add: mem_mode_def mem_run_time_def)
  then show ?thesis
    using granted_run[OF wp_mem_program[OF m, of F n "{}"] assms(2,4,3)] assms(1)
    by (cases x) (auto split: if_splits simp: do_call_def)
qed

text \<open>Mode 2, with a signal before the first turn of the wait.\<close>

theorem mem_program_modes_witness:
  "(let (tr, x) = run (mem_program 1 [''30'', ''0'', ''2'']) [100, 9, -1, 0, 0, 0, 5, 6, 7, 0, 0, 0, 0, 0, 0, 0]
    in disciplined {} tr \<and> x = Some None)"
proof -
  define args where "args = [''30'', ''0'', ''2'']"
  have a: "mem_arguments (int_arg args 0) (int_arg args 1) (int_arg args 2) = (30, 0, 2, 1)" "\<not> asks_help args"
    "numbers_fit args [0, 1, 2]"
    unfolding args_def by code_simp+
  obtain tr x where r: "run (mem_program 1 args) [100, 9, -1, 0, 0, 0, 5, 6, 7, 0, 0, 0, 0, 0, 0, 0] = (tr, x)" by force
  have "x \<noteq> None \<and> permitted {} {} tr \<and> granted tr"
    using r by (auto simp: mem_program_def a a[unfolded One_nat_def] Let_def show_own_memory_def do_call_def
        wait_and_join_def five_seconds.simps start_thread_def)
  then show ?thesis
    using mem_program_modes[OF _ r, of "{}"] a a(1)[unfolded One_nat_def] r
    by (auto simp: mem_mode_def mem_run_time_def simp flip: args_def)
qed

text \<open>
  Where the second block is refused, \<^verbatim>\<open>main\<close> frees the first one and returns 0 while the thread that
  works on it (created with block 11) is running: it neither clears \<^verbatim>\<open>running\<close> nor joins the thread,
  13. The array of threads, block 6, is never freed.
\<close>

theorem first_thread_loses_its_block:
  "(let (tr, x) = run (mem_program 1 [])
      ([100, 9, -1, 0, 0, 0, 5, 6] @ [10, 11, 0, 0, 0, 13, 0] @ [12, -1, 0, 0] @ [0, 0, 0, 0, 0, 0, 0, 100, -1, 0])
    in x = Some (Some (0, 0)) \<and> (Acquire ''pthread_create sequential_access'', 13) \<in> set tr
       \<and> (Release ''free'' 11, 0) \<in> set tr
       \<and> Other ''running = 0'' \<notin> fst ` set tr \<and> Release ''pthread_join'' 13 \<notin> fst ` set tr
       \<and> permitted {} {} tr \<and> held {} tr = {13, 6})"
proof -
  have a: "mem_arguments (int_arg [] 0) (int_arg [] 1) (int_arg [] 2) = (30, 100, 0, 2)" "\<not> asks_help []"
    "numbers_fit [] [0, 1, 2]"
    by code_simp+
  have two: "[0..<2] = [0, Suc 0]" "replicate 2 Unset = [Unset, Unset]" "replicate 2 (-1) = [-1, -1 :: int]"
    by (simp_all add: numeral_2_eq_2 upt_rec)
  show ?thesis
    by (simp add: mem_program_def a a[unfolded One_nat_def] Let_def show_own_memory_def do_call_def two
        allocate_block_def free_block_def start_thread_def thread_body_def insert_Diff_if)
qed

lemma pokes_outside:
  "pokes w data 0 (Suc k) =
     Sys (Other ''running'') (\<lambda>r. if r = 0 then Ret (Some ()) else Sys (Other ''rand'') (\<lambda>v. Ret None))"
  by (auto intro!: ext split: option.split)

text \<open>
  The threads themselves: with their block held, \<^verbatim>\<open>sequential_access\<close> stays inside it for every size and
  \<^verbatim>\<open>random_access\<close> for two bytes or more (a block of 0 MB is accepted, and leaves it); the leak is never
  more than 50 blocks.
\<close>

theorem access_threads_safe:
  "wp F (sequential_access n data sz) {data} (\<lambda>H x. H = {data} \<and> x \<noteq> None)
   \<and> (2 \<le> w \<longrightarrow> wp F (random_access n data w) {data} (\<lambda>H x. H = {data} \<and> x \<noteq> None))
   \<and> snd (run (random_access 1 data 0) ([0, 0, 1, 1, v] @ replies)) = Some None
   \<and> wp F (leak_turns n 0) {} (\<lambda>H c. card H = c \<and> c \<le> 50)"
proof (intro conjI impI)
  show "wp F (sequential_access n data sz) {data} (\<lambda>H x. H = {data} \<and> x \<noteq> None)"
    by (rule wp_sequential_access) simp_all
  show "2 \<le> w \<Longrightarrow> wp F (random_access n data w) {data} (\<lambda>H x. H = {data} \<and> x \<noteq> None)"
    by (rule wp_random_access) simp_all
  show "wp F (leak_turns n 0) {} (\<lambda>H c. card H = c \<and> c \<le> 50)"
    by (rule wp_leak_turns) simp_all
  show "snd (run (random_access 1 data 0) ([0, 0, 1, 1, v] @ replies)) = Some None"
    using pokes_outside[of True data 999] by (simp add: random_access_def do_call_def del: pokes.simps)
qed

end
