(* ===== verification/Headers.thy ===== *)
theory Headers
  imports Kmem "HOL-Library.Multiset"
begin

text \<open>
  The headers of the memory lab, \<^verbatim>\<open>include/os/types.h\<close>, \<^verbatim>\<open>include/os/memory.h\<close> and
  \<^verbatim>\<open>include/riscv/riscv.h\<close>: bit and alignment macros, and the inline functions around the control and
  status registers and the atomic memory operations of RISC-V, on the byte memory of \<open>Byte_Store\<close>.
\<close>

section \<open>Bits\<close>

definition BIT :: "nat \<Rightarrow> u64" where "BIT n = push_bit n 1"
definition MASK :: "nat \<Rightarrow> u64" where "MASK n = BIT n - 1"
definition SET_BIT :: "u64 \<Rightarrow> nat \<Rightarrow> u64" where "SET_BIT reg b = reg OR BIT b"
definition CLEAR_BIT :: "u64 \<Rightarrow> nat \<Rightarrow> u64" where "CLEAR_BIT reg b = reg AND NOT (BIT b)"
definition TEST_BIT :: "u64 \<Rightarrow> nat \<Rightarrow> u64" where "TEST_BIT reg b = reg AND BIT b"

lemma bit_BIT: "bit (BIT n) i \<longleftrightarrow> i = n \<and> n < 64"
  by (auto simp: BIT_def bit_simps)

lemma TEST_BIT_iff: "b < 64 \<Longrightarrow> TEST_BIT reg b \<noteq> 0 \<longleftrightarrow> bit reg b"
  by (auto simp: TEST_BIT_def bit_BIT bit_simps intro!: bit_eqI dest: arg_cong[where f = "\<lambda>w. bit w b"])

lemma bits_set_clear:
  "bit (SET_BIT reg b) i \<longleftrightarrow> bit reg i \<or> i = b \<and> b < 64"
  "bit (CLEAR_BIT reg b) i \<longleftrightarrow> bit reg i \<and> i \<noteq> b"
  by (auto simp: SET_BIT_def CLEAR_BIT_def bit_BIT bit_simps dest: bit_imp_le_length)

section \<open>Alignment\<close>

definition PAGE_SIZE :: u64 where "PAGE_SIZE = 4096"
definition PAGE_SHIFT :: nat where "PAGE_SHIFT = 12"
definition PAGE_MASK :: u64 where "PAGE_MASK = NOT (PAGE_SIZE - 1)"
definition KERNEL_BASE :: u64 where "KERNEL_BASE = 0x80000000"
definition CACHE_LINE_SIZE :: u64 where "CACHE_LINE_SIZE = 64"

definition IS_ALIGNED :: "u64 \<Rightarrow> u64 \<Rightarrow> bool" where
  "IS_ALIGNED x align \<longleftrightarrow> x AND (align - 1) = 0"

definition PAGE_ALIGN_UP :: "u64 \<Rightarrow> u64" where "PAGE_ALIGN_UP x = ALIGN_UP x PAGE_SIZE"
definition PAGE_ALIGN_DOWN :: "u64 \<Rightarrow> u64" where "PAGE_ALIGN_DOWN x = ALIGN_DOWN x PAGE_SIZE"

lemma BIT_minus: "n < 64 \<Longrightarrow> BIT n - 1 = mask n"
  by (simp add: BIT_def mask_eq_exp_minus_1 push_bit_eq_mult)

lemma unat_BIT: "n < 64 \<Longrightarrow> unat (BIT n) = 2 ^ n"
  by (simp add: BIT_def unsigned_push_bit_eq push_bit_nat_def take_bit_nat_eq_self del: push_bit_of_1)

lemma unat_ALIGN_DOWN:
  assumes "n < 64"
  shows "unat (ALIGN_DOWN x (BIT n)) = 2 ^ n * (unat x div 2 ^ n)"
proof -
  have "ALIGN_DOWN x (BIT n) = push_bit n (drop_bit n x)"
    using assms by (auto simp: ALIGN_DOWN_def BIT_minus bit_simps intro!: bit_eqI)
  moreover have "unat x div 2 ^ n * 2 ^ n < 2 ^ 64"
    by (rule le_less_trans[OF div_times_less_eq_dividend]) (use unat_lt_64[of x] in simp)
  ultimately show ?thesis
    by (simp add: unsigned_push_bit_eq unat_drop_bit push_bit_nat_def mult.commute take_bit_nat_eq_self)
qed

lemma unat_ALIGN_UP:
  assumes "n < 64" and "unat x + 2 ^ n \<le> 2 ^ 64"
  shows "unat (ALIGN_UP x (BIT n)) = 2 ^ n * ((unat x + (2 ^ n - 1)) div 2 ^ n)"
proof -
  have one: "unat (BIT n - 1) = 2 ^ n - 1"
    using assms(1) by (subst unat_diff_exact) (simp_all add: unat_BIT)
  then have "unat (x + (BIT n - 1)) = unat x + (2 ^ n - 1)"
    using assms(2) by (subst unat_add_exact) simp_all
  moreover have "ALIGN_UP x (BIT n) = ALIGN_DOWN (x + (BIT n - 1)) (BIT n)"
    by (simp add: ALIGN_UP_def ALIGN_DOWN_def)
  ultimately show ?thesis using unat_ALIGN_DOWN[OF assms(1)] by simp
qed

lemma IS_ALIGNED_iff: "n < 64 \<Longrightarrow> IS_ALIGNED x (BIT n) \<longleftrightarrow> 2 ^ n dvd unat x"
proof -
  assume n: "n < 64"
  then have "x AND (BIT n - 1) = take_bit n x" by (simp add: BIT_minus take_bit_eq_mask)
  then have "IS_ALIGNED x (BIT n) \<longleftrightarrow> unat (take_bit n x) = 0"
    by (simp add: IS_ALIGNED_def unat_eq_zero)
  then show ?thesis by (simp add: unat_take_bit dvd_eq_mod_eq_0)
qed

lemma round_up:
  assumes "0 < (p :: nat)"
  shows "x \<le> p * ((x + (p - 1)) div p)" and "p dvd y \<Longrightarrow> x \<le> y \<Longrightarrow> p * ((x + (p - 1)) div p) \<le> y"
proof -
  have "p * ((x + (p - 1)) div p) + (x + (p - 1)) mod p = x + (p - 1)" by simp
  moreover have "(x + (p - 1)) mod p < p" using assms by simp
  ultimately show "x \<le> p * ((x + (p - 1)) div p)" by linarith
next
  assume "p dvd y" "x \<le> y"
  then obtain k where k: "y = p * k" by blast
  have "x + (p - 1) < Suc k * p" using \<open>x \<le> y\<close> k assms by (simp add: mult.commute)
  then have "(x + (p - 1)) div p < Suc k" by (rule less_mult_imp_div_less)
  then have "(x + (p - 1)) div p \<le> k" by (simp only: less_Suc_eq_le)
  then show "p * ((x + (p - 1)) div p) \<le> y" unfolding k by (rule mult_le_mono2)
qed

text \<open>
  The alignment macros for every power of two: as long as the sum does not leave 64
  bits, \<^verbatim>\<open>ALIGN_UP\<close> is the least aligned address from \<open>x\<close> on and \<^verbatim>\<open>ALIGN_DOWN\<close> the greatest up to \<open>x\<close>, and
  both are \<open>x\<close> exactly when \<^verbatim>\<open>IS_ALIGNED\<close> says so; within the last bytes of the address space \<^verbatim>\<open>ALIGN_UP\<close>
  wraps to 0.
\<close>

theorem align_macros:
  assumes "n < 64"
  shows "IS_ALIGNED (ALIGN_DOWN x (BIT n)) (BIT n) \<and> ALIGN_DOWN x (BIT n) \<le> x
    \<and> (\<forall>y. IS_ALIGNED y (BIT n) \<and> y \<le> x \<longrightarrow> y \<le> ALIGN_DOWN x (BIT n))
    \<and> (IS_ALIGNED x (BIT n) \<longleftrightarrow> ALIGN_DOWN x (BIT n) = x)
    \<and> (unat x + 2 ^ n \<le> 2 ^ 64 \<longrightarrow>
         IS_ALIGNED (ALIGN_UP x (BIT n)) (BIT n) \<and> x \<le> ALIGN_UP x (BIT n)
         \<and> (\<forall>y. IS_ALIGNED y (BIT n) \<and> x \<le> y \<longrightarrow> ALIGN_UP x (BIT n) \<le> y))
    \<and> (2 ^ 64 < unat x + 2 ^ n \<longrightarrow> ALIGN_UP x (BIT n) = 0)"
proof (intro conjI allI impI)
  define p where "p = (2 :: nat) ^ n"
  have p: "0 < p" by (simp add: p_def)
  note down = unat_ALIGN_DOWN[OF assms, folded p_def]
    and aligned = IS_ALIGNED_iff[OF assms, folded p_def]
  show "IS_ALIGNED (ALIGN_DOWN x (BIT n)) (BIT n)" "ALIGN_DOWN x (BIT n) \<le> x"
    by (simp_all add: aligned down word_le_nat_alt)
  show "y \<le> ALIGN_DOWN x (BIT n)" if "IS_ALIGNED y (BIT n) \<and> y \<le> x" for y
    using that p by (auto simp: aligned down word_le_nat_alt dvd_def less_eq_div_iff_mult_less_eq mult.commute)
  show "IS_ALIGNED x (BIT n) \<longleftrightarrow> ALIGN_DOWN x (BIT n) = x"
    by (metis aligned down word_unat_eq_iff dvd_triv_left dvd_mult_div_cancel)
  assume "unat x + 2 ^ n \<le> 2 ^ 64"
  then have u: "unat (ALIGN_UP x (BIT n)) = p * ((unat x + (p - 1)) div p)"
    unfolding p_def by (rule unat_ALIGN_UP[OF assms])
  show "IS_ALIGNED (ALIGN_UP x (BIT n)) (BIT n)" by (simp add: aligned u)
  show "x \<le> ALIGN_UP x (BIT n)" using round_up(1)[OF p] by (simp add: word_le_nat_alt u)
  show "ALIGN_UP x (BIT n) \<le> y" if "IS_ALIGNED y (BIT n) \<and> x \<le> y" for y
    using round_up(2)[OF p, of "unat y" "unat x"] that by (simp add: word_le_nat_alt u aligned)
next
  assume "2 ^ 64 < unat x + 2 ^ n"
  moreover have one: "unat (BIT n - 1) = 2 ^ n - 1"
    using assms by (subst unat_diff_exact) (simp_all add: unat_BIT)
  moreover have "unat (x + (BIT n - 1)) = (if unat x + unat (BIT n - 1) < 2 ^ 64 then unat x + unat (BIT n - 1)
      else unat x + unat (BIT n - 1) - 2 ^ 64)"
    by (subst unat_plus_if') simp
  ultimately have "unat (x + (BIT n - 1)) < 2 ^ n" using unat_lt_64[of x] by auto
  then have "unat (ALIGN_DOWN (x + (BIT n - 1)) (BIT n)) = 0" unfolding unat_ALIGN_DOWN[OF assms] by simp
  then show "ALIGN_UP x (BIT n) = 0" by (simp add: ALIGN_UP_def ALIGN_DOWN_def unat_eq_zero)
qed

theorem align_macros_witness:
  "IS_ALIGNED (ALIGN_DOWN 0x80001234 (BIT 12)) (BIT 12) \<and> ALIGN_UP (- 5) (BIT 12) = 0
   \<and> 0x80001234 \<le> ALIGN_UP 0x80001234 (BIT 12)"
  using align_macros[of 12 "0x80001234"] align_macros[of 12 "- 5"] by simp

text \<open>
  The macros take the type of their arguments: with a boundary of type \<^verbatim>\<open>uint32_t\<close> the mask has only 32
  bits, and \<^verbatim>\<open>ALIGN_DOWN\<close> of a 64-bit address loses the upper half.
\<close>

definition ALIGN_DOWN_32 :: "u64 \<Rightarrow> u32 \<Rightarrow> u64" where
  "ALIGN_DOWN_32 x align = x AND ucast (NOT (align - 1))"

theorem narrow_boundary_cuts: "ALIGN_DOWN_32 x align = ALIGN_DOWN_32 (take_bit 32 x) align"
  by (auto simp: ALIGN_DOWN_32_def bit_simps intro!: bit_eqI)

section \<open>Macros over memory\<close>

text \<open>\<^verbatim>\<open>while (_size--) *_ptr++ = _value;\<close>\<close>

function memset_secure :: "u64 \<Rightarrow> u8 \<Rightarrow> u64 \<Rightarrow> ram \<Rightarrow> ram" where
  "memset_secure ptr byte sz m =
     (if sz = 0 then m else memset_secure (ptr + 1) byte (sz - 1) (store8 m ptr byte))"
  by pat_completeness auto
termination
  by (relation "measure (\<lambda>(ptr, byte, sz, m). unat sz)") (auto simp: unat_gt_0 measure_unat)

declare memset_secure.simps [simp del]

theorem memset_secure_fills: "memset_secure ptr byte sz m = memset m ptr byte (unat sz)"
proof (induction ptr byte sz m rule: memset_secure.induct)
  case (1 ptr byte sz m)
  show ?case
  proof (cases "sz = 0")
    case False
    then have "unat sz = Suc (unat (sz - 1))" by (simp add: unat_minus_one unat_gt_0)
    then show ?thesis using 1[OF False] False by (simp add: memset_secure.simps[of ptr byte sz])
  qed (simp add: memset_secure.simps)
qed

definition IS_IN_HEAP :: "u64 \<Rightarrow> u64 \<Rightarrow> u64 \<Rightarrow> bool" where
  "IS_IN_HEAP low high ptr \<longleftrightarrow> low \<le> ptr \<and> ptr < high"

section \<open>Control and status registers\<close>

datatype csr =
    CSR_SSTATUS | CSR_SIE | CSR_STVEC | CSR_SCOUNTEREN | CSR_SSCRATCH
  | CSR_SEPC | CSR_SCAUSE | CSR_STVAL | CSR_SIP | CSR_SATP
  | CSR_MSTATUS | CSR_MISA | CSR_MEDELEG | CSR_MIDELEG | CSR_MIE
  | CSR_MTVEC | CSR_MCOUNTEREN | CSR_MSCRATCH | CSR_MEPC | CSR_MCAUSE
  | CSR_MTVAL | CSR_MIP | CSR_CYCLE | CSR_TIME | CSR_INSTRET
  | CSR_CYCLEH | CSR_TIMEH | CSR_INSTRETH

primrec csr_number :: "csr \<Rightarrow> u64" where
  "csr_number CSR_SSTATUS = 0x100"
| "csr_number CSR_SIE = 0x104"
| "csr_number CSR_STVEC = 0x105"
| "csr_number CSR_SCOUNTEREN = 0x106"
| "csr_number CSR_SSCRATCH = 0x140"
| "csr_number CSR_SEPC = 0x141"
| "csr_number CSR_SCAUSE = 0x142"
| "csr_number CSR_STVAL = 0x143"
| "csr_number CSR_SIP = 0x144"
| "csr_number CSR_SATP = 0x180"
| "csr_number CSR_MSTATUS = 0x300"
| "csr_number CSR_MISA = 0x301"
| "csr_number CSR_MEDELEG = 0x302"
| "csr_number CSR_MIDELEG = 0x303"
| "csr_number CSR_MIE = 0x304"
| "csr_number CSR_MTVEC = 0x305"
| "csr_number CSR_MCOUNTEREN = 0x306"
| "csr_number CSR_MSCRATCH = 0x340"
| "csr_number CSR_MEPC = 0x341"
| "csr_number CSR_MCAUSE = 0x342"
| "csr_number CSR_MTVAL = 0x343"
| "csr_number CSR_MIP = 0x344"
| "csr_number CSR_CYCLE = 0xC00"
| "csr_number CSR_TIME = 0xC01"
| "csr_number CSR_INSTRET = 0xC02"
| "csr_number CSR_CYCLEH = 0xC80"
| "csr_number CSR_TIMEH = 0xC81"
| "csr_number CSR_INSTRETH = 0xC82"

definition PRIV_MODE_M :: u64 where "PRIV_MODE_M = 3"
definition PRIV_MODE_S :: u64 where "PRIV_MODE_S = 1"
definition PRIV_MODE_U :: u64 where "PRIV_MODE_U = 0"

definition SSTATUS_SPP :: u64 where "SSTATUS_SPP = BIT 8"
definition SSTATUS_SPIE :: u64 where "SSTATUS_SPIE = BIT 5"
definition SSTATUS_UPIE :: u64 where "SSTATUS_UPIE = BIT 4"
definition SSTATUS_SIE :: u64 where "SSTATUS_SIE = BIT 1"
definition SSTATUS_UIE :: u64 where "SSTATUS_UIE = BIT 0"
definition MSTATUS_MPP :: u64 where "MSTATUS_MPP = push_bit 11 3"
definition MSTATUS_MPIE :: u64 where "MSTATUS_MPIE = BIT 7"
definition MSTATUS_MIE :: u64 where "MSTATUS_MIE = BIT 3"

text \<open>The pending-interrupt bits, machine and supervisor, of software, timer and external interrupts.\<close>

definition MIP_SSIP :: u64 where "MIP_SSIP = BIT 1"
definition MIP_MSIP :: u64 where "MIP_MSIP = BIT 3"
definition MIP_STIP :: u64 where "MIP_STIP = BIT 5"
definition MIP_MTIP :: u64 where "MIP_MTIP = BIT 7"
definition MIP_SEIP :: u64 where "MIP_SEIP = BIT 9"
definition MIP_MEIP :: u64 where "MIP_MEIP = BIT 11"

datatype cause =
    CAUSE_MISALIGNED_FETCH | CAUSE_FAULT_FETCH | CAUSE_ILLEGAL_INSTRUCTION | CAUSE_BREAKPOINT
  | CAUSE_MISALIGNED_LOAD | CAUSE_FAULT_LOAD | CAUSE_MISALIGNED_STORE | CAUSE_FAULT_STORE
  | CAUSE_ECALL_U_MODE | CAUSE_ECALL_S_MODE | CAUSE_ECALL_M_MODE | CAUSE_INSTRUCTION_PAGE
  | CAUSE_LOAD_PAGE | CAUSE_STORE_PAGE

primrec cause_number :: "cause \<Rightarrow> u64" where
  "cause_number CAUSE_MISALIGNED_FETCH = 0"
| "cause_number CAUSE_FAULT_FETCH = 1"
| "cause_number CAUSE_ILLEGAL_INSTRUCTION = 2"
| "cause_number CAUSE_BREAKPOINT = 3"
| "cause_number CAUSE_MISALIGNED_LOAD = 4"
| "cause_number CAUSE_FAULT_LOAD = 5"
| "cause_number CAUSE_MISALIGNED_STORE = 6"
| "cause_number CAUSE_FAULT_STORE = 7"
| "cause_number CAUSE_ECALL_U_MODE = 8"
| "cause_number CAUSE_ECALL_S_MODE = 9"
| "cause_number CAUSE_ECALL_M_MODE = 0xB"
| "cause_number CAUSE_INSTRUCTION_PAGE = 0xC"
| "cause_number CAUSE_LOAD_PAGE = 0xD"
| "cause_number CAUSE_STORE_PAGE = 0xF"

text \<open>The register file of one processor, by number, and the instructions on it.\<close>

type_synonym csrs = "u64 \<Rightarrow> u64"

definition csr_read :: "u64 \<Rightarrow> csrs \<Rightarrow> u64" where
  "csr_read csr s = s csr"

definition csr_write :: "u64 \<Rightarrow> u64 \<Rightarrow> csrs \<Rightarrow> csrs" where
  "csr_write csr v s = s(csr := v)"

definition csr_set :: "u64 \<Rightarrow> u64 \<Rightarrow> csrs \<Rightarrow> csrs" where
  "csr_set csr v s = s(csr := s csr OR v)"

definition csr_clear :: "u64 \<Rightarrow> u64 \<Rightarrow> csrs \<Rightarrow> csrs" where
  "csr_clear csr v s = s(csr := s csr AND NOT v)"

text \<open>
  The numbers are distinct, and the bits 8 and 9 of a number are the privilege mode its name stands for.
\<close>

theorem csr_numbers:
  "inj csr_number \<and>
   (\<forall>c. drop_bit 8 (csr_number c) AND 3 =
     (if c \<in> {CSR_CYCLE, CSR_TIME, CSR_INSTRET, CSR_CYCLEH, CSR_TIMEH, CSR_INSTRETH} then PRIV_MODE_U
      else if csr_number c < 0x200 then PRIV_MODE_S else PRIV_MODE_M))"
proof -
  have "csr_number c = csr_number c' \<Longrightarrow> c = c'" for c c' by (cases c; cases c') simp_all
  then have "inj csr_number" by (rule injI)
  moreover have "drop_bit 8 (csr_number c) AND 3 =
     (if c \<in> {CSR_CYCLE, CSR_TIME, CSR_INSTRET, CSR_CYCLEH, CSR_TIMEH, CSR_INSTRETH} then PRIV_MODE_U
      else if csr_number c < 0x200 then PRIV_MODE_S else PRIV_MODE_M)" for c
    by (cases c) (simp_all add: PRIV_MODE_U_def PRIV_MODE_S_def PRIV_MODE_M_def)
  ultimately show ?thesis by blast
qed

text \<open>
  Setting and clearing interrupt-enable bits: other bits and registers stay as they are, clearing what
  was set restores a register in which those bits were clear, and both are idempotent.
\<close>

theorem csr_set_clear:
  "csr_read csr (csr_clear csr v (csr_set csr v s)) = csr_read csr s AND NOT v
   \<and> csr_set csr v (csr_set csr v s) = csr_set csr v s
   \<and> (csr_read csr s AND v = 0 \<longrightarrow> csr_clear csr v (csr_set csr v s) = s)
   \<and> (csr' \<noteq> csr \<longrightarrow> csr_read csr' (csr_set csr v s) = csr_read csr' s
        \<and> csr_read csr' (csr_clear csr v s) = csr_read csr' s)"
proof -
  have 1: "(w OR v) AND NOT v = w AND NOT v" for w :: u64
    by (rule bit_eqI) (auto simp: bit_simps)
  have 2: "w AND NOT v = w" if "w AND v = 0" for w :: u64
    using that by (intro bit_eqI) (auto simp: bit_simps dest: arg_cong[where f = "\<lambda>x. bit x _"] dest!: bit_eq_iff[THEN iffD1])
  show ?thesis
    by (simp add: csr_read_def csr_set_def csr_clear_def or.assoc 1 2)
qed

section \<open>Atomic operations\<close>

definition atomic_swap :: "u64 \<Rightarrow> u64 \<Rightarrow> ram \<Rightarrow> u64 \<times> ram" where
  "atomic_swap ptr new_val m = (load64 m ptr, store64 m ptr new_val)"

definition atomic_add :: "u64 \<Rightarrow> u64 \<Rightarrow> ram \<Rightarrow> u64 \<times> ram" where
  "atomic_add ptr delta m = (let old_val = load64 m ptr in (old_val, store64 m ptr (old_val + delta)))"

text \<open>
  Any number of processors that add to the same cell: each addition is one step, so a run is the list
  of what was added in the order in which the memory saw it. The result pairs what each one got.
\<close>

fun atomic_adds :: "u64 \<Rightarrow> u64 list \<Rightarrow> ram \<Rightarrow> u64 list \<times> ram" where
  "atomic_adds ptr [] m = ([], m)"
| "atomic_adds ptr (d # ds) m =
     (let (old, m) = atomic_add ptr d m; (olds, m) = atomic_adds ptr ds m in (old # olds, m))"

lemma atomic_adds_run:
  "atomic_adds ptr ds m = (olds, m') \<Longrightarrow>
     load64 m' ptr = load64 m ptr + sum_list ds \<and> length olds = length ds
     \<and> (\<forall>i<length ds. olds ! i = load64 m ptr + sum_list (take i ds))
     \<and> (\<forall>a. apart ptr 8 a 8 \<longrightarrow> load64 m' a = load64 m a)"
proof (induction ds arbitrary: m olds m')
  case (Cons d ds)
  define m1 where "m1 = store64 m ptr (load64 m ptr + d)"
  obtain os where r: "atomic_adds ptr ds m1 = (os, m')" "olds = load64 m ptr # os"
    using Cons.prems by (auto simp: atomic_add_def m1_def Let_def split: prod.splits)
  have m1: "load64 m1 ptr = load64 m ptr + d" by (simp add: m1_def load64_store64)
  have "load64 m1 a = load64 m a" if "apart ptr 8 a 8" for a
    unfolding m1_def using that by (intro w64.rd_wr_apart) (simp add: apart_sym)
  then show ?case
    using Cons.IH[OF r(1)] r(2) m1 by (auto simp: nth_Cons add.assoc split: nat.split)
qed simp

text \<open>
  \<^verbatim>\<open>atomic_add\<close> loses no update: whatever the order in which processors add to a cell, it
  ends with the same sum, processors that add 1 get consecutive tickets, each its own (up to 2^64 of
  them), and cells that do not overlap keep their contents.
\<close>

theorem atomic_add_tickets:
  assumes "atomic_adds ptr ds m = (olds, m')" and "atomic_adds ptr ds2 m = (olds2, m2)" and "mset ds = mset ds2"
  shows "load64 m' ptr = load64 m ptr + sum_list ds \<and> load64 m2 ptr = load64 m' ptr
    \<and> (\<forall>a. apart ptr 8 a 8 \<longrightarrow> load64 m' a = load64 m a)
    \<and> (ds = replicate k 1 \<and> k \<le> 2 ^ 64 \<longrightarrow>
         olds = List.map (\<lambda>i. load64 m ptr + of_nat i) [0..<k] \<and> distinct olds)"
proof -
  have sums: "sum_list ds2 = sum_list ds" using assms(3) by (metis sum_mset_sum_list)
  note r = atomic_adds_run[OF assms(1)] atomic_adds_run[OF assms(2)]
  have "olds = List.map (\<lambda>i. load64 m ptr + of_nat i) [0..<k] \<and> distinct olds"
    if k: "ds = replicate k 1" "k \<le> 2 ^ 64"
  proof -
    have o: "olds = List.map (\<lambda>i. load64 m ptr + of_nat i) [0..<k]"
    proof (rule nth_equalityI)
      show "length olds = length (List.map (\<lambda>i. load64 m ptr + of_nat i) [0..<k])" using r(1) k(1) by simp
    next
      fix i assume "i < length olds"
      then show "olds ! i = List.map (\<lambda>i. load64 m ptr + of_nat i) [0..<k] ! i"
        using r(1) k(1) by (simp add: sum_list_replicate min_def)
    qed
    moreover have "inj_on (\<lambda>i. load64 m ptr + of_nat i) {0..<k}"
    proof (rule inj_onI)
      fix i j assume "i \<in> {0..<k}" "j \<in> {0..<k}" "load64 m ptr + of_nat i = load64 m ptr + of_nat j"
      then have "(of_nat i :: u64) = of_nat j" and b: "i < 2 ^ 64" "j < 2 ^ 64" using k(2) by auto
      then have "unat (of_nat i :: u64) = unat (of_nat j :: u64)" by simp
      then show "i = j" using b by (simp add: unat_of_nat take_bit_nat_eq_self)
    qed
    ultimately show ?thesis by (simp add: distinct_map)
  qed
  then show ?thesis using r sums by auto
qed

text \<open>Three processors, in two orders.\<close>

theorem atomic_add_tickets_witness:
  "load64 (snd (atomic_adds 16 [1, 1, 1] (\<lambda>_. 0))) 16 = 3 \<and> fst (atomic_adds 16 [1, 1, 1] (\<lambda>_. 0)) = [0, 1, 2]"
proof -
  have z: "load64 (\<lambda>_. 0) 16 = 0" by (simp add: load64_def le64_def)
  obtain olds m' where r: "atomic_adds 16 [1, 1, 1] (\<lambda>_. 0) = (olds, m')" by force
  have e: "[1, 1, 1 :: u64] = replicate 3 1" "[0..<3] = [0, 1, 2 :: nat]" by (simp_all add: numeral_3_eq_3 upt_rec)
  show ?thesis using atomic_add_tickets[OF r r refl, of 3] r z by (simp add: e(1) flip: e(1)) (simp add: e(2))
qed

text \<open>\<^verbatim>\<open>atomic_swap\<close> as the test-and-set of a spin lock: of any number of attempts the first alone sees 0.\<close>

fun swap_ones :: "u64 \<Rightarrow> nat \<Rightarrow> ram \<Rightarrow> u64 list \<times> ram" where
  "swap_ones ptr 0 m = ([], m)"
| "swap_ones ptr (Suc n) m = (let (old, m) = atomic_swap ptr 1 m; (olds, m) = swap_ones ptr n m in (old # olds, m))"

theorem atomic_swap_lock:
  "fst (swap_ones ptr n m) = (if n = 0 then [] else load64 m ptr # replicate (n - 1) 1)"
  by (induction n arbitrary: m) (auto simp: atomic_swap_def Let_def load64_store64 split_beta replicate_Suc[symmetric]
      simp del: replicate_Suc split: nat.split)

end
