(* ===== verification/Pcb_Macros.thy ===== *)
theory Pcb_Macros
  imports Kernel_Sched
begin

text \<open>
  The flag and time macros of \<^verbatim>\<open>lab3-2-sparrowos-scheduler/src/pcb.h\<close> that the kernel scheduler does not
  use itself, on the control block of \<open>Kernel_Sched\<close>.
\<close>

definition PROCESS_FLAG_NONE :: u32 where "PROCESS_FLAG_NONE = 0x00"
definition PROCESS_FLAG_IO_BOUND :: u32 where "PROCESS_FLAG_IO_BOUND = 0x02"
definition PROCESS_FLAG_INTERACTIVE :: u32 where "PROCESS_FLAG_INTERACTIVE = 0x04"
definition PROCESS_FLAG_REALTIME :: u32 where "PROCESS_FLAG_REALTIME = 0x08"
definition PROCESS_FLAG_KERNEL :: u32 where "PROCESS_FLAG_KERNEL = 0x10"

definition PCB_MAGIC :: u32 where "PCB_MAGIC = 0x53504152"

definition PCB_CLEAR_FLAG :: "u32 \<Rightarrow> kpcb \<Rightarrow> kpcb" where
  "PCB_CLEAR_FLAG flag p = p\<lparr>flags := flags p AND NOT flag\<rparr>"

definition PCB_IS_CPU_BOUND :: "kpcb \<Rightarrow> bool" where
  "PCB_IS_CPU_BOUND p = PCB_HAS_FLAG p PROCESS_FLAG_CPU_BOUND"

definition PCB_IS_IO_BOUND :: "kpcb \<Rightarrow> bool" where
  "PCB_IS_IO_BOUND p = PCB_HAS_FLAG p PROCESS_FLAG_IO_BOUND"

definition PCB_IS_INTERACTIVE :: "kpcb \<Rightarrow> bool" where
  "PCB_IS_INTERACTIVE p = PCB_HAS_FLAG p PROCESS_FLAG_INTERACTIVE"

definition PCB_IS_REALTIME :: "kpcb \<Rightarrow> bool" where
  "PCB_IS_REALTIME p = PCB_HAS_FLAG p PROCESS_FLAG_REALTIME"

definition PCB_RESPONSE_TIME :: "kpcb \<Rightarrow> u32" where
  "PCB_RESPONSE_TIME p = time_started p - time_created p"

definition PCB_TURNAROUND_TIME :: "kpcb \<Rightarrow> u32" where
  "PCB_TURNAROUND_TIME p = time_terminated p - time_created p"

text \<open>The flags are the eight single bits of a byte.\<close>

definition process_flags :: "u32 list" where
  "process_flags = [PROCESS_FLAG_CPU_BOUND, PROCESS_FLAG_IO_BOUND, PROCESS_FLAG_INTERACTIVE, PROCESS_FLAG_REALTIME,
     PROCESS_FLAG_KERNEL, PROCESS_FLAG_SCHED_MLFQ, PROCESS_FLAG_SCHED_RR, PROCESS_FLAG_SCHED_FIFO]"

lemma process_flags_bits: "process_flags = List.map (\<lambda>i. push_bit i 1) [0..<8]"
  by (simp add: process_flags_def PROCESS_FLAG_CPU_BOUND_def PROCESS_FLAG_IO_BOUND_def PROCESS_FLAG_INTERACTIVE_def
      PROCESS_FLAG_REALTIME_def PROCESS_FLAG_KERNEL_def PROCESS_FLAG_SCHED_MLFQ_def PROCESS_FLAG_SCHED_RR_def
      PROCESS_FLAG_SCHED_FIFO_def upt_rec)

lemma process_flag_bit: "f \<in> set process_flags \<Longrightarrow> \<exists>i<8. f = push_bit i 1"
  unfolding process_flags_bits by auto

lemma has_flag_bit: "i < 8 \<Longrightarrow> PCB_HAS_FLAG p (push_bit i 1) \<longleftrightarrow> bit (flags p) i"
proof -
  assume i: "i < 8"
  have "flags p AND push_bit i 1 = (if bit (flags p) i then push_bit i 1 else 0)"
    by (rule bit_eqI) (auto simp: bit_simps simp del: push_bit_of_1)
  moreover have "bit (push_bit i 1 :: u32) i" using i by (simp add: bit_simps del: push_bit_of_1)
  then have "push_bit i 1 \<noteq> (0 :: u32)" by (metis bit_0_eq bot_apply bot_bool_def)
  ultimately show ?thesis by (simp add: PCB_HAS_FLAG_def del: push_bit_of_1)
qed

text \<open>
  Of two flags of the enumeration, setting or clearing one is seen by \<^verbatim>\<open>PCB_HAS_FLAG\<close> for that one and
  not for the other; and the turnaround time is the response time and what comes after it, also when the
  clock of 32 bits wraps in between.
\<close>

theorem pcb_flag_macros:
  assumes "f \<in> set process_flags" and "g \<in> set process_flags"
  shows "(PCB_HAS_FLAG (PCB_SET_FLAG f p) g \<longleftrightarrow> g = f \<or> PCB_HAS_FLAG p g)
    \<and> (PCB_HAS_FLAG (PCB_CLEAR_FLAG f p) g \<longleftrightarrow> g \<noteq> f \<and> PCB_HAS_FLAG p g)
    \<and> PCB_TURNAROUND_TIME p = PCB_RESPONSE_TIME p + (time_terminated p - time_started p)
    \<and> PCB_TURNAROUND_TIME p = PCB_LIFETIME p"
proof -
  obtain i j where ij: "i < 8" "f = push_bit i 1" "j < 8" "g = push_bit j 1"
    using process_flag_bit assms by metis
  have "g = f \<longleftrightarrow> j = i"
  proof
    assume "g = f"
    moreover have "bit g j" using ij(3) by (simp add: ij(4) bit_simps del: push_bit_of_1)
    ultimately have "bit (push_bit i 1 :: u32) j" by (simp add: ij(2) del: push_bit_of_1)
    then show "j = i" by (simp add: bit_simps del: push_bit_of_1)
  qed (use ij in simp)
  then show ?thesis
    using ij(1,3) unfolding ij(2,4)
    by (simp add: has_flag_bit PCB_SET_FLAG_def PCB_CLEAR_FLAG_def PCB_TURNAROUND_TIME_def PCB_RESPONSE_TIME_def
        PCB_LIFETIME_def bit_simps del: push_bit_of_1) auto
qed

end
