(* ===== verification/File_Ops.thy ===== *)
theory File_Ops
  imports Syscalls
begin

text \<open>
  \<^verbatim>\<open>lab1-1-syscall-tracer/examples/example_programs/file_ops.c\<close> as programs over \<open>Syscalls\<close>. Arguments
  of a call are part of its name; the printed lines and \<^verbatim>\<open>show_error\<close> are left out. The loops over
  \<^verbatim>\<open>readdir\<close> and \<^verbatim>\<open>read\<close>, which run as long as the system answers, get a number of turns \<open>n\<close>.
\<close>

definition test_basic_file_operations :: "unit prog" where
  "test_basic_file_operations =
     Sys (Acquire ''open test_file1.txt O_CREAT|O_WRONLY|O_TRUNC'') (\<lambda>fd.
       if fd = -1 then Ret ()
       else Sys (Use ''write'' fd 41) (\<lambda>bytes_written.
         if bytes_written = -1 then do_call (Release ''close'' fd)
         else Sys (Release ''close'' fd) (\<lambda>r. if r = -1 then Ret () else Ret ())))"

definition test_file_read_append :: "unit prog" where
  "test_file_read_append =
     Sys (Acquire ''open test_file1.txt O_RDONLY'') (\<lambda>fd.
       if fd = -1 then Ret ()
       else Sys (Use ''read'' fd 1023) (\<lambda>bytes_read.
         if bytes_read = -1 then do_call (Release ''close'' fd)
         else seq_unit (do_call (Release ''close'' fd))
           (Sys (Acquire ''open test_file1.txt O_WRONLY|O_APPEND'') (\<lambda>fd.
              if fd = -1 then Ret ()
              else Sys (Use ''write'' fd 24) (\<lambda>bytes_written.
                if bytes_written = -1 then do_call (Release ''close'' fd)
                else do_call (Release ''close'' fd))))))"

definition test_file_metadata :: "unit prog" where
  "test_file_metadata =
     Sys (Other ''stat test_file1.txt'') (\<lambda>r.
       if r = -1 then Ret () else do_call (Other ''access test_file1.txt R_OK|W_OK''))"

fun readdir_loop :: "nat \<Rightarrow> int \<Rightarrow> unit prog" where
  "readdir_loop 0 dir = Cut"
| "readdir_loop (Suc n) dir = Sys (Use ''readdir'' dir 1) (\<lambda>entry. if entry = -1 then Ret () else readdir_loop n dir)"

text \<open>\<open>EEXIST\<close> is 17.\<close>

definition test_directory_operations :: "nat \<Rightarrow> unit prog" where
  "test_directory_operations n =
     (let rest =
        seq_unit
          (Sys (Acquire ''open test_directory/test_file2.txt O_CREAT|O_WRONLY'') (\<lambda>fd.
             if fd \<noteq> -1
             then seq_unit (do_call (Use ''write'' fd 20)) (do_call (Release ''close'' fd))
             else Ret ()))
          (Sys (Acquire ''opendir test_directory'') (\<lambda>dir.
             if dir = -1 then Ret ()
             else seq_unit (readdir_loop n dir) (do_call (Release ''closedir'' dir))))
      in Sys (Other ''mkdir test_directory'') (\<lambda>r.
           if r = -1 then Sys (Other ''errno'') (\<lambda>errno. if errno \<noteq> 17 then Ret () else rest)
           else rest))"

text \<open>The chunk loop: the bytes written, or \<open>None\<close> after a failed write.\<close>

fun write_chunks :: "nat \<Rightarrow> int \<Rightarrow> int \<Rightarrow> int option prog" where
  "write_chunks 0 fd total_written = Ret (Some total_written)"
| "write_chunks (Suc i) fd total_written =
     Sys (Use ''write'' fd 1024) (\<lambda>bytes_written.
       if bytes_written = -1 then Ret None else write_chunks i fd (total_written + bytes_written))"

definition test_large_file_operations :: "unit prog" where
  "test_large_file_operations =
     Sys (Acquire ''open large_file.dat O_CREAT|O_WRONLY|O_TRUNC'') (\<lambda>fd.
       if fd = -1 then Ret ()
       else seq (write_chunks 50 fd 0) (\<lambda>total_written.
         case total_written of
           None \<Rightarrow> do_call (Release ''close'' fd)
         | Some t \<Rightarrow> seq_unit (do_call (Release ''close'' fd)) (do_call (Other ''stat large_file.dat''))))"

definition test_file_move_delete :: "unit prog" where
  "test_file_move_delete = in_turn
     [do_call (Other ''rename test_directory/test_file2.txt test_directory/moved_test_file2.txt''),
      do_call (Other ''unlink test_directory/moved_test_file2.txt''), do_call (Other ''unlink large_file.dat'')]"

definition test_error_conditions :: "unit prog" where
  "test_error_conditions =
     seq_unit (Sys (Acquire ''open non_existent_file.txt O_RDONLY'') (\<lambda>fd.
         if fd = -1 then Ret () else do_call (Release ''close'' fd)))
     (seq_unit (Sys (Acquire ''open /root/test_permission.txt O_CREAT|O_WRONLY'') (\<lambda>fd.
         if fd = -1 then Ret () else do_call (Release ''close'' fd)))
     (Sys (Acquire ''open . O_RDONLY'') (\<lambda>fd.
         if fd = -1 then Ret ()
         else seq_unit (do_call (Use ''read'' fd 100)) (do_call (Release ''close'' fd)))))"

text \<open>The copy loop: the last answer of \<^verbatim>\<open>read\<close> and \<^verbatim>\<open>total_bytes_copied\<close>.\<close>

fun copy_loop :: "nat \<Rightarrow> int \<Rightarrow> int \<Rightarrow> int \<Rightarrow> (int \<times> int) prog" where
  "copy_loop 0 src_fd dst_fd copied = Cut"
| "copy_loop (Suc n) src_fd dst_fd copied =
     Sys (Use ''read'' src_fd 1024) (\<lambda>bytes_read.
       if 0 < bytes_read
       then Sys (Use ''write'' dst_fd bytes_read) (\<lambda>bytes_written.
         if bytes_written \<noteq> bytes_read then Ret (bytes_read, copied)
         else copy_loop n src_fd dst_fd (copied + bytes_written))
       else Ret (bytes_read, copied))"

definition test_file_copy :: "nat \<Rightarrow> unit prog" where
  "test_file_copy n =
     Sys (Acquire ''open test_file1.txt O_RDONLY'') (\<lambda>src_fd.
       if src_fd = -1 then Ret ()
       else Sys (Acquire ''open copy_of_test_file.txt O_CREAT|O_WRONLY|O_TRUNC'') (\<lambda>dst_fd.
         if dst_fd = -1 then do_call (Release ''close'' src_fd)
         else seq (copy_loop n src_fd dst_fd 0) (\<lambda>(bytes_read, copied). in_turn
           [do_call (Release ''close'' src_fd), do_call (Release ''close'' dst_fd),
            Sys (Other ''stat test_file1.txt'') (\<lambda>r.
              if r = 0 then do_call (Other ''stat copy_of_test_file.txt'') else Ret ()),
            do_call (Other ''unlink copy_of_test_file.txt'')])))"

definition cleanup_test_files :: "unit prog" where
  "cleanup_test_files = in_turn
     [do_call (Other ''unlink test_file1.txt''), do_call (Other ''unlink large_file.dat''),
      do_call (Other ''unlink test_directory/moved_test_file2.txt''), do_call (Other ''rmdir test_directory'')]"

definition file_ops_all :: "nat \<Rightarrow> unit prog" where
  "file_ops_all n = in_turn
     [test_basic_file_operations, test_file_read_append, test_file_metadata, test_directory_operations n,
      test_large_file_operations, test_file_copy n, test_file_move_delete, test_error_conditions]"

text \<open>The loop over the arguments; the result is the exit status.\<close>

fun file_ops_arguments :: "nat \<Rightarrow> string list \<Rightarrow> int prog" where
  "file_ops_arguments n [] = Ret 0"
| "file_ops_arguments n (a # as) =
     (let rest = file_ops_arguments n as in
      if a = ''all'' then seq_unit (file_ops_all n) rest
      else if a = ''basic'' then seq_unit test_basic_file_operations rest
      else if a = ''read'' then seq_unit test_file_read_append rest
      else if a = ''meta'' then seq_unit test_file_metadata rest
      else if a = ''dir'' then seq_unit (test_directory_operations n) rest
      else if a = ''large'' then seq_unit test_large_file_operations rest
      else if a = ''error'' then seq_unit test_error_conditions rest
      else if a = ''copy'' then seq_unit (test_file_copy n) rest
      else if a = ''clean'' then seq_unit cleanup_test_files (Ret 0)
      else if a = ''help'' \<or> a = ''-h'' then Ret 0
      else Ret 1)"

text \<open>\<open>argv\<close> is without the program name.\<close>

definition file_ops_main :: "nat \<Rightarrow> string list \<Rightarrow> int prog" where
  "file_ops_main n argv = (if argv = [] then seq_unit (file_ops_all n) (Ret 0) else file_ops_arguments n argv)"

section \<open>Descriptors\<close>

lemma balanced_read_append [balanced_rules]: "balanced {} test_file_read_append"
  by (auto simp: balanced_def test_file_read_append_def)

lemma balanced_basic [balanced_rules]: "balanced {} test_basic_file_operations"
  by (auto simp: balanced_def test_basic_file_operations_def)

lemma balanced_metadata [balanced_rules]: "balanced {} test_file_metadata"
  by (auto simp: balanced_def test_file_metadata_def)

lemma wp_readdir_loop: "dir \<in> H \<Longrightarrow> Q H () \<Longrightarrow> wp {} (readdir_loop n dir) H Q"
  by (induction n) auto

lemma balanced_directory [balanced_rules]: "balanced {} (test_directory_operations n)"
  by (auto simp: balanced_def test_directory_operations_def Let_def intro!: wp_readdir_loop)

lemma wp_write_chunks: "fd \<in> H \<Longrightarrow> (\<And>t. Q H t) \<Longrightarrow> wp {} (write_chunks i fd t) H Q"
  by (induction i arbitrary: t) auto

lemma balanced_large [balanced_rules]: "balanced {} test_large_file_operations"
  by (auto simp: balanced_def test_large_file_operations_def intro!: wp_write_chunks split: option.splits)

lemma balanced_move [balanced_rules]: "balanced {} test_file_move_delete"
  by (auto simp: balanced_def test_file_move_delete_def)

lemma balanced_errors [balanced_rules]: "balanced {} test_error_conditions"
  by (auto simp: balanced_def test_error_conditions_def)

lemma wp_copy_loop: "s \<in> H \<Longrightarrow> d \<in> H \<Longrightarrow> (\<And>t. Q H t) \<Longrightarrow> wp {} (copy_loop n s d t) H Q"
  by (induction n arbitrary: t) auto

lemma balanced_copy [balanced_rules]: "balanced {} (test_file_copy n)"
  by (auto simp: balanced_def test_file_copy_def intro!: wp_copy_loop)

lemma balanced_cleanup [balanced_rules]: "balanced {} cleanup_test_files"
  by (auto simp: balanced_def cleanup_test_files_def)

lemma balanced_all [balanced_rules]: "balanced {} (file_ops_all n)"
  unfolding file_ops_all_def by (rule balanced_in_turn) (auto intro: balanced_rules)

lemma balanced_arguments [balanced_rules]: "balanced {} (file_ops_arguments n as)"
  by (induction as) (auto simp: Let_def intro!: balanced_rules)

section \<open>The copy\<close>

text \<open>The bytes that the calls \<open>name\<close> on \<open>fd\<close> have moved.\<close>

fun bytes_of :: "call \<Rightarrow> int \<Rightarrow> string \<Rightarrow> int \<Rightarrow> int" where
  "bytes_of (Use s h n) r name fd = (if s = name \<and> h = fd \<and> 0 < r then r else 0)"
| "bytes_of c r name fd = 0"

definition bytes_moved :: "string \<Rightarrow> int \<Rightarrow> trace \<Rightarrow> int" where
  "bytes_moved name fd tr = (\<Sum>(c, r)\<leftarrow>tr. bytes_of c r name fd)"

lemma bytes_moved_Cons [simp]: "bytes_moved name fd ((c, r) # tr) = bytes_of c r name fd + bytes_moved name fd tr"
  by (simp add: bytes_moved_def)

lemma bytes_moved_Nil [simp]: "bytes_moved name fd [] = 0"
  by (simp add: bytes_moved_def)

lemma copy_loop_bytes:
  "run (copy_loop n s d t) rs = (tr, Some (b, t')) \<Longrightarrow> permitted F H tr \<Longrightarrow>
     t' - t \<le> bytes_moved ''write'' d tr \<and> bytes_moved ''write'' d tr \<le> bytes_moved ''read'' s tr
     \<and> (if b \<le> 0 then t' - t = bytes_moved ''read'' s tr else t' - t = bytes_moved ''read'' s tr - b)"
proof (induction n s d t arbitrary: rs tr H rule: copy_loop.induct)
  case (2 n s d t)
  obtain r rs' where rs: "rs = r # rs'" using "2.prems"(1) by (cases rs) auto
  show ?case
  proof (cases "0 < r")
    case False
    then show ?thesis using "2.prems" rs by auto
  next
    case True
    obtain w rs'' where rs': "rs' = w # rs''" using "2.prems"(1) rs True by (cases rs') auto
    obtain tr' x where k: "run (copy_loop n s d (t + w)) rs'' = (tr', x)" by force
    show ?thesis
      using "2.prems" rs rs' True k "2.IH"[of r w rs'' tr' H] by (auto split: if_splits)
  qed
qed simp

text \<open>
  Property C33. The copy loop of \<^verbatim>\<open>file_ops\<close>, whatever \<^verbatim>\<open>read\<close> and \<^verbatim>\<open>write\<close> answer: when it stops at
  the end of the file or at a read error, it has written and reports exactly the bytes it has read;
  when a short or failed write stops it, it reports all that it has read but the last block, never
  more than was written.
\<close>

theorem copy_loop_copies:
  assumes "run (copy_loop n src_fd dst_fd 0) answers = (tr, Some (bytes_read, copied))" and "permitted F H tr"
  shows "copied = bytes_moved ''read'' src_fd tr - max 0 bytes_read
    \<and> (bytes_read \<le> 0 \<longrightarrow> bytes_moved ''write'' dst_fd tr = bytes_moved ''read'' src_fd tr)
    \<and> copied \<le> bytes_moved ''write'' dst_fd tr"
  using copy_loop_bytes[OF assms] by (auto split: if_splits)

theorem copy_loop_copies_witness:
  "\<exists>tr. run (copy_loop 5 3 4 0) [1024, 1024, 10, 10, 0] = (tr, Some (0, 1034)) \<and> bytes_moved ''write'' 4 tr = 1034"
proof -
  define tr where "tr = fst (run (copy_loop 5 3 4 0) [1024, 1024, 10, 10, 0])"
  have r: "run (copy_loop 5 3 4 0) [1024, 1024, 10, 10, 0] = (tr, Some (0, 1034))" and p: "permitted {} {} tr"
    by (simp_all add: tr_def numeral_eq_Suc)
  show ?thesis using copy_loop_copies[OF r p] r by auto
qed

section \<open>All of the program\<close>

interpretation file_prog: balanced_program "{}" "\<lambda>(n, argv). file_ops_main n argv"
  by unfold_locales (auto simp: file_ops_main_def intro!: balanced_rules split: prod.splits)

text \<open>
  Property C32. For every command line and whatever the system answers, failures included,
  \<^verbatim>\<open>file_ops\<close> reads, writes and closes only descriptors and directory streams it holds, closes none
  twice, and holds none when it returns.
\<close>

theorem file_ops_closes_all:
  assumes "run (file_ops_main n argv) answers = (tr, x)" and "permitted {} {} tr"
  shows "disciplined {} tr \<and> (x \<noteq> None \<longrightarrow> held {} tr = {})"
  using file_prog.closes_all[of "(n, argv)"] assms by simp

theorem file_ops_closes_all_witness:
  "\<exists>tr. run (file_ops_main 3 [''basic'', ''copy'']) [3, 41, 0, 3, 4, 41, 41, 0, 0, 0, 0, 0, 0] = (tr, Some 0)
     \<and> length tr = 13 \<and> held {} tr = {}"
proof -
  define tr where "tr = fst (run (file_ops_main 3 [''basic'', ''copy'']) [3, 41, 0, 3, 4, 41, 41, 0, 0, 0, 0, 0, 0])"
  have r: "run (file_ops_main 3 [''basic'', ''copy'']) [3, 41, 0, 3, 4, 41, 41, 0, 0, 0, 0, 0, 0] = (tr, Some 0)"
    and p: "permitted {} {} tr" and l: "length tr = 13"
    by (simp_all add: tr_def file_ops_main_def test_basic_file_operations_def test_file_copy_def
        do_call_def numeral_3_eq_3)
  show ?thesis using file_ops_closes_all[OF r p] r l by simp
qed

end
