(* ===== verification/Network_Ops.thy ===== *)
theory Network_Ops
  imports Syscalls
begin

text \<open>
  \<^verbatim>\<open>lab1-1-syscall-tracer/examples/example_programs/network_test.c\<close> as programs over \<open>Syscalls\<close>. The
  handles are sockets. Calls that only fill a local structure (\<^verbatim>\<open>memset\<close>, \<^verbatim>\<open>htons\<close>, \<^verbatim>\<open>inet_addr\<close>) and the
  printed lines are left out.
\<close>

abbreviation close :: "int \<Rightarrow> unit prog" where
  "close fd \<equiv> do_call (Release ''close'' fd)"

definition set_nonblocking :: "int \<Rightarrow> unit prog" where
  "set_nonblocking fd = seq_unit (do_call (Use ''fcntl F_GETFL'' fd 2147483647)) (do_call (Use ''fcntl F_SETFL'' fd 0))"

definition test_tcp_client :: "unit prog" where
  "test_tcp_client =
     Sys (Acquire ''socket AF_INET SOCK_STREAM'') (\<lambda>sockfd.
       if sockfd = -1 then Ret ()
       else seq_unit
         (Sys (Use ''connect 127.0.0.1:8888'' sockfd 0) (\<lambda>r.
            if r = -1 then Ret ()
            else seq_unit (do_call (Use ''send'' sockfd 17)) (do_call (Use ''recv'' sockfd 1023))))
         (close sockfd))"

definition test_tcp_server :: "unit prog" where
  "test_tcp_server =
     Sys (Acquire ''socket AF_INET SOCK_STREAM'') (\<lambda>server_fd.
       if server_fd = -1 then Ret ()
       else seq_unit (do_call (Use ''setsockopt SO_REUSEADDR'' server_fd 0))
         (Sys (Use ''bind 0.0.0.0:8888'' server_fd 0) (\<lambda>r.
            if r = -1 then close server_fd
            else Sys (Use ''listen'' server_fd 0) (\<lambda>r.
              if r = -1 then close server_fd
              else seq_unit (set_nonblocking server_fd)
                (Sys (Derive ''accept'' server_fd) (\<lambda>client_fd.
                   if client_fd = -1 then close server_fd
                   else seq_unit
                     (Sys (Use ''recv'' client_fd 1023) (\<lambda>received.
                        if 0 < received then do_call (Use ''send'' client_fd 18) else Ret ()))
                     (seq_unit (close client_fd) (close server_fd))))))))"

definition test_udp_client :: "unit prog" where
  "test_udp_client =
     Sys (Acquire ''socket AF_INET SOCK_DGRAM'') (\<lambda>sockfd.
       if sockfd = -1 then Ret ()
       else in_turn [do_call (Use ''sendto 127.0.0.1:8888'' sockfd 10),
         do_call (Use ''setsockopt SO_RCVTIMEO'' sockfd 0), do_call (Use ''recvfrom'' sockfd 1023), close sockfd])"

definition test_udp_server :: "unit prog" where
  "test_udp_server =
     Sys (Acquire ''socket AF_INET SOCK_DGRAM'') (\<lambda>sockfd.
       if sockfd = -1 then Ret ()
       else Sys (Use ''bind 0.0.0.0:8889'' sockfd 0) (\<lambda>r.
         if r = -1 then close sockfd
         else seq_unit (set_nonblocking sockfd)
           (seq_unit (do_call (Use ''setsockopt SO_RCVTIMEO'' sockfd 0))
             (Sys (Use ''recvfrom'' sockfd 1023) (\<lambda>received.
                if received = -1 then close sockfd
                else seq_unit (do_call (Use ''sendto'' sockfd 19)) (close sockfd))))))"

text \<open>The resolver answers -1 for NULL.\<close>

definition test_dns_resolution :: "unit prog" where
  "test_dns_resolution =
     Sys (Other ''gethostbyname localhost'') (\<lambda>host_info.
       if host_info = -1 then Ret ()
       else do_call (Other ''gethostbyname nonexistent-domain-that-should-not-exist.local''))"

definition test_address_conversion :: "unit prog" where
  "test_address_conversion = in_turn
     [do_call (Other ''inet_pton AF_INET 192.168.1.1''), do_call (Other ''inet_ntop AF_INET''),
      do_call (Other ''inet_pton AF_INET6 ::1''), do_call (Other ''inet_ntop AF_INET6''),
      do_call (Other ''inet_pton AF_INET invalid.ip.address'')]"

definition test_select_io :: "unit prog" where
  "test_select_io =
     Sys (Acquire ''socket AF_INET SOCK_STREAM'') (\<lambda>test_socket.
       if test_socket \<noteq> -1
       then in_turn [set_nonblocking test_socket, do_call (Other ''inet_pton AF_INET 127.0.0.1''),
              do_call (Use ''connect 127.0.0.1:8888'' test_socket 0), do_call (Use ''select'' test_socket 2),
              close test_socket]
       else do_call (Other ''select''))"

definition test_socket_options :: "unit prog" where
  "test_socket_options =
     Sys (Acquire ''socket AF_INET SOCK_STREAM'') (\<lambda>sockfd.
       if sockfd = -1 then Ret ()
       else in_turn [do_call (Use ''getsockopt SO_SNDBUF'' sockfd 0), do_call (Use ''getsockopt SO_RCVBUF'' sockfd 0),
              do_call (Use ''setsockopt SO_RCVTIMEO'' sockfd 0), do_call (Use ''setsockopt 0xFFFF'' sockfd 0),
              close sockfd])"

definition test_network_interfaces :: "unit prog" where
  "test_network_interfaces =
     seq_unit (do_call (Other ''gethostname'')) 
       (seq (acquire_all (replicate 5 ''socket AF_INET SOCK_STREAM'') []) (release_all ''close''))"

definition test_network_errors :: "unit prog" where
  "test_network_errors =
     seq_unit (do_call (Acquire ''socket 999 SOCK_STREAM''))
     (seq_unit (do_call (Acquire ''socket AF_INET 999''))
     (seq_unit (Sys (Acquire ''socket AF_INET SOCK_STREAM'') (\<lambda>sockfd.
         if sockfd \<noteq> -1
         then seq_unit (do_call (Use ''bind 0.0.0.0:80'' sockfd 0)) (close sockfd) else Ret ()))
     (Sys (Acquire ''socket AF_INET SOCK_STREAM'') (\<lambda>sockfd.
         if sockfd \<noteq> -1
         then in_turn [do_call (Other ''inet_pton AF_INET 127.0.0.1''), do_call (Use ''connect 127.0.0.1:1'' sockfd 0),
                close sockfd]
         else Ret ()))))"

definition network_all :: "unit prog" where
  "network_all = in_turn
     [test_tcp_client, test_tcp_server, test_udp_client, test_udp_server, test_dns_resolution,
      test_address_conversion, test_select_io, test_socket_options, test_network_interfaces, test_network_errors]"

fun network_arguments :: "string list \<Rightarrow> int prog" where
  "network_arguments [] = Ret 0"
| "network_arguments (a # as) =
     (let rest = network_arguments as in
      if a = ''all'' then seq_unit network_all rest
      else if a = ''tcp'' then seq_unit test_tcp_client rest
      else if a = ''tcpsrv'' then seq_unit test_tcp_server rest
      else if a = ''udp'' then seq_unit test_udp_client rest
      else if a = ''udpsrv'' then seq_unit test_udp_server rest
      else if a = ''dns'' then seq_unit test_dns_resolution rest
      else if a = ''addr'' then seq_unit test_address_conversion rest
      else if a = ''select'' then seq_unit test_select_io rest
      else if a = ''opts'' then seq_unit test_socket_options rest
      else if a = ''iface'' then seq_unit test_network_interfaces rest
      else if a = ''errors'' then seq_unit test_network_errors rest
      else if a = ''clean'' \<or> a = ''help'' \<or> a = ''-h'' then Ret 0
      else Ret 1)"

definition network_main :: "string list \<Rightarrow> int prog" where
  "network_main argv = (if argv = [] then seq_unit network_all (Ret 0) else network_arguments argv)"

section \<open>Sockets\<close>

text \<open>The address family and the socket type that no system has.\<close>

definition no_such_socket :: "string set" where
  "no_such_socket = {''socket 999 SOCK_STREAM'', ''socket AF_INET 999''}"

lemmas network_defs = balanced_def set_nonblocking_def test_tcp_client_def test_tcp_server_def test_udp_client_def
  test_udp_server_def test_dns_resolution_def test_address_conversion_def test_select_io_def
  test_socket_options_def test_network_errors_def

lemma balanced_network [balanced_rules]:
  "balanced F test_tcp_client" "balanced F test_tcp_server" "balanced F test_udp_client"
  "balanced F test_udp_server" "balanced F test_dns_resolution" "balanced F test_address_conversion"
  "balanced F test_select_io" "balanced F test_socket_options"
  by (auto simp: network_defs)

lemma balanced_network_errors [balanced_rules]: "balanced no_such_socket test_network_errors"
  by (auto simp: network_defs no_such_socket_def)

lemma balanced_interfaces [balanced_rules]: "balanced F test_network_interfaces"
proof -
  have a: "balanced F (seq (acquire_all (replicate 5 s) []) (release_all c))" for s c
    unfolding balanced_def by (intro allI array_rules) auto
  have g: "balanced F (do_call (Other s))" for s by (simp add: balanced_def)
  show ?thesis unfolding test_network_interfaces_def by (rule balanced_seq) (rule g, rule a)
qed

lemma balanced_network_all [balanced_rules]: "balanced no_such_socket network_all"
  unfolding network_all_def by (rule balanced_in_turn) (auto intro: balanced_rules)

lemma balanced_network_arguments [balanced_rules]: "balanced no_such_socket (network_arguments as)"
  by (induction as) (auto simp: Let_def intro!: balanced_rules)

interpretation network_prog: balanced_program no_such_socket network_main
  by unfold_locales (auto simp: network_main_def intro!: balanced_rules)

text \<open>
  For every command line and whatever the system answers, \<^verbatim>\<open>network_test\<close> uses and closes
  only sockets it holds, closes none twice and holds none when it returns, provided that the two
  unsupported sockets it asks for on purpose are refused.
\<close>

theorem network_test_closes_all:
  assumes "run (network_main argv) answers = (tr, x)" and "permitted no_such_socket {} tr"
  shows "disciplined {} tr \<and> (x \<noteq> None \<longrightarrow> held {} tr = {})"
  using assms by (rule network_prog.closes_all)

theorem network_test_closes_all_witness:
  "\<exists>tr. run (network_main [''tcpsrv'', ''errors'']) [3, 0, 0, 0, 2, 0, 4, 5, 18, 0, 0, -1, -1, 3, -1, 0, -1]
     = (tr, Some 0) \<and> length tr = 17 \<and> held {} tr = {}"
proof -
  define tr where "tr = fst (run (network_main [''tcpsrv'', ''errors'']) [3, 0, 0, 0, 2, 0, 4, 5, 18, 0, 0, -1, -1, 3, -1, 0, -1])"
  have r: "run (network_main [''tcpsrv'', ''errors'']) [3, 0, 0, 0, 2, 0, 4, 5, 18, 0, 0, -1, -1, 3, -1, 0, -1] = (tr, Some 0)"
    and p: "permitted no_such_socket {} tr" and l: "length tr = 17"
    by (simp_all add: tr_def network_main_def test_tcp_server_def test_network_errors_def set_nonblocking_def
        do_call_def no_such_socket_def)
  show ?thesis using network_test_closes_all[OF r p] r l by simp
qed

end
