(* ===== verification/Memory_Ops.thy ===== *)
theory Memory_Ops
  imports Syscalls
begin

text \<open>
  \<^verbatim>\<open>lab1-1-syscall-tracer/examples/example_programs/memory_ops.c\<close> as programs over \<open>Syscalls\<close>. The
  handles are the addresses of heap blocks and mappings and the streams; -1 stands for NULL and for
  \<^verbatim>\<open>MAP_FAILED\<close>. The bytes written, the clock and the printed lines are left out.
\<close>

abbreviation free :: "int \<Rightarrow> unit prog" where
  "free p \<equiv> do_call (Release ''free'' p)"

definition show_memory_info :: "unit prog" where
  "show_memory_info = in_turn [do_call (Other ''sbrk 0''), do_call (Other ''getrusage'')]"

definition test_brk_operations :: "unit prog" where
  "test_brk_operations =
     seq_unit (do_call (Other ''sbrk 0''))
     (Sys (Other ''sbrk 16384'') (\<lambda>new_brk.
        if new_brk = -1 then Ret ()
        else Sys (Other ''brk initial_brk'') (\<lambda>r. if r = -1 then Ret () else do_call (Other ''sbrk 0''))))"

definition test_malloc_operations :: "unit prog" where
  "test_malloc_operations =
     Sys (Acquire ''malloc 1024'') (\<lambda>small_mem.
       if small_mem = -1 then Ret ()
       else Sys (Acquire ''malloc 1048576'') (\<lambda>large_mem.
         if large_mem = -1 then free small_mem
         else Sys (Replace ''realloc 2048'' small_mem) (\<lambda>realloc_mem.
           if realloc_mem = -1 then seq_unit (free small_mem) (free large_mem)
           else seq_unit (free realloc_mem) (free large_mem))))"

definition test_mmap_operations :: "unit prog" where
  "test_mmap_operations =
     Sys (Acquire ''mmap 40960 PROT_READ|PROT_WRITE MAP_PRIVATE|MAP_ANONYMOUS'') (\<lambda>mapped_mem.
       if mapped_mem = -1 then Ret ()
       else in_turn [do_call (Use ''mprotect 4096 PROT_READ'' mapped_mem 0),
              do_call (Use ''mprotect 4096 PROT_READ|PROT_WRITE'' mapped_mem 0),
              do_call (Release ''munmap 40960'' mapped_mem)])"

definition test_file_mmap :: "unit prog" where
  "test_file_mmap =
     Sys (Acquire ''fopen mmap_test_file.dat w+'') (\<lambda>file.
       if file = -1 then Ret ()
       else seq_unit (in_turn [do_call (Use ''fwrite'' file 68), do_call (Use ''fflush'' file 0)])
         (Sys (Derive ''mmap 68 PROT_READ|PROT_WRITE MAP_SHARED'' file) (\<lambda>file_mapping.
            if file_mapping = -1 then do_call (Release ''fclose'' file)
            else in_turn [do_call (Use ''msync MS_SYNC'' file_mapping 0), do_call (Release ''munmap 68'' file_mapping),
                   do_call (Release ''fclose'' file), do_call (Other ''unlink mmap_test_file.dat'')])))"

text \<open>The loops with step 3 from 0 and step 4 from 1; \<^verbatim>\<open>free(NULL)\<close> does nothing.\<close>

definition test_memory_stress :: "unit prog" where
  "test_memory_stress =
     seq (acquire_all (map (\<lambda>i. ''malloc '' @ digits (64 + i mod 256)) [0..<100]) []) (\<lambda>allocations.
     seq (release_at ''free'' (filter (\<lambda>i. i mod 3 = 0) [0..<100]) allocations) (\<lambda>allocations.
     seq (replace_at ''realloc 512'' (filter (\<lambda>i. i mod 4 = 1) [0..<100]) allocations) (\<lambda>allocations.
     release_all ''free'' allocations)))"

definition test_heap_fragmentation :: "unit prog" where
  "test_heap_fragmentation =
     seq (acquire_all (replicate 50 ''malloc 128'') []) (\<lambda>small_blocks.
     seq (release_at ''free'' (filter (\<lambda>i. i mod 3 = 0) [0..<50]) small_blocks) (\<lambda>small_blocks.
     seq (acquire_all (replicate 10 ''malloc 2048'') []) (\<lambda>large_blocks.
     seq_unit (release_all ''free'' small_blocks) (release_all ''free'' large_blocks))))"

definition test_memory_limits :: "unit prog" where
  "test_memory_limits =
     seq_unit (in_turn [do_call (Other ''getrlimit RLIMIT_AS''), do_call (Other ''getrlimit RLIMIT_DATA'')])
     (Sys (Acquire ''malloc 10485760'') (\<lambda>huge_memory.
        if huge_memory \<noteq> -1 then free huge_memory else Ret ()))"

definition test_aligned_allocations :: "unit prog" where
  "test_aligned_allocations =
     seq_unit (Sys (Acquire ''posix_memalign 64 1024'') (\<lambda>aligned_mem.
        if aligned_mem \<noteq> -1 then free aligned_mem else Ret ()))
     (Sys (Acquire ''valloc 4096'') (\<lambda>page_aligned.
        if page_aligned \<noteq> -1 then free page_aligned else Ret ()))"

definition test_memory_performance :: "unit prog" where
  "test_memory_performance =
     Sys (Acquire ''malloc 1048576'') (\<lambda>buffer.
       if buffer = -1 then Ret ()
       else seq_unit (Sys (Acquire ''malloc 1048576'') (\<lambda>buffer2.
              if buffer2 \<noteq> -1 then free buffer2 else Ret ()))
            (free buffer))"

definition memory_ops_all :: "unit prog" where
  "memory_ops_all = in_turn
     [test_brk_operations, test_malloc_operations, test_mmap_operations, test_file_mmap, test_memory_stress,
      test_heap_fragmentation, test_memory_limits, test_aligned_allocations, test_memory_performance]"

fun memory_ops_arguments :: "string list \<Rightarrow> int prog" where
  "memory_ops_arguments [] = seq_unit show_memory_info (Ret 0)"
| "memory_ops_arguments (a # as) =
     (let rest = memory_ops_arguments as in
      if a = ''all'' then seq_unit memory_ops_all rest
      else if a = ''brk'' then seq_unit test_brk_operations rest
      else if a = ''malloc'' then seq_unit test_malloc_operations rest
      else if a = ''mmap'' then seq_unit test_mmap_operations rest
      else if a = ''filemap'' then seq_unit test_file_mmap rest
      else if a = ''stress'' then seq_unit test_memory_stress rest
      else if a = ''fragment'' then seq_unit test_heap_fragmentation rest
      else if a = ''limits'' then seq_unit test_memory_limits rest
      else if a = ''aligned'' then seq_unit test_aligned_allocations rest
      else if a = ''perf'' then seq_unit test_memory_performance rest
      else if a = ''info'' then seq_unit show_memory_info rest
      else if a = ''clean'' \<or> a = ''help'' \<or> a = ''-h'' then Ret 0
      else Ret 1)"

definition memory_ops_main :: "string list \<Rightarrow> int prog" where
  "memory_ops_main argv =
     seq_unit show_memory_info
       (if argv = [] then seq_unit memory_ops_all (seq_unit show_memory_info (Ret 0)) else memory_ops_arguments argv)"

section \<open>Blocks and mappings\<close>

lemma balanced_memory [balanced_rules]:
  "balanced F show_memory_info" "balanced F test_brk_operations" "balanced F test_malloc_operations"
  "balanced F test_mmap_operations" "balanced F test_file_mmap" "balanced F test_memory_limits"
  "balanced F test_aligned_allocations" "balanced F test_memory_performance"
  by (auto simp: balanced_def show_memory_info_def test_brk_operations_def test_malloc_operations_def
      test_mmap_operations_def test_file_mmap_def test_memory_limits_def test_aligned_allocations_def
      test_memory_performance_def)

lemma balanced_stress [balanced_rules]: "balanced F test_memory_stress"
  unfolding test_memory_stress_def balanced_def by (intro allI array_rules) auto

lemma array_of_base: "array_of H hs H' \<Longrightarrow> array_of H' hs' H'' \<Longrightarrow>
    array_of (H \<union> set (opened hs')) hs H''"
  by (auto simp: array_of_def)

lemma balanced_fragmentation [balanced_rules]: "balanced F test_heap_fragmentation"
  unfolding test_heap_fragmentation_def balanced_def
proof (intro allI array_rules)
  fix H small H1 large H2
  assume s: "array_of H small H1" and l: "array_of H1 large H2"
  have "array_of H large (H \<union> set (opened large))" using s l by (auto simp: array_of_def)
  then show "wp F (seq_unit (release_all ''free'' small) (release_all ''free'' large)) H2 (\<lambda>H' _. H' = H)"
    using wp_mono[OF wp_release_all[OF array_of_base[OF s l]]] wp_release_all by fastforce
qed auto

lemma balanced_memory_all [balanced_rules]: "balanced F memory_ops_all"
  unfolding memory_ops_all_def by (rule balanced_in_turn) (auto intro: balanced_rules)

lemma balanced_memory_arguments [balanced_rules]: "balanced F (memory_ops_arguments as)"
  by (induction as) (auto simp: Let_def intro!: balanced_rules)

interpretation memory_prog: balanced_program "{}" memory_ops_main
  by unfold_locales (auto simp: memory_ops_main_def intro!: balanced_rules)

text \<open>
  For every command line and whatever the system answers, \<^verbatim>\<open>memory_ops\<close> uses only blocks
  and mappings it holds, frees none twice, not even when \<^verbatim>\<open>realloc\<close> moves or refuses, and has given
  all of them back when it returns.
\<close>

theorem memory_ops_frees_all:
  assumes "run (memory_ops_main argv) answers = (tr, x)" and "permitted {} {} tr"
  shows "disciplined {} tr \<and> (x \<noteq> None \<longrightarrow> held {} tr = {})"
  using assms by (rule memory_prog.closes_all)

theorem memory_ops_frees_all_witness:
  "\<exists>tr. run (memory_ops_main [''malloc'', ''filemap'']) [0, 0, 4096, 8192, 4096, 0, 0, 5, 68, 0, 65536, 0, 0, 0, 0, 0, 0]
     = (tr, Some 0) \<and> length tr = 17 \<and> held {} tr = {}"
proof -
  define tr where "tr = fst (run (memory_ops_main [''malloc'', ''filemap'']) [0, 0, 4096, 8192, 4096, 0, 0, 5, 68, 0, 65536, 0, 0, 0, 0, 0, 0])"
  have r: "run (memory_ops_main [''malloc'', ''filemap'']) [0, 0, 4096, 8192, 4096, 0, 0, 5, 68, 0, 65536, 0, 0, 0, 0, 0, 0] = (tr, Some 0)"
    and p: "permitted {} {} tr" and l: "length tr = 17"
    by (simp_all add: tr_def memory_ops_main_def test_malloc_operations_def test_file_mmap_def show_memory_info_def
        do_call_def)
  show ?thesis using memory_ops_frees_all[OF r p] r l by simp
qed

end
