(* ===== verification/Selinux_Test.thy ===== *)
theory Selinux_Test
  imports Syscalls
begin

text \<open>
  \<^verbatim>\<open>lab4-1-linux-kernel-security/src/selinux_test.c\<close> as programs over \<open>Syscalls\<close>; the handles are
  descriptors, pipes of \<^verbatim>\<open>popen\<close> and the context string of \<^verbatim>\<open>getcon\<close>. \<open>n\<close> bounds the turns of the
  \<^verbatim>\<open>fgets\<close> loops, and \<open>lib\<close> says whether the program was built with \<^verbatim>\<open>WITH_SELINUX\<close>. Shell commands are
  named by their first words; printed lines are left out.
\<close>

text \<open>One line of a pipe's output.\<close>

definition one_line :: "string \<Rightarrow> unit prog" where
  "one_line command =
     Sys (Acquire command) (\<lambda>fp.
       if fp \<noteq> -1 then seq_unit (do_call (Use ''fgets'' fp 1)) (do_call (Release ''pclose'' fp)) else Ret ())"

text \<open>\<open>while (fgets ...) found = 1\<close>; \<^verbatim>\<open>fgets\<close> answers -1 for NULL.\<close>

fun all_lines :: "nat \<Rightarrow> int \<Rightarrow> bool \<Rightarrow> bool prog" where
  "all_lines 0 fp found = Cut"
| "all_lines (Suc n) fp found = Sys (Use ''fgets'' fp 1) (\<lambda>r. if r = -1 then Ret found else all_lines n fp True)"

definition read_pipe :: "nat \<Rightarrow> string \<Rightarrow> unit prog" where
  "read_pipe n command =
     Sys (Acquire command) (\<lambda>fp.
       if fp \<noteq> -1 then seq (all_lines n fp False) (\<lambda>found. do_call (Release ''pclose'' fp)) else Ret ())"

definition check_system_info :: "unit prog" where
  "check_system_info = in_turn [one_line ''popen uname -a'', one_line ''popen cat /etc/os-release'']"

definition check_selinux_library :: "unit prog" where
  "check_selinux_library =
     Sys (Other ''is_selinux_enabled'') (\<lambda>r.
       if r = 1 then
         seq_unit (do_call (Other ''security_getenforce''))
           (Sys (Acquire ''getcon'') (\<lambda>context.
              if context \<noteq> -1 then do_call (Release ''freecon'' context) else Ret ()))
       else do_call (Other ''is_selinux_enabled''))"

definition check_selinux_status :: "nat \<Rightarrow> unit prog" where
  "check_selinux_status n =
     in_turn [read_pipe n ''popen sestatus || getenforce'', do_call (Other ''access /sys/fs/selinux F_OK'')]"

definition test_file_labeling :: "unit prog" where
  "test_file_labeling =
     Sys (Acquire ''open /tmp/selinux_test_file.txt O_CREAT|O_WRONLY|O_TRUNC'') (\<lambda>fd.
       if fd < 0 then Ret ()
       else in_turn
         [do_call (Use ''write'' fd 41), do_call (Release ''close'' fd), do_call (Other ''system ls -Z''),
          Sys (Other ''mkdir /tmp/selinux_test_dir'') (\<lambda>r.
            if r = 0 then do_call (Other ''system ls -ldZ'') else Ret ()),
          do_call (Other ''unlink /tmp/selinux_test_file.txt''), do_call (Other ''rmdir /tmp/selinux_test_dir'')])"

definition test_permission_checks :: "unit prog" where
  "test_permission_checks = in_turn (map (\<lambda>p. do_call (Other (''access R_OK '' @ p)))
     [''/etc/shadow'', ''/etc/passwd'', ''/root/.bashrc'', ''/var/log/auth.log'', ''/tmp''])"

definition check_log :: "nat \<Rightarrow> string \<Rightarrow> unit prog" where
  "check_log n file =
     Sys (Other (''access R_OK '' @ file)) (\<lambda>r. if r = 0 then read_pipe n (''popen tail -10 '' @ file) else Ret ())"

definition check_audit_logs :: "nat \<Rightarrow> unit prog" where
  "check_audit_logs n = seq_unit
     (in_turn (map (check_log n)
       [''/var/log/audit/audit.log'', ''/var/log/auth.log'', ''/var/log/syslog'', ''/var/log/messages'']))
     (do_call (Other ''system systemctl status auditd''))"

text \<open>The first word of each command is printed from a copy that \<^verbatim>\<open>strdup\<close> makes.\<close>

definition test_selinux_commands :: "unit prog" where
  "test_selinux_commands = in_turn (map (\<lambda>c. seq_unit (do_call (Acquire ''strdup'')) (do_call (Other (''system '' @ c))))
     [''id -Z'', ''ps -eZ'', ''sestatus -v'', ''getsebool -a'', ''semanage boolean -l''])"

definition create_security_test_scenario :: "unit prog" where
  "create_security_test_scenario = in_turn (map (\<lambda>c. do_call (Other (''system '' @ c)))
     [''sudo head -c 100 /etc/shadow'', ''echo > /tmp/test_script.sh'', ''chmod +x /tmp/test_script.sh'',
      ''ls -la /tmp/test_script.sh'', ''cat /proc/self/status'', ''rm -f /tmp/test_script.sh''])"

definition generate_report :: "unit prog" where
  "generate_report = do_call (Other ''time'')"

text \<open>\<^verbatim>\<open>main\<close> looks at its first argument only.\<close>

definition selinux_main :: "bool \<Rightarrow> nat \<Rightarrow> string list \<Rightarrow> int prog" where
  "selinux_main lib n argv =
     (if argv = [] \<or> hd argv = ''all'' then
        seq_unit (in_turn ([check_system_info, check_selinux_status n]
            @ (if lib then [check_selinux_library] else [])
            @ [test_file_labeling, test_permission_checks, check_audit_logs n, test_selinux_commands,
               create_security_test_scenario, generate_report]))
          (Ret 0)
      else if hd argv = ''status'' then seq_unit (in_turn [check_system_info, check_selinux_status n]) (Ret 0)
      else if hd argv = ''test'' then seq_unit (in_turn [test_file_labeling, test_permission_checks]) (Ret 0)
      else if hd argv = ''logs'' then seq_unit (check_audit_logs n) (Ret 0)
      else if hd argv = ''scenario'' then seq_unit create_security_test_scenario (Ret 0)
      else if hd argv = ''report'' then seq_unit generate_report (Ret 0)
      else Ret 1)"

section \<open>Handles\<close>

lemma balanced_call [balanced_rules]: "balanced F (do_call (Other s))"
  by (simp add: balanced_def)

lemma wp_all_lines: "fp \<in> H \<Longrightarrow> (\<And>b. Q H b) \<Longrightarrow> wp F (all_lines n fp b) H Q"
  by (induction n arbitrary: b) auto

lemma balanced_pipes [balanced_rules]: "balanced F (one_line c)" "balanced F (read_pipe n c)"
  by (auto simp: balanced_def one_line_def read_pipe_def intro!: wp_all_lines)

lemma balanced_selinux [balanced_rules]:
  "balanced F check_system_info" "balanced F check_selinux_library" "balanced F (check_selinux_status n)"
  "balanced F test_file_labeling" "balanced F (check_log n file)" "balanced F generate_report"
  unfolding check_system_info_def check_selinux_status_def check_log_def generate_report_def
  by (auto simp: check_selinux_library_def test_file_labeling_def balanced_def
      intro!: balancedD[OF balanced_pipes(1)] balancedD[OF balanced_pipes(2)])

lemma balanced_selinux_lists [balanced_rules]:
  "balanced F test_permission_checks" "balanced F (check_audit_logs n)" "balanced F create_security_test_scenario"
  unfolding test_permission_checks_def check_audit_logs_def create_security_test_scenario_def
  by (auto intro!: balanced_in_turn balanced_rules)

text \<open>A program that gives nothing away and leaves at most \<open>k\<close> handles.\<close>

definition leaves :: "string set \<Rightarrow> nat \<Rightarrow> 'a prog \<Rightarrow> bool" where
  "leaves F k p \<longleftrightarrow> (\<forall>H. wp F p H (\<lambda>H' _. H \<subseteq> H' \<and> finite (H' - H) \<and> card (H' - H) \<le> k))"

lemma leaves_balanced: "balanced F p \<Longrightarrow> leaves F 0 p"
  by (auto simp: leaves_def intro!: balancedD)

lemma leaves_Nil: "leaves F 0 (in_turn [])"
  by (simp add: leaves_def)

lemma left_trans:
  fixes H :: "int set"
  assumes "H \<subseteq> H1 \<and> finite (H1 - H) \<and> card (H1 - H) \<le> j" "H1 \<subseteq> H2 \<and> finite (H2 - H1) \<and> card (H2 - H1) \<le> k"
  shows "H \<subseteq> H2 \<and> finite (H2 - H) \<and> card (H2 - H) \<le> j + k"
proof -
  have "H2 - H = (H2 - H1) \<union> (H1 - H)" using assms by blast
  then show ?thesis using assms card_Un_le[of "H2 - H1" "H1 - H"] by auto
qed

lemma leaves_Cons: "leaves F j p \<Longrightarrow> leaves F k (in_turn ps) \<Longrightarrow> leaves F (j + k) (in_turn (p # ps))"
proof (unfold leaves_def in_turn.simps wp_seq, intro allI)
  fix H
  assume p: "\<forall>H. wp F p H (\<lambda>H' _. H \<subseteq> H' \<and> finite (H' - H) \<and> card (H' - H) \<le> j)"
    and ps: "\<forall>H. wp F (in_turn ps) H (\<lambda>H' _. H \<subseteq> H' \<and> finite (H' - H) \<and> card (H' - H) \<le> k)"
  show "wp F p H (\<lambda>H1 _. wp F (in_turn ps) H1 (\<lambda>H' _. H \<subseteq> H' \<and> finite (H' - H) \<and> card (H' - H) \<le> j + k))"
    by (rule wp_mono[OF spec[OF p]], rule wp_mono[OF spec[OF ps]], rule left_trans)
qed

lemma leaves_strdup: "leaves F 1 (seq_unit (do_call (Acquire s)) (do_call (Other t)))"
  by (auto simp: leaves_def insert_Diff_if card_insert_if)

lemma leaves_commands: "leaves F 5 test_selinux_commands"
proof -
  have "leaves F (1 + (1 + (1 + (1 + (1 + 0))))) test_selinux_commands"
    unfolding test_selinux_commands_def list.map by (intro leaves_Cons leaves_strdup leaves_Nil)
  then show ?thesis by (simp add: numeral_eq_Suc)
qed

lemma leaves_all:
  "leaves F 5 (in_turn ([check_system_info, check_selinux_status n]
            @ (if lib then [check_selinux_library] else [])
            @ [test_file_labeling, test_permission_checks, check_audit_logs n, test_selinux_commands,
               create_security_test_scenario, generate_report]))"
proof -
  have "leaves F (0 + (0 + (0 + (5 + (0 + (0 + 0)))))) (in_turn [test_file_labeling, test_permission_checks,
      check_audit_logs n, test_selinux_commands, create_security_test_scenario, generate_report])"
    by (intro leaves_Cons leaves_commands leaves_Nil leaves_balanced balanced_rules)
  from leaves_Cons[OF leaves_balanced[OF balanced_selinux(2)] this] this
  have "leaves F 5 (in_turn ((if lib then [check_selinux_library] else []) @ [test_file_labeling,
      test_permission_checks, check_audit_logs n, test_selinux_commands, create_security_test_scenario, generate_report]))"
    by simp
  from leaves_Cons[OF leaves_balanced[OF balanced_selinux(1)] leaves_Cons[OF leaves_balanced[OF balanced_selinux(3)] this]]
  show ?thesis by simp
qed

text \<open>
  For every command line, with and without the SELinux library, and whatever the
  system answers, \<^verbatim>\<open>selinux_test\<close> reads and closes only descriptors and pipes it holds and has given
  all of them, and its security context, back when it returns; only the run of all tests leaves
  something behind, the at most five strings of \<^verbatim>\<open>strdup\<close>, and it may leave all five.
\<close>

theorem selinux_test_closes_all:
  assumes "run (selinux_main lib n argv) answers = (tr, x)" and "permitted {} {} tr"
  shows "disciplined {} tr \<and> (x \<noteq> None \<longrightarrow>
    finite (held {} tr) \<and> card (held {} tr) \<le> (if argv = [] \<or> hd argv = ''all'' then 5 else 0))"
proof -
  let ?k = "if argv = [] \<or> hd argv = ''all'' then 5 else 0"
  have "leaves {} ?k (selinux_main lib n argv)"
  proof (cases "argv = [] \<or> hd argv = ''all''")
    case True
    then show ?thesis using leaves_all[of "{}" n lib] by (auto simp: leaves_def selinux_main_def)
  next
    case False
    then have "balanced {} (selinux_main lib n argv)"
      unfolding selinux_main_def by (auto intro!: balanced_rules balanced_in_turn split: if_splits)
    then show ?thesis using False leaves_balanced by simp
  qed
  then have "wp {} (selinux_main lib n argv) {} (\<lambda>H _. finite H \<and> card H \<le> ?k)"
    by (auto simp: leaves_def intro: wp_mono)
  from wp_run[OF this assms] show ?thesis by auto
qed

text \<open>A run of all tests on a system where nothing but \<^verbatim>\<open>strdup\<close> works, and one of \<^verbatim>\<open>status\<close>.\<close>

theorem selinux_test_closes_all_witness:
  "(\<exists>tr. run (selinux_main False 1 []) (replicate 15 (-1) @ [10, 1, 11, 1, 12, 1, 13, 1, 14, 1] @ replicate 7 0)
       = (tr, Some 0) \<and> held {} tr = {10, 11, 12, 13, 14})
   \<and> (\<exists>tr. run (selinux_main True 3 [''status'']) [4, 1, 0, -1, 5, 1, -1, 0, -1] = (tr, Some 0) \<and> held {} tr = {})"
proof -
  define tr where "tr = fst (run (selinux_main True 3 [''status'']) [4, 1, 0, -1, 5, 1, -1, 0, -1])"
  have r: "run (selinux_main True 3 [''status'']) [4, 1, 0, -1, 5, 1, -1, 0, -1] = (tr, Some 0)"
    and p: "permitted {} {} tr"
    by (simp_all add: tr_def selinux_main_def check_system_info_def check_selinux_status_def one_line_def
        read_pipe_def do_call_def numeral_3_eq_3)
  have "\<exists>tr. run (selinux_main False 1 []) (replicate 15 (-1) @ [10, 1, 11, 1, 12, 1, 13, 1, 14, 1] @ replicate 7 0)
       = (tr, Some 0) \<and> held {} tr = {10, 11, 12, 13, 14}"
    by (simp add: selinux_main_def check_system_info_def check_selinux_status_def one_line_def test_file_labeling_def
        test_permission_checks_def check_audit_logs_def check_log_def test_selinux_commands_def
        create_security_test_scenario_def generate_report_def read_pipe_def do_call_def numeral_nat insert_commute)
  then show ?thesis using selinux_test_closes_all[OF r p] r by auto
qed

end
