(* ===== verification/Scheduler.thy ===== *)
theory Scheduler
  imports Prelude
begin

text \<open>
  The process scheduler of \<^verbatim>\<open>lab3-2-sparrowos-scheduler/src/scheduler.c\<close> with the types of
  \<^verbatim>\<open>include/pcb.h\<close> and \<^verbatim>\<open>include/scheduler.h\<close>. All pointers to a PCB point into the static
  \<^verbatim>\<open>process_table\<close>, so a pointer is an index or NULL (\<open>nat option\<close>) and the table is a map from
  indices below 64. The run queues are intrusive doubly linked lists through the PCBs' \<open>next\<close> and
  \<open>prev\<close> fields. A result \<open>None\<close> is a null dereference, or a list walk that never ends. Output
  lines are a trace of message constructors.

  \<^verbatim>\<open>scheduler_schedule\<close> is read with \<^verbatim>\<open>SCHED_MLFQ\<close> where the source has the misspelt, undeclared
  \<^verbatim>\<open>SCHFQ_MLFQ\<close>.
\<close>

section \<open>Types\<close>

datatype process_state =
  PROCESS_NEW | PROCESS_READY | PROCESS_RUNNING | PROCESS_BLOCKED | PROCESS_TERMINATED

record cpu_context =
  reg_esp :: u32
  reg_eip :: u32
  reg_eax :: u32
  reg_ebx :: u32
  reg_ecx :: u32
  reg_edx :: u32
  reg_esi :: u32
  reg_edi :: u32
  reg_ebp :: u32

record pcb =
  pid :: u32
  pname :: string
  state :: process_state
  priority :: u8
  priority_original :: u32
  time_created :: u32
  time_started :: u32
  time_used :: u32
  time_slice :: u32
  time_slice_used :: u32
  vruntime :: u32
  regs :: cpu_context
  stack_base :: u32
  stack_size :: u32
  nxt :: "nat option"
  prv :: "nat option"
  time_in_queue :: u32
  demotions :: u8
  promotions :: u8

type_synonym ptab = "nat \<Rightarrow> pcb"

record ready_queue_t =
  head :: "nat option"
  tail :: "nat option"
  qcount :: u32
  q_slice :: u32

datatype scheduler_type = SCHED_FIFO | SCHED_RR | SCHED_MLFQ | SCHED_CFS

record scheduler_config_t =
  sched_type :: scheduler_type
  time_quantum :: u32
  enable_preemption :: u8
  mlfq_levels :: u8
  cfg_boost_interval :: u32

record scheduler_stats_t =
  context_switches :: u32
  processes_completed :: u32
  total_runtime :: u32
  avg_response_time :: u32
  avg_turnaround_time :: u32

datatype smsg =
    SchedInit scheduler_type
  | NoFreePcb
  | Created u32 string u8
  | Terminated u32 u32
  | NotFound u32
  | SliceExpired u32
  | Switched u32 u32
  | Boosting
  | Boosted u32
  | StatsLine u32 u32 u32 u32 u32
  | QueueLine nat u32 "u32 list"
  | ProcLine u32 string process_state u8 u32

record sched =
  process_table :: ptab
  current_process :: "nat option"
  ready_queue :: ready_queue_t
  queues :: "nat \<Rightarrow> ready_queue_t"
  time_slices :: "nat \<Rightarrow> u32"
  boost_interval :: u32
  last_boost_time :: u32
  config :: scheduler_config_t
  stats :: scheduler_stats_t
  next_pid :: u32
  system_ticks :: u32
  slog :: "smsg list"

definition MAX_PROCESSES :: nat where "MAX_PROCESSES = 64"
definition MAX_PRIORITY_LEVELS :: nat where "MAX_PRIORITY_LEVELS = 4"
definition TIME_SLICE_BASE :: u32 where "TIME_SLICE_BASE = 10"

text \<open>What \<^verbatim>\<open>memset(0)\<close> leaves; \<^verbatim>\<open>PROCESS_NEW\<close> is enumerator 0.\<close>

definition zero_context :: cpu_context where
  "zero_context = \<lparr>reg_esp = 0, reg_eip = 0, reg_eax = 0, reg_ebx = 0, reg_ecx = 0, reg_edx = 0,
     reg_esi = 0, reg_edi = 0, reg_ebp = 0\<rparr>"

definition zero_pcb :: pcb where
  "zero_pcb = \<lparr>pid = 0, pname = [], state = PROCESS_NEW, priority = 0, priority_original = 0,
     time_created = 0, time_started = 0, time_used = 0, time_slice = 0, time_slice_used = 0,
     vruntime = 0, regs = zero_context, stack_base = 0, stack_size = 0, nxt = None, prv = None,
     time_in_queue = 0, demotions = 0, promotions = 0\<rparr>"

definition zero_queue :: ready_queue_t where
  "zero_queue = \<lparr>head = None, tail = None, qcount = 0, q_slice = 0\<rparr>"

definition zero_stats :: scheduler_stats_t where
  "zero_stats = \<lparr>context_switches = 0, processes_completed = 0, total_runtime = 0,
     avg_response_time = 0, avg_turnaround_time = 0\<rparr>"

definition say :: "smsg \<Rightarrow> sched \<Rightarrow> sched" where
  "say x s = s\<lparr>slog := slog s @ [x]\<rparr>"

definition upd_pcb :: "nat \<Rightarrow> (pcb \<Rightarrow> pcb) \<Rightarrow> ptab \<Rightarrow> ptab" where
  "upd_pcb i f T = T(i := f (T i))"

definition upd_proc :: "nat \<Rightarrow> (pcb \<Rightarrow> pcb) \<Rightarrow> sched \<Rightarrow> sched" where
  "upd_proc i f s = s\<lparr>process_table := upd_pcb i f (process_table s)\<rparr>"

section \<open>The three list manipulations\<close>

text \<open>
  The source repeats these blocks for the single queue and for the queues of the MLFQ. Appending
  at the tail:
\<close>

definition append_tail :: "nat \<Rightarrow> ready_queue_t \<Rightarrow> ptab \<Rightarrow> (ready_queue_t \<times> ptab) option" where
  "append_tail p q T =
     (if head q = None then Some (q\<lparr>head := Some p, tail := Some p, qcount := qcount q + 1\<rparr>, T)
      else do {
        t \<leftarrow> tail q;
        let T = upd_pcb t (nxt_update (\<lambda>_. Some p)) T;
        let T = upd_pcb p (prv_update (\<lambda>_. tail q)) T;
        Some (q\<lparr>tail := Some p, qcount := qcount q + 1\<rparr>, T)
      })"

text \<open>Taking the head off (its own links are left as they are):\<close>

definition pop_head :: "ready_queue_t \<Rightarrow> ptab \<Rightarrow> (nat option \<times> ready_queue_t \<times> ptab) option" where
  "pop_head q T =
     (if head q = tail q
      then Some (head q, q\<lparr>head := None, tail := None, qcount := qcount q - 1\<rparr>, T)
      else do {
        h \<leftarrow> head q;
        let T' = (case nxt (T h) of None \<Rightarrow> T | Some b \<Rightarrow> upd_pcb b (prv_update (\<lambda>_. None)) T);
        Some (head q, q\<lparr>head := nxt (T h), qcount := qcount q - 1\<rparr>, T')
      })"

text \<open>Unlinking a given PCB:\<close>

definition unlink :: "nat \<Rightarrow> ready_queue_t \<Rightarrow> ptab \<Rightarrow> ready_queue_t \<times> ptab" where
  "unlink p q T =
     (let (q, T) = (case prv (T p) of
            Some a \<Rightarrow> (q, upd_pcb a (nxt_update (\<lambda>_. nxt (T p))) T)
          | None \<Rightarrow> (q\<lparr>head := nxt (T p)\<rparr>, T));
          (q, T) = (case nxt (T p) of
            Some b \<Rightarrow> (q, upd_pcb b (prv_update (\<lambda>_. prv (T p))) T)
          | None \<Rightarrow> (q\<lparr>tail := prv (T p)\<rparr>, T))
      in (if 0 < qcount q then q\<lparr>qcount := qcount q - 1\<rparr> else q, T))"

definition clear_links :: "nat \<Rightarrow> ptab \<Rightarrow> ptab" where
  "clear_links p T = upd_pcb p (\<lambda>x. x\<lparr>nxt := None, prv := None\<rparr>) T"

section \<open>Helpers of the source\<close>

definition find_free_pcb :: "sched \<Rightarrow> nat option" where
  "find_free_pcb s = first_index (\<lambda>i. state (process_table s i) = PROCESS_TERMINATED \<or>
     pid (process_table s i) = 0) MAX_PROCESSES"

definition add_to_ready_queue :: "nat \<Rightarrow> sched \<Rightarrow> sched option" where
  "add_to_ready_queue p s = (
     let T = clear_links p (process_table s)
     in if sched_type (config s) = SCHED_MLFQ then (
          let pr = unat (priority (T p));
              pr = (if MAX_PRIORITY_LEVELS \<le> pr then MAX_PRIORITY_LEVELS - 1 else pr)
          in do {
            (q, T) \<leftarrow> append_tail p (queues s pr) T;
            Some (s\<lparr>process_table := T, queues := (queues s)(pr := q)\<rparr>)
          })
        else do {
          (q, T) \<leftarrow> append_tail p (ready_queue s) T;
          Some (s\<lparr>process_table := T, ready_queue := q\<rparr>)
        })"

definition remove_from_ready_queue :: "nat \<Rightarrow> sched \<Rightarrow> sched" where
  "remove_from_ready_queue p s =
     (if sched_type (config s) = SCHED_MLFQ then
        (let pr = unat (priority (process_table s p))
         in if MAX_PRIORITY_LEVELS \<le> pr then s
            else let (q, T) = unlink p (queues s pr) (process_table s)
                 in s\<lparr>process_table := clear_links p T, queues := (queues s)(pr := q)\<rparr>)
      else
        (let (q, T) = unlink p (ready_queue s) (process_table s)
         in s\<lparr>process_table := clear_links p T, ready_queue := q\<rparr>))"

section \<open>The algorithms\<close>

definition scheduler_fifo_init :: "sched \<Rightarrow> sched" where
  "scheduler_fifo_init s = s\<lparr>ready_queue := (ready_queue s)\<lparr>head := None, tail := None, qcount := 0\<rparr>\<rparr>"

definition scheduler_fifo_schedule :: "sched \<Rightarrow> (nat option \<times> sched) option" where
  "scheduler_fifo_schedule s =
     (if qcount (ready_queue s) = 0 then Some (None, s)
      else do {
        (p, q, T) \<leftarrow> pop_head (ready_queue s) (process_table s);
        Some (p, s\<lparr>process_table := T, ready_queue := q\<rparr>)
      })"

definition scheduler_rr_init :: "u32 \<Rightarrow> sched \<Rightarrow> sched" where
  "scheduler_rr_init quantum s = (
     let s = scheduler_fifo_init s
     in s\<lparr>process_table := (\<lambda>i. if i < MAX_PROCESSES then (process_table s i)\<lparr>time_slice := quantum\<rparr>
                                else process_table s i)\<rparr>)"

definition scheduler_rr_schedule :: "sched \<Rightarrow> (nat option \<times> sched) option" where
  "scheduler_rr_schedule s = do {
     (p, s) \<leftarrow> scheduler_fifo_schedule s;
     s \<leftarrow> (case (p, current_process s) of
             (Some _, Some c) \<Rightarrow>
               if state (process_table s c) = PROCESS_READY then add_to_ready_queue c s else Some s
           | _ \<Rightarrow> Some s);
     Some (p, s)
   }"

definition scheduler_mlfq_init :: "u8 \<Rightarrow> u32 \<Rightarrow> sched \<Rightarrow> sched" where
  "scheduler_mlfq_init levels boost s = (
     let n = (if MAX_PRIORITY_LEVELS < unat levels then MAX_PRIORITY_LEVELS else unat levels)
     in s\<lparr>queues := (\<lambda>i. if i < n then (queues s i)\<lparr>head := None, tail := None, qcount := 0\<rparr> else queues s i),
          time_slices := (\<lambda>i. if i < n then TIME_SLICE_BASE * 2 ^ i else time_slices s i),
          boost_interval := boost, last_boost_time := 0\<rparr>)"

definition scheduler_mlfq_schedule :: "sched \<Rightarrow> (nat option \<times> sched) option" where
  "scheduler_mlfq_schedule s =
     (case first_index (\<lambda>i. 0 < qcount (queues s i)) MAX_PRIORITY_LEVELS of
        None \<Rightarrow> Some (None, s)
      | Some i \<Rightarrow> do {
          (p, q, T) \<leftarrow> pop_head (queues s i) (process_table s);
          a \<leftarrow> p;
          let T = upd_pcb a (\<lambda>x. x\<lparr>time_slice := time_slices s i, time_in_queue := 0\<rparr>) T;
          Some (Some a, s\<lparr>process_table := T, queues := (queues s)(i := q)\<rparr>)
        })"

text \<open>The inner loop of \<^verbatim>\<open>scheduler_mlfq_boost_priority\<close>; \<open>i\<close> is never 0.\<close>

partial_function (option) boost_level :: "nat \<Rightarrow> sched \<Rightarrow> sched option" where
  "boost_level i s =
     (if 0 < qcount (queues s i) then do {
        (p, q, T) \<leftarrow> pop_head (queues s i) (process_table s);
        a \<leftarrow> p;
        let T = upd_pcb a (\<lambda>x. x\<lparr>priority := 0, time_in_queue := 0, promotions := promotions x + 1\<rparr>) T;
        let s = s\<lparr>queues := (queues s)(i := q)\<rparr>;
        (q0, T) \<leftarrow> append_tail a (queues s 0) T;
        let s = s\<lparr>process_table := T, queues := (queues s)(0 := q0)\<rparr>;
        boost_level i (say (Boosted (pid (process_table s a))) s)
      } else Some s)"

definition scheduler_mlfq_boost_priority :: "sched \<Rightarrow> sched option" where
  "scheduler_mlfq_boost_priority s = do {
     s \<leftarrow> boost_level 1 (say Boosting s);
     s \<leftarrow> boost_level 2 s;
     boost_level 3 s
   }"

section \<open>Interface\<close>

definition scheduler_init :: "scheduler_config_t \<Rightarrow> sched \<Rightarrow> sched" where
  "scheduler_init cfg s = (
     let s = s\<lparr>process_table := (\<lambda>_. zero_pcb), ready_queue := zero_queue,
               queues := (\<lambda>_. zero_queue), time_slices := (\<lambda>_. 0), boost_interval := 0,
               last_boost_time := 0, stats := zero_stats,
               config := cfg, next_pid := 1, system_ticks := 0, current_process := None\<rparr>;
         s = (case sched_type cfg of
                SCHED_FIFO \<Rightarrow> scheduler_fifo_init s
              | SCHED_RR \<Rightarrow> scheduler_rr_init (time_quantum cfg) s
              | SCHED_MLFQ \<Rightarrow> scheduler_mlfq_init (mlfq_levels cfg) (cfg_boost_interval cfg) s
              | SCHED_CFS \<Rightarrow> s)
     in say (SchedInit (sched_type cfg)) s)"

definition new_pcb :: "string \<Rightarrow> u8 \<Rightarrow> sched \<Rightarrow> pcb \<Rightarrow> pcb" where
  "new_pcb name prio s x = x\<lparr>pid := next_pid s, pname := take 31 name, state := PROCESS_READY,
     priority := prio, priority_original := ucast prio, time_created := system_ticks s,
     time_started := 0, time_used := 0,
     time_slice := TIME_SLICE_BASE * (of_nat MAX_PRIORITY_LEVELS - ucast prio),
     time_slice_used := 0, vruntime := 0,
     regs := (regs x)\<lparr>reg_esp := 0x1000 + next_pid s * 0x1000, reg_eip := 0x400000\<rparr>\<rparr>"

definition scheduler_create_process :: "string \<Rightarrow> u8 \<Rightarrow> sched \<Rightarrow> (nat option \<times> sched) option" where
  "scheduler_create_process name prio s =
     (case find_free_pcb s of
        None \<Rightarrow> Some (None, say NoFreePcb s)
      | Some i \<Rightarrow> do {
          let s = (upd_proc i (new_pcb name prio s) s)\<lparr>next_pid := next_pid s + 1\<rparr>;
          s \<leftarrow> add_to_ready_queue i s;
          let x = process_table s i;
          Some (Some i, say (Created (pid x) (pname x) (priority x)) s)
        })"

definition pick_next :: "sched \<Rightarrow> (nat option \<times> sched) option" where
  "pick_next s = (case sched_type (config s) of
      SCHED_FIFO \<Rightarrow> scheduler_fifo_schedule s
    | SCHED_RR \<Rightarrow> scheduler_rr_schedule s
    | SCHED_MLFQ \<Rightarrow> scheduler_mlfq_schedule s
    | SCHED_CFS \<Rightarrow> scheduler_fifo_schedule s)"

definition dispatch :: "nat \<Rightarrow> sched \<Rightarrow> sched" where
  "dispatch n s = (
     let s = upd_proc n (\<lambda>x. x\<lparr>state := PROCESS_RUNNING, time_started := system_ticks s,
               time_slice_used := 0\<rparr>) (s\<lparr>current_process := Some n\<rparr>);
         s = remove_from_ready_queue n s;
         s = s\<lparr>stats := (stats s)\<lparr>context_switches := context_switches (stats s) + 1\<rparr>\<rparr>
     in say (Switched (pid (process_table s n)) (pid (process_table s n))) s)"

definition scheduler_schedule :: "sched \<Rightarrow> sched option" where
  "scheduler_schedule s = do {
     (p, s) \<leftarrow> pick_next s;
     case p of
       None \<Rightarrow> Some s
     | Some n \<Rightarrow>
         if p = current_process s then Some s
         else do {
           s \<leftarrow> (case current_process s of
                   None \<Rightarrow> Some s
                 | Some c \<Rightarrow> add_to_ready_queue c (upd_proc c (state_update (\<lambda>_. PROCESS_READY)) s));
           Some (dispatch n s)
         }
   }"

definition scheduler_terminate_process :: "u32 \<Rightarrow> sched \<Rightarrow> sched option" where
  "scheduler_terminate_process k s =
     (case first_index (\<lambda>i. pid (process_table s i) = k \<and>
              state (process_table s i) \<noteq> PROCESS_TERMINATED) MAX_PROCESSES of
        None \<Rightarrow> Some (say (NotFound k) s)
      | Some i \<Rightarrow> (
          let s = upd_proc i (state_update (\<lambda>_. PROCESS_TERMINATED)) s;
              s = remove_from_ready_queue i s;
              s = s\<lparr>stats := (stats s)\<lparr>processes_completed := processes_completed (stats s) + 1,
                      total_runtime := total_runtime (stats s) + time_used (process_table s i)\<rparr>\<rparr>;
              s = say (Terminated k (time_used (process_table s i))) s
          in case current_process s of
               None \<Rightarrow> Some s
             | Some c \<Rightarrow>
                 if pid (process_table s c) = k
                 then scheduler_schedule (s\<lparr>current_process := None\<rparr>) else Some s))"

definition scheduler_yield :: "sched \<Rightarrow> sched option" where
  "scheduler_yield s = do {
     s \<leftarrow> (case current_process s of
             None \<Rightarrow> Some s
           | Some c \<Rightarrow> add_to_ready_queue c (upd_proc c (state_update (\<lambda>_. PROCESS_READY)) s));
     scheduler_schedule s
   }"

definition scheduler_get_current_process :: "sched \<Rightarrow> nat option" where
  "scheduler_get_current_process s = current_process s"

text \<open>After \<^verbatim>\<open>scheduler_yield\<close> the tick handler reads \<^verbatim>\<open>current_process\<close> again.\<close>

definition tick_mlfq :: "sched \<Rightarrow> sched option" where
  "tick_mlfq s =
     (if sched_type (config s) = SCHED_MLFQ then do {
        c \<leftarrow> current_process s;
        let s = upd_proc c (\<lambda>x. x\<lparr>time_in_queue := time_in_queue x + 1\<rparr>) s;
        if boost_interval s \<le> system_ticks s - last_boost_time s then do {
          s \<leftarrow> scheduler_mlfq_boost_priority s;
          Some (s\<lparr>last_boost_time := system_ticks s\<rparr>)
        } else Some s
      } else Some s)"

definition scheduler_tick :: "sched \<Rightarrow> sched option" where
  "scheduler_tick s = (
     let s = s\<lparr>system_ticks := system_ticks s + 1\<rparr>
     in case current_process s of
          None \<Rightarrow> Some s
        | Some c \<Rightarrow> do {
            let s = upd_proc c (\<lambda>x. x\<lparr>time_used := time_used x + 1,
                      time_slice_used := time_slice_used x + 1, vruntime := vruntime x + 1\<rparr>) s;
            s \<leftarrow> (if enable_preemption (config s) \<noteq> 0 \<and>
                     time_slice (process_table s c) \<le> time_slice_used (process_table s c)
                  then scheduler_yield (say (SliceExpired (pid (process_table s c))) s) else Some s);
            tick_mlfq s
          })"

section \<open>Statistics and printing\<close>

definition scheduler_get_stats :: "sched \<Rightarrow> scheduler_stats_t \<times> sched" where
  "scheduler_get_stats s = (
     let s = (if 0 < processes_completed (stats s)
              then s\<lparr>stats := (stats s)\<lparr>avg_turnaround_time :=
                       total_runtime (stats s) div processes_completed (stats s)\<rparr>\<rparr>
              else s)
     in (stats s, s))"

definition scheduler_print_stats :: "sched \<Rightarrow> sched" where
  "scheduler_print_stats s = (
     let (st, s) = scheduler_get_stats s
     in say (StatsLine (context_switches st) (processes_completed st) (total_runtime st)
               (avg_turnaround_time st) (system_ticks s)) s)"

partial_function (option) walk :: "ptab \<Rightarrow> nat option \<Rightarrow> u32 list \<Rightarrow> u32 list option" where
  "walk T p acc = (case p of None \<Rightarrow> Some acc | Some a \<Rightarrow> walk T (nxt (T a)) (acc @ [pid (T a)]))"

definition print_queue :: "nat \<Rightarrow> ready_queue_t \<Rightarrow> sched \<Rightarrow> sched option" where
  "print_queue i q s = do {
     ps \<leftarrow> walk (process_table s) (head q) [];
     Some (say (QueueLine i (qcount q) ps) s)
   }"

definition scheduler_print_ready_queue :: "sched \<Rightarrow> sched option" where
  "scheduler_print_ready_queue s =
     (if sched_type (config s) = SCHED_MLFQ then do {
        s \<leftarrow> print_queue 0 (queues s 0) s;
        s \<leftarrow> print_queue 1 (queues s 1) s;
        s \<leftarrow> print_queue 2 (queues s 2) s;
        print_queue 3 (queues s 3) s
      } else print_queue 0 (ready_queue s) s)"

definition scheduler_dump_all_processes :: "sched \<Rightarrow> sched" where
  "scheduler_dump_all_processes s =
     fold (\<lambda>i s. let x = process_table s i
                 in if pid x \<noteq> 0 \<and> state x \<noteq> PROCESS_TERMINATED
                    then say (ProcLine (pid x) (pname x) (state x) (priority x) (time_used x)) s
                    else s) [0..<MAX_PROCESSES] s"

end
