(* ===== verification/Run_Queue.thy ===== *)
theory Run_Queue
  imports Scheduler
begin

text \<open>
  The abstraction of the scheduler's intrusive run queues: \<open>dseg\<close> is a doubly linked segment
  through the process table, \<open>qlinks\<close> a queue record whose links represent a list of table
  indices, \<open>qrep\<close> one whose element count is right as well. The three list manipulations refine
  append, tail and remove. The locale \<open>fifo_queue\<close> is the contract a scheduling policy relies on;
  the single ready queue and every MLFQ level are interpretations of it.
\<close>

section \<open>Segments\<close>

fun dseg :: "ptab \<Rightarrow> nat option \<Rightarrow> nat option \<Rightarrow> nat list \<Rightarrow> nat option \<Rightarrow> nat option \<Rightarrow> bool" where
  "dseg T pv h [] lst nx \<longleftrightarrow> h = nx \<and> lst = pv"
| "dseg T pv h (a # xs) lst nx \<longleftrightarrow> h = Some a \<and> prv (T a) = pv \<and> dseg T (Some a) (nxt (T a)) xs lst nx"

lemma dseg_append:
  "dseg T pv h (xs @ ys) lst nx \<longleftrightarrow> (\<exists>m k. dseg T pv h xs m k \<and> dseg T m k ys lst nx)"
  by (induction xs arbitrary: pv h) auto

definition same_links :: "ptab \<Rightarrow> ptab \<Rightarrow> nat \<Rightarrow> bool" where
  "same_links T T' i \<longleftrightarrow> nxt (T' i) = nxt (T i) \<and> prv (T' i) = prv (T i)"

lemma dseg_cong:
  "dseg T pv h xs lst nx \<Longrightarrow> (\<And>i. i \<in> set xs \<Longrightarrow> same_links T T' i) \<Longrightarrow> dseg T' pv h xs lst nx"
  by (induction xs arbitrary: pv h) (auto simp: same_links_def)

lemma dseg_hd: "dseg T pv h xs lst nx \<Longrightarrow> xs \<noteq> [] \<Longrightarrow> h = Some (hd xs)"
  by (cases xs) auto

lemma dseg_last: "dseg T pv h xs lst nx \<Longrightarrow> xs \<noteq> [] \<Longrightarrow> lst = Some (last xs) \<and> nxt (T (last xs)) = nx"
  by (induction xs arbitrary: pv h rule: induct_list012) auto

definition data :: "pcb \<Rightarrow> pcb" where
  "data x = x\<lparr>nxt := None, prv := None\<rparr>"

lemma data_links [simp]:
  "data (x\<lparr>nxt := a\<rparr>) = data x" "data (x\<lparr>prv := a\<rparr>) = data x"
  by (simp_all add: data_def)

lemma data_fields:
  assumes "data x = data y"
  shows "pid x = pid y" and "state x = state y" and "priority x = priority y"
    and "time_used x = time_used y" and "time_slice x = time_slice y"
  using arg_cong[OF assms, of pid] arg_cong[OF assms, of state] arg_cong[OF assms, of priority]
    arg_cong[OF assms, of time_used] arg_cong[OF assms, of time_slice]
  by (simp_all add: data_def)

text \<open>Only links change, and only those of the given elements.\<close>

definition relinks :: "nat set \<Rightarrow> ptab \<Rightarrow> ptab \<Rightarrow> bool" where
  "relinks A T T' \<longleftrightarrow> (\<forall>i. data (T' i) = data (T i)) \<and> (\<forall>i. i \<notin> A \<longrightarrow> T' i = T i)"

lemma relinks_refl [simp]: "relinks A T T"
  by (simp add: relinks_def)

lemma relinks_upd:
  "a \<in> A \<Longrightarrow> relinks A T (upd_pcb a (nxt_update f) T)"
  "a \<in> A \<Longrightarrow> relinks A T (upd_pcb a (prv_update f) T)"
  "a \<in> A \<Longrightarrow> relinks A T (clear_links a T)"
  by (auto simp: relinks_def upd_pcb_def clear_links_def data_def)

lemma relinks_trans: "relinks A T T1 \<Longrightarrow> relinks A T1 T2 \<Longrightarrow> relinks A T T2"
  by (simp add: relinks_def)

lemma relinks_mono: "relinks A T T' \<Longrightarrow> A \<subseteq> B \<Longrightarrow> relinks B T T'"
  by (auto simp: relinks_def)

section \<open>Queues\<close>

definition qopen :: "ptab \<Rightarrow> ready_queue_t \<Rightarrow> nat list \<Rightarrow> nat option \<Rightarrow> bool" where
  "qopen T q xs nx \<longleftrightarrow> distinct xs \<and>
     (if xs = [] then head q = None \<and> tail q = None else dseg T None (head q) xs (tail q) nx)"

definition qlinks :: "ptab \<Rightarrow> ready_queue_t \<Rightarrow> nat list \<Rightarrow> bool" where
  "qlinks T q xs \<longleftrightarrow> qopen T q xs None"

lemma qopen_cong:
  "qopen T q xs nx \<Longrightarrow> (\<And>i. i \<in> set xs \<Longrightarrow> same_links T T' i) \<Longrightarrow> qopen T' q xs nx"
  by (auto simp: qopen_def intro: dseg_cong)

lemma qlinks_cong:
  "qlinks T q xs \<Longrightarrow> (\<And>i. i \<in> set xs \<Longrightarrow> same_links T T' i) \<Longrightarrow> qlinks T' q xs"
  by (auto simp: qlinks_def intro: qopen_cong)

lemma qlinks_relinks: "qlinks T q xs \<Longrightarrow> relinks A T T' \<Longrightarrow> set xs \<inter> A = {} \<Longrightarrow> qlinks T' q xs"
  by (erule qlinks_cong) (auto simp: relinks_def same_links_def)

text \<open>
  Appending refines \<open>@ [p]\<close>; the last element keeps whatever forward link \<open>p\<close> has.
\<close>

lemma append_tail_open [queue_laws]:
  assumes "qopen T q xs nx" and "p \<notin> set xs" and "prv (T p) = None"
  shows "\<exists>q' T'. append_tail p q T = Some (q', T') \<and> qopen T' q' (xs @ [p]) (nxt (T p)) \<and>
    qcount q' = qcount q + 1 \<and> relinks (insert p (set xs)) T T' \<and> nxt (T' p) = nxt (T p)"
proof (cases "xs = []")
  case True
  then show ?thesis using assms by (auto simp: append_tail_def qopen_def)
next
  case False
  then have d: "dseg T None (head q) xs (tail q) nx" and dist: "distinct xs" using assms by (auto simp: qopen_def)
  define t where "t = last xs"
  have xs: "xs = butlast xs @ [t]" using False by (simp add: t_def)
  have t: "tail q = Some t" "t \<in> set xs" using dseg_last[OF d False] False by (auto simp: t_def)
  have tp: "t \<noteq> p" using t assms(2) by auto
  define T' where "T' = upd_pcb p (prv_update (\<lambda>_. tail q)) (upd_pcb t (nxt_update (\<lambda>_. Some p)) T)"
  have run: "append_tail p q T = Some (q\<lparr>tail := Some p, qcount := qcount q + 1\<rparr>, T')"
    using dseg_hd[OF d False] t by (simp add: append_tail_def T'_def)
  obtain m where m: "dseg T None (head q) (butlast xs) m (Some t)" "prv (T t) = m"
    using d xs dseg_append[of T None "head q" "butlast xs" "[t]"] by auto
  have tb: "t \<notin> set (butlast xs)" using dist xs by (metis distinct_append distinct_singleton not_distinct_conv_prefix)
  have "dseg T' None (head q) (butlast xs) m (Some t)"
    by (rule dseg_cong[OF m(1)])
      (use tb assms(2) in_set_butlastD in \<open>fastforce simp: same_links_def T'_def upd_pcb_def\<close>)
  moreover have "dseg T' m (Some t) [t, p] (Some p) (nxt (T p))"
    using m(2) tp t by (simp add: T'_def upd_pcb_def)
  ultimately have "dseg T' None (head q) (xs @ [p]) (Some p) (nxt (T p))"
    using dseg_append[of T' None "head q" "butlast xs" "[t, p]"] xs by (metis append.assoc append_Cons append_Nil)
  moreover have "relinks (insert p (set xs)) T T'"
    unfolding T'_def using t by (intro relinks_trans[OF relinks_upd(1) relinks_upd(2)]) auto
  moreover have "nxt (T' p) = nxt (T p)" using tp by (simp add: T'_def upd_pcb_def)
  ultimately show ?thesis using run dist assms(2) by (simp add: qopen_def)
qed

lemma pop_head_links [queue_laws]:
  assumes "qlinks T q (a # xs)"
  shows "\<exists>q' T'. pop_head q T = Some (Some a, q', T') \<and> qlinks T' q' xs \<and>
    qcount q' = qcount q - 1 \<and> relinks (set xs) T T' \<and> T' a = T a \<and> prv (T a) = None \<and>
    nxt (T a) = (if xs = [] then None else Some (hd xs))"
proof -
  have h: "head q = Some a" "prv (T a) = None" and d: "dseg T (Some a) (nxt (T a)) xs (tail q) None"
    and dist: "distinct (a # xs)"
    using assms by (auto simp: qlinks_def qopen_def)
  show ?thesis
  proof (cases xs)
    case Nil
    then show ?thesis using h d by (auto simp: pop_head_def qlinks_def qopen_def)
  next
    case (Cons b ys)
    then have b: "nxt (T a) = Some b" "tail q = Some (last xs)" and db: "dseg T (Some b) (nxt (T b)) ys (tail q) None"
      using d dseg_last[OF d] by auto
    have ne: "head q \<noteq> tail q" using h b(2) dist Cons by auto
    define T' where "T' = upd_pcb b (prv_update (\<lambda>_. None)) T"
    have "dseg T' (Some b) (nxt (T b)) ys (tail q) None"
      by (rule dseg_cong[OF db]) (use dist Cons in \<open>auto simp: same_links_def T'_def upd_pcb_def\<close>)
    then have "dseg T' None (Some b) xs (tail q) None"
      using Cons by (simp add: T'_def upd_pcb_def)
    moreover have "pop_head q T = Some (Some a, q\<lparr>head := Some b, qcount := qcount q - 1\<rparr>, T')"
      using h ne b by (simp add: pop_head_def T'_def)
    moreover have "relinks (set xs) T T'" "T' a = T a"
      using Cons dist by (auto simp: T'_def intro: relinks_upd) (simp add: upd_pcb_def)
    ultimately show ?thesis using h b dist Cons by (auto simp: qlinks_def qopen_def)
  qed
qed

lemma dseg_set_last:
  assumes "dseg T pv h xs lst nx" and "xs \<noteq> []" and "distinct xs"
  shows "dseg (upd_pcb (last xs) (nxt_update (\<lambda>_. v)) T) pv h xs lst v"
proof -
  define t where "t = last xs"
  have xs: "xs = butlast xs @ [t]" using assms(2) by (simp add: t_def)
  have tb: "t \<notin> set (butlast xs)" using assms(3) xs by (metis distinct_append distinct_singleton not_distinct_conv_prefix)
  obtain m where m: "dseg T pv h (butlast xs) m (Some t)" "prv (T t) = m" "lst = Some t"
    using assms(1) xs dseg_append[of T pv h "butlast xs" "[t]"] by auto
  have "dseg (upd_pcb t (nxt_update (\<lambda>_. v)) T) pv h (butlast xs) m (Some t)"
    by (rule dseg_cong[OF m(1)]) (use tb in \<open>auto simp: same_links_def upd_pcb_def\<close>)
  then have "dseg (upd_pcb t (nxt_update (\<lambda>_. v)) T) pv h (butlast xs @ [t]) lst v"
    unfolding dseg_append using m by (auto simp: upd_pcb_def)
  then show ?thesis using xs by (simp add: t_def)
qed

lemma dseg_set_first:
  assumes "dseg T pv h xs lst nx" and "xs \<noteq> []" and "distinct xs"
  shows "dseg (upd_pcb (hd xs) (prv_update (\<lambda>_. v)) T) v h xs lst nx"
proof (cases xs)
  case (Cons a ys)
  have "dseg (upd_pcb a (prv_update (\<lambda>_. v)) T) (Some a) (nxt (T a)) ys lst nx"
    by (rule dseg_cong[of T]) (use assms Cons in \<open>auto simp: same_links_def upd_pcb_def\<close>)
  then show ?thesis using assms Cons by (simp add: upd_pcb_def)
qed (use assms in simp)

text \<open>Unlinking a queued element refines removing it from the list.\<close>

lemma unlink_links [queue_laws]:
  assumes "qlinks T q (xs @ p # ys)" and "unlink p q T = (q', T')"
  shows "qlinks T' q' (xs @ ys)" and "relinks (set xs \<union> set ys) T T'"
    and "qcount q' = (if 0 < qcount q then qcount q - 1 else qcount q)"
proof -
  have dist: "distinct (xs @ p # ys)" and d: "dseg T None (head q) (xs @ p # ys) (tail q) None"
    using assms(1) by (auto simp: qlinks_def qopen_def split: if_splits)
  have sx: "dseg T None (head q) xs (prv (T p)) (Some p)"
    and sy: "dseg T (Some p) (nxt (T p)) ys (tail q) None"
    using d unfolding dseg_append by auto
  have xl: "prv (T p) = (if xs = [] then None else Some (last xs))"
    using dseg_last[OF sx] sx by (cases "xs = []") auto
  have yl: "nxt (T p) = (if ys = [] then None else Some (hd ys))"
    using dseg_hd[OF sy] sy by (cases "ys = []") auto
  define T1 where "T1 = (if xs = [] then T else upd_pcb (last xs) (nxt_update (\<lambda>_. nxt (T p))) T)"
  define T2 where "T2 = (if ys = [] then T1 else upd_pcb (hd ys) (prv_update (\<lambda>_. prv (T p))) T1)"
  have res: "T' = T2" "head q' = (if xs = [] then nxt (T p) else head q)"
    "tail q' = (if ys = [] then prv (T p) else tail q)"
    "qcount q' = (if 0 < qcount q then qcount q - 1 else qcount q)"
  proof -
    have "xs = [] \<or> last xs \<noteq> p" using dist by (cases xs rule: rev_cases) auto
    then have p1: "T1 p = T p" by (auto simp: T1_def upd_pcb_def)
    define q1 where "q1 = (if xs = [] then q\<lparr>head := nxt (T p)\<rparr> else q)"
    have "unlink p q T = (let (q, T) = (case nxt (T1 p) of
            Some b \<Rightarrow> (q1, upd_pcb b (prv_update (\<lambda>_. prv (T1 p))) T1)
          | None \<Rightarrow> (q1\<lparr>tail := prv (T1 p)\<rparr>, T1))
      in (if 0 < qcount q then q\<lparr>qcount := qcount q - 1\<rparr> else q, T))"
      using xl by (cases "nxt (T1 p)") (auto simp: unlink_def q1_def T1_def)
    then show "T' = T2" "head q' = (if xs = [] then nxt (T p) else head q)"
      "tail q' = (if ys = [] then prv (T p) else tail q)"
      "qcount q' = (if 0 < qcount q then qcount q - 1 else qcount q)"
      using assms(2) yl unfolding p1 by (auto simp: T2_def q1_def split: if_splits)
  qed
  show "qcount q' = (if 0 < qcount q then qcount q - 1 else qcount q)" by (rule res(4))
  have rl: "relinks (set xs \<union> set ys) T T1"
    unfolding T1_def by (auto intro: relinks_upd)
  then show "relinks (set xs \<union> set ys) T T'"
    unfolding res T2_def using relinks_trans[OF rl relinks_upd(2)] by auto
  have "dseg T1 None (head q') xs (prv (T p)) (nxt (T p))"
  proof (cases "xs = []")
    case True
    then show ?thesis using xl by (simp add: res)
  next
    case False
    then show ?thesis
      using dseg_set_last[OF sx False, of "nxt (T p)"] dist unfolding T1_def res by simp
  qed
  then have 1: "dseg T2 None (head q') xs (prv (T p)) (nxt (T p))"
    by (rule dseg_cong) (use dist in \<open>auto simp: T2_def same_links_def upd_pcb_def\<close>)
  have lx: "xs \<noteq> [] \<Longrightarrow> last xs \<notin> set ys" using dist last_in_set[of xs] by (fastforce simp: disjoint_iff)
  have "dseg T1 (Some p) (nxt (T p)) ys (tail q) None"
    by (rule dseg_cong[OF sy]) (use lx in \<open>auto simp: T1_def same_links_def upd_pcb_def\<close>)
  then have 2: "dseg T2 (prv (T p)) (nxt (T p)) ys (tail q') None"
    using dseg_set_first[of T1 "Some p" "nxt (T p)" ys "tail q" None "prv (T p)"] dist yl
    by (auto simp: T2_def res)
  have "dseg T2 None (head q') (xs @ ys) (tail q') None"
    unfolding dseg_append using 1 2 by blast
  then show "qlinks T' q' (xs @ ys)" using dist res xl yl by (auto simp: qlinks_def qopen_def)
qed

text \<open>
  Unlinking an element that is in no queue: with both links NULL it empties the queue, whatever
  that held; with the links of an element just popped it leaves the queue as it is.
\<close>

lemma unlink_stray:
  assumes "prv (T p) = None" and "nxt (T p) = None"
  shows "unlink p q T = (q\<lparr>head := None, tail := None,
    qcount := (if 0 < qcount q then qcount q - 1 else qcount q)\<rparr>, T)"
  using assms by (simp add: unlink_def)

lemma unlink_popped:
  assumes "qlinks T q xs" and "xs \<noteq> []" and "prv (T p) = None" and "nxt (T p) = Some (hd xs)"
  shows "unlink p q T = (q\<lparr>qcount := (if 0 < qcount q then qcount q - 1 else qcount q)\<rparr>, T)"
proof -
  obtain a ys where xs: "xs = a # ys" using assms(2) by (cases xs) auto
  then have "head q = Some a" "prv (T a) = None" using assms(1) by (auto simp: qlinks_def qopen_def)
  moreover from this have "upd_pcb a (prv_update (\<lambda>_. None)) T = T" by (auto simp: upd_pcb_def)
  ultimately show ?thesis using assms xs by (simp add: unlink_def)
qed

section \<open>The contract of a scheduling policy\<close>

text \<open>
  \<open>holds s xs\<close>: the state's queue contains \<open>xs\<close>; \<open>adm s p\<close>: \<open>p\<close> may be enqueued. Enqueueing
  appends, dequeueing takes the front and answers NULL on an empty queue.
\<close>

locale fifo_queue =
  fixes enq :: "'e \<Rightarrow> 's \<Rightarrow> 's option"
    and deq :: "'s \<Rightarrow> ('e option \<times> 's) option"
    and holds :: "'s \<Rightarrow> 'e list \<Rightarrow> bool"
    and adm :: "'s \<Rightarrow> 'e \<Rightarrow> bool"
  assumes enq_law: "holds s xs \<Longrightarrow> p \<notin> set xs \<Longrightarrow> adm s p \<Longrightarrow>
      \<exists>s'. enq p s = Some s' \<and> holds s' (xs @ [p]) \<and> (\<forall>r. adm s r \<longrightarrow> adm s' r)"
    and deq_law: "holds s (p # xs) \<Longrightarrow> \<exists>s'. deq s = Some (Some p, s') \<and> holds s' xs"
    and deq_empty: "holds s [] \<Longrightarrow> deq s = Some (None, s)"
begin

primrec enq_all :: "'e list \<Rightarrow> 's \<Rightarrow> 's option" where
  "enq_all [] s = Some s"
| "enq_all (p # ps) s = (case enq p s of None \<Rightarrow> None | Some s' \<Rightarrow> enq_all ps s')"

primrec drain :: "nat \<Rightarrow> 's \<Rightarrow> ('e list \<times> 's) option" where
  "drain 0 s = Some ([], s)"
| "drain (Suc n) s = (case deq s of
      Some (Some p, s') \<Rightarrow> (case drain n s' of None \<Rightarrow> None | Some (ps, s'') \<Rightarrow> Some (p # ps, s''))
    | Some (None, s') \<Rightarrow> Some ([], s')
    | None \<Rightarrow> None)"

lemma enq_all_holds:
  "holds s xs \<Longrightarrow> distinct (xs @ ps) \<Longrightarrow> \<forall>p\<in>set ps. adm s p \<Longrightarrow>
   \<exists>s'. enq_all ps s = Some s' \<and> holds s' (xs @ ps)"
proof (induction ps arbitrary: s xs)
  case (Cons p ps)
  then obtain s1 where s1: "enq p s = Some s1" "holds s1 (xs @ [p])" "\<forall>r. adm s r \<longrightarrow> adm s1 r"
    using enq_law[of s xs p] by auto
  then show ?case using Cons.IH[of s1 "xs @ [p]"] Cons.prems by auto
qed simp

lemma drain_holds: "holds s xs \<Longrightarrow> \<exists>s'. drain (length xs) s = Some (xs, s') \<and> holds s' []"
proof (induction xs arbitrary: s)
  case (Cons p xs)
  then obtain s1 where "deq s = Some (Some p, s1)" "holds s1 xs" using deq_law by blast
  then show ?case using Cons.IH[of s1] by auto
qed simp

theorem first_in_first_out:
  assumes "holds s xs" and "distinct (xs @ ps)" and "\<forall>p\<in>set ps. adm s p"
  shows "\<exists>s1 s2. enq_all ps s = Some s1 \<and> drain (length xs + length ps) s1 = Some (xs @ ps, s2) \<and>
    deq s2 = Some (None, s2)"
proof -
  obtain s1 where s1: "enq_all ps s = Some s1" "holds s1 (xs @ ps)" using enq_all_holds[OF assms] by blast
  then show ?thesis using drain_holds[OF s1(2)] deq_empty by auto
qed

end

section \<open>The ready queue and the MLFQ levels provide it\<close>

definition qrep :: "ptab \<Rightarrow> ready_queue_t \<Rightarrow> nat list \<Rightarrow> bool" where
  "qrep T q xs \<longleftrightarrow> qlinks T q xs \<and> set xs \<subseteq> {..<MAX_PROCESSES} \<and> qcount q = of_nat (length xs)"

lemma qrep_length: "qrep T q xs \<Longrightarrow> length xs \<le> 64"
proof -
  assume q: "qrep T q xs"
  then have "distinct xs" "set xs \<subseteq> {..<64}"
    by (auto simp: qrep_def qlinks_def qopen_def MAX_PROCESSES_def)
  then show ?thesis using card_mono[of "{..<64::nat}" "set xs"] distinct_card[of xs] by simp
qed

lemma qrep_count: "qrep T q xs \<Longrightarrow> unat (qcount q) = length xs"
  using qrep_length[of T q xs] by (simp add: qrep_def unat_of_nat_small)

lemma qrep_Nil_count: "qrep T q xs \<Longrightarrow> qcount q = 0 \<longleftrightarrow> xs = []"
  using qrep_count[of T q xs] by (metis length_0_conv unat_eq_zero)

lemma clear_links_get: "prv (clear_links p T p) = None" "nxt (clear_links p T p) = None"
  by (simp_all add: clear_links_def upd_pcb_def)

lemma clear_links_other: "i \<noteq> p \<Longrightarrow> clear_links p T i = T i"
  by (simp add: clear_links_def upd_pcb_def)

lemma qlinks_clear: "qlinks T q xs \<Longrightarrow> p \<notin> set xs \<Longrightarrow> qlinks (clear_links p T) q xs"
  by (rule qlinks_relinks[OF _ relinks_upd(3)[of p "{p}"]]) auto

lemma append_tail_rep:
  assumes "qlinks T q xs" and "p \<notin> set xs"
  shows "\<exists>q' T'. append_tail p q (clear_links p T) = Some (q', T') \<and> qlinks T' q' (xs @ [p]) \<and>
    qcount q' = qcount q + 1 \<and> relinks (insert p (set xs)) T T'"
  using append_tail_open[of "clear_links p T" q xs None p] qlinks_clear[OF assms] assms(2)
    relinks_trans[OF relinks_upd(3)[of p "insert p (set xs)" T]]
  by (fastforce simp: clear_links_get qlinks_def)

lemma pop_head_rep:
  assumes "qrep T q (a # xs)"
  shows "\<exists>q' T'. pop_head q T = Some (Some a, q', T') \<and> qrep T' q' xs \<and> relinks (set xs) T T' \<and>
    prv (T' a) = None \<and> nxt (T' a) = (if xs = [] then None else Some (hd xs))"
proof -
  have "qlinks T q (a # xs)" using assms by (simp add: qrep_def)
  from pop_head_links[OF this] show ?thesis using assms by (auto simp: qrep_def)
qed

definition single_holds :: "sched \<Rightarrow> nat list \<Rightarrow> bool" where
  "single_holds s xs \<longleftrightarrow> sched_type (config s) \<noteq> SCHED_MLFQ \<and> qrep (process_table s) (ready_queue s) xs"

definition slot :: "sched \<Rightarrow> nat \<Rightarrow> bool" where
  "slot s p \<longleftrightarrow> p < MAX_PROCESSES"

lemma single_enq:
  assumes "single_holds s xs" and "p \<notin> set xs" and "p < MAX_PROCESSES"
  shows "\<exists>s'. add_to_ready_queue p s = Some s' \<and> single_holds s' (xs @ [p]) \<and>
    relinks (insert p (set xs)) (process_table s) (process_table s') \<and>
    s' = s\<lparr>process_table := process_table s', ready_queue := ready_queue s'\<rparr>"
proof -
  have q: "qlinks (process_table s) (ready_queue s) xs" using assms by (simp add: single_holds_def qrep_def)
  obtain q' T' where "append_tail p (ready_queue s) (clear_links p (process_table s)) = Some (q', T')"
    "qlinks T' q' (xs @ [p])" "qcount q' = qcount (ready_queue s) + 1"
    "relinks (insert p (set xs)) (process_table s) T'"
    using append_tail_rep[OF q assms(2)] by blast
  then show ?thesis
    using assms by (auto simp: add_to_ready_queue_def single_holds_def qrep_def)
qed

lemma single_deq:
  assumes "single_holds s (p # xs)"
  shows "\<exists>s'. scheduler_fifo_schedule s = Some (Some p, s') \<and> single_holds s' xs \<and>
    relinks (set xs) (process_table s) (process_table s') \<and>
    prv (process_table s' p) = None \<and>
    nxt (process_table s' p) = (if xs = [] then None else Some (hd xs)) \<and>
    s' = s\<lparr>process_table := process_table s', ready_queue := ready_queue s'\<rparr>"
proof -
  have q: "qrep (process_table s) (ready_queue s) (p # xs)" using assms by (simp add: single_holds_def)
  then have "qcount (ready_queue s) \<noteq> 0" using qrep_Nil_count by blast
  then show ?thesis
    using pop_head_rep[OF q] assms by (auto simp: scheduler_fifo_schedule_def single_holds_def)
qed

lemma single_deq_empty: "single_holds s [] \<Longrightarrow> scheduler_fifo_schedule s = Some (None, s)"
  using qrep_Nil_count by (auto simp: scheduler_fifo_schedule_def single_holds_def)

interpretation single: fifo_queue add_to_ready_queue scheduler_fifo_schedule single_holds slot
proof unfold_locales
  fix s xs and p :: nat assume "single_holds s xs" "p \<notin> set xs" "slot s p"
  then show "\<exists>s'. add_to_ready_queue p s = Some s' \<and> single_holds s' (xs @ [p]) \<and>
      (\<forall>r. slot s r \<longrightarrow> slot s' r)"
    using single_enq[of s xs p] by (auto simp: slot_def)
next
  fix s p xs assume "single_holds s (p # xs)"
  then show "\<exists>s'. scheduler_fifo_schedule s = Some (Some p, s') \<and> single_holds s' xs"
    using single_deq by blast
qed (rule single_deq_empty)

text \<open>One level of the MLFQ, the others empty.\<close>

definition level_holds :: "nat \<Rightarrow> sched \<Rightarrow> nat list \<Rightarrow> bool" where
  "level_holds l s xs \<longleftrightarrow> sched_type (config s) = SCHED_MLFQ \<and> l < MAX_PRIORITY_LEVELS \<and>
     qrep (process_table s) (queues s l) xs \<and>
     (\<forall>i<MAX_PRIORITY_LEVELS. i \<noteq> l \<longrightarrow> qcount (queues s i) = 0)"

definition level_of :: "pcb \<Rightarrow> nat" where
  "level_of x = min (unat (priority x)) (MAX_PRIORITY_LEVELS - 1)"

definition level_slot :: "nat \<Rightarrow> sched \<Rightarrow> nat \<Rightarrow> bool" where
  "level_slot l s p \<longleftrightarrow> p < MAX_PROCESSES \<and> level_of (process_table s p) = l"

lemma add_to_ready_queue_mlfq:
  assumes "sched_type (config s) = SCHED_MLFQ" and "qlinks (process_table s) (queues s l) xs"
    and "p \<notin> set xs" and "level_of (process_table s p) = l"
  shows "\<exists>q' T'. add_to_ready_queue p s = Some (s\<lparr>process_table := T', queues := (queues s)(l := q')\<rparr>) \<and>
    qlinks T' q' (xs @ [p]) \<and> qcount q' = qcount (queues s l) + 1 \<and>
    relinks (insert p (set xs)) (process_table s) T'"
proof -
  have pr: "priority (clear_links p (process_table s) p) = priority (process_table s p)"
    by (simp add: clear_links_def upd_pcb_def)
  have "(if MAX_PRIORITY_LEVELS \<le> unat (priority (process_table s p)) then MAX_PRIORITY_LEVELS - 1
      else unat (priority (process_table s p))) = l"
    using assms(4) by (auto simp: level_of_def MAX_PRIORITY_LEVELS_def)
  note level = this
  obtain q' T' where "append_tail p (queues s l) (clear_links p (process_table s)) = Some (q', T')"
    "qlinks T' q' (xs @ [p])" "qcount q' = qcount (queues s l) + 1"
    "relinks (insert p (set xs)) (process_table s) T'"
    using append_tail_rep[OF assms(2,3)] by blast
  moreover from this(1) have
    "add_to_ready_queue p s = Some (s\<lparr>process_table := T', queues := (queues s)(l := q')\<rparr>)"
    unfolding add_to_ready_queue_def Let_def pr level using assms(1) by simp
  ultimately show ?thesis by blast
qed

lemma first_level:
  assumes "\<forall>i<l. qcount (queues s i) = 0" and "qcount (queues s l) \<noteq> 0" and "l < MAX_PRIORITY_LEVELS"
  shows "first_index (\<lambda>i. 0 < qcount (queues s i)) MAX_PRIORITY_LEVELS = Some l"
  using assms by (simp add: first_index_Some word_gt_0)

lemma mlfq_schedule_level:
  assumes "\<forall>i<l. qcount (queues s i) = 0" and "l < MAX_PRIORITY_LEVELS"
    and "qrep (process_table s) (queues s l) (p # xs)"
  shows "\<exists>q' T'. scheduler_mlfq_schedule s =
      Some (Some p, s\<lparr>process_table := upd_pcb p (\<lambda>x. x\<lparr>time_slice := time_slices s l, time_in_queue := 0\<rparr>) T',
                      queues := (queues s)(l := q')\<rparr>) \<and>
    qrep T' q' xs \<and> relinks (set xs) (process_table s) T' \<and>
    prv (T' p) = None \<and> nxt (T' p) = (if xs = [] then None else Some (hd xs))"
proof -
  have "qcount (queues s l) \<noteq> 0" using qrep_Nil_count[OF assms(3)] by simp
  note f = first_level[OF assms(1) this assms(2)]
  obtain q' T' where t: "pop_head (queues s l) (process_table s) = Some (Some p, q', T')"
    "qrep T' q' xs" "relinks (set xs) (process_table s) T'" "prv (T' p) = None"
    "nxt (T' p) = (if xs = [] then None else Some (hd xs))"
    using pop_head_rep[OF assms(3)] by blast
  moreover from t(1) have "scheduler_mlfq_schedule s =
      Some (Some p, s\<lparr>process_table := upd_pcb p (\<lambda>x. x\<lparr>time_slice := time_slices s l, time_in_queue := 0\<rparr>) T',
                      queues := (queues s)(l := q')\<rparr>)"
    by (simp add: scheduler_mlfq_schedule_def f)
  ultimately show ?thesis by blast
qed

lemma qrep_relinks: "qrep T q xs \<Longrightarrow> (\<And>i. i \<in> set xs \<Longrightarrow> same_links T T' i) \<Longrightarrow> qrep T' q xs"
  by (auto simp: qrep_def intro: qlinks_cong)

lemma level_deq:
  assumes "level_holds l s (p # xs)"
  shows "\<exists>s'. scheduler_mlfq_schedule s = Some (Some p, s') \<and> level_holds l s' xs"
proof -
  have a: "\<forall>i<l. qcount (queues s i) = 0" "l < MAX_PRIORITY_LEVELS"
    "qrep (process_table s) (queues s l) (p # xs)"
    using assms by (auto simp: level_holds_def)
  obtain q' T' where d: "scheduler_mlfq_schedule s = Some (Some p, s\<lparr>process_table :=
      upd_pcb p (\<lambda>x. x\<lparr>time_slice := time_slices s l, time_in_queue := 0\<rparr>) T',
      queues := (queues s)(l := q')\<rparr>)" "qrep T' q' xs"
    using mlfq_schedule_level[OF a] by blast
  have "qrep (upd_pcb p (\<lambda>x. x\<lparr>time_slice := time_slices s l, time_in_queue := 0\<rparr>) T') q' xs"
    by (rule qrep_relinks[OF d(2)]) (auto simp: same_links_def upd_pcb_def)
  then show ?thesis using d(1) assms by (auto simp: level_holds_def)
qed

lemma level_deq_empty: "level_holds l s [] \<Longrightarrow> scheduler_mlfq_schedule s = Some (None, s)"
proof -
  assume "level_holds l s []"
  then have "\<forall>i<MAX_PRIORITY_LEVELS. qcount (queues s i) = 0"
    using qrep_Nil_count by (fastforce simp: level_holds_def)
  then have "first_index (\<lambda>i. 0 < qcount (queues s i)) MAX_PRIORITY_LEVELS = None"
    by (simp add: first_index_None)
  then show ?thesis by (simp add: scheduler_mlfq_schedule_def)
qed

lemma level_enq:
  assumes "level_holds l s xs" and "p \<notin> set xs" and "level_slot l s p"
  shows "\<exists>s'. add_to_ready_queue p s = Some s' \<and> level_holds l s' (xs @ [p]) \<and>
    (\<forall>r. level_slot l s r \<longrightarrow> level_slot l s' r)"
proof -
  have a: "sched_type (config s) = SCHED_MLFQ" "qlinks (process_table s) (queues s l) xs"
    "level_of (process_table s p) = l"
    using assms by (auto simp: level_holds_def level_slot_def qrep_def)
  obtain q' T' where r: "add_to_ready_queue p s = Some (s\<lparr>process_table := T', queues := (queues s)(l := q')\<rparr>)"
    "qlinks T' q' (xs @ [p])" "qcount q' = qcount (queues s l) + 1"
    "relinks (insert p (set xs)) (process_table s) T'"
    using add_to_ready_queue_mlfq[OF a(1,2) assms(2) a(3)] by blast
  have "level_of (T' i) = level_of (process_table s i)" for i
    using r(4) data_fields(3)[of "T' i" "process_table s i"] by (simp add: relinks_def level_of_def)
  then show ?thesis
    using r assms by (auto simp: level_holds_def level_slot_def qrep_def)
qed

interpretation mlfq_level: fifo_queue add_to_ready_queue scheduler_mlfq_schedule "level_holds l" "level_slot l" for l
  by unfold_locales (blast intro: level_enq level_deq level_deq_empty)+

lemmas fifo_order = single.first_in_first_out mlfq_level.first_in_first_out

end
