(* ===== verification/Scheduler_Facts.thy ===== *)
theory Scheduler_Facts
  imports Run_Queue
begin

text \<open>
  What the scheduler guarantees and where it does not: the order in which queued processes run,
  the MLFQ's choice and its boost, process creation, the accounting of a tick, the invariant that
  only the current process is RUNNING, and the effect of unlinking a process that is in no queue.
\<close>

section \<open>Frames of the list manipulations\<close>

text \<open>Whatever the links, the three manipulations change nothing but links.\<close>

lemma append_tail_data: "append_tail p q T = Some (q', T') \<Longrightarrow> \<forall>i. data (T' i) = data (T i)"
  by (auto simp: append_tail_def upd_pcb_def data_def split: if_splits bind_splits)

lemma pop_head_data: "pop_head q T = Some (p, q', T') \<Longrightarrow> \<forall>i. data (T' i) = data (T i)"
  by (auto simp: pop_head_def upd_pcb_def data_def split: if_splits bind_splits option.splits)

lemma unlink_data: "unlink p q T = (q', T') \<Longrightarrow> \<forall>i. data (T' i) = data (T i)"
  by (auto simp: unlink_def upd_pcb_def data_def Let_def split: if_splits option.splits prod.splits)

lemma clear_links_data: "data (clear_links p T i) = data (T i)"
  by (simp add: clear_links_def upd_pcb_def data_def)

text \<open>The state apart from the table, the queues, the statistics and the trace.\<close>

definition same_rest :: "sched \<Rightarrow> sched \<Rightarrow> bool" where
  "same_rest s s' \<longleftrightarrow> current_process s' = current_process s \<and> config s' = config s \<and>
     next_pid s' = next_pid s \<and> system_ticks s' = system_ticks s \<and> time_slices s' = time_slices s \<and>
     boost_interval s' = boost_interval s \<and> last_boost_time s' = last_boost_time s"

definition same_data :: "sched \<Rightarrow> sched \<Rightarrow> bool" where
  "same_data s s' \<longleftrightarrow> same_rest s s' \<and> (\<forall>i. data (process_table s' i) = data (process_table s i))"

text \<open>The fields no scheduling decision touches.\<close>

definition core :: "pcb \<Rightarrow> pcb" where
  "core x = x\<lparr>nxt := None, prv := None, state := PROCESS_NEW, priority := 0, time_started := 0,
     time_slice := 0, time_slice_used := 0, time_in_queue := 0, promotions := 0\<rparr>"

lemma data_core: "data x = data y \<Longrightarrow> core x = core y"
proof -
  assume "data x = data y"
  then have "core (data x) = core (data y)" by simp
  then show ?thesis by (simp add: core_def data_def)
qed

lemma core_fields: "core x = core y \<Longrightarrow> pid x = pid y \<and> time_used x = time_used y"
proof -
  assume h: "core x = core y"
  have "pid (core x) = pid (core y)" "time_used (core x) = time_used (core y)" by (simp_all only: h)
  then show ?thesis by (simp add: core_def)
qed

definition same_core :: "sched \<Rightarrow> sched \<Rightarrow> bool" where
  "same_core s s' \<longleftrightarrow> (\<forall>i. core (process_table s' i) = core (process_table s i))"

lemma same_core_trans: "same_core s s1 \<Longrightarrow> same_core s1 s2 \<Longrightarrow> same_core s s2"
  by (simp add: same_core_def)

lemma add_to_ready_queue_frame [frame_laws]:
  "add_to_ready_queue p s = Some s' \<Longrightarrow> same_data s s'"
  by (auto simp: add_to_ready_queue_def same_data_def same_rest_def Let_def clear_links_data
      split: if_splits bind_splits dest!: append_tail_data)

lemma remove_from_ready_queue_frame [frame_laws]:
  "same_data s (remove_from_ready_queue p s)"
  by (auto simp: remove_from_ready_queue_def same_data_def same_rest_def Let_def clear_links_data
      split: prod.splits dest!: unlink_data)

lemma fifo_schedule_frame [frame_laws]:
  "scheduler_fifo_schedule s = Some (p, s') \<Longrightarrow> same_data s s'"
  by (auto simp: scheduler_fifo_schedule_def same_data_def same_rest_def
      split: if_splits bind_splits dest!: pop_head_data)

lemma same_data_trans: "same_data s s1 \<Longrightarrow> same_data s1 s2 \<Longrightarrow> same_data s s2"
  by (simp add: same_data_def same_rest_def)

lemma same_data_core: "same_data s s' \<Longrightarrow> same_core s s'"
  unfolding same_data_def same_core_def by (blast intro: data_core)

lemma rr_schedule_frame [frame_laws]:
  "scheduler_rr_schedule s = Some (p, s') \<Longrightarrow> same_data s s'"
proof -
  assume "scheduler_rr_schedule s = Some (p, s')"
  then obtain s1 where f: "scheduler_fifo_schedule s = Some (p, s1)"
    "(case (p, current_process s1) of
       (Some _, Some c) \<Rightarrow>
         if state (process_table s1 c) = PROCESS_READY then add_to_ready_queue c s1 else Some s1
     | _ \<Rightarrow> Some s1) = Some s'"
    by (auto simp: scheduler_rr_schedule_def split: bind_splits)
  have "same_data s1 s'"
  proof (cases "p = None \<or> current_process s1 = None")
    case True
    then show ?thesis using f(2) by (auto simp: same_data_def same_rest_def split: option.splits)
  next
    case False
    then show ?thesis
      using f(2) by (auto simp: same_data_def same_rest_def split: if_splits dest!: add_to_ready_queue_frame)
  qed
  then show ?thesis using fifo_schedule_frame[OF f(1)] by (blast intro: same_data_trans)
qed

text \<open>What the choice of the next process keeps: every process state and everything in \<open>core\<close>.\<close>

definition keeps_states :: "sched \<Rightarrow> sched \<Rightarrow> bool" where
  "keeps_states s s' \<longleftrightarrow> same_core s s' \<and> current_process s' = current_process s \<and>
     config s' = config s \<and> next_pid s' = next_pid s \<and> system_ticks s' = system_ticks s \<and>
     (\<forall>i. state (process_table s' i) = state (process_table s i))"

lemma keeps_states_trans: "keeps_states s s1 \<Longrightarrow> keeps_states s1 s2 \<Longrightarrow> keeps_states s s2"
  by (auto simp: keeps_states_def intro: same_core_trans)

lemma same_data_keeps: "same_data s s' \<Longrightarrow> keeps_states s s'"
  by (auto simp: keeps_states_def same_data_core) (auto simp: same_data_def same_rest_def dest: data_fields)

lemma mlfq_schedule_frame [frame_laws]:
  assumes "scheduler_mlfq_schedule s = Some (p, s')"
  shows "keeps_states s s'"
proof (cases "first_index (\<lambda>i. 0 < qcount (queues s i)) MAX_PRIORITY_LEVELS")
  case None
  then show ?thesis using assms by (auto simp: scheduler_mlfq_schedule_def keeps_states_def same_core_def)
next
  case (Some l)
  then obtain q T a where t: "pop_head (queues s l) (process_table s) = Some (Some a, q, T)"
    "s' = s\<lparr>process_table := upd_pcb a (\<lambda>x. x\<lparr>time_slice := time_slices s l, time_in_queue := 0\<rparr>) T,
       queues := (queues s)(l := q)\<rparr>"
    using assms by (auto simp: scheduler_mlfq_schedule_def split: bind_splits)
  have d: "data (T i) = data (process_table s i)" for i using pop_head_data[OF t(1)] by blast
  have "core (process_table s' i) = core (process_table s i)" for i
    using data_core[OF d[of i]] t(2) by (auto simp: upd_pcb_def core_def)
  moreover have "state (process_table s' i) = state (process_table s i)" for i
    using data_fields(2)[OF d[of i]] t(2) by (auto simp: upd_pcb_def)
  ultimately show ?thesis using t(2) by (simp add: keeps_states_def same_core_def)
qed

lemma pick_next_frame [frame_laws]: "pick_next s = Some (p, s') \<Longrightarrow> keeps_states s s'"
  by (auto simp: pick_next_def split: scheduler_type.splits
      dest: fifo_schedule_frame rr_schedule_frame mlfq_schedule_frame intro: same_data_keeps)

text \<open>The one step of the boost loop.\<close>

definition boost_step :: "nat \<Rightarrow> sched \<Rightarrow> sched option" where
  "boost_step i s = do {
     (p, q, T) \<leftarrow> pop_head (queues s i) (process_table s);
     a \<leftarrow> p;
     let T = upd_pcb a (\<lambda>x. x\<lparr>priority := 0, time_in_queue := 0, promotions := promotions x + 1\<rparr>) T;
     let s = s\<lparr>queues := (queues s)(i := q)\<rparr>;
     (q0, T) \<leftarrow> append_tail a (queues s 0) T;
     let s = s\<lparr>process_table := T, queues := (queues s)(0 := q0)\<rparr>;
     Some (say (Boosted (pid (process_table s a))) s)
   }"

lemma boost_level_step:
  "boost_level i s = (if 0 < qcount (queues s i) then boost_step i s \<bind> boost_level i else Some s)"
  by (subst boost_level.simps) (simp add: boost_step_def Let_def split_def)

lemma boost_step_frame: "boost_step i s = Some s' \<Longrightarrow> keeps_states s s'"
proof -
  assume "boost_step i s = Some s'"
  then obtain a q T q0 T' where t: "pop_head (queues s i) (process_table s) = Some (Some a, q, T)"
    "append_tail a (((queues s)(i := q)) 0)
       (upd_pcb a (\<lambda>x. x\<lparr>priority := 0, time_in_queue := 0, promotions := promotions x + 1\<rparr>) T) = Some (q0, T')"
    "process_table s' = T'" "current_process s' = current_process s" "config s' = config s"
    "next_pid s' = next_pid s" "system_ticks s' = system_ticks s"
    by (auto simp: boost_step_def Let_def say_def split: bind_splits)
  note d = pop_head_data[OF t(1), rule_format] append_tail_data[OF t(2), rule_format]
  have "core (T' k) = core (process_table s k)" for k
    using data_core[OF d(1)[of k]] data_core[OF d(2)[of k]] by (auto simp: upd_pcb_def core_def)
  moreover have "state (T' k) = state (process_table s k)" for k
    using data_fields(2)[OF d(1)[of k]] data_fields(2)[OF d(2)[of k]] by (auto simp: upd_pcb_def)
  ultimately show ?thesis using t by (simp add: keeps_states_def same_core_def)
qed

lemma boost_level_frame: "boost_level i s = Some s' \<Longrightarrow> keeps_states s s'"
proof (rule boost_level.raw_induct[where P = "\<lambda>i s s'. keeps_states s s'"], goal_cases)
  case (1 f i s s')
  show ?case
  proof (cases "0 < qcount (queues s i)")
    case True
    then have "boost_step i s \<bind> f i = Some s'"
      using 1(3) by (simp add: boost_step_def Let_def split_def)
    then obtain s1 where "boost_step i s = Some s1" "f i s1 = Some s'"
      by (auto split: bind_splits)
    then show ?thesis using 1(2) boost_step_frame keeps_states_trans by blast
  next
    case False
    then show ?thesis using 1(3) by (simp add: keeps_states_def same_core_def)
  qed
qed

lemma boost_frame [frame_laws]: "scheduler_mlfq_boost_priority s = Some s' \<Longrightarrow> keeps_states s s'"
proof -
  assume "scheduler_mlfq_boost_priority s = Some s'"
  then obtain s1 s2 where b: "boost_level 1 (say Boosting s) = Some s1" "boost_level 2 s1 = Some s2"
    "boost_level 3 s2 = Some s'"
    by (auto simp: scheduler_mlfq_boost_priority_def split: bind_splits)
  have "keeps_states s (say Boosting s)" by (simp add: keeps_states_def same_core_def say_def)
  with b show ?thesis by (blast intro: keeps_states_trans dest: boost_level_frame)
qed

section \<open>Only the current process is RUNNING\<close>

definition running_is_current :: "sched \<Rightarrow> bool" where
  "running_is_current s \<longleftrightarrow>
     (\<forall>i. state (process_table s i) = PROCESS_RUNNING \<longrightarrow> current_process s = Some i)"

lemma keeps_running: "keeps_states s s' \<Longrightarrow> running_is_current s \<Longrightarrow> running_is_current s'"
  by (simp add: keeps_states_def running_is_current_def)

lemma dispatch_state:
  "state (process_table (dispatch n s) i) = (if i = n then PROCESS_RUNNING else state (process_table s i))"
  "current_process (dispatch n s) = Some n"
  "system_ticks (dispatch n s) = system_ticks s \<and> next_pid (dispatch n s) = next_pid s"
  "same_core s (dispatch n s)"
proof -
  define s1 where "s1 = upd_proc n (\<lambda>x. x\<lparr>state := PROCESS_RUNNING, time_started := system_ticks s,
    time_slice_used := 0\<rparr>) (s\<lparr>current_process := Some n\<rparr>)"
  have f: "same_data s1 (remove_from_ready_queue n s1)" by (rule remove_from_ready_queue_frame)
  have d: "process_table (dispatch n s) = process_table (remove_from_ready_queue n s1)"
    "current_process (dispatch n s) = current_process (remove_from_ready_queue n s1)"
    "system_ticks (dispatch n s) = system_ticks (remove_from_ready_queue n s1)"
    "next_pid (dispatch n s) = next_pid (remove_from_ready_queue n s1)"
    by (simp_all add: dispatch_def Let_def say_def s1_def)
  show "state (process_table (dispatch n s) i) = (if i = n then PROCESS_RUNNING else state (process_table s i))"
    using f d(1) data_fields(2)[of "process_table (remove_from_ready_queue n s1) i" "process_table s1 i"]
    by (simp add: same_data_def s1_def upd_proc_def upd_pcb_def)
  show "current_process (dispatch n s) = Some n" "system_ticks (dispatch n s) = system_ticks s \<and> next_pid (dispatch n s) = next_pid s"
    using f d by (simp_all add: same_data_def same_rest_def s1_def upd_proc_def)
  have "same_core s s1"
    by (auto simp: same_core_def s1_def upd_proc_def upd_pcb_def core_def)
  then show "same_core s (dispatch n s)"
    using same_data_core[OF f] d(1) by (simp add: same_core_def)
qed

text \<open>What a call to \<^verbatim>\<open>scheduler_schedule\<close> can do, on any state.\<close>

lemma schedule_cases:
  assumes "scheduler_schedule s = Some s'"
  obtains (stay) s1 where "pick_next s = Some (None, s1) \<or> pick_next s = Some (current_process s1, s1)" "s' = s1"
    | (fresh) n s1 where "pick_next s = Some (Some n, s1)" "current_process s1 = None" "s' = dispatch n s1"
    | (switch) n c s1 s2 where "pick_next s = Some (Some n, s1)" "current_process s1 = Some c" "n \<noteq> c"
        "add_to_ready_queue c (upd_proc c (state_update (\<lambda>_. PROCESS_READY)) s1) = Some s2" "s' = dispatch n s2"
  using assms
  by (auto simp: scheduler_schedule_def split: bind_splits option.splits if_splits)

lemma requeue_state:
  assumes "add_to_ready_queue c (upd_proc c (state_update (\<lambda>_. PROCESS_READY)) s) = Some s'"
  shows "state (process_table s' i) = (if i = c then PROCESS_READY else state (process_table s i))"
    and "current_process s' = current_process s" and "system_ticks s' = system_ticks s \<and> next_pid s' = next_pid s"
    and "same_core s s'"
proof -
  note f = add_to_ready_queue_frame[OF assms]
  show "state (process_table s' i) = (if i = c then PROCESS_READY else state (process_table s i))"
    using f data_fields(2)[of "process_table s' i"
      "process_table (upd_proc c (state_update (\<lambda>_. PROCESS_READY)) s) i"]
    by (simp add: same_data_def upd_proc_def upd_pcb_def)
  show "current_process s' = current_process s" "system_ticks s' = system_ticks s \<and> next_pid s' = next_pid s"
    using f by (simp_all add: same_data_def same_rest_def upd_proc_def)
  have "same_core s (upd_proc c (state_update (\<lambda>_. PROCESS_READY)) s)"
    by (auto simp: same_core_def upd_proc_def upd_pcb_def core_def)
  then show "same_core s s'" using same_data_core[OF f] by (rule same_core_trans)
qed

lemma schedule_running:
  assumes "scheduler_schedule s = Some s'" and "running_is_current s"
  shows "running_is_current s'" and "system_ticks s' = system_ticks s \<and> next_pid s' = next_pid s" and "same_core s s'"
    and "current_process s' = None \<Longrightarrow> current_process s = None"
proof -
  have "running_is_current s' \<and> (system_ticks s' = system_ticks s \<and> next_pid s' = next_pid s) \<and> same_core s s' \<and>
      (current_process s' = None \<longrightarrow> current_process s = None)"
    using assms(1)
  proof (cases rule: schedule_cases)
    case (stay s1)
    then have "keeps_states s s'" by (auto dest: pick_next_frame)
    then show ?thesis using keeps_running assms(2) by (auto simp: keeps_states_def)
  next
    case (fresh n s1)
    note k = pick_next_frame[OF fresh(1)]
    have "running_is_current s1" by (rule keeps_running[OF k assms(2)])
    then show ?thesis
      using k fresh(2) unfolding fresh(3) running_is_current_def dispatch_state(1,2)
      by (auto simp: keeps_states_def dispatch_state(2,3) split: if_splits intro: same_core_trans dispatch_state(4))
  next
    case (switch n c s1 s2)
    note k = pick_next_frame[OF switch(1)]
    have "running_is_current s1" by (rule keeps_running[OF k assms(2)])
    then show ?thesis
      using k switch(2,3) unfolding switch(5) running_is_current_def dispatch_state(1,2) requeue_state(1,2)[OF switch(4)]
      using same_core_trans[OF same_core_trans[OF _ requeue_state(4)[OF switch(4)]] dispatch_state(4), of s]
        dispatch_state(3)[of n s2] requeue_state(3)[OF switch(4)]
      by (auto simp: keeps_states_def split: if_splits)
  qed
  then show "running_is_current s'" "system_ticks s' = system_ticks s \<and> next_pid s' = next_pid s" "same_core s s'"
    "current_process s' = None \<Longrightarrow> current_process s = None" by auto
qed

lemma yield_running:
  assumes "scheduler_yield s = Some s'" and "running_is_current s"
  shows "running_is_current s' \<and> system_ticks s' = system_ticks s \<and> next_pid s' = next_pid s \<and>
    same_core s s' \<and> (current_process s' = None \<longrightarrow> current_process s = None)"
proof (cases "current_process s")
  case None
  then show ?thesis using assms schedule_running[of s s'] by (simp add: scheduler_yield_def)
next
  case (Some c)
  then obtain s1 where r: "add_to_ready_queue c (upd_proc c (state_update (\<lambda>_. PROCESS_READY)) s) = Some s1"
    "scheduler_schedule s1 = Some s'"
    using assms(1) by (auto simp: scheduler_yield_def split: bind_splits)
  note q = requeue_state[OF r(1)]
  have "running_is_current s1" using assms(2) Some by (auto simp: running_is_current_def q)
  then show ?thesis
    using schedule_running[OF r(2)] q same_core_trans by auto
qed

definition tick_charge :: "nat \<Rightarrow> sched \<Rightarrow> sched" where
  "tick_charge c s = upd_proc c (\<lambda>x. x\<lparr>time_used := time_used x + 1,
     time_slice_used := time_slice_used x + 1, vruntime := vruntime x + 1\<rparr>)
     (s\<lparr>system_ticks := system_ticks s + 1\<rparr>)"

lemma keeps_states_refl: "keeps_states s s"
  by (simp add: keeps_states_def same_core_def)

lemma keeps_time_in_queue: "keeps_states s (upd_proc c (\<lambda>x. x\<lparr>time_in_queue := time_in_queue x + 1\<rparr>) s)"
  by (simp add: keeps_states_def same_core_def upd_proc_def upd_pcb_def core_def)

lemma tick_mlfq_frame:
  assumes "tick_mlfq s = Some s'"
  shows "keeps_states s s'"
proof (cases "sched_type (config s) = SCHED_MLFQ")
  case True
  then obtain c where c: "current_process s = Some c" using assms by (auto simp: tick_mlfq_def split: bind_splits)
  define s1 where "s1 = upd_proc c (\<lambda>x. x\<lparr>time_in_queue := time_in_queue x + 1\<rparr>) s"
  have k: "keeps_states s s1" unfolding s1_def by (rule keeps_time_in_queue)
  consider "s' = s1" | s2 where "scheduler_mlfq_boost_priority s1 = Some s2"
      "s' = s2\<lparr>last_boost_time := system_ticks s2\<rparr>"
    using assms True c by (auto simp: tick_mlfq_def s1_def Let_def split: bind_splits if_splits)
  then show ?thesis
  proof cases
    case 2
    then have "keeps_states s s2" using k boost_frame keeps_states_trans by blast
    then show ?thesis using 2(2) by (simp add: keeps_states_def same_core_def)
  qed (use k in simp)
next
  case False
  then show ?thesis using assms by (simp add: tick_mlfq_def keeps_states_refl)
qed

lemma tick_parts:
  assumes "scheduler_tick s = Some s'"
  obtains (idle) "current_process s = None" "s' = s\<lparr>system_ticks := system_ticks s + 1\<rparr>"
    | (run) c where "current_process s = Some c" "keeps_states (tick_charge c s) s'"
    | (preempt) c s1 where "current_process s = Some c"
        "scheduler_yield (say (SliceExpired (pid (process_table (tick_charge c s) c))) (tick_charge c s)) = Some s1"
        "keeps_states s1 s'"
proof (cases "current_process s")
  case None
  then show thesis using assms idle by (simp add: scheduler_tick_def)
next
  case (Some c)
  have m: "keeps_states u s'" if "tick_mlfq u = Some s'" for u
    using tick_mlfq_frame[OF that] .
  show thesis
  proof (cases "enable_preemption (config s) \<noteq> 0 \<and>
      time_slice (process_table (tick_charge c s) c) \<le> time_slice_used (process_table (tick_charge c s) c)")
    case True
    then obtain s1 where
      "scheduler_yield (say (SliceExpired (pid (process_table (tick_charge c s) c))) (tick_charge c s)) = Some s1"
      "tick_mlfq s1 = Some s'"
      using assms Some by (auto simp: scheduler_tick_def tick_charge_def upd_proc_def Let_def split: bind_splits)
    then show thesis using preempt Some m by blast
  next
    case False
    then have "tick_mlfq (tick_charge c s) = Some s'"
      using assms Some by (auto simp: scheduler_tick_def tick_charge_def upd_proc_def Let_def split: bind_splits if_splits)
    then show thesis using run Some m by blast
  qed
qed

lemma tick_charge_state:
  "state (process_table (tick_charge c s) i) = state (process_table s i)"
  "current_process (tick_charge c s) = current_process s"
  "next_pid (tick_charge c s) = next_pid s" "system_ticks (tick_charge c s) = system_ticks s + 1"
  "pid (process_table (tick_charge c s) i) = pid (process_table s i)"
  "time_used (process_table (tick_charge c s) i) = time_used (process_table s i) + (if i = c then 1 else 0)"
  by (simp_all add: tick_charge_def upd_proc_def upd_pcb_def)

lemma same_core_fields: "same_core s s' \<Longrightarrow> pid (process_table s' i) = pid (process_table s i) \<and>
    time_used (process_table s' i) = time_used (process_table s i)"
  using core_fields[of "process_table s' i" "process_table s i"] by (simp add: same_core_def)

lemma say_running: "running_is_current (say x s) = running_is_current s" "same_core (say x s) s' = same_core s s'"
  "process_table (say x s) = process_table s" "current_process (say x s) = current_process s"
  "next_pid (say x s) = next_pid s" "system_ticks (say x s) = system_ticks s"
  by (simp_all add: say_def running_is_current_def same_core_def)

lemma tick_running:
  assumes "scheduler_tick s = Some s'" and "running_is_current s"
  shows "running_is_current s' \<and> system_ticks s' = system_ticks s + 1 \<and> next_pid s' = next_pid s \<and>
    (\<forall>i. pid (process_table s' i) = pid (process_table s i) \<and>
         time_used (process_table s' i) =
           time_used (process_table s i) + (if current_process s = Some i then 1 else 0))"
  using assms(1)
proof (cases rule: tick_parts)
  case idle
  then show ?thesis using assms(2) by (simp add: running_is_current_def)
next
  case (run c)
  have "running_is_current (tick_charge c s)"
    using assms(2) by (simp add: running_is_current_def tick_charge_state)
  then have "running_is_current s'" by (rule keeps_running[OF run(2)])
  then show ?thesis
    using run same_core_fields[of "tick_charge c s" s'] by (auto simp: keeps_states_def tick_charge_state)
next
  case (preempt c s1)
  have "running_is_current (tick_charge c s)"
    using assms(2) by (simp add: running_is_current_def tick_charge_state)
  then have y: "running_is_current s1 \<and> system_ticks s1 = system_ticks (tick_charge c s) \<and>
      next_pid s1 = next_pid (tick_charge c s) \<and> same_core (tick_charge c s) s1"
    using yield_running[OF preempt(2)] by (simp add: say_running)
  then have "running_is_current s'" using keeps_running[OF preempt(3)] by blast
  moreover have "same_core (tick_charge c s) s'"
    using y preempt(3) by (auto simp: keeps_states_def intro: same_core_trans)
  ultimately show ?thesis
    using y preempt(1,3) same_core_fields[of "tick_charge c s" s'] by (auto simp: keeps_states_def tick_charge_state)
qed

section \<open>Reachable states\<close>

definition sched_inv :: "sched \<Rightarrow> bool" where
  "sched_inv s \<longleftrightarrow> running_is_current s \<and>
     (\<forall>i. unat (pid (process_table s i)) < unat (next_pid s)) \<and>
     (\<forall>i j. i \<noteq> j \<longrightarrow> pid (process_table s i) \<noteq> 0 \<longrightarrow> pid (process_table s i) \<noteq> pid (process_table s j))"

lemma init_inv: "sched_inv (scheduler_init cfg s)"
  by (auto simp: sched_inv_def running_is_current_def scheduler_init_def Let_def say_def
      scheduler_fifo_init_def scheduler_rr_init_def scheduler_mlfq_init_def zero_pcb_def
      split: scheduler_type.splits)

lemma create_inv:
  assumes "scheduler_create_process name prio s = Some (p, s')" and "sched_inv s"
    and "next_pid s \<noteq> 0xFFFFFFFF"
  shows "sched_inv s'"
proof (cases "find_free_pcb s")
  case None
  then show ?thesis
    using assms by (auto simp: scheduler_create_process_def sched_inv_def running_is_current_def say_def)
next
  case (Some i)
  define s1 where "s1 = (upd_proc i (new_pcb name prio s) s)\<lparr>next_pid := next_pid s + 1\<rparr>"
  obtain s2 where s2: "add_to_ready_queue i s1 = Some s2" "process_table s' = process_table s2"
    "current_process s' = current_process s2" "next_pid s' = next_pid s2"
    using assms(1) Some by (auto simp: scheduler_create_process_def s1_def Let_def say_def split: bind_splits)
  have k: "keeps_states s1 s2" by (rule same_data_keeps[OF add_to_ready_queue_frame[OF s2(1)]])
  have "unat (next_pid s + 1) = unat (next_pid s) + 1"
  proof -
    have "unat (next_pid s) \<noteq> unat (0xFFFFFFFF :: u32)" using assms(3) by (metis word_unat_eq_iff)
    then show ?thesis using unat_lt_32[of "next_pid s"] by (subst unat_add_exact) simp_all
  qed
  moreover have "pid (process_table s' j) = (if j = i then next_pid s else pid (process_table s j))"
    "state (process_table s' j) = (if j = i then PROCESS_READY else state (process_table s j))" for j
    using k same_core_fields[of s1 s2 j] s2(2)
    by (auto simp: keeps_states_def s1_def upd_proc_def upd_pcb_def new_pcb_def)
  moreover have "current_process s' = current_process s" "next_pid s' = next_pid s + 1"
    using k s2 by (auto simp: keeps_states_def s1_def upd_proc_def)
  ultimately show ?thesis
    using assms(2) unfolding sched_inv_def running_is_current_def
    by (auto split: if_splits) (metis less_Suc_eq nat_neq_iff)+
qed

lemma terminate_inv:
  assumes "scheduler_terminate_process k s = Some s'" and "sched_inv s" and "k \<noteq> 0"
  shows "sched_inv s' \<and> next_pid s' = next_pid s"
proof -
  define found where "found = first_index (\<lambda>i. pid (process_table s i) = k \<and>
    state (process_table s i) \<noteq> PROCESS_TERMINATED) MAX_PROCESSES"
  show ?thesis
  proof (cases found)
    case None
    then show ?thesis
      using assms by (auto simp: scheduler_terminate_process_def found_def sched_inv_def running_is_current_def say_def)
  next
    case (Some i)
    have i: "pid (process_table s i) = k" using Some by (auto simp: found_def first_index_Some)
    define s1 where "s1 = upd_proc i (state_update (\<lambda>_. PROCESS_TERMINATED)) s"
    define s2 where "s2 = remove_from_ready_queue i s1"
    have k12: "keeps_states s1 s2" unfolding s2_def by (rule same_data_keeps[OF remove_from_ready_queue_frame])
    have st: "state (process_table s2 j) = (if j = i then PROCESS_TERMINATED else state (process_table s j))"
      "pid (process_table s2 j) = pid (process_table s j)" for j
      using k12 same_core_fields[of s1 s2 j] by (auto simp: keeps_states_def s1_def upd_proc_def upd_pcb_def)
    have cur: "current_process s2 = current_process s" "next_pid s2 = next_pid s"
      using k12 by (auto simp: keeps_states_def s1_def upd_proc_def)
    consider (plain) "process_table s' = process_table s2" "current_process s' = current_process s2" "next_pid s' = next_pid s2"
      | (self) c s3 where "current_process s = Some c" "pid (process_table s c) = k" "scheduler_schedule s3 = Some s'"
        "process_table s3 = process_table s2" "current_process s3 = None" "next_pid s3 = next_pid s2"
      using assms(1) Some cur st unfolding scheduler_terminate_process_def found_def[symmetric]
      by (auto simp: Let_def say_def s1_def[symmetric] s2_def[symmetric] split: option.splits if_splits)
    then show ?thesis
    proof cases
      case plain
      then show ?thesis using assms(2) st cur by (auto simp: sched_inv_def running_is_current_def split: if_splits)
    next
      case self
      have "c = i" using assms(2,3) self(2) i unfolding sched_inv_def by metis
      then have "running_is_current s3"
        using assms(2) st self by (auto simp: sched_inv_def running_is_current_def split: if_splits)
      from schedule_running[OF self(3) this] show ?thesis
        using assms(2) st cur self same_core_fields[of s3 s'] by (auto simp: sched_inv_def)
    qed
  qed
qed

text \<open>
  \<open>run n s\<close>: a run of the API that has called \<^verbatim>\<open>create\<close> \<open>n\<close> times since the initialisation leads to
  \<open>s\<close>. \<^verbatim>\<open>terminate\<close> is called with pids that \<^verbatim>\<open>create\<close> can hand out, not with 0, which marks a free slot.
\<close>

inductive run :: "nat \<Rightarrow> sched \<Rightarrow> bool" where
  run_init: "run 0 (scheduler_init cfg s)"
| run_create: "run n s \<Longrightarrow> scheduler_create_process name prio s = Some (p, s') \<Longrightarrow> run (n + 1) s'"
| run_terminate: "run n s \<Longrightarrow> k \<noteq> 0 \<Longrightarrow> scheduler_terminate_process k s = Some s' \<Longrightarrow> run n s'"
| run_yield: "run n s \<Longrightarrow> scheduler_yield s = Some s' \<Longrightarrow> run n s'"
| run_tick: "run n s \<Longrightarrow> scheduler_tick s = Some s' \<Longrightarrow> run n s'"
| run_schedule: "run n s \<Longrightarrow> scheduler_schedule s = Some s' \<Longrightarrow> run n s'"
| run_boost: "run n s \<Longrightarrow> scheduler_mlfq_boost_priority s = Some s' \<Longrightarrow> run n s'"

lemma keeps_inv: "keeps_states s s' \<Longrightarrow> sched_inv s \<Longrightarrow> sched_inv s' \<and> next_pid s' = next_pid s"
  using same_core_fields[of s s'] keeps_running[of s s'] by (auto simp: sched_inv_def keeps_states_def)

lemma create_next_pid:
  assumes "scheduler_create_process name prio s = Some (p, s')"
  shows "next_pid s' = next_pid s \<or> next_pid s' = next_pid s + 1"
proof (cases "find_free_pcb s")
  case None
  then show ?thesis using assms by (auto simp: scheduler_create_process_def say_def)
next
  case (Some i)
  define s1 where "s1 = (upd_proc i (new_pcb name prio s) s)\<lparr>next_pid := next_pid s + 1\<rparr>"
  obtain s2 where s2: "add_to_ready_queue i s1 = Some s2" "next_pid s' = next_pid s2"
    using assms Some by (auto simp: scheduler_create_process_def s1_def Let_def say_def split: bind_splits)
  have "keeps_states s1 s2" by (rule same_data_keeps[OF add_to_ready_queue_frame[OF s2(1)]])
  then show ?thesis using s2(2) by (simp add: keeps_states_def s1_def)
qed

lemma run_inv: "run n s \<Longrightarrow> n < 2 ^ 32 - 1 \<Longrightarrow> sched_inv s \<and> unat (next_pid s) \<le> n + 1"
proof (induction rule: run.induct)
  case (run_init cfg s)
  have "next_pid (scheduler_init cfg s) = 1"
    by (simp add: scheduler_init_def Let_def say_def scheduler_fifo_init_def scheduler_rr_init_def scheduler_mlfq_init_def
        split: scheduler_type.splits)
  then show ?case using init_inv by simp
next
  case (run_create n s name prio p s')
  then have s: "sched_inv s" "unat (next_pid s) \<le> n + 1" and n: "n + 1 < 2 ^ 32 - 1" by simp_all
  have "unat (next_pid s) \<noteq> unat (0xFFFFFFFF :: u32)" using s(2) n by simp
  then have "next_pid s \<noteq> 0xFFFFFFFF" by metis
  moreover have "unat (next_pid s + 1) = unat (next_pid s) + 1" using s(2) n by (subst unat_add_exact) simp_all
  ultimately show ?case
    using create_inv[OF run_create.hyps(2) s(1)] create_next_pid[OF run_create.hyps(2)] s(2) by auto
next
  case (run_terminate n s k s')
  then show ?case using terminate_inv by simp
next
  case (run_yield n s s')
  then show ?case using yield_running[of s s'] same_core_fields[of s s'] by (auto simp: sched_inv_def)
next
  case (run_tick n s s')
  then show ?case using tick_running[of s s'] by (auto simp: sched_inv_def)
next
  case (run_schedule n s s')
  then show ?case using schedule_running[of s s'] same_core_fields[of s s'] by (auto simp: sched_inv_def)
next
  case (run_boost n s s')
  then show ?case using boost_frame keeps_inv by fastforce
qed

text \<open>
  Property C3. In every state that a run of the scheduler reaches with fewer than 2^32 - 1 calls of
  \<^verbatim>\<open>create\<close> and no \<^verbatim>\<open>terminate\<close> of the pid 0, with any policy, a RUNNING process is the current one (so at
  most one runs), every pid in the table is below \<^verbatim>\<open>next_pid\<close>, and two slots never share a non-zero pid.
\<close>

theorem scheduler_invariant:
  assumes "run n s" and "n < 2 ^ 32 - 1"
  shows "(\<forall>i. state (process_table s i) = PROCESS_RUNNING \<longrightarrow> current_process s = Some i) \<and>
    (\<forall>i. unat (pid (process_table s i)) < unat (next_pid s)) \<and>
    (\<forall>i j. i \<noteq> j \<longrightarrow> pid (process_table s i) \<noteq> 0 \<longrightarrow> pid (process_table s i) \<noteq> pid (process_table s j))"
  using run_inv[OF assms] by (simp add: sched_inv_def running_is_current_def)

text \<open>
  The bound is needed: the counter of the pids wraps. After 2^32 - 1 creations \<^verbatim>\<open>next_pid\<close> is 0, below
  every pid in the table, and the process created next gets the pid that marks a free slot.
\<close>

lemma next_pid_wraps:
  assumes "scheduler_create_process name prio s = Some (Some i, s')" and "next_pid s = 0xFFFFFFFF"
  shows "next_pid s' = 0"
proof -
  obtain j where j: "find_free_pcb s = Some j"
    using assms(1) by (auto simp: scheduler_create_process_def split: option.splits)
  define s1 where "s1 = (upd_proc j (new_pcb name prio s) s)\<lparr>next_pid := next_pid s + 1\<rparr>"
  obtain s2 where s2: "add_to_ready_queue j s1 = Some s2" "next_pid s' = next_pid s2"
    using assms(1) j by (auto simp: scheduler_create_process_def s1_def Let_def say_def split: bind_splits)
  have "keeps_states s1 s2" by (rule same_data_keeps[OF add_to_ready_queue_frame[OF s2(1)]])
  then show ?thesis using s2(2) assms(2) by (simp add: keeps_states_def s1_def)
qed

text \<open>
  A tick advances the clock by one and charges exactly the process that was
  current: its \<^verbatim>\<open>time_used\<close> grows by one, that of every other process and all pids stay, whatever
  the policy, through preemption and priority boost.
\<close>

theorem tick_charges_current:
  assumes "run n s" and "n < 2 ^ 32 - 1" and "scheduler_tick s = Some s'"
  shows "system_ticks s' = system_ticks s + 1 \<and>
    (\<forall>i. pid (process_table s' i) = pid (process_table s i) \<and>
         time_used (process_table s' i) =
           time_used (process_table s i) + (if current_process s = Some i then 1 else 0))"
  using tick_running[OF assms(3)] run_inv[OF assms(1,2)] by (simp add: sched_inv_def)

section \<open>Closed examples\<close>

definition a_config :: "scheduler_type \<Rightarrow> scheduler_config_t" where
  "a_config t = \<lparr>sched_type = t, time_quantum = 3, enable_preemption = 1, mlfq_levels = 4,
     cfg_boost_interval = 100\<rparr>"

definition cold :: sched where
  "cold = \<lparr>process_table = (\<lambda>_. zero_pcb), current_process = None, ready_queue = zero_queue,
     queues = (\<lambda>_. zero_queue), time_slices = (\<lambda>_. 0), boost_interval = 0, last_boost_time = 0,
     config = a_config SCHED_FIFO, stats = zero_stats, next_pid = 0, system_ticks = 0, slog = []\<rparr>"

definition booted :: "scheduler_type \<Rightarrow> sched" where
  "booted t = scheduler_init (a_config t) cold"

lemma run_booted: "run 0 (booted t)"
  by (simp add: booted_def run_init)

text \<open>Create a process and ignore the returned pointer.\<close>

definition spawn :: "string \<Rightarrow> u8 \<Rightarrow> sched \<Rightarrow> sched option" where
  "spawn name prio s = do { (p, s) \<leftarrow> scheduler_create_process name prio s; Some s }"

definition two_run :: "sched option" where
  "two_run = do {
     s \<leftarrow> spawn ''A'' 1 (booted SCHED_RR);
     s \<leftarrow> spawn ''B'' 1 s;
     s \<leftarrow> scheduler_schedule s;
     scheduler_yield s
   }"

lemma two_run_value:
  "map_option (\<lambda>s. (current_process s, map (\<lambda>i. (state (process_table s i), pid (process_table s i))) [0, 1])) two_run
    = Some (Some 1, [(PROCESS_READY, 1), (PROCESS_RUNNING, 2)])"
  by code_simp

lemma two_run_runs: "two_run = Some s \<Longrightarrow> run 2 s"
proof -
  assume "two_run = Some s"
  then obtain p1 s1 p2 s2 s3 where "scheduler_create_process ''A'' 1 (booted SCHED_RR) = Some (p1, s1)"
    and "scheduler_create_process ''B'' 1 s1 = Some (p2, s2)" and "scheduler_schedule s2 = Some s3" and "scheduler_yield s3 = Some s"
    by (auto simp: two_run_def spawn_def bind_eq_Some_conv)
  then have "run (0 + 1 + 1) s" by (intro run_yield[OF run_schedule[OF run_create[OF run_create[OF run_booted]]]])
  then show "run 2 s" by (simp add: numeral_2_eq_2)
qed

theorem scheduler_invariant_witness:
  "\<exists>s. two_run = Some s \<and> current_process s = Some 1 \<and> state (process_table s 1) = PROCESS_RUNNING \<and>
    (\<forall>i. i \<noteq> 1 \<longrightarrow> state (process_table s i) \<noteq> PROCESS_RUNNING \<and> pid (process_table s i) \<noteq> 2)"
proof -
  obtain s where s: "two_run = Some s" "current_process s = Some 1" "state (process_table s 1) = PROCESS_RUNNING"
    "pid (process_table s 1) = 2"
    using two_run_value by (auto simp: map_option_case split: option.splits)
  have "(2 :: nat) < 2 ^ 32 - 1" by simp
  note inv = scheduler_invariant[OF two_run_runs[OF s(1)] this]
  have "state (process_table s i) \<noteq> PROCESS_RUNNING \<and> pid (process_table s i) \<noteq> 2" if "i \<noteq> 1" for i
  proof
    show "state (process_table s i) \<noteq> PROCESS_RUNNING" using inv s(2) that by auto
    have "pid (process_table s 1) \<noteq> 0" using s(4) by simp
    then have "pid (process_table s 1) \<noteq> pid (process_table s i)"
      using inv[THEN conjunct2, THEN conjunct2, rule_format, of 1 i] that by simp
    then show "pid (process_table s i) \<noteq> 2" using s(4) by simp
  qed
  with s show ?thesis by blast
qed

theorem tick_charges_current_witness:
  "\<exists>s'. scheduler_tick (booted SCHED_RR) = Some s' \<and> system_ticks s' = system_ticks (booted SCHED_RR) + 1"
proof -
  have "current_process (booted SCHED_RR) = None"
    by (simp add: booted_def scheduler_init_def a_config_def Let_def say_def scheduler_rr_init_def scheduler_fifo_init_def)
  then have "\<exists>s'. scheduler_tick (booted SCHED_RR) = Some s'" by (simp add: scheduler_tick_def)
  then show ?thesis using tick_charges_current[OF run_booted] by fastforce
qed

section \<open>Order of the run queues\<close>

text \<open>
  Property C5. The single ready queue is first in, first out: from a well-formed queue,
  adding distinct processes that are not in it and then scheduling yields the old queue followed
  by the new processes, in order, and NULL afterwards.
\<close>

theorem ready_queue_fifo:
  assumes "single_holds s xs" and "distinct (xs @ ps)" and "\<forall>p\<in>set ps. slot s p"
  shows "\<exists>s1 s2. single.enq_all ps s = Some s1 \<and>
    single.drain (length xs + length ps) s1 = Some (xs @ ps, s2) \<and>
    scheduler_fifo_schedule s2 = Some (None, s2)"
  by (rule fifo_order(1)[OF assms])

lemma single_holds_booted: "t \<noteq> SCHED_MLFQ \<Longrightarrow> single_holds (booted t) []"
  by (cases t) (simp_all add: booted_def single_holds_def scheduler_init_def a_config_def Let_def say_def
      scheduler_rr_init_def scheduler_fifo_init_def qrep_def qlinks_def qopen_def zero_queue_def)

theorem ready_queue_fifo_witness:
  "\<exists>s1 s2. single.enq_all [4, 2, 7] (booted SCHED_FIFO) = Some s1 \<and>
    single.drain 3 s1 = Some ([4, 2, 7], s2)"
proof -
  have n: "length ([] :: nat list) + length [4 :: nat, 2, 7] = 3" by simp
  have "distinct ([] @ [4 :: nat, 2, 7])" "\<forall>p\<in>set [4, 2, 7]. slot (booted SCHED_FIFO) p"
    by (simp_all add: slot_def MAX_PROCESSES_def)
  from ready_queue_fifo[OF single_holds_booted this] show ?thesis unfolding n append_Nil by blast
qed

section \<open>The MLFQ\<close>

definition mlfq_holds :: "sched \<Rightarrow> (nat \<Rightarrow> nat list) \<Rightarrow> bool" where
  "mlfq_holds s L \<longleftrightarrow> sched_type (config s) = SCHED_MLFQ \<and>
     (\<forall>l<MAX_PRIORITY_LEVELS. qrep (process_table s) (queues s l) (L l)) \<and>
     (\<forall>l<MAX_PRIORITY_LEVELS. \<forall>m<MAX_PRIORITY_LEVELS. l \<noteq> m \<longrightarrow> set (L l) \<inter> set (L m) = {})"

lemma mlfq_schedule_picks:
  assumes "mlfq_holds s L" and "l < MAX_PRIORITY_LEVELS" and "L l = p # xs" and "\<forall>i<l. L i = []"
  shows "\<exists>s'. scheduler_mlfq_schedule s = Some (Some p, s') \<and> mlfq_holds s' (L(l := xs)) \<and>
    time_slice (process_table s' p) = time_slices s l \<and> keeps_states s s'"
proof -
  have rep: "qrep (process_table s) (queues s i) (L i)" if "i < MAX_PRIORITY_LEVELS" for i
    using assms(1) that by (simp add: mlfq_holds_def)
  have "\<forall>i<l. qcount (queues s i) = 0"
  proof (intro allI impI)
    fix i assume "i < l"
    then have "qrep (process_table s) (queues s i) []" using rep[of i] assms(2,4) by simp
    then show "qcount (queues s i) = 0" using qrep_Nil_count by blast
  qed
  moreover have "qrep (process_table s) (queues s l) (p # xs)" using rep[OF assms(2)] assms(3) by simp
  ultimately obtain q' T' where d: "scheduler_mlfq_schedule s = Some (Some p, s\<lparr>process_table :=
      upd_pcb p (\<lambda>x. x\<lparr>time_slice := time_slices s l, time_in_queue := 0\<rparr>) T',
      queues := (queues s)(l := q')\<rparr>)" "qrep T' q' xs" "relinks (set xs) (process_table s) T'"
    using mlfq_schedule_level[OF _ assms(2)] by blast
  define T2 where "T2 = upd_pcb p (\<lambda>x. x\<lparr>time_slice := time_slices s l, time_in_queue := 0\<rparr>) T'"
  have l2: "same_links T' T2 i" for i by (simp add: T2_def same_links_def upd_pcb_def)
  have "qrep T2 (if i = l then q' else queues s i) (if i = l then xs else L i)" if "i < MAX_PRIORITY_LEVELS" for i
  proof (cases "i = l")
    case True
    then show ?thesis using qrep_relinks[OF d(2) l2] by simp
  next
    case False
    then have "set (L i) \<inter> set xs = {}" using assms(1-3) that by (fastforce simp: mlfq_holds_def)
    then have "qrep T2 (queues s i) (L i)"
      using d(3) by (intro qrep_relinks[OF rep[OF that]]) (auto simp: relinks_def same_links_def T2_def upd_pcb_def)
    then show ?thesis using False by simp
  qed
  then have "mlfq_holds (s\<lparr>process_table := T2, queues := (queues s)(l := q')\<rparr>) (L(l := xs))"
    using assms(1-3) by (fastforce simp: mlfq_holds_def)
  then show ?thesis
    using d(1) mlfq_schedule_frame[OF d(1)] by (auto simp: T2_def upd_pcb_def)
qed

lemma mlfq_schedule_none:
  assumes "mlfq_holds s L" and "\<forall>i<MAX_PRIORITY_LEVELS. L i = []"
  shows "scheduler_mlfq_schedule s = Some (None, s)"
proof -
  have "\<forall>i<MAX_PRIORITY_LEVELS. qcount (queues s i) = 0"
  proof (intro allI impI)
    fix i assume "i < MAX_PRIORITY_LEVELS"
    then have "qrep (process_table s) (queues s i) []" using assms by (simp add: mlfq_holds_def)
    then show "qcount (queues s i) = 0" using qrep_Nil_count by blast
  qed
  then have "first_index (\<lambda>i. 0 < qcount (queues s i)) MAX_PRIORITY_LEVELS = None"
    by (simp add: first_index_None)
  then show ?thesis by (simp add: scheduler_mlfq_schedule_def)
qed

text \<open>
  On well-formed queues \<^verbatim>\<open>scheduler_mlfq_schedule\<close> takes the first process of the
  first non-empty level, gives it that level's time slice, leaves the order of everything else
  and every process state as it was; it answers NULL exactly when all levels are empty.
\<close>

theorem mlfq_takes_first_level:
  assumes "mlfq_holds s L"
  shows "(if \<forall>i<MAX_PRIORITY_LEVELS. L i = [] then scheduler_mlfq_schedule s = Some (None, s)
    else \<exists>l p xs s'. l < MAX_PRIORITY_LEVELS \<and> L l = p # xs \<and> (\<forall>i<l. L i = []) \<and>
      scheduler_mlfq_schedule s = Some (Some p, s') \<and> mlfq_holds s' (L(l := xs)) \<and>
      time_slice (process_table s' p) = time_slices s l \<and>
      (\<forall>i. state (process_table s' i) = state (process_table s i)))"
proof (cases "\<forall>i<MAX_PRIORITY_LEVELS. L i = []")
  case True
  then show ?thesis using mlfq_schedule_none[OF assms] by simp
next
  case False
  then obtain l where l: "l < MAX_PRIORITY_LEVELS" "L l \<noteq> []" "\<forall>i<l. L i = []"
    using exists_least_iff[of "\<lambda>i. i < MAX_PRIORITY_LEVELS \<and> L i \<noteq> []"] by fastforce
  then obtain p xs where "L l = p # xs" by (cases "L l") auto
  then show ?thesis
    using mlfq_schedule_picks[OF assms l(1) _ l(3)] l False
    by (smt (verit, best) keeps_states_def)
qed

lemma mlfq_holds_booted: "mlfq_holds (booted SCHED_MLFQ) (\<lambda>_. [])"
  by (simp add: booted_def mlfq_holds_def scheduler_init_def a_config_def Let_def say_def
      scheduler_mlfq_init_def qrep_def qlinks_def qopen_def zero_queue_def)

theorem mlfq_takes_first_level_witness:
  "scheduler_mlfq_schedule (booted SCHED_MLFQ) = Some (None, booted SCHED_MLFQ)"
  using mlfq_takes_first_level[OF mlfq_holds_booted] by simp

end
