(* ===== verification/Scheduler_Mlfq.thy ===== *)
theory Scheduler_Mlfq
  imports Scheduler_Facts
begin

text \<open>
  The priority boost as a function on lists, process creation for every policy, and the
  behaviour of the run queue when a process that is in no queue is unlinked from it.
\<close>

section \<open>Boost\<close>

definition boosts :: "nat list \<Rightarrow> nat list \<Rightarrow> nat \<Rightarrow> sched \<Rightarrow> sched \<Rightarrow> bool" where
  "boosts xs ys i s s' \<longleftrightarrow>
     qcount (queues s' 0) = of_nat (length (xs @ ys)) \<and> qrep (process_table s') (queues s' i) [] \<and>
     (\<forall>j. j \<noteq> 0 \<longrightarrow> j \<noteq> i \<longrightarrow> queues s' j = queues s j) \<and>
     (\<forall>k. k \<notin> set xs \<union> set ys \<longrightarrow> process_table s' k = process_table s k) \<and>
     (\<forall>k. k \<notin> set ys \<longrightarrow> data (process_table s' k) = data (process_table s k)) \<and>
     (\<forall>k\<in>set ys. priority (process_table s' k) = 0)"

lemma boost_step_open:
  assumes "qopen (process_table s) (queues s 0) xs nx" and "qcount (queues s 0) = of_nat (length xs)"
    and "qrep (process_table s) (queues s i) (a # ys)" and "0 < i" and "set xs \<inter> set (a # ys) = {}"
  shows "\<exists>s'. boost_step i s = Some s' \<and>
    qopen (process_table s') (queues s' 0) (xs @ [a]) (if ys = [] then None else Some (hd ys)) \<and>
    qcount (queues s' 0) = of_nat (length (xs @ [a])) \<and> qrep (process_table s') (queues s' i) ys \<and>
    (\<forall>j. j \<noteq> 0 \<longrightarrow> j \<noteq> i \<longrightarrow> queues s' j = queues s j) \<and>
    (\<forall>k. k \<notin> set xs \<union> set (a # ys) \<longrightarrow> process_table s' k = process_table s k) \<and>
    (\<forall>k. k \<noteq> a \<longrightarrow> data (process_table s' k) = data (process_table s k)) \<and>
    priority (process_table s' a) = 0"
proof -
  have ql: "qlinks (process_table s) (queues s i) (a # ys)" and bound: "set (a # ys) \<subseteq> {..<MAX_PROCESSES}"
    and cnt: "qcount (queues s i) = of_nat (length (a # ys))"
    using assms(3) by (auto simp: qrep_def)
  obtain q T where t: "pop_head (queues s i) (process_table s) = Some (Some a, q, T)" "qlinks T q ys"
    "qcount q = qcount (queues s i) - 1" "relinks (set ys) (process_table s) T"
    "T a = process_table s a" "prv (process_table s a) = None"
    "nxt (process_table s a) = (if ys = [] then None else Some (hd ys))"
    using pop_head_links[OF ql] by blast
  have dist: "a \<notin> set xs" "a \<notin> set ys" "set xs \<inter> set ys = {}"
    using assms(5) ql by (auto simp: qlinks_def qopen_def)
  define T2 where "T2 = upd_pcb a (\<lambda>x. x\<lparr>priority := 0, time_in_queue := 0, promotions := promotions x + 1\<rparr>) T"
  have o2: "qopen T2 (queues s 0) xs nx"
    using t(4) dist by (intro qopen_cong[OF assms(1)]) (auto simp: relinks_def same_links_def T2_def upd_pcb_def)
  have links2: "prv (T2 a) = None" "nxt (T2 a) = (if ys = [] then None else Some (hd ys))"
    using t(5-7) by (simp_all add: T2_def upd_pcb_def)
  obtain q0 T3 where t3: "append_tail a (queues s 0) T2 = Some (q0, T3)"
    "qopen T3 q0 (xs @ [a]) (nxt (T2 a))" "qcount q0 = qcount (queues s 0) + 1"
    "relinks (insert a (set xs)) T2 T3"
    using append_tail_open[OF o2 dist(1) links2(1)] by blast
  define s' where "s' = say (Boosted (pid (T3 a))) (s\<lparr>process_table := T3, queues := (queues s)(i := q, 0 := q0)\<rparr>)"
  have run: "boost_step i s = Some s'"
    using t(1) t3(1) assms(4) by (simp add: boost_step_def Let_def s'_def T2_def)
  have "qlinks T3 q ys"
  proof (rule qlinks_cong[OF t(2)])
    fix k assume "k \<in> set ys"
    then have "k \<noteq> a" "k \<notin> set xs" using dist by auto
    then show "same_links T T3 k" using t3(4) by (simp add: same_links_def relinks_def T2_def upd_pcb_def)
  qed
  then have "qrep T3 q ys" using bound cnt t(3) by (simp add: qrep_def)
  moreover have "T3 k = process_table s k" if "k \<notin> set xs \<union> set (a # ys)" for k
    using t3(4) t(4) that by (simp add: relinks_def T2_def upd_pcb_def)
  moreover have "data (T3 k) = data (process_table s k)" if "k \<noteq> a" for k
    using t3(4) t(4) that by (simp add: relinks_def T2_def upd_pcb_def)
  moreover have "priority (T3 a) = 0"
    using t3(4) data_fields(3)[of "T3 a" "T2 a"] by (simp add: relinks_def T2_def upd_pcb_def)
  ultimately show ?thesis
    using run t3(2,3) links2(2) assms(2,4) by (intro exI[of _ s']) (simp add: s'_def say_def)
qed

lemma boost_level_open:
  "qopen (process_table s) (queues s 0) xs nx \<Longrightarrow> qcount (queues s 0) = of_nat (length xs) \<Longrightarrow>
   qrep (process_table s) (queues s i) ys \<Longrightarrow> 0 < i \<Longrightarrow> set xs \<inter> set ys = {} \<Longrightarrow>
   \<exists>s'. boost_level i s = Some s' \<and> boosts xs ys i s s' \<and>
     qopen (process_table s') (queues s' 0) (xs @ ys) (if ys = [] then nx else None)"
proof (induction ys arbitrary: s xs nx)
  case Nil
  then have "qcount (queues s i) = 0" using qrep_Nil_count by blast
  then show ?case using Nil by (simp add: boost_level.simps boosts_def)
next
  case (Cons a ys)
  then obtain s1 where s1: "boost_step i s = Some s1"
    "qopen (process_table s1) (queues s1 0) (xs @ [a]) (if ys = [] then None else Some (hd ys))"
    "qcount (queues s1 0) = of_nat (length (xs @ [a]))" "qrep (process_table s1) (queues s1 i) ys"
    "\<forall>j. j \<noteq> 0 \<longrightarrow> j \<noteq> i \<longrightarrow> queues s1 j = queues s j"
    "\<forall>k. k \<notin> set xs \<union> set (a # ys) \<longrightarrow> process_table s1 k = process_table s k"
    "\<forall>k. k \<noteq> a \<longrightarrow> data (process_table s1 k) = data (process_table s k)"
    "priority (process_table s1 a) = 0"
    using boost_step_open[OF Cons.prems] by blast
  have "distinct (a # ys)" using Cons.prems(3) by (auto simp: qrep_def qlinks_def qopen_def)
  then have "set (xs @ [a]) \<inter> set ys = {}" "a \<notin> set ys" using Cons.prems(5) by auto
  then obtain s' where s': "boost_level i s1 = Some s'" "boosts (xs @ [a]) ys i s1 s'"
    "qopen (process_table s') (queues s' 0) ((xs @ [a]) @ ys)
       (if ys = [] then if ys = [] then None else Some (hd ys) else None)"
    using Cons.IH[OF s1(2-4) Cons.prems(4)] by blast
  have "qcount (queues s i) \<noteq> 0" using qrep_Nil_count[OF Cons.prems(3)] by simp
  then have run: "boost_level i s = Some s'"
    using s1(1) s'(1) by (subst boost_level_step) (simp add: word_gt_0)
  have "priority (process_table s' a) = 0"
    using s'(2) \<open>a \<notin> set ys\<close> s1(8) data_fields(3)[of "process_table s' a" "process_table s1 a"]
    by (simp add: boosts_def)
  then have "boosts xs (a # ys) i s s'"
    using s'(2) s1(5-7) by (auto simp: boosts_def)
  then show ?case using run s'(3) by (auto split: if_splits)
qed

lemma boost_level_mlfq:
  assumes "mlfq_holds s L" and "0 < i" and "i < MAX_PRIORITY_LEVELS"
  shows "\<exists>s'. boost_level i s = Some s' \<and> mlfq_holds s' (L(0 := L 0 @ L i, i := [])) \<and>
    (\<forall>k. k \<notin> set (L i) \<longrightarrow> data (process_table s' k) = data (process_table s k)) \<and>
    (\<forall>k\<in>set (L i). priority (process_table s' k) = 0)"
proof -
  have rep: "qrep (process_table s) (queues s l) (L l)" if "l < MAX_PRIORITY_LEVELS" for l
    using assms(1) that by (simp add: mlfq_holds_def)
  have dis: "set (L l) \<inter> set (L m) = {}" if "l < MAX_PRIORITY_LEVELS" "m < MAX_PRIORITY_LEVELS" "l \<noteq> m" for l m
    using assms(1) that by (simp add: mlfq_holds_def)
  have z: "0 < MAX_PRIORITY_LEVELS" by (simp add: MAX_PRIORITY_LEVELS_def)
  have o: "qopen (process_table s) (queues s 0) (L 0) None" "qcount (queues s 0) = of_nat (length (L 0))"
    using rep[OF z] by (auto simp: qrep_def qlinks_def)
  obtain s' where s': "boost_level i s = Some s'" "boosts (L 0) (L i) i s s'"
    "qopen (process_table s') (queues s' 0) (L 0 @ L i) None"
    using boost_level_open[OF o rep[OF assms(3)] assms(2)] dis[OF z assms(3)] assms(2) by auto
  have q0: "qrep (process_table s') (queues s' 0) (L 0 @ L i)"
    using s'(2,3) rep[OF z] rep[OF assms(3)] by (auto simp: qrep_def qlinks_def boosts_def)
  have "qrep (process_table s') (queues s' l) ((L(0 := L 0 @ L i, i := [])) l)" if l: "l < MAX_PRIORITY_LEVELS" for l
  proof -
    consider "l = 0" | "l = i" | "l \<noteq> 0" "l \<noteq> i" by blast
    then show ?thesis
    proof cases
      case 1
      then show ?thesis using q0 assms(2) by simp
    next
      case 2
      then show ?thesis using s'(2) by (simp add: boosts_def)
    next
      case 3
      then have "k \<notin> set (L 0) \<union> set (L i)" if "k \<in> set (L l)" for k
        using dis[OF l z] dis[OF l assms(3)] that by auto
      then have "qrep (process_table s') (queues s l) (L l)"
        using s'(2) by (intro qrep_relinks[OF rep[OF l]]) (simp add: boosts_def same_links_def)
      then show ?thesis using 3 s'(2) by (simp add: boosts_def)
    qed
  qed
  moreover have "config s' = config s" using boost_level_frame[OF s'(1)] by (simp add: keeps_states_def)
  moreover have "set ((L(0 := L 0 @ L i, i := [])) l) \<inter> set ((L(0 := L 0 @ L i, i := [])) m) = {}"
    if "l < MAX_PRIORITY_LEVELS" "m < MAX_PRIORITY_LEVELS" "l \<noteq> m" for l m
    using dis[OF that] dis[OF that(1) assms(3)] dis[OF assms(3) that(2)] that assms(2,3) by auto
  ultimately show ?thesis
    using assms(1) s'(1,2) unfolding mlfq_holds_def boosts_def by (intro exI[of _ s']) simp
qed

lemma boost_lists:
  assumes "mlfq_holds s L"
  shows "\<exists>s'. scheduler_mlfq_boost_priority s = Some s' \<and>
    mlfq_holds s' (\<lambda>l. if l = 0 then L 0 @ L 1 @ L 2 @ L 3 else if l < 4 then [] else L l) \<and>
    (\<forall>p\<in>set (L 1 @ L 2 @ L 3). priority (process_table s' p) = 0)"
proof -
  have m: "(1::nat) < MAX_PRIORITY_LEVELS" "(2::nat) < MAX_PRIORITY_LEVELS" "(3::nat) < MAX_PRIORITY_LEVELS"
    by (simp_all add: MAX_PRIORITY_LEVELS_def)
  have dis: "set (L l) \<inter> set (L k) = {}" if "l < 4" "k < 4" "l \<noteq> k" for l k
    using assms that by (simp add: mlfq_holds_def MAX_PRIORITY_LEVELS_def)
  define s0 where "s0 = say Boosting s"
  have "mlfq_holds s0 L" using assms by (simp add: s0_def mlfq_holds_def say_def)
  from boost_level_mlfq[OF this _ m(1)] obtain s1 where s1: "boost_level 1 s0 = Some s1"
    "mlfq_holds s1 (L(0 := L 0 @ L 1, 1 := []))" "\<forall>k\<in>set (L 1). priority (process_table s1 k) = 0"
    by auto
  from boost_level_mlfq[OF s1(2) _ m(2)] obtain s2 where s2: "boost_level 2 s1 = Some s2"
    "mlfq_holds s2 (L(0 := L 0 @ L 1 @ L 2, 1 := [], 2 := []))"
    "\<forall>k. k \<notin> set (L 2) \<longrightarrow> data (process_table s2 k) = data (process_table s1 k)"
    "\<forall>k\<in>set (L 2). priority (process_table s2 k) = 0"
    by (auto simp: fun_upd_twist)
  from boost_level_mlfq[OF s2(2) _ m(3)] obtain s3 where s3: "boost_level 3 s2 = Some s3"
    "mlfq_holds s3 (L(0 := L 0 @ L 1 @ L 2 @ L 3, 1 := [], 2 := [], 3 := []))"
    "\<forall>k. k \<notin> set (L 3) \<longrightarrow> data (process_table s3 k) = data (process_table s2 k)"
    "\<forall>k\<in>set (L 3). priority (process_table s3 k) = 0"
    by (auto simp: fun_upd_twist)
  have run: "scheduler_mlfq_boost_priority s = Some s3"
    using s1(1) s2(1) s3(1) by (simp add: scheduler_mlfq_boost_priority_def s0_def)
  have "priority (process_table s3 p) = 0" if "p \<in> set (L 1 @ L 2 @ L 3)" for p
    using that s1(3) s2(3,4) s3(3,4) dis[of 1 2] dis[of 1 3] dis[of 2 3]
      data_fields(3)[of "process_table s3 p" "process_table s2 p"]
      data_fields(3)[of "process_table s2 p" "process_table s1 p"] by fastforce
  moreover have "mlfq_holds s3 (\<lambda>l. if l = 0 then L 0 @ L 1 @ L 2 @ L 3 else if l < 4 then [] else L l)"
  proof -
    have "(\<lambda>l. if l = 0 then L 0 @ L 1 @ L 2 @ L 3 else if l < 4 then [] else L l) =
        L(0 := L 0 @ L 1 @ L 2 @ L 3, 1 := [], 2 := [], 3 := [])"
      by (rule ext) auto
    then show ?thesis using s3(2) by simp
  qed
  ultimately show ?thesis using run by blast
qed

text \<open>
  Property C10. On well-formed MLFQ queues the priority boost terminates; afterwards level 0
  holds its old processes followed by those of levels 1, 2 and 3 in their order, the other levels
  are empty, and every boosted process has priority 0.
\<close>

theorem boost_moves_all_to_top:
  assumes "mlfq_holds s L"
  shows "\<exists>s'. scheduler_mlfq_boost_priority s = Some s' \<and>
    mlfq_holds s' (\<lambda>l. if l = 0 then L 0 @ L 1 @ L 2 @ L 3 else if l < 4 then [] else L l) \<and>
    (\<forall>p\<in>set (L 1 @ L 2 @ L 3). priority (process_table s' p) = 0)"
  by (rule boost_lists[OF assms])

section \<open>Process creation\<close>

definition waiting :: "sched \<Rightarrow> (nat \<Rightarrow> nat list) \<Rightarrow> bool" where
  "waiting s L \<longleftrightarrow> (if sched_type (config s) = SCHED_MLFQ then mlfq_holds s L else single_holds s (L 0))"

definition queue_index :: "sched \<Rightarrow> u8 \<Rightarrow> nat" where
  "queue_index s prio = (if sched_type (config s) = SCHED_MLFQ then min (unat prio) 3 else 0)"

lemma waiting_add:
  assumes "waiting s L" and "p < MAX_PROCESSES" and "\<forall>l<4. p \<notin> set (L l)"
  shows "\<exists>s'. add_to_ready_queue p s = Some s' \<and>
    waiting s' (L(queue_index s (priority (process_table s p)) :=
                  L (queue_index s (priority (process_table s p))) @ [p]))"
proof (cases "sched_type (config s) = SCHED_MLFQ")
  case False
  then have h: "single_holds s (L 0)" "queue_index s (priority (process_table s p)) = 0"
    using assms(1) by (simp_all add: waiting_def queue_index_def)
  have p0: "p \<notin> set (L 0)" using assms(3) by auto
  obtain s' where s': "add_to_ready_queue p s = Some s'" "single_holds s' (L 0 @ [p])"
    using single_enq[OF h(1) p0 assms(2)] by blast
  moreover from this have "sched_type (config s') \<noteq> SCHED_MLFQ" by (simp add: single_holds_def)
  ultimately show ?thesis using h by (simp add: waiting_def)
next
  case True
  define l where "l = min (unat (priority (process_table s p))) 3"
  have qi: "queue_index s (priority (process_table s p)) = l" and lv: "level_of (process_table s p) = l"
    using True by (simp_all add: queue_index_def l_def level_of_def MAX_PRIORITY_LEVELS_def)
  have l4: "l < MAX_PRIORITY_LEVELS" by (simp add: l_def MAX_PRIORITY_LEVELS_def)
  have h: "mlfq_holds s L" using assms(1) True by (simp add: waiting_def)
  have rep: "qrep (process_table s) (queues s k) (L k)" if "k < MAX_PRIORITY_LEVELS" for k
    using h that by (simp add: mlfq_holds_def)
  have dis: "set (L k) \<inter> set (L m) = {}" if "k < MAX_PRIORITY_LEVELS" "m < MAX_PRIORITY_LEVELS" "k \<noteq> m" for k m
    using h that by (simp add: mlfq_holds_def)
  have fresh: "p \<notin> set (L k)" if "k < MAX_PRIORITY_LEVELS" for k
    using assms(3) that by (simp add: MAX_PRIORITY_LEVELS_def)
  have ql: "qlinks (process_table s) (queues s l) (L l)" using rep[OF l4] by (simp add: qrep_def)
  obtain q' T' where a: "add_to_ready_queue p s = Some (s\<lparr>process_table := T', queues := (queues s)(l := q')\<rparr>)"
    "qlinks T' q' (L l @ [p])" "qcount q' = qcount (queues s l) + 1"
    "relinks (insert p (set (L l))) (process_table s) T'"
    using add_to_ready_queue_mlfq[OF True ql fresh[OF l4] lv] by blast
  have "qrep T' (((queues s)(l := q')) k) ((L(l := L l @ [p])) k)" if k: "k < MAX_PRIORITY_LEVELS" for k
  proof (cases "k = l")
    case True
    then show ?thesis using a(2,3) rep[OF l4] assms(2) by (simp add: qrep_def)
  next
    case False
    then have "i \<notin> insert p (set (L l))" if "i \<in> set (L k)" for i
      using dis[OF k l4 False] fresh[OF k] that by auto
    then have "qrep T' (queues s k) (L k)"
      using a(4) by (intro qrep_relinks[OF rep[OF k]]) (simp add: relinks_def same_links_def)
    then show ?thesis using False by simp
  qed
  moreover have "set ((L(l := L l @ [p])) k) \<inter> set ((L(l := L l @ [p])) m) = {}"
    if "k < MAX_PRIORITY_LEVELS" "m < MAX_PRIORITY_LEVELS" "k \<noteq> m" for k m
    using dis[OF that] fresh that by (auto split: if_splits)
  ultimately have "mlfq_holds (s\<lparr>process_table := T', queues := (queues s)(l := q')\<rparr>) (L(l := L l @ [p]))"
    using True by (simp add: mlfq_holds_def)
  then show ?thesis using a(1) True unfolding qi by (simp add: waiting_def)
qed

lemma waiting_cong:
  assumes "waiting s L" and "config s' = config s" and "ready_queue s' = ready_queue s" and "queues s' = queues s"
    and "\<And>i. same_links (process_table s) (process_table s') i"
  shows "waiting s' L"
  using assms(1,2,3,4) qrep_relinks[OF _ assms(5)]
  by (auto simp: waiting_def mlfq_holds_def single_holds_def split: if_splits)

definition created :: "string \<Rightarrow> u8 \<Rightarrow> sched \<Rightarrow> pcb \<Rightarrow> bool" where
  "created name prio s x \<longleftrightarrow> pid x = next_pid s \<and> pname x = take 31 name \<and> state x = PROCESS_READY \<and>
     priority x = prio \<and> time_created x = system_ticks s \<and> time_used x = 0 \<and>
     time_slice x = 10 * (4 - ucast prio)"

lemma created_data: "data x = data y \<Longrightarrow> created name prio s x = created name prio s y"
proof -
  assume h: "data x = data y"
  have "pname (data x) = pname (data y)" "time_created (data x) = time_created (data y)" by (simp_all only: h)
  then show ?thesis using data_fields[OF h] by (simp add: created_def data_def)
qed

lemma create_spec:
  assumes "waiting s L" and "find_free_pcb s = Some i" and "\<forall>l<4. i \<notin> set (L l)"
  shows "\<exists>s'. scheduler_create_process name prio s = Some (Some i, s') \<and>
    waiting s' (L(queue_index s prio := L (queue_index s prio) @ [i])) \<and>
    created name prio s (process_table s' i) \<and> next_pid s' = next_pid s + 1 \<and> config s' = config s \<and>
    current_process s' = current_process s \<and>
    (\<forall>j. j \<noteq> i \<longrightarrow> data (process_table s' j) = data (process_table s j))"
proof -
  define s1 where "s1 = (upd_proc i (new_pcb name prio s) s)\<lparr>next_pid := next_pid s + 1\<rparr>"
  have i: "i < MAX_PROCESSES" using assms(2) by (simp add: find_free_pcb_def first_index_Some)
  have w1: "waiting s1 L"
    by (rule waiting_cong[OF assms(1)]) (simp_all add: s1_def upd_proc_def upd_pcb_def same_links_def new_pcb_def)
  have p1: "priority (process_table s1 i) = prio" "config s1 = config s"
    by (simp_all add: s1_def upd_proc_def upd_pcb_def new_pcb_def)
  have qi: "queue_index s1 prio = queue_index s prio" using p1(2) by (simp add: queue_index_def)
  obtain s2 where s2: "add_to_ready_queue i s1 = Some s2"
    "waiting s2 (L(queue_index s prio := L (queue_index s prio) @ [i]))"
    using waiting_add[OF w1 i assms(3)] unfolding p1(1) qi by blast
  have d: "data (process_table s2 j) = data (process_table s1 j)" "next_pid s2 = next_pid s1"
    "config s2 = config s1" "current_process s2 = current_process s1" for j
    using add_to_ready_queue_frame[OF s2(1)] by (simp_all add: same_data_def same_rest_def)
  define s' where "s' = say (Created (pid (process_table s2 i)) (pname (process_table s2 i)) (priority (process_table s2 i))) s2"
  have "created name prio s (process_table s1 i)"
    by (simp add: created_def s1_def upd_proc_def upd_pcb_def new_pcb_def TIME_SLICE_BASE_def MAX_PRIORITY_LEVELS_def)
  then have "created name prio s (process_table s2 i)" using created_data[OF d(1)] by simp
  moreover have "scheduler_create_process name prio s = Some (Some i, s')"
    using assms(2) s2(1) by (simp add: scheduler_create_process_def s1_def Let_def s'_def)
  moreover have "waiting s' (L(queue_index s prio := L (queue_index s prio) @ [i]))"
    by (rule waiting_cong[OF s2(2)]) (simp_all add: s'_def say_def same_links_def)
  moreover have "data (process_table s2 j) = data (process_table s j)" if "j \<noteq> i" for j
    using d(1)[of j] that by (simp add: s1_def upd_proc_def upd_pcb_def)
  ultimately show ?thesis using d(2-4) p1(2) by (intro exI[of _ s']) (simp add: s'_def say_def s1_def upd_proc_def)
qed

text \<open>
  With every policy, \<^verbatim>\<open>scheduler_create_process\<close> on well-formed queues answers NULL
  and changes nothing but the trace when all 64 slots are taken; otherwise it initialises the
  first free slot with the next pid, the (truncated) name and the priority, and appends it to the
  queue of its level, leaving the data of every other process and the order of the queues alone.
\<close>

theorem create_process_appends:
  assumes "waiting s L"
  shows "(case find_free_pcb s of
      None \<Rightarrow> scheduler_create_process name prio s = Some (None, say NoFreePcb s)
    | Some i \<Rightarrow> (\<forall>l<4. i \<notin> set (L l)) \<longrightarrow>
        (\<exists>s'. scheduler_create_process name prio s = Some (Some i, s') \<and>
          waiting s' (L(queue_index s prio := L (queue_index s prio) @ [i])) \<and>
          created name prio s (process_table s' i) \<and> next_pid s' = next_pid s + 1 \<and> config s' = config s \<and>
          current_process s' = current_process s \<and>
          (\<forall>j. j \<noteq> i \<longrightarrow> data (process_table s' j) = data (process_table s j))))"
proof (cases "find_free_pcb s")
  case None
  then show ?thesis by (simp add: scheduler_create_process_def)
next
  case (Some i)
  then show ?thesis using create_spec[OF assms Some] by simp
qed

lemma booted_table: "process_table (booted t) i = (if t = SCHED_RR \<and> i < MAX_PROCESSES then zero_pcb\<lparr>time_slice := 3\<rparr> else zero_pcb)"
  by (cases t) (simp_all add: booted_def scheduler_init_def a_config_def Let_def say_def
      scheduler_rr_init_def scheduler_fifo_init_def scheduler_mlfq_init_def)

lemma booted_type: "sched_type (config (booted t)) = t"
  by (cases t) (simp_all add: booted_def scheduler_init_def a_config_def Let_def say_def
      scheduler_rr_init_def scheduler_fifo_init_def scheduler_mlfq_init_def)

lemma booted_waiting: "waiting (booted t) (\<lambda>_. [])"
  using single_holds_booted[of t] mlfq_holds_booted by (auto simp: waiting_def booted_type)

lemma booted_free: "find_free_pcb (booted t) = Some 0"
  by (simp add: find_free_pcb_def first_index_Some booted_table zero_pcb_def MAX_PROCESSES_def)

theorem create_process_appends_witness:
  "\<exists>s'. scheduler_create_process ''init'' 2 (booted SCHED_MLFQ) = Some (Some 0, s') \<and>
    waiting s' ((\<lambda>_. [])(2 := [0])) \<and> created ''init'' 2 (booted SCHED_MLFQ) (process_table s' 0)"
proof -
  have "queue_index (booted SCHED_MLFQ) 2 = 2" by (simp add: queue_index_def booted_type)
  then show ?thesis
    using create_process_appends[OF booted_waiting[of SCHED_MLFQ], of "''init''" 2] booted_free[of SCHED_MLFQ] by auto
qed

lemma one_process:
  "\<exists>s. scheduler_create_process ''init'' 2 (booted SCHED_MLFQ) = Some (Some 0, s) \<and> mlfq_holds s ((\<lambda>_. [])(2 := [0]))"
proof -
  have q: "queue_index (booted SCHED_MLFQ) 2 = 2" by (simp add: queue_index_def booted_type)
  obtain s where "scheduler_create_process ''init'' 2 (booted SCHED_MLFQ) = Some (Some 0, s)"
    "waiting s ((\<lambda>_. [])(2 := [0]))" "config s = config (booted SCHED_MLFQ)"
    using create_spec[OF booted_waiting[of SCHED_MLFQ] booted_free, of "''init''" 2] q by auto
  then show ?thesis by (auto simp: waiting_def booted_type)
qed

theorem boost_moves_all_to_top_witness:
  "\<exists>s s'. scheduler_create_process ''init'' 2 (booted SCHED_MLFQ) = Some (Some 0, s) \<and>
     scheduler_mlfq_boost_priority s = Some s' \<and> priority (process_table s' 0) = 0"
proof -
  obtain s where s: "scheduler_create_process ''init'' 2 (booted SCHED_MLFQ) = Some (Some 0, s)"
    "mlfq_holds s ((\<lambda>_. [])(2 := [0]))"
    using one_process by blast
  from boost_moves_all_to_top[OF s(2)] s(1) show ?thesis by auto
qed

section \<open>Unlinking a process that is in no queue\<close>

lemma remove_stray:
  assumes "sched_type (config s) \<noteq> SCHED_MLFQ" and "nxt (process_table s p) = None"
    and "prv (process_table s p) = None"
  shows "head (ready_queue (remove_from_ready_queue p s)) = None"
    and "tail (ready_queue (remove_from_ready_queue p s)) = None"
  using assms by (simp_all add: remove_from_ready_queue_def unlink_stray)

text \<open>
  \<^verbatim>\<open>remove_from_ready_queue\<close> takes exactly the given process out of the queue it
  is in; but called on a process that is in no queue (both links NULL, as for every running
  process) it leaves the queue empty, whatever was waiting.
\<close>

theorem remove_from_queue:
  assumes "sched_type (config s) \<noteq> SCHED_MLFQ"
  shows "(qlinks (process_table s) (ready_queue s) (xs @ p # ys) \<longrightarrow>
      qlinks (process_table (remove_from_ready_queue p s)) (ready_queue (remove_from_ready_queue p s)) (xs @ ys)) \<and>
    (nxt (process_table s p) = None \<and> prv (process_table s p) = None \<longrightarrow>
      qlinks (process_table (remove_from_ready_queue p s)) (ready_queue (remove_from_ready_queue p s)) [])"
proof -
  obtain q T where u: "unlink p (ready_queue s) (process_table s) = (q, T)" by force
  have r: "process_table (remove_from_ready_queue p s) = clear_links p T" "ready_queue (remove_from_ready_queue p s) = q"
    using assms(1) u by (simp_all add: remove_from_ready_queue_def)
  have "qlinks (clear_links p T) q (xs @ ys)" if "qlinks (process_table s) (ready_queue s) (xs @ p # ys)"
  proof (rule qlinks_clear[OF unlink_links(1)[OF that u]])
    show "p \<notin> set (xs @ ys)" using that by (auto simp: qlinks_def qopen_def)
  qed
  then show ?thesis
    using r remove_stray[OF assms(1), of p] by (auto simp: qlinks_def qopen_def)
qed

lemma one_fifo_process:
  "\<exists>s. scheduler_create_process ''init'' 2 (booted SCHED_FIFO) = Some (Some 0, s) \<and> single_holds s [0] \<and>
     current_process s = None"
proof -
  have "current_process (booted SCHED_FIFO) = None"
    by (simp add: booted_def scheduler_init_def a_config_def Let_def say_def scheduler_fifo_init_def)
  moreover have q: "queue_index (booted SCHED_FIFO) 2 = 0" by (simp add: queue_index_def booted_type)
  obtain s where "scheduler_create_process ''init'' 2 (booted SCHED_FIFO) = Some (Some 0, s)"
    "waiting s ((\<lambda>_. [])(0 := [0]))" "config s = config (booted SCHED_FIFO)"
    "current_process s = current_process (booted SCHED_FIFO)"
    using create_spec[OF booted_waiting[of SCHED_FIFO] booted_free, of "''init''" 2] q by auto
  ultimately show ?thesis by (auto simp: waiting_def booted_type)
qed

theorem remove_from_queue_witness:
  "\<exists>s. scheduler_create_process ''init'' 2 (booted SCHED_FIFO) = Some (Some 0, s) \<and>
     qlinks (process_table (remove_from_ready_queue 0 s)) (ready_queue (remove_from_ready_queue 0 s)) []"
proof -
  obtain s where s: "scheduler_create_process ''init'' 2 (booted SCHED_FIFO) = Some (Some 0, s)" "single_holds s [0]"
    using one_fifo_process by blast
  then have "sched_type (config s) \<noteq> SCHED_MLFQ" "qlinks (process_table s) (ready_queue s) ([] @ 0 # [])"
    by (simp_all add: single_holds_def qrep_def)
  then show ?thesis using remove_from_queue[of s "[]" 0 "[]"] s(1) by auto
qed

lemma pick_next_no_head:
  assumes "sched_type (config s) \<noteq> SCHED_MLFQ" and "head (ready_queue s) = None" and "tail (ready_queue s) = None"
  shows "\<exists>q. pick_next s = Some (None, s\<lparr>ready_queue := q\<rparr>) \<and> head q = None \<and> tail q = None"
proof -
  have f: "\<exists>q. scheduler_fifo_schedule s = Some (None, s\<lparr>ready_queue := q\<rparr>) \<and> head q = None \<and> tail q = None"
    using assms(2,3) by (auto simp: scheduler_fifo_schedule_def pop_head_def intro: exI[of _ "ready_queue s"])
  then show ?thesis
    using assms(1) by (cases "sched_type (config s)") (auto simp: pick_next_def scheduler_rr_schedule_def)
qed

text \<open>
  Terminating the running process under a single-queue policy loses every process
  that waits: the queue is emptied, nothing is scheduled, and no process is current.
\<close>

theorem terminate_running_drops_queue:
  assumes "sched_type (config s) \<noteq> SCHED_MLFQ" and "current_process s = Some c"
    and "c < MAX_PROCESSES" and "pid (process_table s c) = k" and "state (process_table s c) = PROCESS_RUNNING"
    and "\<forall>j<c. pid (process_table s j) \<noteq> k"
    and "nxt (process_table s c) = None" and "prv (process_table s c) = None"
  shows "\<exists>s'. scheduler_terminate_process k s = Some s' \<and> current_process s' = None \<and>
    head (ready_queue s') = None \<and> tail (ready_queue s') = None"
proof -
  have f: "first_index (\<lambda>i. pid (process_table s i) = k \<and> state (process_table s i) \<noteq> PROCESS_TERMINATED)
      MAX_PROCESSES = Some c"
    using assms by (auto simp: first_index_Some)
  define s1 where "s1 = upd_proc c (state_update (\<lambda>_. PROCESS_TERMINATED)) s"
  define s2 where "s2 = remove_from_ready_queue c s1"
  have r: "head (ready_queue s2) = None" "tail (ready_queue s2) = None"
    unfolding s2_def using assms by (intro remove_stray; simp add: s1_def upd_proc_def upd_pcb_def)+
  have fr: "same_data s1 s2" unfolding s2_def by (rule remove_from_ready_queue_frame)
  then have s2: "current_process s2 = Some c" "config s2 = config s" "pid (process_table s2 c) = k"
    using assms(2,4) data_fields(1)[of "process_table s2 c" "process_table s1 c"]
    by (simp_all add: same_data_def same_rest_def s1_def upd_proc_def upd_pcb_def)
  define s3 where "s3 = (say (Terminated k (time_used (process_table s2 c)))
    (s2\<lparr>stats := (stats s2)\<lparr>processes_completed := processes_completed (stats s2) + 1,
       total_runtime := total_runtime (stats s2) + time_used (process_table s2 c)\<rparr>\<rparr>))\<lparr>current_process := None\<rparr>"
  have "scheduler_terminate_process k s = scheduler_schedule s3"
    using s2 by (simp add: scheduler_terminate_process_def f Let_def say_def s3_def flip: s1_def s2_def)
  moreover have "sched_type (config s3) \<noteq> SCHED_MLFQ" "head (ready_queue s3) = None" "tail (ready_queue s3) = None"
    using r s2(2) assms(1) by (simp_all add: s3_def say_def)
  from pick_next_no_head[OF this] obtain q where
    "pick_next s3 = Some (None, s3\<lparr>ready_queue := q\<rparr>)" "head q = None" "tail q = None" by blast
  ultimately show ?thesis by (simp add: scheduler_schedule_def s3_def)
qed

definition fifo_running :: "sched option" where
  "fifo_running = do { s \<leftarrow> spawn ''a'' 0 (booted SCHED_FIFO); scheduler_schedule s }"

definition fifo_two :: "sched option" where
  "fifo_two = do { s \<leftarrow> fifo_running; spawn ''b'' 0 s }"

lemma fifo_two_state:
  "\<exists>s. fifo_two = Some s \<and> sched_type (config s) = SCHED_FIFO \<and> current_process s = Some 0 \<and>
     pid (process_table s 0) = 1 \<and> state (process_table s 0) = PROCESS_RUNNING \<and>
     nxt (process_table s 0) = None \<and> prv (process_table s 0) = None \<and> single_holds s [1]"
proof -
  have "case fifo_two of None \<Rightarrow> False | Some s \<Rightarrow> sched_type (config s) = SCHED_FIFO \<and>
     current_process s = Some 0 \<and>
     pid (process_table s 0) = 1 \<and> state (process_table s 0) = PROCESS_RUNNING \<and>
     nxt (process_table s 0) = None \<and> prv (process_table s 0) = None \<and>
     nxt (process_table s 1) = None \<and> prv (process_table s 1) = None \<and>
     head (ready_queue s) = Some 1 \<and> tail (ready_queue s) = Some 1 \<and> qcount (ready_queue s) = 1"
    by code_simp
  then show ?thesis
    by (auto simp: single_holds_def qrep_def qlinks_def qopen_def MAX_PROCESSES_def split: option.splits)
qed

theorem terminate_running_drops_queue_witness:
  "\<exists>s s'. fifo_two = Some s \<and> single_holds s [1] \<and> scheduler_terminate_process 1 s = Some s' \<and>
     current_process s' = None \<and> head (ready_queue s') = None"
proof -
  obtain s where s: "fifo_two = Some s" "sched_type (config s) = SCHED_FIFO" "current_process s = Some 0"
    "pid (process_table s 0) = 1" "state (process_table s 0) = PROCESS_RUNNING"
    "nxt (process_table s 0) = None" "prv (process_table s 0) = None" "single_holds s [1]"
    using fifo_two_state by blast
  have "sched_type (config s) \<noteq> SCHED_MLFQ" "0 < MAX_PROCESSES" "\<forall>j<0. pid (process_table s j) \<noteq> 1"
    using s(2) by (simp_all add: MAX_PROCESSES_def)
  from terminate_running_drops_queue[OF this(1) s(3) this(2) s(4,5) this(3) s(6,7)] s show ?thesis by blast
qed

section \<open>Dispatching\<close>

lemma dispatch_popped:
  assumes "sched_type (config s) \<noteq> SCHED_MLFQ" and "qlinks (process_table s) (ready_queue s) xs"
    and "xs \<noteq> []" and "n \<notin> set xs" and "prv (process_table s n) = None" and "nxt (process_table s n) = Some (hd xs)"
  shows "qlinks (process_table (dispatch n s)) (ready_queue (dispatch n s)) xs"
    and "qcount (ready_queue (dispatch n s)) =
      (if 0 < qcount (ready_queue s) then qcount (ready_queue s) - 1 else qcount (ready_queue s))"
proof -
  define s1 where "s1 = upd_proc n (\<lambda>x. x\<lparr>state := PROCESS_RUNNING, time_started := system_ticks s,
    time_slice_used := 0\<rparr>) (s\<lparr>current_process := Some n\<rparr>)"
  have q1: "qlinks (process_table s1) (ready_queue s) xs"
    by (rule qlinks_cong[OF assms(2)]) (simp add: s1_def same_links_def upd_proc_def upd_pcb_def)
  have "unlink n (ready_queue s) (process_table s1) = ((ready_queue s)\<lparr>qcount :=
      (if 0 < qcount (ready_queue s) then qcount (ready_queue s) - 1 else qcount (ready_queue s))\<rparr>, process_table s1)"
    by (rule unlink_popped[OF q1 assms(3)]) (use assms(5,6) in \<open>simp_all add: s1_def upd_proc_def upd_pcb_def\<close>)
  then have "process_table (dispatch n s) = clear_links n (process_table s1)"
    "ready_queue (dispatch n s) = (ready_queue s)\<lparr>qcount :=
      (if 0 < qcount (ready_queue s) then qcount (ready_queue s) - 1 else qcount (ready_queue s))\<rparr>"
    using assms(1) by (simp_all add: dispatch_def Let_def say_def remove_from_ready_queue_def upd_proc_def
        flip: s1_def[unfolded upd_proc_def])
      (simp_all add: s1_def upd_proc_def)
  then show "qlinks (process_table (dispatch n s)) (ready_queue (dispatch n s)) xs"
    "qcount (ready_queue (dispatch n s)) =
      (if 0 < qcount (ready_queue s) then qcount (ready_queue s) - 1 else qcount (ready_queue s))"
    using qlinks_clear[OF q1 assms(4)] by (simp_all add: qlinks_def qopen_def)
qed

lemma dispatch_stray:
  assumes "sched_type (config s) \<noteq> SCHED_MLFQ" and "prv (process_table s n) = None" and "nxt (process_table s n) = None"
  shows "head (ready_queue (dispatch n s)) = None" and "tail (ready_queue (dispatch n s)) = None"
    and "qcount (ready_queue (dispatch n s)) =
      (if 0 < qcount (ready_queue s) then qcount (ready_queue s) - 1 else qcount (ready_queue s))"
  using assms by (simp_all add: dispatch_def Let_def say_def remove_from_ready_queue_def upd_proc_def upd_pcb_def
      unlink_stray)

lemma pick_next_single:
  assumes "single_holds s (a # xs)"
    and "sched_type (config s) = SCHED_RR \<longrightarrow>
      (case current_process s of None \<Rightarrow> True | Some c \<Rightarrow> state (process_table s c) \<noteq> PROCESS_READY)"
  shows "\<exists>s1. pick_next s = Some (Some a, s1) \<and> single_holds s1 xs \<and>
    prv (process_table s1 a) = None \<and> nxt (process_table s1 a) = (if xs = [] then None else Some (hd xs)) \<and>
    keeps_states s s1 \<and> stats s1 = stats s"
proof -
  obtain s1 where s1: "scheduler_fifo_schedule s = Some (Some a, s1)" "single_holds s1 xs"
    "prv (process_table s1 a) = None" "nxt (process_table s1 a) = (if xs = [] then None else Some (hd xs))"
    "s1 = s\<lparr>process_table := process_table s1, ready_queue := ready_queue s1\<rparr>"
    using single_deq[OF assms(1)] by blast
  have k: "keeps_states s s1" by (rule same_data_keeps[OF fifo_schedule_frame[OF s1(1)]])
  have st: "stats s1 = stats s" by (subst s1(5)) simp
  have t: "sched_type (config s) \<noteq> SCHED_MLFQ" using assms(1) by (simp add: single_holds_def)
  have "pick_next s = Some (Some a, s1)"
    using t s1(1) k assms(2)
    by (cases "sched_type (config s)"; cases "current_process s")
      (auto simp: pick_next_def scheduler_rr_schedule_def keeps_states_def)
  then show ?thesis using s1(2-4) k st by blast
qed

lemma schedule_idle:
  assumes "single_holds s (a # xs)" and "current_process s = None"
  shows "\<exists>s'. scheduler_schedule s = Some s' \<and> current_process s' = Some a \<and>
    state (process_table s' a) = PROCESS_RUNNING \<and> config s' = config s \<and>
    qlinks (process_table s') (ready_queue s') xs \<and> unat (qcount (ready_queue s')) = length xs - 1"
proof -
  obtain s1 where s1: "pick_next s = Some (Some a, s1)" "single_holds s1 xs" "prv (process_table s1 a) = None"
    "nxt (process_table s1 a) = (if xs = [] then None else Some (hd xs))" "keeps_states s s1"
    using pick_next_single[OF assms(1)] assms(2) by auto
  have run: "scheduler_schedule s = Some (dispatch a s1)"
    using s1(1,5) assms(2) by (auto simp: scheduler_schedule_def keeps_states_def)
  have t: "sched_type (config s1) \<noteq> SCHED_MLFQ" and rep: "qrep (process_table s1) (ready_queue s1) xs"
    using s1(2) by (simp_all add: single_holds_def)
  have a: "a \<notin> set xs" using assms(1) by (auto simp: single_holds_def qrep_def qlinks_def qopen_def)
  have cfg: "config (dispatch a s1) = config s1"
    using remove_from_ready_queue_frame[of "upd_proc a (\<lambda>x. x\<lparr>state := PROCESS_RUNNING, time_started := system_ticks s1,
       time_slice_used := 0\<rparr>) (s1\<lparr>current_process := Some a\<rparr>)" a]
    by (simp add: dispatch_def Let_def say_def same_data_def same_rest_def upd_proc_def)
  have "qlinks (process_table (dispatch a s1)) (ready_queue (dispatch a s1)) xs \<and>
    unat (qcount (ready_queue (dispatch a s1))) = length xs - 1"
  proof (cases "xs = []")
    case True
    then have "qcount (ready_queue s1) = 0" using rep qrep_Nil_count by blast
    then show ?thesis using dispatch_stray[OF t s1(3)] s1(4) True by (simp add: qlinks_def qopen_def)
  next
    case False
    then have pos: "0 < qcount (ready_queue s1)" using rep qrep_Nil_count by (metis word_gt_0)
    have "unat (qcount (ready_queue s1) - 1) = length xs - 1"
      using qrep_count[OF rep] False by (subst unat_diff_exact) (simp_all add: Suc_leI)
    then show ?thesis
      using dispatch_popped[OF t _ False a s1(3)] rep s1(4) False pos by (auto simp: qrep_def)
  qed
  then show ?thesis using run cfg s1(5) dispatch_state(1,2)[of a s1] by (auto simp: keeps_states_def)
qed

text \<open>
  From an idle CPU a single-queue policy dispatches the front of the queue and
  keeps the others queued in order, but the queue's count drops by two: it is one less than the
  number of waiting processes. With two processes the second is never picked again: the next call
  to \<^verbatim>\<open>scheduler_schedule\<close> finds the count at zero and changes nothing.
\<close>

theorem dispatch_undercounts:
  assumes "single_holds s (a # xs)" and "current_process s = None"
  shows "\<exists>s'. scheduler_schedule s = Some s' \<and> current_process s' = Some a \<and>
    state (process_table s' a) = PROCESS_RUNNING \<and>
    qlinks (process_table s') (ready_queue s') xs \<and> unat (qcount (ready_queue s')) = length xs - 1 \<and>
    (length xs = 1 \<longrightarrow> scheduler_schedule s' = Some s')"
proof -
  obtain s' where s': "scheduler_schedule s = Some s'" "current_process s' = Some a"
    "state (process_table s' a) = PROCESS_RUNNING" "config s' = config s"
    "qlinks (process_table s') (ready_queue s') xs" "unat (qcount (ready_queue s')) = length xs - 1"
    using schedule_idle[OF assms] by blast
  have "scheduler_schedule s' = Some s'" if "length xs = 1"
  proof -
    have "qcount (ready_queue s') = 0" using s'(6) that by (simp add: unat_eq_0)
    moreover have "sched_type (config s') \<noteq> SCHED_MLFQ" using assms(1) s'(4) by (simp add: single_holds_def)
    ultimately show ?thesis
      by (cases "sched_type (config s')")
        (simp_all add: scheduler_schedule_def pick_next_def scheduler_rr_schedule_def scheduler_fifo_schedule_def)
  qed
  then show ?thesis using s' by blast
qed

theorem dispatch_undercounts_witness:
  "\<exists>s s'. scheduler_create_process ''init'' 2 (booted SCHED_FIFO) = Some (Some 0, s) \<and>
     scheduler_schedule s = Some s' \<and> current_process s' = Some 0"
proof -
  obtain s where s: "scheduler_create_process ''init'' 2 (booted SCHED_FIFO) = Some (Some 0, s)" "single_holds s [0]"
    "current_process s = None"
    using one_fifo_process by blast
  then show ?thesis using dispatch_undercounts[OF s(2,3)] by blast
qed

text \<open>
  When exactly one process waits and another runs, a single-queue policy switches
  to the waiting one and loses the other: it is READY, not current, and the queue is empty.
\<close>

theorem switch_loses_preempted:
  assumes "single_holds s [a]" and "current_process s = Some c" and "c \<noteq> a" and "c < MAX_PROCESSES"
    and "state (process_table s c) = PROCESS_RUNNING"
  shows "\<exists>s'. scheduler_schedule s = Some s' \<and> current_process s' = Some a \<and>
    state (process_table s' c) = PROCESS_READY \<and> head (ready_queue s') = None \<and> tail (ready_queue s') = None"
proof -
  obtain s1 where s1: "pick_next s = Some (Some a, s1)" "single_holds s1 []" "prv (process_table s1 a) = None"
    "nxt (process_table s1 a) = None" "keeps_states s s1"
    using pick_next_single[OF assms(1)] assms(2,5) by auto
  define s2 where "s2 = upd_proc c (state_update (\<lambda>_. PROCESS_READY)) s1"
  have h2: "single_holds s2 []" using s1(2) by (simp add: s2_def single_holds_def upd_proc_def qrep_def qlinks_def qopen_def)
  have cn: "c \<notin> set ([] :: nat list)" by simp
  obtain s3 where s3: "add_to_ready_queue c s2 = Some s3" "single_holds s3 ([] @ [c])"
    "relinks (insert c (set [])) (process_table s2) (process_table s3)"
    using single_enq[OF h2 cn assms(4)] by blast
  have cur: "current_process s1 = Some c" using s1(5) assms(2) by (simp add: keeps_states_def)
  have run: "scheduler_schedule s = Some (dispatch a s3)"
    using s1(1) cur assms(3) s3(1) by (simp add: scheduler_schedule_def flip: s2_def)
  have "process_table s3 a = process_table s1 a"
    using s3(3) assms(3) by (simp add: relinks_def s2_def upd_proc_def upd_pcb_def)
  then have l: "prv (process_table s3 a) = None" "nxt (process_table s3 a) = None" using s1(3,4) by simp_all
  have t: "sched_type (config s3) \<noteq> SCHED_MLFQ" using s3(2) by (simp add: single_holds_def)
  have "state (process_table s3 c) = PROCESS_READY"
    using requeue_state(1)[OF s3(1)[unfolded s2_def], of c] by simp
  then show ?thesis
    using run dispatch_stray[OF t l] dispatch_state(1,2)[of a s3] assms(3) by auto
qed

theorem switch_loses_preempted_witness:
  "\<exists>s s'. fifo_two = Some s \<and> scheduler_schedule s = Some s' \<and> current_process s' = Some 1 \<and>
     state (process_table s' 0) = PROCESS_READY \<and> head (ready_queue s') = None"
proof -
  obtain s where s: "fifo_two = Some s" "current_process s = Some 0" "state (process_table s 0) = PROCESS_RUNNING"
    "single_holds s [1]"
    using fifo_two_state by blast
  have "(0::nat) \<noteq> 1" "0 < MAX_PROCESSES" by (simp_all add: MAX_PROCESSES_def)
  from switch_loses_preempted[OF s(4,2) this s(3)] s(1) show ?thesis by blast
qed

section \<open>Round robin\<close>

text \<open>
  Under round robin the configured quantum has no effect: \<^verbatim>\<open>scheduler_rr_init\<close> stores
  it in every PCB, but the first process created gets \<open>10 * (4 - priority)\<close> ticks for any quantum.
\<close>

theorem rr_quantum_ignored:
  assumes "sched_type cfg = SCHED_RR"
  shows "\<exists>s'. scheduler_create_process name prio (scheduler_init cfg s) = Some (Some 0, s') \<and>
    time_slice (process_table (scheduler_init cfg s) 0) = time_quantum cfg \<and>
    time_slice (process_table s' 0) = 10 * (4 - ucast prio)"
proof -
  have i: "process_table (scheduler_init cfg s) 0 = zero_pcb\<lparr>time_slice := time_quantum cfg\<rparr>"
    "config (scheduler_init cfg s) = cfg" "ready_queue (scheduler_init cfg s) = zero_queue"
    using assms by (simp_all add: scheduler_init_def Let_def say_def scheduler_rr_init_def scheduler_fifo_init_def
        MAX_PROCESSES_def zero_queue_def)
  have f: "find_free_pcb (scheduler_init cfg s) = Some 0"
    using i by (simp add: find_free_pcb_def first_index_Some zero_pcb_def MAX_PROCESSES_def)
  have "waiting (scheduler_init cfg s) (\<lambda>_. [])"
    using i assms by (simp add: waiting_def single_holds_def qrep_def qlinks_def qopen_def zero_queue_def)
  from create_spec[OF this f, of name prio] show ?thesis using i by (auto simp: created_def)
qed

theorem rr_quantum_ignored_witness:
  "\<exists>s'. scheduler_create_process ''a'' 0 (scheduler_init (a_config SCHED_RR) cold) = Some (Some 0, s') \<and>
     time_slice (process_table s' 0) = 40"
  using rr_quantum_ignored[of "a_config SCHED_RR" "''a''" 0 cold] by (fastforce simp: a_config_def)

lemma walk_cycle: "nxt (T a) = Some a \<Longrightarrow> walk T (Some a) acc = None"
proof (rule ccontr)
  assume n: "nxt (T a) = Some a" and "walk T (Some a) acc \<noteq> None"
  then obtain r where "walk T (Some a) acc = Some r" by blast
  moreover have "T' = T \<longrightarrow> p \<noteq> Some a" if "walk T' p acc' = Some r'" for T' p acc' r'
    using that
  proof (rule walk.raw_induct[where P = "\<lambda>T' p acc' r'. T' = T \<longrightarrow> p \<noteq> Some a", rotated])
    fix f :: "ptab \<Rightarrow> nat option \<Rightarrow> u32 list \<Rightarrow> u32 list option" and T' p acc' r'
    assume "\<And>T' p acc' r'. f T' p acc' = Some r' \<Longrightarrow> T' = T \<longrightarrow> p \<noteq> Some a"
      and "(case p of None \<Rightarrow> Some acc' | Some b \<Rightarrow> f T' (nxt (T' b)) (acc' @ [pid (T' b)])) = Some r'"
    then show "T' = T \<longrightarrow> p \<noteq> Some a" using n by (auto split: option.splits)
  qed
  ultimately show False by blast
qed

definition rr_example :: "sched option" where
  "rr_example = do {
     s \<leftarrow> spawn ''a'' 0 (booted SCHED_RR);
     s \<leftarrow> spawn ''b'' 0 s;
     s \<leftarrow> scheduler_schedule s;
     s \<leftarrow> spawn ''c'' 0 s;
     scheduler_yield s
   }"

text \<open>
  Round robin enqueues a yielding process three times. Three processes, the first
  one running: after its \<^verbatim>\<open>scheduler_yield\<close> it is linked to itself, so \<^verbatim>\<open>scheduler_print_ready_queue\<close>
  never ends.
\<close>

theorem rr_yield_makes_cycle:
  "\<exists>s. rr_example = Some s \<and> current_process s = Some 1 \<and> nxt (process_table s 0) = Some 0 \<and>
     qcount (ready_queue s) = 2 \<and> scheduler_print_ready_queue s = None"
proof -
  have "case rr_example of None \<Rightarrow> False | Some s \<Rightarrow> current_process s = Some 1 \<and>
      nxt (process_table s 0) = Some 0 \<and> nxt (process_table s 2) = Some 0 \<and>
      head (ready_queue s) = Some 2 \<and> qcount (ready_queue s) = 2 \<and>
      sched_type (config s) = SCHED_RR"
    by code_simp
  then obtain s where s: "rr_example = Some s" "current_process s = Some 1" "nxt (process_table s 0) = Some 0"
    "nxt (process_table s 2) = Some 0" "head (ready_queue s) = Some 2" "qcount (ready_queue s) = 2"
    "sched_type (config s) = SCHED_RR"
    by (auto split: option.splits)
  have "walk (process_table s) (Some 2) [] = None"
    using s(4) walk_cycle[of "process_table s" 0, OF s(3)] by (subst walk.simps) simp
  then have "print_queue 0 (ready_queue s) s = None" using s(5) by (simp add: print_queue_def)
  then have "scheduler_print_ready_queue s = None" using s(7) unfolding scheduler_print_ready_queue_def by simp
  then show ?thesis using s by blast
qed

end
