(* ===== verification/Mlfq_Top.thy ===== *)
theory Mlfq_Top
  imports Scheduler_Mlfq
begin

text \<open>
  A process alone at the top level of the MLFQ: its expired slices have no effect, and until the
  next boost nobody else runs. \<open>for_each\<close> and \<open>ticks\<close> are the loops of the programs that drive the
  scheduler.
\<close>

section \<open>Vocabulary\<close>

text \<open>A C \<^verbatim>\<open>for\<close> loop over \<open>xs\<close> whose body may fail.\<close>

fun for_each :: "('i \<Rightarrow> 's \<Rightarrow> 's option) \<Rightarrow> 'i list \<Rightarrow> 's \<Rightarrow> 's option" where
  "for_each f [] s = Some s"
| "for_each f (x # xs) s = do { s \<leftarrow> f x s; for_each f xs s }"

definition ticks :: "nat \<Rightarrow> sched \<Rightarrow> sched option" where
  "ticks n = for_each (\<lambda>_. scheduler_tick) [0..<n]"


section \<open>Alone at the top\<close>

text \<open>The current process has priority 0 and level 0 is empty.\<close>

definition top_runner :: "nat \<Rightarrow> sched \<Rightarrow> bool" where
  "top_runner c s \<longleftrightarrow> sched_type (config s) = SCHED_MLFQ \<and> current_process s = Some c \<and>
     priority (process_table s c) = 0 \<and>
     head (queues s 0) = None \<and> tail (queues s 0) = None \<and> qcount (queues s 0) = 0"

text \<open>What ticks of such a process leave alone.\<close>

definition top_frame :: "nat \<Rightarrow> sched \<Rightarrow> sched \<Rightarrow> bool" where
  "top_frame c s s' \<longleftrightarrow> config s' = config s \<and> stats s' = stats s \<and> boost_interval s' = boost_interval s \<and>
     (\<forall>l. l \<noteq> 0 \<longrightarrow> queues s' l = queues s l) \<and>
     (\<forall>i. i \<noteq> c \<longrightarrow> process_table s' i = process_table s i) \<and> pid (process_table s' c) = pid (process_table s c)"

lemma top_frame_trans: "top_frame c s s1 \<Longrightarrow> top_frame c s1 s2 \<Longrightarrow> top_frame c s s2"
  by (simp add: top_frame_def)

lemma yield_top:
  assumes "top_runner c s"
  shows "\<exists>s'. scheduler_yield s = Some s' \<and> top_runner c s' \<and> top_frame c s s' \<and>
    system_ticks s' = system_ticks s \<and> last_boost_time s' = last_boost_time s"
proof -
  have f: "first_index (\<lambda>i. 0 < qcount (((queues s)(0 := queues s 0\<lparr>head := Some c, tail := Some c, qcount := 1\<rparr>)) i))
      MAX_PRIORITY_LEVELS = Some 0"
    by (simp add: first_index_Some MAX_PRIORITY_LEVELS_def)
  show ?thesis
    using assms f
    by (simp add: top_runner_def top_frame_def scheduler_yield_def add_to_ready_queue_def append_tail_def
        scheduler_schedule_def pick_next_def scheduler_mlfq_schedule_def pop_head_def Let_def upd_proc_def upd_pcb_def
        clear_links_def MAX_PRIORITY_LEVELS_def)
qed

definition boost_due :: "sched \<Rightarrow> bool" where
  "boost_due s \<longleftrightarrow> boost_interval s \<le> system_ticks s - last_boost_time s"

definition lower_empty :: "sched \<Rightarrow> bool" where
  "lower_empty s \<longleftrightarrow> (\<forall>l\<in>{1, 2, 3}. qcount (queues s l) = 0)"

lemma boost_nothing: "lower_empty s \<Longrightarrow> scheduler_mlfq_boost_priority s = Some (say Boosting s)"
  by (simp add: scheduler_mlfq_boost_priority_def boost_level.simps lower_empty_def say_def)

lemma tick_mlfq_top:
  assumes "top_runner c s" and "boost_due s \<Longrightarrow> lower_empty s"
  shows "\<exists>s'. tick_mlfq s = Some s' \<and> top_runner c s' \<and> top_frame c s s' \<and> system_ticks s' = system_ticks s \<and>
    (\<not> boost_due s \<longrightarrow> last_boost_time s' = last_boost_time s)"
proof -
  define s1 where "s1 = upd_proc c (\<lambda>x. x\<lparr>time_in_queue := time_in_queue x + 1\<rparr>) s"
  have s1: "top_runner c s1 \<and> top_frame c s s1 \<and> system_ticks s1 = system_ticks s \<and> last_boost_time s1 = last_boost_time s"
    using assms(1) by (simp add: s1_def top_runner_def top_frame_def upd_proc_def upd_pcb_def)
  show ?thesis
  proof (cases "boost_due s")
    case False
    then have "tick_mlfq s = Some s1"
      using assms(1) by (simp add: tick_mlfq_def top_runner_def boost_due_def s1_def upd_proc_def Let_def)
    then show ?thesis using s1 by blast
  next
    case True
    then have "lower_empty s1" using assms(2) by (simp add: lower_empty_def s1_def upd_proc_def)
    then have "tick_mlfq s = Some ((say Boosting s1)\<lparr>last_boost_time := system_ticks s\<rparr>)"
      using assms(1) True boost_nothing[of s1]
      by (simp add: tick_mlfq_def top_runner_def boost_due_def s1_def[symmetric] Let_def)
        (simp add: s1_def upd_proc_def say_def)
    then show ?thesis using s1 True by (auto simp: top_runner_def top_frame_def say_def)
  qed
qed

lemma tick_top:
  assumes "top_runner c s" and "boost_due (s\<lparr>system_ticks := system_ticks s + 1\<rparr>) \<Longrightarrow> lower_empty s"
  shows "\<exists>s'. scheduler_tick s = Some s' \<and> top_runner c s' \<and> top_frame c s s' \<and>
    system_ticks s' = system_ticks s + 1 \<and>
    (\<not> boost_due (s\<lparr>system_ticks := system_ticks s + 1\<rparr>) \<longrightarrow> last_boost_time s' = last_boost_time s)"
proof -
  define s1 where "s1 = upd_proc c (\<lambda>x. x\<lparr>time_used := time_used x + 1, time_slice_used := time_slice_used x + 1,
    vruntime := vruntime x + 1\<rparr>) (s\<lparr>system_ticks := system_ticks s + 1\<rparr>)"
  define exp where "exp = (enable_preemption (config s1) \<noteq> 0 \<and>
    time_slice (process_table s1 c) \<le> time_slice_used (process_table s1 c))"
  have s1: "top_runner c s1" "top_frame c s s1" "system_ticks s1 = system_ticks s + 1" "last_boost_time s1 = last_boost_time s"
    using assms(1) by (simp_all add: s1_def top_runner_def top_frame_def upd_proc_def upd_pcb_def)
  obtain s2 where s2: "(if exp then scheduler_yield (say (SliceExpired (pid (process_table s1 c))) s1) else Some s1) = Some s2"
    "top_runner c s2" "top_frame c s1 s2" "system_ticks s2 = system_ticks s + 1" "last_boost_time s2 = last_boost_time s"
  proof (cases exp)
    case False
    then show ?thesis using that[of s1] s1 by (simp add: top_frame_def)
  next
    case True
    have "top_runner c (say (SliceExpired (pid (process_table s1 c))) s1)" using s1(1) by (simp add: top_runner_def say_def)
    from yield_top[OF this] obtain s2 where "scheduler_yield (say (SliceExpired (pid (process_table s1 c))) s1) = Some s2"
      "top_runner c s2" "top_frame c (say (SliceExpired (pid (process_table s1 c))) s1) s2"
      "system_ticks s2 = system_ticks s1" "last_boost_time s2 = last_boost_time s1"
      by (auto simp: say_def)
    then show ?thesis using that[of s2] True s1 by (simp add: top_frame_def say_def)
  qed
  have t: "scheduler_tick s = tick_mlfq s2"
    using assms(1) s2(1) by (simp add: scheduler_tick_def top_runner_def Let_def s1_def[symmetric] exp_def)
  have fr: "top_frame c s s2" by (rule top_frame_trans[OF s1(2) s2(3)])
  then have due: "boost_due s2 = boost_due (s\<lparr>system_ticks := system_ticks s + 1\<rparr>)" and low: "lower_empty s2 = lower_empty s"
    using s2(4,5) by (simp_all add: boost_due_def top_frame_def lower_empty_def)
  obtain s3 where s3: "tick_mlfq s2 = Some s3" "top_runner c s3" "top_frame c s2 s3" "system_ticks s3 = system_ticks s2"
    "\<not> boost_due s2 \<longrightarrow> last_boost_time s3 = last_boost_time s2"
    using tick_mlfq_top[OF s2(2)] assms(2) due low by blast
  have "top_frame c s s3" by (rule top_frame_trans[OF fr s3(3)])
  then show ?thesis using t s3 s2(4,5) due by auto
qed

lemma for_each_append: "for_each f (xs @ ys) s = do { s \<leftarrow> for_each f xs s; for_each f ys s }"
  by (induction xs arbitrary: s) (simp_all split: Option.bind_splits)

lemma ticks_0: "ticks 0 s = Some s"
  by (simp add: ticks_def)

lemma ticks_Suc: "ticks (Suc n) s = do { s \<leftarrow> ticks n s; scheduler_tick s }"
  by (simp add: ticks_def for_each_append split: Option.bind_splits)

lemma ticks_top_alone:
  assumes "top_runner c s" and "lower_empty s"
  shows "\<exists>s'. ticks n s = Some s' \<and> top_runner c s' \<and> top_frame c s s'"
proof (induction n)
  case 0
  show ?case using assms(1) by (simp add: ticks_0 top_frame_def)
next
  case (Suc n)
  then obtain s1 where s1: "ticks n s = Some s1" "top_runner c s1" "top_frame c s s1" by blast
  then have "lower_empty s1" using assms(2) by (simp add: lower_empty_def top_frame_def)
  with tick_top[OF s1(2)] obtain s2 where "scheduler_tick s1 = Some s2" "top_runner c s2" "top_frame c s1 s2" by blast
  then show ?case using s1 top_frame_trans[OF s1(3)] by (auto simp: ticks_Suc)
qed

lemma ticks_top:
  assumes "top_runner c s" and "unat (system_ticks s - last_boost_time s) + n < unat (boost_interval s)"
  shows "\<exists>s'. ticks n s = Some s' \<and> top_runner c s' \<and> top_frame c s s' \<and>
    system_ticks s' = system_ticks s + of_nat n \<and> last_boost_time s' = last_boost_time s"
  using assms(2)
proof (induction n)
  case 0
  show ?case using assms(1) by (simp add: ticks_0 top_frame_def)
next
  case (Suc n)
  then obtain s1 where s1: "ticks n s = Some s1" "top_runner c s1" "top_frame c s s1"
    "system_ticks s1 = system_ticks s + of_nat n" "last_boost_time s1 = last_boost_time s" by auto
  have n: "unat (of_nat (Suc n) :: u32) = Suc n"
    using Suc.prems unat_lt_32[of "boost_interval s"] by (intro unat_of_nat_small) simp
  have "unat (system_ticks s1 + 1 - last_boost_time s1) = unat ((system_ticks s - last_boost_time s) + of_nat (Suc n))"
    using s1(4,5) by (simp add: algebra_simps)
  also have "\<dots> = unat (system_ticks s - last_boost_time s) + Suc n"
    using Suc.prems unat_lt_32[of "boost_interval s"] n by (subst unat_add_exact) simp_all
  also have "\<dots> < unat (boost_interval s)" by (rule Suc.prems)
  finally have "\<not> boost_due (s1\<lparr>system_ticks := system_ticks s1 + 1\<rparr>)"
    using s1(3) by (simp add: boost_due_def top_frame_def word_le_nat_alt)
  with tick_top[OF s1(2)] obtain s2 where "scheduler_tick s1 = Some s2" "top_runner c s2" "top_frame c s1 s2"
    "system_ticks s2 = system_ticks s1 + 1" "last_boost_time s2 = last_boost_time s1" by blast
  then show ?case using s1 top_frame_trans[OF s1(3)] by (auto simp: ticks_Suc algebra_simps)
qed

text \<open>
  Property C36. The MLFQ starves its lower levels. While a process of priority 0 runs and nobody
  else is at level 0, every timer tick until the next boost leaves it running: an expired slice
  queues it and picks it again, nothing ever demotes it, and no other process and no lower level
  changes, whatever waits there.
\<close>

theorem mlfq_top_process_stays:
  assumes "top_runner c s" and "unat (system_ticks s - last_boost_time s) + n < unat (boost_interval s)"
  shows "\<exists>s'. ticks n s = Some s' \<and> current_process s' = Some c \<and> priority (process_table s' c) = 0 \<and>
    context_switches (stats s') = context_switches (stats s) \<and>
    (\<forall>i. i \<noteq> c \<longrightarrow> process_table s' i = process_table s i) \<and> (\<forall>l. l \<noteq> 0 \<longrightarrow> queues s' l = queues s l)"
  using ticks_top[OF assms] by (auto simp: top_runner_def top_frame_def)

definition mlfq_three :: "sched option" where
  "mlfq_three = do {
     s \<leftarrow> spawn ''high'' 0 (booted SCHED_MLFQ);
     s \<leftarrow> spawn ''mid'' 2 s;
     s \<leftarrow> spawn ''low'' 3 s;
     scheduler_schedule s
   }"

lemma mlfq_three_state:
  "map_option (\<lambda>s. (sched_type (config s), current_process s, priority (process_table s 0), head (queues s 0),
     tail (queues s 0), qcount (queues s 0), system_ticks s, last_boost_time s, boost_interval s, head (queues s 2),
     context_switches (stats s))) mlfq_three =
   Some (SCHED_MLFQ, Some 0, 0, None, None, 0, 0, 0, 100, Some 1, 1)"
  by code_simp

theorem mlfq_top_process_stays_witness:
  "\<exists>s s'. mlfq_three = Some s \<and> head (queues s 2) = Some 1 \<and> ticks 99 s = Some s' \<and>
     current_process s' = Some 0 \<and> head (queues s' 2) = Some 1 \<and> context_switches (stats s') = 1"
proof -
  obtain s where s: "mlfq_three = Some s" "top_runner 0 s" "system_ticks s = 0" "last_boost_time s = 0"
    "boost_interval s = 100" "head (queues s 2) = Some 1" "context_switches (stats s) = 1"
    using mlfq_three_state by (auto simp: top_runner_def)
  have "unat (system_ticks s - last_boost_time s) + 99 < unat (boost_interval s)" using s(3-5) by simp
  from mlfq_top_process_stays[OF s(2) this] s show ?thesis by auto
qed

text \<open>Terminating it when the lower levels are empty leaves the CPU idle.\<close>

lemma unlink_count: "qcount q = 0 \<Longrightarrow> qcount (fst (unlink p q T)) = 0"
  by (simp add: unlink_def Let_def split: option.splits prod.splits)

lemma remove_count:
  "qcount (queues s l) = 0 \<Longrightarrow> qcount (queues (remove_from_ready_queue p s) l) = 0"
  using unlink_count[of "queues s l" p "process_table s"]
  by (auto simp: remove_from_ready_queue_def Let_def split: prod.splits)

lemma terminate_top:
  assumes "top_runner c s" and "lower_empty s"
  shows "\<exists>s'. scheduler_terminate_process k s = Some s'"
proof -
  have q: "qcount (queues s l) = 0" if "l < 4" for l
    using assms that by (auto simp: top_runner_def lower_empty_def less_Suc_eq numeral_eq_Suc)
  have "\<exists>s'. scheduler_schedule s1 = Some s'"
    if "sched_type (config s1) = SCHED_MLFQ" "\<And>l. l < 4 \<Longrightarrow> qcount (queues s1 l) = 0" for s1
  proof -
    have "first_index (\<lambda>i. 0 < qcount (queues s1 i)) MAX_PRIORITY_LEVELS = None"
      using that(2) by (simp add: first_index_None MAX_PRIORITY_LEVELS_def)
    then show ?thesis using that(1) by (simp add: scheduler_schedule_def pick_next_def scheduler_mlfq_schedule_def)
  qed
  then show ?thesis
    using assms(1) q remove_count remove_from_ready_queue_frame
    by (auto simp: scheduler_terminate_process_def top_runner_def Let_def say_def upd_proc_def same_data_def
        same_rest_def split: option.splits)
qed

end
