(* ===== verification/Sched_Demos.thy ===== *)
theory Sched_Demos
  imports Mlfq_Top
begin

text \<open>
  The programs that drive the scheduler of lab3-2: the four runs of \<^verbatim>\<open>src/main.c\<close> and the demos of
  \<^verbatim>\<open>examples/demo_simple.c\<close> and \<^verbatim>\<open>examples/demo_advanced.c\<close>, as programs over the scheduler's
  operations. What they print themselves is left out, the numbers they print are returned; \<open>None\<close>
  is the use of a NULL pointer or a loop that never ends.
\<close>

section \<open>Vocabulary\<close>

text \<open>\<^verbatim>\<open>scheduler_terminate_process(p->pid)\<close>\<close>

definition kill_process :: "nat option \<Rightarrow> sched \<Rightarrow> sched option" where
  "kill_process p s = do { p \<leftarrow> p; scheduler_terminate_process (pid (process_table s p)) s }"

text \<open>Creating the processes of a list of names and priorities.\<close>

fun create_all :: "(string \<times> u8) list \<Rightarrow> sched \<Rightarrow> (nat option list \<times> sched) option" where
  "create_all [] s = Some ([], s)"
| "create_all ((name, prio) # xs) s = do {
     (p, s) \<leftarrow> scheduler_create_process name prio s;
     (ps, s) \<leftarrow> create_all xs s;
     Some (p # ps, s)
   }"

definition fifo_config :: scheduler_config_t where
  "fifo_config = \<lparr>sched_type = SCHED_FIFO, time_quantum = 0, enable_preemption = 0, mlfq_levels = 0,
     cfg_boost_interval = 0\<rparr>"

definition rr_config :: "u32 \<Rightarrow> scheduler_config_t" where
  "rr_config q = \<lparr>sched_type = SCHED_RR, time_quantum = q, enable_preemption = 1, mlfq_levels = 0,
     cfg_boost_interval = 0\<rparr>"

definition mlfq_config :: "u8 \<Rightarrow> u32 \<Rightarrow> scheduler_config_t" where
  "mlfq_config levels boost = \<lparr>sched_type = SCHED_MLFQ, time_quantum = 0, enable_preemption = 1,
     mlfq_levels = levels, cfg_boost_interval = boost\<rparr>"

section \<open>\<^verbatim>\<open>src/main.c\<close>\<close>

definition test_fifo_scheduler :: "sched \<Rightarrow> sched option" where
  "test_fifo_scheduler s = do {
     let s = scheduler_init \<lparr>sched_type = SCHED_FIFO, time_quantum = 10, enable_preemption = 0,
       mlfq_levels = 4, cfg_boost_interval = 100\<rparr> s;
     (ps, s) \<leftarrow> create_all [(''ProcessA'', 0), (''ProcessB'', 0), (''ProcessC'', 0)] s;
     s \<leftarrow> for_each (\<lambda>i s. do {
         s \<leftarrow> scheduler_tick s;
         if i mod 5 = 0 then scheduler_schedule s else Some s
       }) [0..<15] s;
     s \<leftarrow> for_each kill_process ps s;
     Some (scheduler_print_stats s)
   }"

definition test_rr_scheduler :: "sched \<Rightarrow> sched option" where
  "test_rr_scheduler s = do {
     let s = scheduler_init \<lparr>sched_type = SCHED_RR, time_quantum = 3, enable_preemption = 1,
       mlfq_levels = 4, cfg_boost_interval = 100\<rparr> s;
     (ps, s) \<leftarrow> create_all [(''RR-Process1'', 0), (''RR-Process2'', 0), (''RR-Process3'', 0)] s;
     s \<leftarrow> ticks 30 s;
     s \<leftarrow> for_each kill_process ps s;
     Some (scheduler_dump_all_processes (scheduler_print_stats s))
   }"

definition test_mlfq_scheduler :: "sched \<Rightarrow> sched option" where
  "test_mlfq_scheduler s = do {
     let s = scheduler_init \<lparr>sched_type = SCHED_MLFQ, time_quantum = 10, enable_preemption = 1,
       mlfq_levels = 4, cfg_boost_interval = 50\<rparr> s;
     (ps, s) \<leftarrow> create_all [(''MLFQ-High'', 0), (''MLFQ-Medium'', 2), (''MLFQ-Low'', 3)] s;
     s \<leftarrow> scheduler_print_ready_queue s;
     s \<leftarrow> for_each (\<lambda>tick s. do {
         s \<leftarrow> scheduler_tick s;
         if tick mod 20 = 0 then scheduler_print_ready_queue s else Some s
       }) [0..<100] s;
     s \<leftarrow> for_each kill_process ps s;
     Some (scheduler_print_stats s)
   }"

definition integrated_test :: "sched \<Rightarrow> sched option" where
  "integrated_test s = do {
     let s = scheduler_init \<lparr>sched_type = SCHED_MLFQ, time_quantum = 10, enable_preemption = 1,
       mlfq_levels = 4, cfg_boost_interval = 100\<rparr> s;
     (interactive, s) \<leftarrow> scheduler_create_process ''Interactive'' 0 s;
     (batch, s) \<leftarrow> scheduler_create_process ''Batch'' 2 s;
     (background, s) \<leftarrow> scheduler_create_process ''Background'' 3 s;
     s \<leftarrow> for_each (\<lambda>tick s. do {
         s \<leftarrow> scheduler_tick s;
         i \<leftarrow> interactive;
         s \<leftarrow> (if state (process_table s i) = PROCESS_RUNNING \<and> tick mod 5 = 0 then scheduler_yield s else Some s);
         b \<leftarrow> batch;
         Some (if tick mod 50 = 0 then scheduler_print_stats s else s)
       }) [0..<200] s;
     s \<leftarrow> for_each kill_process [interactive, batch, background] s;
     Some (scheduler_print_stats s)
   }"

section \<open>\<^verbatim>\<open>examples/demo_simple.c\<close>\<close>

text \<open>The loop of \<^verbatim>\<open>demo_fifo\<close>: it ends when all processes have terminated or nothing is current.\<close>

partial_function (option) demo_fifo_loop :: "nat list \<Rightarrow> sched \<Rightarrow> sched option" where
  "demo_fifo_loop ps s =
     (if (\<forall>p\<in>set ps. state (process_table s p) = PROCESS_TERMINATED) then Some s
      else do {
        s \<leftarrow> scheduler_schedule s;
        case scheduler_get_current_process s of
          None \<Rightarrow> Some s
        | Some c \<Rightarrow> do {
            s \<leftarrow> ticks 5 s;
            s \<leftarrow> scheduler_terminate_process (pid (process_table s c)) s;
            demo_fifo_loop ps s
          }
      })"

definition demo_fifo :: "sched \<Rightarrow> sched option" where
  "demo_fifo s = do {
     let s = scheduler_init fifo_config s;
     (ps, s) \<leftarrow> create_all [(''Task-A'', 0), (''Task-B'', 0), (''Task-C'', 0), (''Task-D'', 0), (''Task-E'', 0)] s;
     ps \<leftarrow> those ps;
     s \<leftarrow> demo_fifo_loop ps s;
     Some (scheduler_print_stats s)
   }"

definition demo_round_robin :: "sched \<Rightarrow> sched option" where
  "demo_round_robin s = do {
     let s = scheduler_init (rr_config 4) s;
     (ps, s) \<leftarrow> create_all [(''RR-X'', 0), (''RR-Y'', 0), (''RR-Z'', 0)] s;
     s \<leftarrow> for_each (\<lambda>tick s. do {
         s \<leftarrow> scheduler_tick s;
         s \<leftarrow> (if tick = 20 then kill_process (ps ! 0) s else Some s);
         if tick = 40 then do { (p, s) \<leftarrow> scheduler_create_process ''Late-Comer'' 0 s; Some s } else Some s
       }) [0..<60] s;
     s \<leftarrow> for_each (\<lambda>p s. do {
         p \<leftarrow> p;
         if state (process_table s p) \<noteq> PROCESS_TERMINATED then kill_process (Some p) s else Some s
       }) (tl ps) s;
     Some (scheduler_print_stats s)
   }"

text \<open>The states it prints: after creation, after scheduling, after termination.\<close>

definition demo_state_transitions :: "sched \<Rightarrow> (process_state list \<times> sched) option" where
  "demo_state_transitions s = do {
     let s = scheduler_init fifo_config s;
     (p, s) \<leftarrow> scheduler_create_process ''DemoProc'' 0 s;
     p \<leftarrow> p;
     let s1 = state (process_table s p);
     s \<leftarrow> scheduler_schedule s;
     let s2 = state (process_table s p);
     s \<leftarrow> ticks 10 s;
     s \<leftarrow> kill_process (Some p) s;
     Some ([s1, s2, state (process_table s p)], s)
   }"

text \<open>The loop of \<^verbatim>\<open>demo_priority\<close>, which only counts processes that were current.\<close>

partial_function (option) demo_priority_loop :: "int \<Rightarrow> sched \<Rightarrow> sched option" where
  "demo_priority_loop completed s =
     (if completed < 4 then do {
        s \<leftarrow> scheduler_schedule s;
        case scheduler_get_current_process s of
          None \<Rightarrow> demo_priority_loop completed s
        | Some c \<Rightarrow> do {
            s \<leftarrow> ticks 3 s;
            s \<leftarrow> scheduler_terminate_process (pid (process_table s c)) s;
            demo_priority_loop (completed + 1) s
          }
      } else Some s)"

definition demo_priority :: "sched \<Rightarrow> sched option" where
  "demo_priority s = do {
     let s = scheduler_init fifo_config s;
     (ps, s) \<leftarrow> create_all [(''High-Prio'', 0), (''Medium-Prio'', 2), (''Low-Prio'', 3), (''Urgent'', 0)] s;
     demo_priority_loop 0 s
   }"

section \<open>\<^verbatim>\<open>examples/demo_advanced.c\<close>\<close>

text \<open>
  \<^verbatim>\<open>stats[i]\<close> is the row (run time, changes of priority, slices begun) of the i-th process.
\<close>

definition mlfq_full_tick ::
  "nat option list \<Rightarrow> nat \<Rightarrow> (int \<times> int \<times> int) list \<times> int list \<times> sched
     \<Rightarrow> ((int \<times> int \<times> int) list \<times> int list \<times> sched) option" where
  "mlfq_full_tick ps tick a = (case a of (rows, last_priority, s) \<Rightarrow> do {
     s \<leftarrow> scheduler_tick s;
     (rows, last_priority, s) \<leftarrow> (case scheduler_get_current_process s of
         None \<Rightarrow> Some (rows, last_priority, s)
       | Some c \<Rightarrow> do {
           let x = process_table s c;
           let (rows, last_priority) = (case first_index (\<lambda>i. ps ! i = Some c) 4 of
               None \<Rightarrow> (rows, last_priority)
             | Some i \<Rightarrow>
                 let (run, changes, slices) = rows ! i; changed = (uint (priority x) \<noteq> last_priority ! i)
                 in (rows[i := (run + 1, if changed then changes + 1 else changes,
                                if time_slice_used x = 1 then slices + 1 else slices)],
                     if changed then last_priority[i := uint (priority x)] else last_priority));
           s \<leftarrow> (if ps ! 0 = Some c \<and> tick mod 3 = 0 then scheduler_yield s
                 else if ps ! 2 = Some c \<and> tick mod 4 = 0 then scheduler_yield s
                 else if ps ! 1 = Some c \<and> tick mod 20 = 0 then scheduler_yield s
                 else Some s);
           Some (rows, last_priority, s)
         });
     _ \<leftarrow> (if tick mod 40 = 0 then those ps else Some []);
     s \<leftarrow> (if tick = 80
           then do { (late, s) \<leftarrow> scheduler_create_process ''Late-Starter'' 2 s; Some s } else Some s);
     s \<leftarrow> (if tick = 120 then kill_process (ps ! 3) s else Some s);
     Some (rows, last_priority, s)
   })"

definition demo_mlfq_full :: "sched \<Rightarrow> ((int \<times> int \<times> int) list \<times> sched) option" where
  "demo_mlfq_full s = do {
     let s = scheduler_init (mlfq_config 4 40) s;
     (ps, s) \<leftarrow> create_all [(''Interactive'', 0), (''CPU-Intensive'', 0), (''IO-Bound'', 0), (''Mixed'', 0)] s;
     (rows, last_priority, s) \<leftarrow> for_each (mlfq_full_tick ps) [0..<200] (replicate 4 (0, 0, 0), replicate 4 0, s);
     s \<leftarrow> for_each kill_process (take 3 ps) s;
     Some (rows, scheduler_print_stats s)
   }"

text \<open>The loops of the two halves; the second counts what it takes for boosts.\<close>

definition starvation_tick :: "nat option \<Rightarrow> nat \<Rightarrow> bool \<times> sched \<Rightarrow> (bool \<times> sched) option" where
  "starvation_tick low_prio tick a = (case a of (low_prio_ran, s) \<Rightarrow> do {
     s \<leftarrow> scheduler_tick s;
     let current = scheduler_get_current_process s;
     _ \<leftarrow> (if tick mod 10 = 0 then low_prio else Some 0);
     Some (low_prio_ran \<or> current = low_prio, s)
   })"

definition boost_tick :: "nat option \<Rightarrow> nat \<Rightarrow> bool \<times> int \<times> sched \<Rightarrow> (bool \<times> int \<times> sched) option" where
  "boost_tick low_prio tick a = (case a of (low_prio_ran, boost_count, s) \<Rightarrow> do {
     s \<leftarrow> scheduler_tick s;
     let low_prio_ran = (low_prio_ran \<or> scheduler_get_current_process s = low_prio);
     l \<leftarrow> low_prio;
     let boost_count = (if priority (process_table s l) = 0 \<and> 10 < tick \<and>
           (boost_count = 0 \<or> 20 < int tick - boost_count * 25)
         then boost_count + 1 else boost_count);
     Some (low_prio_ran, boost_count, s)
   })"

definition demo_starvation_solution :: "sched \<Rightarrow> ((bool \<times> bool \<times> int) \<times> sched) option" where
  "demo_starvation_solution s = do {
     let s = scheduler_init (mlfq_config 4 0) s;
     (high_prio, s) \<leftarrow> scheduler_create_process ''High-Priority'' 0 s;
     (low_prio, s) \<leftarrow> scheduler_create_process ''Low-Priority'' 3 s;
     (ran1, s) \<leftarrow> for_each (starvation_tick low_prio) [0..<50] (False, s);
     s \<leftarrow> for_each kill_process [high_prio, low_prio] s;
     let s = scheduler_init (mlfq_config 4 25) s;
     (high_prio, s) \<leftarrow> scheduler_create_process ''High-Priority'' 0 s;
     (low_prio, s) \<leftarrow> scheduler_create_process ''Low-Priority'' 3 s;
     (ran2, boosts, s) \<leftarrow> for_each (boost_tick low_prio) [0..<80] (False, 0, s);
     s \<leftarrow> for_each kill_process [high_prio, low_prio] s;
     Some ((ran1, ran2, boosts), s)
   }"

text \<open>
  Only the deadline counter of the control task is ever changed; the other two stay 0, and the last
  runs of their tasks only decide lines of output.
\<close>

definition real_time_tick :: "nat option \<Rightarrow> nat \<Rightarrow> int \<times> int \<times> sched \<Rightarrow> (int \<times> int \<times> sched) option" where
  "real_time_tick control_task tick a = (case a of (control_last_run, missed, s) \<Rightarrow> do {
     s \<leftarrow> scheduler_tick s;
     let control_last_run = (if 10 \<le> int tick - control_last_run then int tick else control_last_run);
     t \<leftarrow> control_task;
     let missed = (if state (process_table s t) \<noteq> PROCESS_RUNNING \<and> 2 < int tick - control_last_run
                   then missed + 1 else missed);
     s \<leftarrow> (if state (process_table s t) = PROCESS_RUNNING \<and> 2 \<le> time_slice_used (process_table s t)
           then scheduler_yield s else Some s);
     Some (control_last_run, missed, s)
   })"

definition demo_real_time_simulation :: "sched \<Rightarrow> ((int \<times> u32) \<times> sched) option" where
  "demo_real_time_simulation s = do {
     let s = scheduler_init (rr_config 2) s;
     (ps, s) \<leftarrow> create_all [(''Control'', 0), (''Data-Acq'', 1), (''Monitor'', 2), (''Background'', 3)] s;
     (last_run, missed, s) \<leftarrow> for_each (real_time_tick (ps ! 0)) [0..<100] (- 10, 0, s);
     used \<leftarrow> those ps;
     let total_time = sum_list (map (\<lambda>p. time_used (process_table s p)) used);
     s \<leftarrow> for_each kill_process ps s;
     Some ((missed, total_time), s)
   }"

text \<open>
  The comparison. \<open>junk\<close> is what the uninitialised configuration holds; behaviour 0 is CPU-bound, 1
  IO-bound, 2 interactive. The result of one policy: the run times by behaviour and the switches.
\<close>

definition workloads :: "((string \<times> u8) \<times> nat) list" where
  "workloads = [((''CPU-Task1'', 0), 0), ((''CPU-Task2'', 0), 0), ((''IO-Task1'', 0), 1), ((''IO-Task2'', 0), 1),
     ((''Interactive1'', 0), 2), ((''Interactive2'', 0), 2)]"

definition comparison_config :: "scheduler_config_t \<Rightarrow> nat \<Rightarrow> scheduler_config_t" where
  "comparison_config junk i = (let c = junk\<lparr>enable_preemption := 1\<rparr> in
     if i = 0 then c\<lparr>sched_type := SCHED_FIFO\<rparr>
     else if i = 1 then c\<lparr>sched_type := SCHED_RR, time_quantum := 5\<rparr>
     else c\<lparr>sched_type := SCHED_MLFQ, mlfq_levels := 4, cfg_boost_interval := 30\<rparr>)"

definition comparison_tick :: "nat option list \<Rightarrow> nat \<Rightarrow> sched \<Rightarrow> sched option" where
  "comparison_tick ps tick s = do {
     s \<leftarrow> scheduler_tick s;
     case scheduler_get_current_process s of
       None \<Rightarrow> Some s
     | Some c \<Rightarrow> (case first_index (\<lambda>i. ps ! i = Some c) 6 of
           None \<Rightarrow> Some s
         | Some i \<Rightarrow>
             let behavior = snd (workloads ! i)
             in if behavior = 1 \<and> tick mod 3 = 0 then scheduler_yield s
                else if behavior = 2 \<and> tick mod 4 = 0 then scheduler_yield s else Some s)
   }"

definition comparison_run :: "scheduler_config_t \<Rightarrow> nat \<Rightarrow> sched \<Rightarrow> ((u32 list \<times> u32) \<times> sched) option" where
  "comparison_run junk i s = do {
     let s = scheduler_init (comparison_config junk i) s;
     (ps, s) \<leftarrow> create_all (map fst workloads) s;
     s \<leftarrow> for_each (comparison_tick ps) [0..<150] s;
     used \<leftarrow> those ps;
     let runtimes = map (\<lambda>p. time_used (process_table s p)) used;
     let by = map (\<lambda>b. \<Sum>(r, w)\<leftarrow>zip runtimes workloads. if snd w = b then r else 0) [0, 1, 2];
     let (st, s) = scheduler_get_stats s;
     s \<leftarrow> for_each kill_process ps s;
     Some ((by, context_switches st), s)
   }"

definition demo_scheduler_comparison ::
  "(nat \<Rightarrow> scheduler_config_t) \<Rightarrow> sched \<Rightarrow> ((u32 list \<times> u32) list \<times> sched) option" where
  "demo_scheduler_comparison junk s =
     for_each (\<lambda>i a. case a of (rs, s) \<Rightarrow> do {
       (r, s) \<leftarrow> comparison_run (junk i) i s;
       Some (rs @ [r], s)
     }) [0, 1, 2] ([], s)"

declare boost_level.simps [code] walk.simps [code] demo_fifo_loop.simps [code]

section \<open>What the programs do\<close>

text \<open>
  A program starts with \<^verbatim>\<open>scheduler_init\<close>, which leaves only the trace of the state before it; so its
  run is evaluated from a state with arbitrary fields.
\<close>

definition nobody_ran :: "sched \<Rightarrow> bool" where
  "nobody_ran s \<longleftrightarrow> current_process s = None \<and> context_switches (stats s) = 0 \<and> total_runtime (stats s) = 0"

text \<open>For evaluation the process table is a chain of updates whose values are normal.\<close>

definition put_slot :: "nat \<Rightarrow> pcb \<Rightarrow> ptab \<Rightarrow> ptab" where
  "put_slot i x T j = (if j = i then x else T j)"

lemma upd_pcb_code [code]: "upd_pcb i f T = put_slot i (f (T i)) T"
  by (rule ext) (simp add: upd_pcb_def put_slot_def)

lemma main_runs_nobody:
  "map_option nobody_ran (test_rr_scheduler s) = Some True"
  "map_option nobody_ran (test_mlfq_scheduler s) = Some True"
  "map_option nobody_ran (integrated_test s) = Some True"
  "map_option nobody_ran (demo_round_robin s) = Some True"
  by (induct s; code_simp)+

lemma advanced_runs_nobody:
  "map_option (\<lambda>(r, s). (r, nobody_ran s)) (demo_mlfq_full s) = Some (replicate 4 (0, 0, 0), True)"
  "map_option (\<lambda>(r, s). (r, nobody_ran s)) (demo_starvation_solution s) = Some ((False, False, 0), True)"
  "map_option (\<lambda>(r, s). (r, nobody_ran s)) (demo_real_time_simulation s) = Some ((70, 0), True)"
  by (induct s; code_simp)+

lemma comparison_runs_nobody:
  "map_option (\<lambda>(r, s). (r, nobody_ran s)) (comparison_run junk 0 s) = Some (([0, 0, 0], 0), True)"
  "map_option (\<lambda>(r, s). (r, nobody_ran s)) (comparison_run junk 1 s) = Some (([0, 0, 0], 0), True)"
  "map_option (\<lambda>(r, s). (r, nobody_ran s)) (comparison_run junk 2 s) = Some (([0, 0, 0], 0), True)"
  by (induct s; induct junk; code_simp)+

lemma main_fifo_runs_two:
  "map_option (\<lambda>s. map (\<lambda>i. time_used (process_table s i)) [0, 1, 2]) (test_fifo_scheduler s) = Some [5, 9, 0]"
  by (induct s; code_simp)

lemma demo_fifo_runs_first:
  "map_option (\<lambda>s. (map (\<lambda>i. state (process_table s i)) [0, 1, 2, 3, 4], current_process s)) (demo_fifo s) =
     Some (PROCESS_TERMINATED # replicate 4 PROCESS_READY, None)"
  by (induct s; code_simp)

lemma state_transitions_shown:
  "map_option fst (demo_state_transitions s) = Some [PROCESS_READY, PROCESS_RUNNING, PROCESS_TERMINATED]"
  by (induct s; code_simp)

text \<open>
  Most of the demonstrations demonstrate nothing: a timer tick without a current
  process schedules nobody, and they never call \<^verbatim>\<open>scheduler_schedule\<close>. Whatever ran before, three of
  the four runs of \<^verbatim>\<open>main.c\<close>, the round-robin demo and all four advanced demos return with no
  process ever dispatched: every run time and counter they print is 0, except the 70 "missed
  deadlines" of the control task in the real-time demo.
\<close>

theorem demos_run_nobody:
  "(\<exists>s'. test_rr_scheduler s = Some s' \<and> nobody_ran s') \<and>
   (\<exists>s'. test_mlfq_scheduler s = Some s' \<and> nobody_ran s') \<and>
   (\<exists>s'. integrated_test s = Some s' \<and> nobody_ran s') \<and>
   (\<exists>s'. demo_round_robin s = Some s' \<and> nobody_ran s') \<and>
   (\<exists>s'. demo_mlfq_full s = Some (replicate 4 (0, 0, 0), s') \<and> nobody_ran s') \<and>
   (\<exists>s'. demo_starvation_solution s = Some ((False, False, 0), s') \<and> nobody_ran s') \<and>
   (\<exists>s'. demo_real_time_simulation s = Some ((70, 0), s') \<and> nobody_ran s') \<and>
   (\<exists>s'. demo_scheduler_comparison junk s = Some (replicate 3 ([0, 0, 0], 0), s') \<and> nobody_ran s')"
proof -
  have run: "\<exists>s'. comparison_run j i s = Some (([0, 0, 0], 0), s') \<and> nobody_ran s'" if "i = 0 \<or> i = 1 \<or> i = 2" for j i s
    using that comparison_runs_nobody[of j s] by auto
  obtain s1 where s1: "comparison_run (junk 0) 0 s = Some (([0, 0, 0], 0), s1)" using run by blast
  obtain s2 where s2: "comparison_run (junk 1) 1 s1 = Some (([0, 0, 0], 0), s2)" using run by blast
  obtain s3 where s3: "comparison_run (junk 2) 2 s2 = Some (([0, 0, 0], 0), s3)" "nobody_ran s3" using run by blast
  have "demo_scheduler_comparison junk s = Some (replicate 3 ([0, 0, 0], 0), s3)"
    using s1 s2 s3 by (simp add: demo_scheduler_comparison_def numeral_3_eq_3)
  then show ?thesis
    using s3(2) main_runs_nobody[of s] advanced_runs_nobody[of s] by auto
qed

section \<open>The priority demo never ends\<close>

lemma demo_priority_loop_stuck:
  assumes "scheduler_schedule s = Some s" and "current_process s = None" and "c < 4"
  shows "demo_priority_loop c s = None"
proof (rule ccontr)
  assume "demo_priority_loop c s \<noteq> None"
  then obtain r where "demo_priority_loop c s = Some r" by blast
  moreover have "\<not> (c' = c \<and> s' = s)" if "demo_priority_loop c' s' = Some r'" for c' s' r'
    using that
  proof (rule demo_priority_loop.raw_induct[where P = "\<lambda>c' s' r'. \<not> (c' = c \<and> s' = s)", rotated])
    fix f :: "int \<Rightarrow> sched \<Rightarrow> sched option" and c' s' r'
    assume "\<And>c' s' r'. f c' s' = Some r' \<Longrightarrow> \<not> (c' = c \<and> s' = s)"
      and "(if c' < 4 then do {
        s \<leftarrow> scheduler_schedule s';
        case scheduler_get_current_process s of
          None \<Rightarrow> f c' s
        | Some x \<Rightarrow> do {
            s \<leftarrow> ticks 3 s;
            s \<leftarrow> scheduler_terminate_process (pid (process_table s x)) s;
            f (c' + 1) s
          }
      } else Some s') = Some r'"
    then show "\<not> (c' = c \<and> s' = s)"
      using assms by (fastforce simp: scheduler_get_current_process_def)
  qed
  ultimately show False by blast
qed

text \<open>The demo up to the first time round its loop.\<close>

definition priority_first_round :: "sched \<Rightarrow> sched option" where
  "priority_first_round s = do {
     let s = scheduler_init fifo_config s;
     (ps, s) \<leftarrow> create_all [(''High-Prio'', 0), (''Medium-Prio'', 2), (''Low-Prio'', 3), (''Urgent'', 0)] s;
     s \<leftarrow> scheduler_schedule s;
     c \<leftarrow> scheduler_get_current_process s;
     s \<leftarrow> ticks 3 s;
     scheduler_terminate_process (pid (process_table s c)) s
   }"

lemma priority_first_round_state:
  "map_option (\<lambda>s. (sched_type (config s), current_process s, qcount (ready_queue s))) (priority_first_round s) =
     Some (SCHED_FIFO, None, 0)"
  by (induct s; code_simp)

text \<open>
  The single-queue demonstrations stop after their first process, because terminating
  it empties the queue: \<^verbatim>\<open>demo_fifo\<close> ends with its four other processes ready for ever, and
  \<^verbatim>\<open>demo_priority\<close>, which waits until four processes have run, never returns.
\<close>

theorem single_queue_demos_stop:
  "(\<exists>s'. demo_fifo s = Some s' \<and> state (process_table s' 0) = PROCESS_TERMINATED \<and>
     map (\<lambda>i. state (process_table s' i)) [1, 2, 3, 4] = replicate 4 PROCESS_READY \<and> current_process s' = None) \<and>
   demo_priority s = None"
proof -
  obtain s1 where s1: "priority_first_round s = Some s1" "sched_type (config s1) = SCHED_FIFO"
    "current_process s1 = None" "qcount (ready_queue s1) = 0"
    using priority_first_round_state[of s] by auto
  have "scheduler_schedule s1 = Some s1"
    using s1 by (simp add: scheduler_schedule_def pick_next_def scheduler_fifo_schedule_def)
  then have "demo_priority_loop 1 s1 = None" using s1(3) by (simp add: demo_priority_loop_stuck)
  moreover obtain ps s2 s3 c s4 where
    "create_all [(''High-Prio'', 0), (''Medium-Prio'', 2), (''Low-Prio'', 3), (''Urgent'', 0)] (scheduler_init fifo_config s)
       = Some (ps, s2)"
    "scheduler_schedule s2 = Some s3" "scheduler_get_current_process s3 = Some c" "ticks 3 s3 = Some s4"
    "scheduler_terminate_process (pid (process_table s4 c)) s4 = Some s1"
    using s1(1) by (auto simp: priority_first_round_def Let_def bind_eq_Some_conv simp del: create_all.simps)
  ultimately have "demo_priority s = None"
    by (simp add: demo_priority_def Let_def demo_priority_loop.simps[of 0] del: create_all.simps)
  then show ?thesis using demo_fifo_runs_first[of s] by auto
qed

end
