(* ===== verification/Sched_Tests.thy ===== *)
theory Sched_Tests
  imports Sched_Demos
begin

text \<open>
  The scheduler's own test suites, \<^verbatim>\<open>tests/test_fifo.c\<close>, \<^verbatim>\<open>tests/test_rr.c\<close> and
  \<^verbatim>\<open>tests/test_mlfq.c\<close>: each test is a program over the scheduler's operations with its verdict
  (the variable \<^verbatim>\<open>passed\<close>) as result. Quotients of counters are compared as \<^verbatim>\<open>float\<close>s: 0/0 is not a
  number, so that no comparison with it holds, and n/0 is above every bound.
\<close>

section \<open>\<^verbatim>\<open>tests/test_fifo.c\<close>\<close>

definition test_fifo_basic :: "sched \<Rightarrow> (bool \<times> sched) option" where
  "test_fifo_basic s = do {
     let s = scheduler_init fifo_config s;
     (p1, s) \<leftarrow> scheduler_create_process ''Test1'' 0 s;
     (p2, s) \<leftarrow> scheduler_create_process ''Test2'' 0 s;
     (p3, s) \<leftarrow> scheduler_create_process ''Test3'' 0 s;
     let passed = (p1 \<noteq> None \<and> p2 \<noteq> None \<and> p3 \<noteq> None);
     s \<leftarrow> scheduler_schedule s;
     let passed = (passed \<and> scheduler_get_current_process s = p1);
     s \<leftarrow> kill_process p1 s;
     s \<leftarrow> scheduler_schedule s;
     let passed = (passed \<and> scheduler_get_current_process s = p2);
     s \<leftarrow> for_each kill_process [p2, p3] s;
     Some (passed, s)
   }"

definition test_fifo_state_transitions :: "sched \<Rightarrow> (bool \<times> sched) option" where
  "test_fifo_state_transitions s = do {
     let s = scheduler_init fifo_config s;
     (p1, s) \<leftarrow> scheduler_create_process ''StateTest'' 0 s;
     p1 \<leftarrow> p1;
     let passed = (state (process_table s p1) = PROCESS_READY);
     s \<leftarrow> scheduler_schedule s;
     let passed = (passed \<and> state (process_table s p1) = PROCESS_RUNNING);
     s \<leftarrow> kill_process (Some p1) s;
     Some (passed \<and> state (process_table s p1) = PROCESS_TERMINATED, s)
   }"

definition test_fifo_empty_queue :: "sched \<Rightarrow> (bool \<times> sched) option" where
  "test_fifo_empty_queue s = do {
     let s = scheduler_init fifo_config s;
     s \<leftarrow> scheduler_schedule s;
     let passed = (scheduler_get_current_process s = None);
     (p, s) \<leftarrow> scheduler_create_process ''Temp'' 0 s;
     s \<leftarrow> kill_process p s;
     s \<leftarrow> scheduler_schedule s;
     Some (passed \<and> scheduler_get_current_process s = None, s)
   }"

definition test_fifo_statistics :: "sched \<Rightarrow> (bool \<times> sched) option" where
  "test_fifo_statistics s = do {
     let s = scheduler_init fifo_config s;
     s \<leftarrow> for_each (\<lambda>name s. do {
         (p, s) \<leftarrow> scheduler_create_process name 0 s;
         s \<leftarrow> scheduler_schedule s;
         s \<leftarrow> ticks 10 s;
         kill_process p s
       }) [''StatTest0'', ''StatTest1'', ''StatTest2'', ''StatTest3'', ''StatTest4''] s;
     let (st, s) = scheduler_get_stats s;
     Some (processes_completed st = 5 \<and> \<not> context_switches st < 5, scheduler_print_stats s)
   }"

section \<open>\<^verbatim>\<open>tests/test_rr.c\<close>\<close>

definition test_rr_basic :: "sched \<Rightarrow> (bool \<times> sched) option" where
  "test_rr_basic s = do {
     let s = scheduler_init (rr_config 5) s;
     (ps, s) \<leftarrow> create_all [(''RR-Proc0'', 0), (''RR-Proc1'', 0), (''RR-Proc2'', 0)] s;
     s \<leftarrow> ticks 30 s;
     qs \<leftarrow> those ps;
     let passed = (\<forall>p\<in>set qs. time_used (process_table s p) \<noteq> 0);
     s \<leftarrow> for_each kill_process ps s;
     Some (passed, s)
   }"

definition test_rr_preemption :: "sched \<Rightarrow> (bool \<times> sched) option" where
  "test_rr_preemption s = do {
     let s = scheduler_init (rr_config 10) s;
     (p1, s) \<leftarrow> scheduler_create_process ''Preempt-Test1'' 0 s;
     (p2, s) \<leftarrow> scheduler_create_process ''Preempt-Test2'' 0 s;
     s \<leftarrow> scheduler_schedule s;
     s \<leftarrow> ticks 5 s;
     s \<leftarrow> ticks 10 s;
     let passed = (scheduler_get_current_process s = p2);
     s \<leftarrow> for_each kill_process [p1, p2] s;
     Some (passed, s)
   }"

text \<open>\<^verbatim>\<open>ratio < 0.5 || ratio > 2.0\<close> for the quotient of two counters below 2^24.\<close>

definition unbalanced :: "u32 \<Rightarrow> u32 \<Rightarrow> bool" where
  "unbalanced a b = (if b = 0 then a \<noteq> 0 else 2 * unat a < unat b \<or> 2 * unat b < unat a)"

definition varying_round :: "nat \<Rightarrow> bool \<times> sched \<Rightarrow> (bool \<times> sched) option" where
  "varying_round quantum a = (case a of (passed, s) \<Rightarrow> do {
     let s = scheduler_init (rr_config (of_nat quantum)) s;
     (p1, s) \<leftarrow> scheduler_create_process ''TS-Test1'' 0 s;
     (p2, s) \<leftarrow> scheduler_create_process ''TS-Test2'' 0 s;
     let (before, s) = scheduler_get_stats s;
     s \<leftarrow> ticks (quantum * 10) s;
     let (after, s) = scheduler_get_stats s;
     q1 \<leftarrow> p1;
     q2 \<leftarrow> p2;
     let passed = (passed \<and> \<not> unbalanced (time_used (process_table s q1)) (time_used (process_table s q2)));
     s \<leftarrow> for_each kill_process [p1, p2] s;
     Some (passed, s)
   })"

definition test_rr_varying_timeslices :: "sched \<Rightarrow> (bool \<times> sched) option" where
  "test_rr_varying_timeslices s = for_each varying_round [1, 3, 5, 10] (True, s)"

text \<open>\<^verbatim>\<open>max_ratio > 3.0 || max_ratio < 0.33\<close> for two counts of together at most 100.\<close>

definition unfair :: "int \<Rightarrow> int \<Rightarrow> bool" where
  "unfair a b = (if b = 0 then a \<noteq> 0 else 3 * b < a \<or> 100 * a < 33 * b)"

definition mixed_tick :: "nat option list \<Rightarrow> nat \<Rightarrow> int \<times> int \<times> int \<times> sched \<Rightarrow> (int \<times> int \<times> int \<times> sched) option" where
  "mixed_tick ps tick a = (case a of (cpu_time, io_time, interactive_time, s) \<Rightarrow> do {
     s \<leftarrow> scheduler_tick s;
     case scheduler_get_current_process s of
       None \<Rightarrow> Some (cpu_time, io_time, interactive_time, s)
     | Some c \<Rightarrow> do {
         let current = Some c;
         let (cpu_time, io_time, interactive_time) =
           (if current = ps ! 0 then (cpu_time + 1, io_time, interactive_time)
            else if current = ps ! 1 then (cpu_time, io_time + 1, interactive_time)
            else if current = ps ! 2 then (cpu_time, io_time, interactive_time + 1)
            else (cpu_time, io_time, interactive_time));
         s \<leftarrow> (if current = ps ! 1 \<and> tick mod 2 = 0 then scheduler_yield s else Some s);
         s \<leftarrow> (if current = ps ! 2 \<and> tick mod 3 = 0 then scheduler_yield s else Some s);
         Some (cpu_time, io_time, interactive_time, s)
       }
   })"

definition test_rr_mixed_workload :: "sched \<Rightarrow> (bool \<times> sched) option" where
  "test_rr_mixed_workload s = do {
     let s = scheduler_init (rr_config 4) s;
     (ps, s) \<leftarrow> create_all [(''CPU-Bound'', 0), (''IO-Bound'', 0), (''Interactive'', 0)] s;
     (cpu_time, io_time, interactive_time, s) \<leftarrow> for_each (mixed_tick ps) [0..<100] (0, 0, 0, s);
     let passed = (\<not> unfair cpu_time interactive_time);
     s \<leftarrow> for_each kill_process ps s;
     Some (passed, scheduler_print_stats s)
   }"

section \<open>\<^verbatim>\<open>tests/test_mlfq.c\<close>\<close>

text \<open>The use of \<^verbatim>\<open>current->pid\<close> in the message makes a NULL current process fatal.\<close>

definition test_mlfq_basic :: "sched \<Rightarrow> (bool \<times> sched) option" where
  "test_mlfq_basic s = do {
     let s = scheduler_init (mlfq_config 4 50) s;
     (ps, s) \<leftarrow> create_all [(''High-Prio'', 0), (''Mid-Prio'', 2), (''Low-Prio'', 3)] s;
     s \<leftarrow> scheduler_schedule s;
     let passed = (scheduler_get_current_process s = ps ! 0);
     _ \<leftarrow> scheduler_get_current_process s;
     s \<leftarrow> ticks 20 s;
     _ \<leftarrow> those ps;
     s \<leftarrow> for_each kill_process ps s;
     Some (passed, s)
   }"

text \<open>The loop body, with the previous priority and the number of changes.\<close>

definition demotion_tick :: "nat \<Rightarrow> nat \<Rightarrow> u8 \<times> int \<times> sched \<Rightarrow> (u8 \<times> int \<times> sched) option" where
  "demotion_tick p tick a = (case a of (previous_priority, demotion_count, s) \<Rightarrow> do {
     s \<leftarrow> scheduler_tick s;
     let x = priority (process_table s p);
     Some (if x \<noteq> previous_priority then (x, demotion_count + 1, s) else (previous_priority, demotion_count, s))
   })"

definition test_mlfq_demotion :: "sched \<Rightarrow> (bool \<times> sched) option" where
  "test_mlfq_demotion s = do {
     let s = scheduler_init (mlfq_config 3 100) s;
     (cpu_bound, s) \<leftarrow> scheduler_create_process ''CPU-Bound'' 0 s;
     s \<leftarrow> scheduler_schedule s;
     p \<leftarrow> cpu_bound;
     (previous_priority, demotion_count, s) \<leftarrow> for_each (demotion_tick p) [0..<150] (priority (process_table s p), 0, s);
     s \<leftarrow> kill_process cpu_bound s;
     Some (demotion_count \<noteq> 0, s)
   }"

definition test_mlfq_boost :: "sched \<Rightarrow> (bool \<times> sched) option" where
  "test_mlfq_boost s = do {
     let s = scheduler_init (mlfq_config 4 30) s;
     (ps, s) \<leftarrow> create_all [(''BoostTest0'', 0), (''BoostTest1'', 1), (''BoostTest2'', 2)] s;
     qs \<leftarrow> those ps;
     (boost_detected, last_boost_tick, s) \<leftarrow> for_each (\<lambda>tick a. case a of (boost_detected, last_boost_tick, s) \<Rightarrow> do {
         s \<leftarrow> scheduler_tick s;
         let (boost_detected, last_boost_tick) = fold (\<lambda>p (d, l).
             if priority (process_table s p) = 0 \<and> time_used (process_table s p) > 0 \<and> 10 < int tick - l
             then (True, int tick) else (d, l)) qs (boost_detected, last_boost_tick);
         Some (boost_detected, last_boost_tick, s)
       }) [0..<100] (False, - 100, s);
     s \<leftarrow> for_each kill_process ps s;
     Some (boost_detected, s)
   }"

definition interactive_tick :: "nat option list \<Rightarrow> nat \<Rightarrow> int \<times> int \<times> sched \<Rightarrow> (int \<times> int \<times> sched) option" where
  "interactive_tick ps tick a = (case a of (interactive_time, batch_time, s) \<Rightarrow> do {
     s \<leftarrow> scheduler_tick s;
     let current = scheduler_get_current_process s;
     (interactive_time, batch_time, s) \<leftarrow>
       (if current = ps ! 0 then do {
          s \<leftarrow> (if tick mod 3 = 0 then scheduler_yield s else Some s);
          Some (interactive_time + 1, batch_time, s)
        }
        else if current = ps ! 1 then Some (interactive_time, batch_time + 1, s)
        else Some (interactive_time, batch_time, s));
     _ \<leftarrow> (if tick mod 40 = 0 then those ps else Some []);
     Some (interactive_time, batch_time, s)
   })"

definition test_mlfq_interactive :: "sched \<Rightarrow> (bool \<times> sched) option" where
  "test_mlfq_interactive s = do {
     let s = scheduler_init (mlfq_config 4 50) s;
     (ps, s) \<leftarrow> create_all [(''Interactive'', 0), (''Batch'', 0)] s;
     (interactive_time, batch_time, s) \<leftarrow> for_each (interactive_tick ps) [0..<200] (0, 0, s);
     i \<leftarrow> ps ! 0;
     b \<leftarrow> ps ! 1;
     let passed = (\<not> priority (process_table s b) < priority (process_table s i));
     s \<leftarrow> for_each kill_process ps s;
     Some (passed, scheduler_print_stats s)
   }"

section \<open>The verdicts\<close>

lemma fifo_verdicts:
  "map_option fst (test_fifo_basic s) = Some False"
  "map_option fst (test_fifo_state_transitions s) = Some True"
  "map_option fst (test_fifo_empty_queue s) = Some True"
  "map_option fst (test_fifo_statistics s) = Some True"
  by (induct s; code_simp)+

definition verdict :: "(bool \<times> sched) option \<Rightarrow> (bool \<times> u32) option" where
  "verdict = map_option (\<lambda>(v, s). (v, context_switches (stats s)))"

lemma rr_verdicts:
  "verdict (test_rr_basic s) = Some (False, 0)"
  "verdict (test_rr_preemption s) = Some (False, 1)"
  "verdict (test_rr_mixed_workload s) = Some (True, 0)"
  by (induct s; code_simp)+

lemma varying_verdicts:
  "verdict (varying_round 1 (True, s)) = Some (True, 0)"
  "verdict (varying_round 3 (True, s)) = Some (True, 0)"
  "verdict (varying_round 5 (True, s)) = Some (True, 0)"
  "verdict (varying_round 10 (True, s)) = Some (True, 0)"
  by (induct s; code_simp)+

lemma varying_verdict: "verdict (test_rr_varying_timeslices s) = Some (True, 0)"
proof -
  obtain s1 where s1: "varying_round 1 (True, s) = Some (True, s1)" using varying_verdicts(1)[of s] by (auto simp: verdict_def)
  obtain s2 where s2: "varying_round 3 (True, s1) = Some (True, s2)" using varying_verdicts(2)[of s1] by (auto simp: verdict_def)
  obtain s3 where s3: "varying_round 5 (True, s2) = Some (True, s3)" using varying_verdicts(3)[of s2] by (auto simp: verdict_def)
  show ?thesis
    using varying_verdicts(4)[of s3] s1 s2 s3 by (auto simp: test_rr_varying_timeslices_def verdict_def)
qed

lemma mlfq_verdicts:
  "verdict (test_mlfq_basic s) = Some (True, 3)"
  "verdict (test_mlfq_boost s) = Some (False, 0)"
  "verdict (test_mlfq_interactive s) = Some (True, 0)"
  by (induct s; code_simp)+

text \<open>Nothing demotes the only process of the demotion test.\<close>

lemma demotion_loop:
  assumes "top_runner p s" and "lower_empty s"
  shows "\<exists>s'. for_each (demotion_tick p) xs (0, 0, s) = Some (0, 0, s') \<and> top_runner p s' \<and> lower_empty s'"
  using assms
proof (induction xs arbitrary: s)
  case Nil
  then show ?case by simp
next
  case (Cons x xs)
  obtain s1 where s1: "scheduler_tick s = Some s1" "top_runner p s1" "top_frame p s s1"
    using tick_top[OF Cons.prems(1)] Cons.prems(2) by blast
  moreover from this have "lower_empty s1" using Cons.prems(2) by (simp add: lower_empty_def top_frame_def)
  moreover have "priority (process_table s1 p) = 0" using s1(2) by (simp add: top_runner_def)
  ultimately show ?case using Cons.IH by (simp add: demotion_tick_def Let_def)
qed

definition demotion_start :: "sched \<Rightarrow> (nat option \<times> sched) option" where
  "demotion_start s = do {
     (cpu_bound, s) \<leftarrow> scheduler_create_process ''CPU-Bound'' 0 (scheduler_init (mlfq_config 3 100) s);
     s \<leftarrow> scheduler_schedule s;
     Some (cpu_bound, s)
   }"

lemma demotion_start_state:
  "map_option (\<lambda>(p, s). (p, sched_type (config s), current_process s, priority (process_table s 0), head (queues s 0),
     tail (queues s 0), map (\<lambda>l. qcount (queues s l)) [0, 1, 2, 3])) (demotion_start s) =
   Some (Some 0, SCHED_MLFQ, Some 0, 0, None, None, [0, 0, 0, 0])"
  by (induct s; code_simp)

lemma demotion_verdict: "map_option fst (test_mlfq_demotion s) = Some False"
proof -
  obtain s1 where s1: "demotion_start s = Some (Some 0, s1)" "top_runner 0 s1" "lower_empty s1"
    using demotion_start_state[of s] by (auto simp: top_runner_def lower_empty_def)
  obtain s2 where s2: "for_each (demotion_tick 0) [0..<150] (0, 0, s1) = Some (0, 0, s2)" "top_runner 0 s2" "lower_empty s2"
    using demotion_loop[OF s1(2,3)] by blast
  obtain s3 where "kill_process (Some 0) s2 = Some s3"
    using terminate_top[OF s2(2,3)] by (auto simp: kill_process_def)
  moreover have "priority (process_table s1 0) = 0" using s1(2) by (simp add: top_runner_def)
  moreover obtain s0 where "scheduler_create_process ''CPU-Bound'' 0 (scheduler_init (mlfq_config 3 100) s) = Some (Some 0, s0)"
    "scheduler_schedule s0 = Some s1"
    using s1(1) by (auto simp: demotion_start_def bind_eq_Some_conv)
  ultimately show ?thesis using s2(1) by (simp add: test_mlfq_demotion_def Let_def)
qed

text \<open>
  What the scheduler's own tests report, whatever ran before. Five fail: the basic
  FIFO test (the second process is lost when the first terminates), the basic round-robin test
  (nobody runs), preemption (the quantum of the configuration is ignored), MLFQ demotion (there is
  none) and boost. Seven pass, three of them without a single context switch: the varying time
  slices, the mixed workload (where 0/0 is neither too small nor too large) and the MLFQ's
  interactive preference.
\<close>

theorem test_suite_verdicts:
  "map (\<lambda>f. map_option fst (f s)) [test_fifo_basic, test_fifo_state_transitions, test_fifo_empty_queue,
     test_fifo_statistics, test_rr_basic, test_rr_preemption, test_rr_varying_timeslices, test_rr_mixed_workload,
     test_mlfq_basic, test_mlfq_demotion, test_mlfq_boost, test_mlfq_interactive] =
   map Some [False, True, True, True, False, False, True, True, True, False, False, True] \<and>
   (\<exists>s'. test_rr_varying_timeslices s = Some (True, s') \<and> context_switches (stats s') = 0) \<and>
   (\<exists>s'. test_rr_mixed_workload s = Some (True, s') \<and> context_switches (stats s') = 0) \<and>
   (\<exists>s'. test_mlfq_interactive s = Some (True, s') \<and> context_switches (stats s') = 0)"
  using fifo_verdicts[of s] rr_verdicts[of s] varying_verdict[of s] mlfq_verdicts[of s] demotion_verdict[of s]
  by (auto simp: verdict_def)

end
