(* ===== verification/Timer_Interrupt.thy ===== *)
theory Timer_Interrupt
  imports Scheduler_Facts
begin

text \<open>
  The timer and interrupt layer of \<^verbatim>\<open>lab3-2-sparrowos-scheduler/src/interrupt.c\<close> with
  \<^verbatim>\<open>include/interrupt.h\<close>. The inline assembly becomes a trace of port writes and of the \<open>cli\<close>,
  \<open>sti\<close> and \<open>hlt\<close> instructions; a handler is its 32-bit address; the scheduler's state is a field,
  because the tick handler calls \<^verbatim>\<open>scheduler_tick\<close>. A \<open>hlt\<close> with interrupts on resumes after the
  timer handler has run once. \<open>None\<close> is a division by zero, a null dereference in the scheduler, or
  a sleep that does not end.
\<close>

section \<open>State\<close>

datatype io_event = Out u16 u8 | Cli | Sti | Hlt

datatype imsg =
    TimerInitialized u32 u32
  | FrequencyOutOfRange u32
  | FrequencyChanged u32
  | HandlerSet u8
  | InterruptsInitialized
  | PicInitialized

record idt_entry_t =
  offset_low :: u16
  selector :: u16
  idt_zero :: u8
  type_attr :: u8
  offset_high :: u16

record machine =
  timer_ticks :: u32
  timer_frequency :: u32
  interrupt_handlers :: "u8 \<Rightarrow> u32 option"
  idt :: "u8 \<Rightarrow> idt_entry_t"
  ports :: "io_event list"
  ilog :: "imsg list"
  kernel :: sched

definition TIMER_FREQUENCY :: u32 where "TIMER_FREQUENCY = 1000"
definition TIMER_IRQ :: u8 where "TIMER_IRQ = 0x20"
definition TIMER_CMD_PORT :: u16 where "TIMER_CMD_PORT = 0x43"
definition TIMER_DATA_PORT :: u16 where "TIMER_DATA_PORT = 0x40"
definition INTERRUPT_VECTOR_TIMER :: u8 where "INTERRUPT_VECTOR_TIMER = 0x20"

definition emit :: "io_event list \<Rightarrow> machine \<Rightarrow> machine" where
  "emit es m = m\<lparr>ports := ports m @ es\<rparr>"

definition note_msg :: "imsg \<Rightarrow> machine \<Rightarrow> machine" where
  "note_msg x m = m\<lparr>ilog := ilog m @ [x]\<rparr>"

section \<open>Operations\<close>

definition program_divisor :: "u32 \<Rightarrow> io_event list" where
  "program_divisor divisor =
     [Out TIMER_CMD_PORT 0x36,
      Out TIMER_DATA_PORT (ucast (divisor AND 0xFF)),
      Out TIMER_DATA_PORT (ucast (drop_bit 8 divisor AND 0xFF))]"

definition timer_init :: "u32 \<Rightarrow> machine \<Rightarrow> machine option" where
  "timer_init frequency m =
     (if frequency = 0 then None
      else
        let m = m\<lparr>timer_frequency := frequency\<rparr>;
            divisor = 1193180 div frequency;
            m = emit (program_divisor divisor) m
        in Some (note_msg (TimerInitialized frequency divisor) m))"

definition pic_send_eoi :: "u8 \<Rightarrow> machine \<Rightarrow> machine" where
  "pic_send_eoi irq m = (
     let m = (if 8 \<le> irq then emit [Out 0xA0 0x20] m else m)
     in emit [Out 0x20 0x20] m)"

definition timer_handler :: "machine \<Rightarrow> machine option" where
  "timer_handler m = do {
     let m = m\<lparr>timer_ticks := timer_ticks m + 1\<rparr>;
     k \<leftarrow> scheduler_tick (kernel m);
     Some (pic_send_eoi TIMER_IRQ (m\<lparr>kernel := k\<rparr>))
   }"

definition timer_set_frequency :: "u32 \<Rightarrow> machine \<Rightarrow> machine" where
  "timer_set_frequency frequency m =
     (if frequency < 20 \<or> 10000 < frequency then note_msg (FrequencyOutOfRange frequency) m
      else
        let m = m\<lparr>timer_frequency := frequency\<rparr>;
            divisor = 1193180 div frequency;
            m = emit ([Cli] @ program_divisor divisor @ [Sti]) m
        in note_msg (FrequencyChanged frequency) m)"

definition timer_get_ticks :: "machine \<Rightarrow> u32" where
  "timer_get_ticks m = timer_ticks m"

partial_function (option) sleep_until :: "u32 \<Rightarrow> machine \<Rightarrow> machine option" where
  "sleep_until end_ticks m =
     (if timer_ticks m < end_ticks then do {
        m \<leftarrow> timer_handler (emit [Hlt] m);
        sleep_until end_ticks m
      } else Some m)"

definition timer_sleep :: "u32 \<Rightarrow> machine \<Rightarrow> machine option" where
  "timer_sleep ms m = sleep_until (timer_ticks m + ms * timer_frequency m div 1000) m"

text \<open>A \<^verbatim>\<open>uint8_t\<close> is always below 256, so the guard of the source always holds.\<close>

definition interrupt_set_handler :: "u8 \<Rightarrow> u32 \<Rightarrow> machine \<Rightarrow> machine" where
  "interrupt_set_handler vector handler m =
     note_msg (HandlerSet vector)
       (m\<lparr>interrupt_handlers := (interrupt_handlers m)(vector := Some handler),
          idt := (idt m)(vector := \<lparr>offset_low = ucast (handler AND 0xFFFF), selector = 0x08, idt_zero = 0,
            type_attr = 0x8E, offset_high = ucast (drop_bit 16 handler AND 0xFFFF)\<rparr>)\<rparr>)"

definition interrupt_init :: "u32 \<Rightarrow> machine \<Rightarrow> machine" where
  "interrupt_init timer_handler_addr m =
     note_msg InterruptsInitialized
       (interrupt_set_handler INTERRUPT_VECTOR_TIMER timer_handler_addr
         (m\<lparr>interrupt_handlers := (\<lambda>_. None)\<rparr>))"

definition interrupt_enable :: "machine \<Rightarrow> machine" where "interrupt_enable m = emit [Sti] m"
definition interrupt_disable :: "machine \<Rightarrow> machine" where "interrupt_disable m = emit [Cli] m"

definition pic_init :: "machine \<Rightarrow> machine" where
  "pic_init m = note_msg PicInitialized (emit
     [Out 0x20 0x11, Out 0x21 0x20, Out 0x21 0x04, Out 0x21 0x01,
      Out 0xA0 0x11, Out 0xA1 0x28, Out 0xA1 0x02, Out 0xA1 0x01,
      Out 0x21 0x00, Out 0xA1 0x00] m)"

section \<open>The programmed divisor\<close>

text \<open>What the 8254 makes of the bytes it is sent: low byte, then high byte.\<close>

fun counter_value :: "io_event list \<Rightarrow> nat" where
  "counter_value [Out c x, Out d lo, Out e hi] =
     (if c = TIMER_CMD_PORT \<and> d = TIMER_DATA_PORT \<and> e = TIMER_DATA_PORT then unat lo + 256 * unat hi else 0)"
| "counter_value _ = 0"

lemma unat_low_byte: "unat (ucast (x AND 0xFF :: u32) :: u8) = unat x mod 256"
  by (simp add: and_FF unsigned_ucast_eq unsigned_take_bit_eq take_bit_eq_mod unat_mod)

lemma program_divisor_value: "counter_value (program_divisor d) = unat d mod 65536"
proof -
  have "unat (drop_bit 8 d) = unat d div 256" by (simp add: drop_bit_eq_div unat_div)
  then have "counter_value (program_divisor d) = unat d mod 256 + 256 * (unat d div 256 mod 256)"
    by (simp add: program_divisor_def unat_low_byte)
  also have "\<dots> = unat d mod (256 * 256)" by (metis add.commute mod_mult2_eq)
  finally show ?thesis by simp
qed

text \<open>
  \<^verbatim>\<open>timer_set_frequency\<close> accepts exactly 20 to 10000 Hz. For these it programs,
  between \<open>cli\<close> and \<open>sti\<close>, the divisor \<open>1193180 / f\<close> without loss in the counter's sixteen bits
  and records the frequency; any other value changes nothing and sends nothing.
\<close>

theorem timer_set_frequency_programs:
  "timer_set_frequency f m =
     (if 20 \<le> unat f \<and> unat f \<le> 10000
      then note_msg (FrequencyChanged f)
        (m\<lparr>timer_frequency := f, ports := ports m @ [Cli] @ program_divisor (1193180 div f) @ [Sti]\<rparr>)
      else note_msg (FrequencyOutOfRange f) m) \<and>
   (20 \<le> unat f \<longrightarrow> counter_value (program_divisor (1193180 div f)) = 1193180 div unat f)"
proof -
  have g: "(f < 20 \<or> 10000 < f) \<longleftrightarrow> \<not> (20 \<le> unat f \<and> unat f \<le> 10000)"
    by (auto simp: word_less_nat_alt)
  have "counter_value (program_divisor (1193180 div f)) = 1193180 div unat f" if "20 \<le> unat f"
  proof -
    have "1193180 div unat f \<le> 1193180 div 20" using that by (intro div_le_mono2) simp_all
    then show ?thesis by (simp add: program_divisor_value unat_div)
  qed
  then show ?thesis using g by (auto simp: timer_set_frequency_def emit_def Let_def)
qed

text \<open>
  \<^verbatim>\<open>timer_init\<close> has no such guard: 0 Hz divides by zero, and below 19 Hz the divisor does not
  fit and the counter runs at another rate.
\<close>

lemma timer_init_slow:
  "timer_init 0 m = None" "counter_value (program_divisor (1193180 div 10)) = 53782"
  by (simp_all add: timer_init_def program_divisor_value)

section \<open>Descriptors\<close>

definition entry_target :: "idt_entry_t \<Rightarrow> u32" where
  "entry_target e = ucast (offset_low e) OR push_bit 16 (ucast (offset_high e))"

lemma halves: "ucast (ucast (h AND 0xFFFF :: u32) :: u16) OR
    push_bit 16 (ucast (ucast (drop_bit 16 h AND 0xFFFF) :: u16)) = h"
proof -
  have m: "x AND 0xFFFF = take_bit 16 x" for x :: u32 by (simp add: take_bit_eq_mask mask_eq_exp_minus_1)
  show ?thesis
    unfolding m by (rule bit_eqI)
      (auto simp: bit_or_iff bit_push_bit_iff bit_ucast_iff bit_take_bit_iff bit_drop_bit_eq)
qed

text \<open>
  \<^verbatim>\<open>interrupt_set_handler\<close> stores a descriptor from whose halves the full 32-bit
  handler address is read back, a present ring-0 32-bit interrupt gate in the kernel code
  segment, and leaves the descriptors and handlers of all other vectors as they are; after
  \<^verbatim>\<open>interrupt_init\<close> the timer vector is the only one with a handler.
\<close>

theorem interrupt_set_handler_roundtrip:
  "entry_target (idt (interrupt_set_handler v h m) v) = h \<and>
   interrupt_handlers (interrupt_set_handler v h m) v = Some h \<and>
   type_attr (idt (interrupt_set_handler v h m) v) = 0x8E \<and> selector (idt (interrupt_set_handler v h m) v) = 0x08 \<and>
   (\<forall>w. w \<noteq> v \<longrightarrow> idt (interrupt_set_handler v h m) w = idt m w \<and>
     interrupt_handlers (interrupt_set_handler v h m) w = interrupt_handlers m w) \<and>
   (\<forall>w. interrupt_handlers (interrupt_init h m) w = (if w = INTERRUPT_VECTOR_TIMER then Some h else None))"
  by (simp add: interrupt_set_handler_def interrupt_init_def note_msg_def entry_target_def halves)

section \<open>Ticks and sleeping\<close>

lemma tick_idle: "current_process k = None \<Longrightarrow> scheduler_tick k = Some (k\<lparr>system_ticks := system_ticks k + 1\<rparr>)"
  by (simp add: scheduler_tick_def)

lemma timer_handler_idle:
  assumes "current_process (kernel m) = None"
  shows "\<exists>m'. timer_handler m = Some m' \<and> timer_ticks m' = timer_ticks m + 1 \<and>
    system_ticks (kernel m') = system_ticks (kernel m) + 1 \<and> current_process (kernel m') = None \<and>
    ports m' = ports m @ [Out 0xA0 0x20, Out 0x20 0x20]"
  using assms by (simp add: timer_handler_def tick_idle pic_send_eoi_def emit_def TIMER_IRQ_def Let_def)

definition one_tick :: "io_event list" where
  "one_tick = [Hlt, Out 0xA0 0x20, Out 0x20 0x20]"

lemma sleep_until_idle:
  assumes "current_process (kernel m) = None"
  shows "\<exists>m'. sleep_until e m = Some m' \<and> current_process (kernel m') = None \<and>
    unat (timer_ticks m') = max (unat (timer_ticks m)) (unat e) \<and>
    ports m' = ports m @ concat (replicate (unat e - unat (timer_ticks m)) one_tick) \<and>
    system_ticks (kernel m') = system_ticks (kernel m) + of_nat (unat e - unat (timer_ticks m))"
  using assms
proof (induction "unat e - unat (timer_ticks m)" arbitrary: m)
  case 0
  then have "\<not> timer_ticks m < e" by (simp add: word_less_nat_alt)
  then show ?case using 0 by (subst sleep_until.simps) auto
next
  case (Suc d)
  then have lt: "timer_ticks m < e" by (simp add: word_less_nat_alt)
  obtain m1 where m1: "timer_handler (emit [Hlt] m) = Some m1" "timer_ticks m1 = timer_ticks m + 1"
    "system_ticks (kernel m1) = system_ticks (kernel m) + 1" "current_process (kernel m1) = None"
    "ports m1 = ports m @ one_tick"
    using timer_handler_idle[of "emit [Hlt] m"] Suc.prems by (auto simp: emit_def one_tick_def)
  have u: "unat (timer_ticks m1) = Suc (unat (timer_ticks m))"
    unfolding m1(2) using Suc.hyps(2) unat_lt_32[of e] by (subst unat_add_exact) simp_all
  have "d = unat e - unat (timer_ticks m1)" using Suc.hyps(2) u by simp
  note IH = Suc.hyps(1)[OF this m1(4)]
  obtain m' where m': "sleep_until e m1 = Some m'" "current_process (kernel m') = None"
    "unat (timer_ticks m') = max (unat (timer_ticks m1)) (unat e)"
    "ports m' = ports m1 @ concat (replicate (unat e - unat (timer_ticks m1)) one_tick)"
    "system_ticks (kernel m') = system_ticks (kernel m1) + of_nat (unat e - unat (timer_ticks m1))"
    using IH by blast
  have d: "unat e - unat (timer_ticks m) = Suc (unat e - unat (timer_ticks m1))"
    using Suc.hyps(2) u by simp
  have run: "sleep_until e m = Some m'"
    using lt m1(1) m'(1) by (subst sleep_until.simps) simp
  have "unat (timer_ticks m') = max (unat (timer_ticks m)) (unat e)"
    using m'(3) u Suc.hyps(2) by (simp add: max_def)
  moreover have "ports m' = ports m @ concat (replicate (unat e - unat (timer_ticks m)) one_tick)"
    unfolding m'(4) m1(5) d by simp
  moreover have "system_ticks (kernel m') = system_ticks (kernel m) + of_nat (unat e - unat (timer_ticks m))"
    unfolding m'(5) m1(3) d by (simp only: of_nat_Suc add.assoc)
  ultimately show ?case using run m'(2) by blast
qed

text \<open>
  On an idle CPU \<^verbatim>\<open>timer_sleep\<close> ends: when neither the product nor the end tick
  overflows it sleeps exactly \<open>ms * frequency / 1000\<close> ticks, each a \<open>hlt\<close> answered by one timer
  interrupt that advances the scheduler's clock and is acknowledged at both interrupt controllers.
\<close>

theorem timer_sleep_duration:
  assumes "current_process (kernel m) = None"
    and "unat ms * unat (timer_frequency m) < 4294967296"
    and "unat (timer_ticks m) + unat ms * unat (timer_frequency m) div 1000 < 4294967296"
  defines "n \<equiv> unat ms * unat (timer_frequency m) div 1000"
  shows "\<exists>m'. timer_sleep ms m = Some m' \<and> unat (timer_ticks m') = unat (timer_ticks m) + n \<and>
    system_ticks (kernel m') = system_ticks (kernel m) + of_nat n \<and>
    ports m' = ports m @ concat (replicate n one_tick)"
proof -
  have "unat (ms * timer_frequency m) = unat ms * unat (timer_frequency m)"
    using assms(2) by (simp add: unat_word_ariths)
  then have "unat (ms * timer_frequency m div 1000) = n" by (simp add: unat_div n_def)
  then have e: "unat (timer_ticks m + ms * timer_frequency m div 1000) = unat (timer_ticks m) + n"
    using assms(3) by (subst unat_add_exact) (simp_all add: n_def)
  show ?thesis
    using sleep_until_idle[OF assms(1), of "timer_ticks m + ms * timer_frequency m div 1000"]
    unfolding timer_sleep_def e by auto
qed

definition still :: machine where
  "still = \<lparr>timer_ticks = 0, timer_frequency = 1000, interrupt_handlers = (\<lambda>_. None),
     idt = (\<lambda>_. \<lparr>offset_low = 0, selector = 0, idt_zero = 0, type_attr = 0, offset_high = 0\<rparr>),
     ports = [], ilog = [], kernel = cold\<rparr>"

theorem timer_sleep_duration_witness:
  "\<exists>m'. timer_sleep 2 still = Some m' \<and> unat (timer_ticks m') = 2 \<and>
     ports m' = one_tick @ one_tick"
proof -
  have two: "replicate 2 one_tick = [one_tick, one_tick]" by (simp add: eval_nat_numeral)
  have p: "unat (2 :: u32) = 2" "unat (1000 :: u32) = 1000" by simp_all
  have c: "current_process (kernel still) = None" "timer_frequency still = 1000" "timer_ticks still = 0" "ports still = []"
    by (simp_all add: still_def cold_def)
  show ?thesis using timer_sleep_duration[OF c(1), of 2] unfolding c p by (auto simp: two)
qed

text \<open>A sleep of 4294968 ms (71 minutes) at 1 kHz overflows to nothing.\<close>

lemma timer_sleep_wraps: "timer_sleep 4294968 still = Some still"
  by (simp add: timer_sleep_def still_def) (subst sleep_until.simps, simp)

theorem timer_set_frequency_programs_witness:
  "counter_value (program_divisor (1193180 div 100)) = 11931"
  using timer_set_frequency_programs[of 100 still] by simp

theorem interrupt_set_handler_roundtrip_witness:
  "idt (interrupt_set_handler 0x20 0x12345678 still) 0x21 = idt still 0x21 \<and>
   entry_target (idt (interrupt_set_handler 0x20 0x12345678 still) 0x20) = 0x12345678"
  using interrupt_set_handler_roundtrip[of "0x20" "0x12345678" still] by simp

end
