(* ===== verification/Sched_Menus.thy ===== *)
theory Sched_Menus
  imports C_Text Sched_Demos Sched_Tests Timer_Interrupt
begin

text \<open>
  The \<^verbatim>\<open>main\<close> functions around the scheduler of \<^verbatim>\<open>lab3-2-sparrowos-scheduler\<close>: the menus of
  \<^verbatim>\<open>src/main.c\<close>, \<^verbatim>\<open>examples/demo_simple.c\<close> and \<^verbatim>\<open>examples/demo_advanced.c\<close>, which read choices with
  \<^verbatim>\<open>scanf\<close>, and the three test suites. Standard input is the list of its characters. A result
  \<open>None\<close> is a run that does not return; \<open>Undefined\<close> is a use of \<^verbatim>\<open>choice\<close> before it was read, or a number
  outside \<^verbatim>\<open>int\<close>. The printed lines are left out.
\<close>

section \<open>Standard input\<close>

text \<open>\<^verbatim>\<open>while (getchar() != '\n');\<close> never ends at the end of the input.\<close>

fun skip_line :: "string \<Rightarrow> string option" where
  "skip_line [] = None"
| "skip_line (c # cs) = (if c = CHR 0x0A then Some cs else skip_line cs)"

section \<open>Menus\<close>

datatype 'a outcome = Returns 'a | Undefined

partial_function (option) simple_menu ::
  "(int \<Rightarrow> 'a \<Rightarrow> 'a option) \<Rightarrow> int option \<Rightarrow> string \<Rightarrow> 'a \<Rightarrow> 'a outcome option" where
  "simple_menu demo choice input s =
     (case scanf_d input of
        (None, rest) \<Rightarrow> do {
          rest \<leftarrow> skip_line rest;
          (case choice of
             None \<Rightarrow> Some Undefined
           | Some n \<Rightarrow> if n \<noteq> 5 then simple_menu demo choice rest s else Some (Returns s))
        }
      | (Some n, rest) \<Rightarrow>
          if in_i32 n then do {
            s \<leftarrow> demo n s;
            rest \<leftarrow> skip_line rest;
            if n \<noteq> 5 then simple_menu demo (Some n) (tl rest) s else Some (Returns s)
          } else Some Undefined)"

text \<open>\<^verbatim>\<open>demo_advanced.c\<close> does not wait for Enter after the last choice.\<close>

partial_function (option) advanced_menu ::
  "(int \<Rightarrow> 'a \<Rightarrow> 'a option) \<Rightarrow> int option \<Rightarrow> string \<Rightarrow> 'a \<Rightarrow> 'a outcome option" where
  "advanced_menu demo choice input s =
     (case scanf_d input of
        (None, rest) \<Rightarrow> do {
          rest \<leftarrow> skip_line rest;
          (case choice of
             None \<Rightarrow> Some Undefined
           | Some n \<Rightarrow> if n \<noteq> 5 then advanced_menu demo choice rest s else Some (Returns s))
        }
      | (Some n, rest) \<Rightarrow>
          if in_i32 n then do {
            s \<leftarrow> demo n s;
            if n \<noteq> 5 then do {
              rest \<leftarrow> skip_line rest;
              advanced_menu demo (Some n) (tl rest) s
            } else Some (Returns s)
          } else Some Undefined)"

text \<open>\<^verbatim>\<open>src/main.c\<close> does not look at the answer of \<^verbatim>\<open>scanf\<close>.\<close>

partial_function (option) main_menu ::
  "(int \<Rightarrow> 'a \<Rightarrow> 'a option) \<Rightarrow> int option \<Rightarrow> string \<Rightarrow> 'a \<Rightarrow> 'a outcome option" where
  "main_menu test choice input s =
     (case scanf_d input of
        (read, rest) \<Rightarrow>
          (case (case read of None \<Rightarrow> choice | Some n \<Rightarrow> Some n) of
             None \<Rightarrow> Some Undefined
           | Some n \<Rightarrow>
               if in_i32 n then do {
                 s \<leftarrow> test n s;
                 if n \<noteq> 5 then main_menu test (Some n) rest s else Some (Returns s)
               } else Some Undefined))"

definition simple_demos :: "int \<Rightarrow> sched \<Rightarrow> sched option" where
  "simple_demos choice s =
     (if choice = 1 then demo_fifo s
      else if choice = 2 then demo_round_robin s
      else if choice = 3 then map_option snd (demo_state_transitions s)
      else if choice = 4 then demo_priority s
      else Some s)"

definition advanced_demos :: "(nat \<Rightarrow> scheduler_config_t) \<Rightarrow> int \<Rightarrow> sched \<Rightarrow> sched option" where
  "advanced_demos junk choice s =
     (if choice = 1 then map_option snd (demo_mlfq_full s)
      else if choice = 2 then map_option snd (demo_starvation_solution s)
      else if choice = 3 then map_option snd (demo_real_time_simulation s)
      else if choice = 4 then map_option snd (demo_scheduler_comparison junk s)
      else Some s)"

definition main_tests :: "int \<Rightarrow> sched \<Rightarrow> sched option" where
  "main_tests choice s =
     (if choice = 1 then test_fifo_scheduler s
      else if choice = 2 then test_rr_scheduler s
      else if choice = 3 then test_mlfq_scheduler s
      else if choice = 4 then integrated_test s
      else Some s)"

definition demo_simple_main :: "string \<Rightarrow> sched \<Rightarrow> sched outcome option" where
  "demo_simple_main input s = simple_menu simple_demos None input s"

definition demo_advanced_main :: "(nat \<Rightarrow> scheduler_config_t) \<Rightarrow> string \<Rightarrow> sched \<Rightarrow> sched outcome option" where
  "demo_advanced_main junk input s = advanced_menu (advanced_demos junk) None input s"

text \<open>\<open>addr\<close> is the address of \<^verbatim>\<open>timer_handler\<close>.\<close>

definition sched_main :: "u32 \<Rightarrow> string \<Rightarrow> machine \<Rightarrow> machine outcome option" where
  "sched_main addr input m = do {
     m \<leftarrow> timer_init TIMER_FREQUENCY (interrupt_init addr m);
     main_menu (\<lambda>choice m. map_option (\<lambda>k. m\<lparr>kernel := k\<rparr>) (main_tests choice (kernel m))) None input m
   }"

text \<open>The bodies meant for the three processes of \<^verbatim>\<open>src/main.c\<close>; nothing calls them.\<close>

definition process_function_a :: "sched \<Rightarrow> sched option" where
  "process_function_a = for_each (\<lambda>_. scheduler_yield) [0..<5]"

definition process_function_b :: "sched \<Rightarrow> sched option" where
  "process_function_b = for_each (\<lambda>_. scheduler_yield) [0..<3]"

definition process_function_c :: "sched \<Rightarrow> sched option" where
  "process_function_c = for_each (\<lambda>_. scheduler_yield) [0..<4]"

section \<open>The test suites\<close>

fun suite :: "(sched \<Rightarrow> (bool \<times> sched) option) list \<Rightarrow> sched \<Rightarrow> (bool list \<times> sched) option" where
  "suite [] s = Some ([], s)"
| "suite (t # ts) s = do {
     (v, s) \<leftarrow> t s;
     (vs, s) \<leftarrow> suite ts s;
     Some (v # vs, s)
   }"

definition test_fifo_main :: "sched \<Rightarrow> (bool list \<times> sched) option" where
  "test_fifo_main s = suite [test_fifo_basic, test_fifo_state_transitions, test_fifo_empty_queue, test_fifo_statistics] s"

definition test_rr_main :: "sched \<Rightarrow> (bool list \<times> sched) option" where
  "test_rr_main s = suite [test_rr_basic, test_rr_preemption, test_rr_varying_timeslices, test_rr_mixed_workload] s"

definition test_mlfq_main :: "sched \<Rightarrow> (bool list \<times> sched) option" where
  "test_mlfq_main s = suite [test_mlfq_basic, test_mlfq_demotion, test_mlfq_boost, test_mlfq_interactive] s"

section \<open>Numbers read back\<close>

text \<open>A choice as it is typed.\<close>

definition typed :: "nat \<Rightarrow> string" where
  "typed n = digits n @ newline"

lemma scanf_typed: "scanf_d (typed n @ rest) = (Some (int n), newline @ rest)"
proof -
  obtain c cs where d: "digits n = c # cs" using digits_read[of n] by (cases "digits n") auto
  have all: "list_all isdigit (c # cs)" "\<not> isspace c" "c \<noteq> CHR ''-''" "c \<noteq> CHR ''+''" "decimal_value (c # cs) = int n"
    using digits_read[of n] unfolding d by simp_all
  have nl: "\<not> isdigit (CHR 0x0A)" by (simp add: isdigit_def)
  have "takeWhile isdigit ((c # cs) @ newline @ rest) = c # cs" "dropWhile isdigit ((c # cs) @ newline @ rest) = newline @ rest"
    using all(1) nl by (simp_all add: takeWhile_append2 dropWhile_append2 list_all_iff newline_def)
  then show ?thesis using all by (simp add: typed_def d scanf_d_def Let_def)
qed

lemma skip_newline [simp]: "skip_line (newline @ rest) = Some rest"
  by (simp add: newline_def)

section \<open>Runs of the menus\<close>

text \<open>One turn for a choice that is a number.\<close>

lemma simple_menu_typed:
  assumes "n \<noteq> 5" and "n < 2 ^ 31"
  shows "simple_menu demo choice (typed n @ newline @ rest) s =
    Option.bind (demo (int n) s) (simple_menu demo (Some (int n)) rest)"
  by (subst simple_menu.simps) (use assms in \<open>simp add: scanf_typed in_i32_def newline_def split: bind_splits\<close>)

lemma advanced_menu_typed:
  assumes "n \<noteq> 5" and "n < 2 ^ 31"
  shows "advanced_menu demo choice (typed n @ newline @ rest) s =
    Option.bind (demo (int n) s) (advanced_menu demo (Some (int n)) rest)"
  by (subst advanced_menu.simps) (use assms in \<open>simp add: scanf_typed in_i32_def newline_def split: bind_splits\<close>)

lemma main_menu_typed:
  assumes "n \<noteq> 5" and "n < 2 ^ 31"
  shows "main_menu test choice (typed n @ rest) s =
    Option.bind (test (int n) s) (main_menu test (Some (int n)) (newline @ rest))"
  by (subst main_menu.simps) (use assms in \<open>simp add: scanf_typed in_i32_def split: bind_splits\<close>)

lemma scanf_newline: "scanf_d (newline @ input) = scanf_d input"
  by (simp add: scanf_d_def newline_def isspace_def)

lemma main_menu_newline: "main_menu test choice (newline @ input) s = main_menu test choice input s"
  by (subst (1 2) main_menu.simps) (simp add: scanf_newline)

text \<open>Choices one after the other, with the Enter that the demo programs ask for after each.\<close>

definition typed_choices :: "nat list \<Rightarrow> string" where
  "typed_choices ns = concat (map (\<lambda>n. typed n @ newline) ns)"

definition choices :: "nat list \<Rightarrow> bool" where
  "choices ns \<longleftrightarrow> list_all (\<lambda>n. n \<noteq> 5 \<and> n < 2 ^ 31) ns"

definition last_choice :: "nat list \<Rightarrow> int option \<Rightarrow> int option" where
  "last_choice ns choice = (if ns = [] then choice else Some (int (last ns)))"

lemma simple_menu_choices:
  "choices ns \<Longrightarrow> simple_menu demo choice (typed_choices ns @ rest) s =
    Option.bind (for_each (\<lambda>n. demo (int n)) ns s) (simple_menu demo (last_choice ns choice) rest)"
  by (induction ns arbitrary: s choice)
    (auto simp: choices_def typed_choices_def last_choice_def simple_menu_typed intro!: Option.bind_cong)

lemma advanced_menu_choices:
  "choices ns \<Longrightarrow> advanced_menu demo choice (typed_choices ns @ rest) s =
    Option.bind (for_each (\<lambda>n. demo (int n)) ns s) (advanced_menu demo (last_choice ns choice) rest)"
  by (induction ns arbitrary: s choice)
    (auto simp: choices_def typed_choices_def last_choice_def advanced_menu_typed intro!: Option.bind_cong)

lemma main_menu_choices:
  "choices ns \<Longrightarrow> main_menu test choice (concat (map typed ns) @ rest) s =
    Option.bind (for_each (\<lambda>n. test (int n)) ns s) (main_menu test (last_choice ns choice) rest)"
  by (induction ns arbitrary: s choice)
    (auto simp: choices_def last_choice_def main_menu_typed main_menu_newline intro!: Option.bind_cong)

text \<open>The end of the input, and the choice that ends the program.\<close>

lemma simple_menu_ends:
  "simple_menu demo choice [] s = None"
  "simple_menu demo choice (typed 5 @ rest) s = map_option Returns (demo 5 s)"
   apply (subst simple_menu.simps, simp add: scanf_d_def)
  apply (subst simple_menu.simps)
  apply (use scanf_typed[of 5 rest] in \<open>simp add: in_i32_def split: bind_splits\<close>)
  done

lemma advanced_menu_ends:
  "advanced_menu demo choice [] s = None"
  "advanced_menu demo choice (typed 5 @ rest) s = map_option Returns (demo 5 s)"
   apply (subst advanced_menu.simps, simp add: scanf_d_def)
  apply (subst advanced_menu.simps)
  apply (use scanf_typed[of 5 rest] in \<open>simp add: in_i32_def split: bind_splits\<close>)
  done

lemma main_menu_ends: "main_menu test choice (typed 5 @ rest) s = map_option Returns (test 5 s)"
  apply (subst main_menu.simps)
  apply (use scanf_typed[of 5 rest] in \<open>simp add: in_i32_def split: bind_splits\<close>)
  done

text \<open>Input that \<^verbatim>\<open>scanf\<close> leaves where it is: \<^verbatim>\<open>src/main.c\<close> then runs the last test for ever.\<close>

lemma main_menu_stuck:
  assumes bad: "scanf_d input = (None, input)" and n: "n \<noteq> 5" "in_i32 n"
  shows "main_menu test (Some n) input (s :: 'a) = None"
proof (rule ccontr)
  assume "main_menu test (Some n) input s \<noteq> None"
  then obtain r where "main_menu test (Some n) input s = Some r" by blast
  moreover have "\<not> (choice' = Some n \<and> input' = input)" if "main_menu test' choice' input' s' = Some r'"
    for test' :: "int \<Rightarrow> 'a \<Rightarrow> 'a option" and choice' input' s' r'
    using that
  proof (rule main_menu.raw_induct[where P = "\<lambda>t c i s r. \<not> (c = Some n \<and> i = input)", rotated])
    fix f :: "(int \<Rightarrow> 'a \<Rightarrow> 'a option) \<Rightarrow> int option \<Rightarrow> string \<Rightarrow> 'a \<Rightarrow> 'a outcome option" and test c i s r
    assume "\<And>t c i s r. f t c i s = Some r \<Longrightarrow> \<not> (c = Some n \<and> i = input)"
      and "(case scanf_d i of (read, rest) \<Rightarrow>
          (case (case read of None \<Rightarrow> c | Some n \<Rightarrow> Some n) of
             None \<Rightarrow> Some Undefined
           | Some n \<Rightarrow>
               if in_i32 n then do {
                 s \<leftarrow> test n s;
                 if n \<noteq> 5 then f test (Some n) rest s else Some (Returns s)
               } else Some Undefined)) = Some r"
    then show "\<not> (c = Some n \<and> i = input)" using assms by (fastforce simp: bind_eq_Some_conv split: if_splits)
  qed
  ultimately show False by blast
qed

text \<open>Input on which \<^verbatim>\<open>scanf\<close> reads nothing, and a sign without a digit, which it drops.\<close>

lemma scanf_unread:
  assumes "case dropWhile isspace input of [] \<Rightarrow> True | c # _ \<Rightarrow> \<not> isdigit c \<and> c \<noteq> CHR ''-'' \<and> c \<noteq> CHR ''+''"
  shows "scanf_d input = (None, dropWhile isspace input)"
    and "scanf_d (dropWhile isspace input) = (None, dropWhile isspace input)"
proof -
  have "scanf_d i = (None, w)" if "dropWhile isspace i = w" "case w of [] \<Rightarrow> True | c # _ \<Rightarrow> \<not> isdigit c \<and> c \<noteq> CHR ''-'' \<and> c \<noteq> CHR ''+''" for i w
    unfolding scanf_d_def that(1) using that(2) by (cases w) simp_all
  then show "scanf_d input = (None, dropWhile isspace input)"
    and "scanf_d (dropWhile isspace input) = (None, dropWhile isspace input)"
    using assms by simp_all
qed

lemma main_menu_unread_first:
  assumes "case dropWhile isspace input of [] \<Rightarrow> True | c # _ \<Rightarrow> \<not> isdigit c \<and> c \<noteq> CHR ''-'' \<and> c \<noteq> CHR ''+''"
  shows "main_menu test None input s = Some Undefined"
  by (subst main_menu.simps) (simp add: scanf_unread(1)[OF assms])

lemma main_menu_unread:
  assumes "case dropWhile isspace input of [] \<Rightarrow> True | c # _ \<Rightarrow> \<not> isdigit c \<and> c \<noteq> CHR ''-'' \<and> c \<noteq> CHR ''+''"
    and n: "n \<noteq> 5" "n < 2 ^ 31"
  shows "main_menu test (Some (int n)) input s = None"
proof -
  have "int n \<noteq> 5" "in_i32 (int n)" using n by (simp_all add: in_i32_def)
  then show ?thesis
    by (subst main_menu.simps) (simp add: scanf_unread(1)[OF assms(1)] main_menu_stuck[OF scanf_unread(2)[OF assms(1)]] split: bind_splits)
qed

lemma main_menu_sign:
  assumes sign: "sign = CHR ''-'' \<or> sign = CHR ''+''" and rest: "case rest of [] \<Rightarrow> True | c # _ \<Rightarrow> \<not> isdigit c"
  shows "main_menu test None (sign # rest) s = Some Undefined"
    and "n \<noteq> 5 \<Longrightarrow> n < 2 ^ 31 \<Longrightarrow> main_menu test (Some (int n)) (sign # rest) s =
      Option.bind (test (int n) s) (main_menu test (Some (int n)) rest)"
proof -
  have ds: "takeWhile isdigit rest = []" "\<not> isspace sign"
    using rest sign by (auto simp: isspace_def split: list.splits)
  then have "scanf_d (sign # rest) = (None, rest)" using sign by (auto simp: scanf_d_def Let_def)
  then show "main_menu test None (sign # rest) s = Some Undefined"
    and "n \<noteq> 5 \<Longrightarrow> n < 2 ^ 31 \<Longrightarrow> main_menu test (Some (int n)) (sign # rest) s =
      Option.bind (test (int n) s) (main_menu test (Some (int n)) rest)"
    by (subst main_menu.simps, simp add: in_i32_def split: bind_splits)+
qed

section \<open>The programs\<close>

lemma sched_main_newline:
  assumes "choices ns"
  shows "sched_main addr (concat (map typed ns) @ newline @ input) m = sched_main addr (concat (map typed ns) @ input) m"
  by (simp add: sched_main_def main_menu_choices[OF assms] ext[OF main_menu_newline])

lemma all_tests_return: "\<exists>s'. main_tests n s = Some s'"
  using main_runs_nobody[of s] main_fifo_runs_two[of s] by (auto simp: main_tests_def)

lemma all_advanced_return: "\<exists>s'. advanced_demos junk n s = Some s'"
proof -
  have run: "\<exists>r s'. comparison_run j i s = Some (r, s')" if "i = 0 \<or> i = 1 \<or> i = 2" for j i s
    using that comparison_runs_nobody[of j s] by auto
  obtain r1 s1 where s1: "comparison_run (junk 0) 0 s = Some (r1, s1)" using run by blast
  obtain r2 s2 where s2: "comparison_run (junk 1) 1 s1 = Some (r2, s2)" using run by blast
  obtain r3 s3 where s3: "comparison_run (junk 2) 2 s2 = Some (r3, s3)" using run by blast
  have "\<exists>r s'. demo_scheduler_comparison junk s = Some (r, s')"
    using s1 s2 s3 by (simp add: demo_scheduler_comparison_def)
  then show ?thesis using advanced_runs_nobody[of s] by (auto simp: advanced_demos_def)
qed

lemma for_each_returns: "(\<And>x s. \<exists>s'. f x s = Some s') \<Longrightarrow> \<exists>s'. for_each f xs s = Some s'"
proof (induction xs arbitrary: s)
  case (Cons x xs)
  obtain s1 where "f x s = Some s1" using Cons.prems by blast
  moreover obtain s2 where "for_each f xs s1 = Some s2" using Cons by blast
  ultimately show ?case by simp
qed simp

lemma for_each_stops: "x \<in> set xs \<Longrightarrow> (\<And>s. f x s = None) \<Longrightarrow> for_each f xs s = None"
  by (induction xs arbitrary: s) (auto split: bind_splits)

text \<open>
  The menu of the simple demos. On a list of choices that a 5 ends, each typed with its
  Enter, it runs the demos in that order and returns; but once the priority demo is chosen it
  never returns, whatever follows, and without the 5 it loops at the end of the input for ever.
\<close>

theorem demo_simple_choices:
  assumes "list_all (\<lambda>n. n \<noteq> 5 \<and> n < 2 ^ 31) ns"
  shows "demo_simple_main (typed_choices ns @ typed 5) s = map_option Returns (for_each (\<lambda>n. simple_demos (int n)) ns s) \<and>
    demo_simple_main (typed_choices ns) s = None \<and>
    (4 \<in> set ns \<longrightarrow> demo_simple_main (typed_choices ns @ rest) s = None)"
proof -
  have c: "choices ns" using assms by (simp add: choices_def)
  have five: "simple_demos 5 = Some" by (rule ext) (simp add: simple_demos_def)
  have run: "demo_simple_main (typed_choices ns @ i) s =
      Option.bind (for_each (\<lambda>n. simple_demos (int n)) ns s) (simple_menu simple_demos (last_choice ns None) i)" for i
    by (simp add: demo_simple_main_def simple_menu_choices[OF c])
  have "for_each (\<lambda>n. simple_demos (int n)) ns s = None" if "4 \<in> set ns"
    by (rule for_each_stops[OF that]) (use single_queue_demos_stop in \<open>simp add: simple_demos_def\<close>)
  then show ?thesis
    using run[of "typed 5"] run[of "[]"] run[of rest]
    by (auto simp: simple_menu_ends(1) simple_menu_ends(2)[where rest = "[]", simplified] five split: bind_splits)
qed

text \<open>
  Property C37. \<^verbatim>\<open>src/main.c\<close> never looks at what \<^verbatim>\<open>scanf\<close> answers. Choices (natural numbers other than 5 that fit
  in \<^verbatim>\<open>int\<close>), each typed with its Enter, that a 5 ends are carried out and the program returns. When the
  input ends after the choices, or goes on (after any white space) with a character that is neither a
  digit nor a sign, the last test is run for ever. A sign that no digit follows is consumed: the last
  test is run once more and the input is read on behind the sign, so that \<^verbatim>\<open>2\<close>, \<^verbatim>\<open>-\<close>, \<^verbatim>\<open>5\<close> returns. In both
  cases \<^verbatim>\<open>choice\<close> is used uninitialised when nothing was read before.
\<close>

theorem sched_main_choices:
  assumes "list_all (\<lambda>n. n \<noteq> 5 \<and> n < 2 ^ 31) ns"
    and "case dropWhile isspace bad of [] \<Rightarrow> True | c # _ \<Rightarrow> \<not> isdigit c \<and> c \<noteq> CHR ''-'' \<and> c \<noteq> CHR ''+''"
    and "sign = CHR ''-'' \<or> sign = CHR ''+''" and "case rest of [] \<Rightarrow> True | c # _ \<Rightarrow> \<not> isdigit c"
  shows "(\<exists>m'. sched_main addr (concat (map typed ns) @ typed 5) m = Some (Returns m')) \<and>
    sched_main addr (concat (map typed ns) @ bad) m = (if ns = [] then Some Undefined else None) \<and>
    sched_main addr (concat (map typed ns) @ sign # rest) m =
      (if ns = [] then Some Undefined else sched_main addr (concat (map typed (ns @ [last ns])) @ rest) m)"
proof -
  let ?test = "\<lambda>choice m. map_option (\<lambda>k. m\<lparr>kernel := k\<rparr>) (main_tests choice (kernel m))"
  have c: "choices ns" using assms(1) by (simp add: choices_def)
  have l: "last ns \<noteq> 5 \<and> last ns < 2 ^ 31" if "ns \<noteq> []"
    using assms(1) last_in_set[OF that] by (simp add: list_all_iff)
  then have cl: "choices (ns @ [last ns])" if "ns \<noteq> []" using that c by (simp add: choices_def)
  obtain m0 where m0: "timer_init TIMER_FREQUENCY (interrupt_init addr m) = Some m0"
    by (simp add: timer_init_def TIMER_FREQUENCY_def)
  have test: "\<exists>m'. ?test n m = Some m'" for n m using all_tests_return[of n "kernel m"] by auto
  then obtain m1 where m1: "for_each (\<lambda>n. ?test (int n)) ns m0 = Some m1" "\<exists>m2. ?test 5 m1 = Some m2"
    using for_each_returns[of "\<lambda>n. ?test (int n)" ns m0] by blast
  obtain m2 where m2: "?test (int (last ns)) m1 = Some m2" using test by blast
  have run: "sched_main addr (concat (map typed ns) @ i) m = main_menu ?test (last_choice ns None) i m1" for i
    using m0 m1(1) by (simp add: sched_main_def main_menu_choices[OF c])
  have more: "sched_main addr (concat (map typed (ns @ [last ns])) @ rest) m = main_menu ?test (Some (int (last ns))) rest m2"
    if "ns \<noteq> []"
    using main_menu_choices[OF cl[OF that], of ?test None rest m0] m0 m1(1) m2
    by (simp add: sched_main_def last_choice_def for_each_append)
  have "main_menu ?test (last_choice ns None) bad m1 = (if ns = [] then Some Undefined else None)"
    using assms(2) l by (simp add: last_choice_def main_menu_unread main_menu_unread_first)
  moreover have "main_menu ?test (last_choice ns None) (sign # rest) m1 =
      (if ns = [] then Some Undefined else main_menu ?test (Some (int (last ns))) rest m2)"
    using main_menu_sign(1)[OF assms(3,4), of ?test m1] main_menu_sign(2)[OF assms(3,4), of "last ns" ?test m1] l
    by (cases "ns = []") (simp_all only: last_choice_def m2 if_True if_False not_False_eq_True bind.bind_lunit simp_thms)
  ultimately show ?thesis using run more m1(2) by (auto simp: main_menu_ends[where rest = "[]", simplified])
qed

theorem demo_simple_choices_witness:
  "\<forall>s. demo_simple_main (typed 3 @ newline @ typed 4 @ newline @ typed 5) s = None"
proof
  fix s
  have "list_all (\<lambda>n. n \<noteq> 5 \<and> n < 2 ^ 31) [3, 4 :: nat]" by simp
  from demo_simple_choices[OF this, of s "typed 5"]
  have "4 \<in> set [3, 4 :: nat] \<longrightarrow> demo_simple_main (typed_choices [3, 4] @ typed 5) s = None" by blast
  then show "demo_simple_main (typed 3 @ newline @ typed 4 @ newline @ typed 5) s = None"
    by (simp add: typed_choices_def)
qed

theorem sched_main_choices_witness:
  "\<forall>addr m. sched_main addr (typed 2 @ '' x'') m = None \<and> sched_main addr ''x'' m = Some Undefined \<and>
     (\<exists>m'. sched_main addr (typed 2 @ ''-'' @ newline @ typed 5) m = Some (Returns m'))"
proof (intro allI)
  fix addr m
  note c = sched_main_choices[where bad = "'' x''" and sign = "CHR ''-''" and rest = "newline @ typed 5"]
  have f: "isspace (CHR '' '')" "\<not> isspace (CHR ''x'')" "\<not> isdigit (CHR ''x'')" "\<not> isdigit (CHR 0x0A)"
    by (simp_all add: isspace_def isdigit_def)
  have "\<exists>m'. sched_main addr (concat (map typed [2, 2]) @ newline @ typed 5) m = Some (Returns m')"
    using c[of "[2, 2]" addr m] f sched_main_newline[of "[2, 2]" addr "typed 5" m] by (simp add: newline_def choices_def)
  then show "sched_main addr (typed 2 @ '' x'') m = None \<and> sched_main addr ''x'' m = Some Undefined \<and>
      (\<exists>m'. sched_main addr (typed 2 @ ''-'' @ newline @ typed 5) m = Some (Returns m'))"
    using c[of "[2]" addr m] sched_main_choices[of "[]" "''x''" "CHR ''-''" "[]" addr m] f
    by (simp add: newline_def)
qed

text \<open>The advanced demos always come back to their menu.\<close>

lemma demo_advanced_choices:
  assumes "choices ns"
  shows "(\<exists>s'. demo_advanced_main junk (typed_choices ns @ typed 5) s = Some (Returns s')) \<and>
    demo_advanced_main junk (typed_choices ns) s = None"
proof -
  obtain s1 where s1: "for_each (\<lambda>n. advanced_demos junk (int n)) ns s = Some s1"
    using for_each_returns[of "\<lambda>n. advanced_demos junk (int n)" ns s] all_advanced_return by blast
  have "demo_advanced_main junk (typed_choices ns @ i) s = advanced_menu (advanced_demos junk) (last_choice ns None) i s1" for i
    by (simp add: demo_advanced_main_def advanced_menu_choices[OF assms] s1)
  from this[of "typed 5"] this[of "[]"] show ?thesis
    using all_advanced_return[of junk 5 s1]
    by (auto simp: advanced_menu_ends(1) advanced_menu_ends(2)[where rest = "[]", simplified])
qed

lemma suites_verdicts:
  "map_option fst (test_fifo_main s) = Some [False, True, True, True]"
  "map_option fst (test_rr_main s) = Some [False, False, True, True]"
  "map_option fst (test_mlfq_main s) = Some [True, False, False, True]"
proof -
  have v: "map_option fst (test_fifo_basic s) = Some False \<and> map_option fst (test_fifo_state_transitions s) = Some True
    \<and> map_option fst (test_fifo_empty_queue s) = Some True \<and> map_option fst (test_fifo_statistics s) = Some True
    \<and> map_option fst (test_rr_basic s) = Some False \<and> map_option fst (test_rr_preemption s) = Some False
    \<and> map_option fst (test_rr_varying_timeslices s) = Some True \<and> map_option fst (test_rr_mixed_workload s) = Some True
    \<and> map_option fst (test_mlfq_basic s) = Some True \<and> map_option fst (test_mlfq_demotion s) = Some False
    \<and> map_option fst (test_mlfq_boost s) = Some False \<and> map_option fst (test_mlfq_interactive s) = Some True" for s
    using test_suite_verdicts[of s] by simp
  have cons: "map_option fst (suite (t # ts) s) = Some (v # vs)"
    if "\<And>s. map_option fst (t s) = Some v" "\<And>s. map_option fst (suite ts s) = Some vs" for t ts v vs s
  proof -
    note t = that
    obtain s1 where s1: "t s = Some (v, s1)" using t(1)[of s] by (cases "t s") auto
    obtain s2 where s2: "suite ts s1 = Some (vs, s2)" using t(2)[of s1] by (cases "suite ts s1") auto
    show ?thesis by (simp add: s1 s2)
  qed
  have nil: "map_option fst (suite [] s) = Some []" for s by simp
  show "map_option fst (test_fifo_main s) = Some [False, True, True, True]"
    unfolding test_fifo_main_def by (intro cons nil) (simp_all only: v)
  show "map_option fst (test_rr_main s) = Some [False, False, True, True]"
    unfolding test_rr_main_def by (intro cons nil) (simp_all only: v)
  show "map_option fst (test_mlfq_main s) = Some [True, False, False, True]"
    unfolding test_mlfq_main_def by (intro cons nil) (simp_all only: v)
qed

end
