(* ===== verification/Oled.thy ===== *)
theory Oled
  imports Wifi
begin

text \<open>
  The SSD1306 display driver of \<^verbatim>\<open>lab5-2-iot-sensor-rtos/src/oled_display.c\<close>: the frame buffer of
  1024 bytes (one byte is eight pixels of a column) and the bytes written to the I2C device, as
  pairs of control byte and value. The coordinates are \<^verbatim>\<open>rt_uint8_t\<close> and wrap.
\<close>

record oled =
  oled_buffer :: "u8 list"
  i2c :: "(u8 \<times> u8) list"

definition OLED_CMD :: u8 where "OLED_CMD = 0x00"
definition OLED_DATA :: u8 where "OLED_DATA = 0x40"
definition OLED_WIDTH :: nat where "OLED_WIDTH = 128"
definition OLED_HEIGHT :: nat where "OLED_HEIGHT = 64"

definition oled_write_cmd :: "u8 \<Rightarrow> oled \<Rightarrow> oled" where
  "oled_write_cmd c d = d\<lparr>i2c := i2c d @ [(OLED_CMD, c)]\<rparr>"

definition oled_write_data :: "u8 \<Rightarrow> oled \<Rightarrow> oled" where
  "oled_write_data x d = d\<lparr>i2c := i2c d @ [(OLED_DATA, x)]\<rparr>"

definition oled_refresh :: "oled \<Rightarrow> oled" where
  "oled_refresh d =
     (let d = fold oled_write_cmd [0x21, 0, 127, 0x22, 0, 7] d
      in fold oled_write_data (oled_buffer d) d)"

definition oled_clear :: "oled \<Rightarrow> oled" where
  "oled_clear d = oled_refresh (d\<lparr>oled_buffer := replicate (OLED_WIDTH * OLED_HEIGHT div 8) 0\<rparr>)"

definition oled_init :: "bool \<Rightarrow> rt_err \<Rightarrow> oled \<Rightarrow> rt_err \<times> oled" where
  "oled_init found open_result d =
     (if \<not> found then (RT_ERROR, d)
      else if open_result \<noteq> RT_EOK then (open_result, d)
      else (RT_EOK, oled_clear (fold oled_write_cmd
        [0xAE, 0xD5, 0x80, 0xA8, 0x3F, 0xD3, 0x00, 0x40, 0x8D, 0x14, 0x20, 0x00, 0xA1, 0xC8, 0xDA, 0x12,
         0x81, 0xCF, 0xD9, 0xF1, 0xDB, 0x40, 0xA4, 0xA6, 0x2E, 0xAF] d)))"

definition oled_draw_point :: "u8 \<Rightarrow> u8 \<Rightarrow> u8 \<Rightarrow> oled \<Rightarrow> oled" where
  "oled_draw_point x y color d =
     (if OLED_WIDTH \<le> unat x \<or> OLED_HEIGHT \<le> unat y then d
      else
        let page = unat y div 8; b = unat y mod 8; i = unat x + page * OLED_WIDTH
        in if color \<noteq> 0
           then d\<lparr>oled_buffer := (oled_buffer d)[i := (oled_buffer d ! i) OR push_bit b 1]\<rparr>
           else d\<lparr>oled_buffer := (oled_buffer d)[i := (oled_buffer d ! i) AND NOT (push_bit b 1)]\<rparr>)"

text \<open>The character itself is not used: there is no font, every pixel of the cell is set.\<close>

definition oled_show_char :: "u8 \<Rightarrow> u8 \<Rightarrow> char \<Rightarrow> u8 \<Rightarrow> oled \<Rightarrow> oled" where
  "oled_show_char x y ch sz d =
     (if OLED_WIDTH - 1 < unat x \<or> OLED_HEIGHT - 1 < unat y then d
      else oled_refresh (fold (\<lambda>i. fold (\<lambda>j. oled_draw_point (x + of_nat j) (y + of_nat i) 1) [0..<unat sz])
             [0..<unat sz] d))"

text \<open>One turn of the loop of \<^verbatim>\<open>oled_show_string\<close>; the comparisons are between \<^verbatim>\<open>int\<close>s.\<close>

fun show_loop :: "u8 \<Rightarrow> u8 \<Rightarrow> string \<Rightarrow> u8 \<Rightarrow> oled \<Rightarrow> oled" where
  "show_loop x y [] sz d = d"
| "show_loop x y (c # cs) sz d =
     (let (x, y) = (if int OLED_WIDTH - uint sz < uint x then (0, y + sz) else (x, y));
          (x, y, d) = (if int OLED_HEIGHT - uint sz < uint y then (0, 0, oled_clear d) else (x, y, d));
          d = oled_show_char x y c sz d
      in show_loop (x + sz div 2) y cs sz d)"

definition oled_show_string :: "u8 \<Rightarrow> u8 \<Rightarrow> string \<Rightarrow> u8 \<Rightarrow> oled \<Rightarrow> oled" where
  "oled_show_string x y s sz d = oled_refresh (show_loop x y s sz d)"

text \<open>\<^verbatim>\<open>%d\<close> of the unsigned argument; eleven characters fit. \<^verbatim>\<open>len\<close> is unused.\<close>

definition oled_show_num :: "u8 \<Rightarrow> u8 \<Rightarrow> u32 \<Rightarrow> u8 \<Rightarrow> u8 \<Rightarrow> oled \<Rightarrow> oled" where
  "oled_show_num x y num len sz d =
     (let v = sint num
      in oled_show_string x y (take 11 ((if v < 0 then ''-'' else []) @ decimal (nat \<bar>v\<bar>))) sz d)"

definition oled_display_off :: "oled \<Rightarrow> oled" where "oled_display_off d = oled_write_cmd 0xAE d"
definition oled_display_on :: "oled \<Rightarrow> oled" where "oled_display_on d = oled_write_cmd 0xAF d"

section \<open>Pixels\<close>

definition oled_ok :: "oled \<Rightarrow> bool" where
  "oled_ok d \<longleftrightarrow> length (oled_buffer d) = OLED_WIDTH * OLED_HEIGHT div 8"

definition pixel :: "oled \<Rightarrow> nat \<Rightarrow> nat \<Rightarrow> bool" where
  "pixel d x y = bit (oled_buffer d ! (x + y div 8 * OLED_WIDTH)) (y mod 8)"

lemma pixel_index: "x < 128 \<Longrightarrow> y < 64 \<Longrightarrow> x + y div 8 * OLED_WIDTH < OLED_WIDTH * OLED_HEIGHT div 8"
proof -
  assume "x < 128" and "y < 64"
  then have "y div 8 < 8" by linarith
  with \<open>x < 128\<close> show ?thesis unfolding OLED_WIDTH_def OLED_HEIGHT_def by linarith
qed

lemma index_inj:
  assumes "x < 128" and "x' < 128" and "x + p * OLED_WIDTH = x' + p' * OLED_WIDTH"
  shows "x = x' \<and> p = p'"
proof -
  have "(x + p * 128) mod 128 = x" "(x' + p' * 128) mod 128 = x'"
    "(x + p * 128) div 128 = p" "(x' + p' * 128) div 128 = p'" using assms(1,2) by simp_all
  with assms(3) show ?thesis unfolding OLED_WIDTH_def by metis
qed

lemma bit_mask1: "k < 8 \<Longrightarrow> bit (push_bit b (1 :: u8)) k \<longleftrightarrow> k = b"
  by (auto simp: bit_push_bit_iff bit_1_iff simp del: push_bit_of_1)

lemma bit_set: "k < 8 \<Longrightarrow> bit ((v :: u8) OR push_bit b 1) k = (bit v k \<or> k = b)"
  by (simp add: bit_or_iff bit_mask1 del: push_bit_of_1)

lemma bit_clear: "k < 8 \<Longrightarrow> bit ((v :: u8) AND NOT (push_bit b 1)) k = (bit v k \<and> k \<noteq> b)"
  by (auto simp: bit_and_iff bit_not_iff bit_mask1 simp del: push_bit_of_1)

lemma buffer_of_if:
  "oled_buffer (if c then d\<lparr>oled_buffer := xs\<rparr> else d\<lparr>oled_buffer := ys\<rparr>) = (if c then xs else ys)"
  by simp

lemma draw_point_ok: "oled_ok d \<Longrightarrow> oled_ok (oled_draw_point x y c d)"
  by (simp add: oled_draw_point_def oled_ok_def Let_def)

lemma draw_point_pixel:
  assumes "oled_ok d" and "px < 128" and "py < 64"
  shows "pixel (oled_draw_point x y c d) px py =
    (if px = unat x \<and> py = unat y then c \<noteq> 0 else pixel d px py)"
proof (cases "OLED_WIDTH \<le> unat x \<or> OLED_HEIGHT \<le> unat y")
  case True
  then show ?thesis using assms by (auto simp: oled_draw_point_def OLED_WIDTH_def OLED_HEIGHT_def)
next
  case False
  then have x: "unat x < 128" and y: "unat y < 64" by (simp_all add: OLED_WIDTH_def OLED_HEIGHT_def)
  define i where "i = unat x + unat y div 8 * OLED_WIDTH"
  define k where "k = px + py div 8 * OLED_WIDTH"
  have i: "i < length (oled_buffer d)" and k: "k < length (oled_buffer d)"
    using assms pixel_index[OF x y] pixel_index[OF assms(2,3)] by (simp_all add: oled_ok_def i_def k_def)
  have ik: "i = k \<longleftrightarrow> unat x = px \<and> unat y div 8 = py div 8"
  proof
    assume "i = k"
    then show "unat x = px \<and> unat y div 8 = py div 8" 
      unfolding i_def k_def by (intro index_inj[OF x assms(2)])
  next
    assume "unat x = px \<and> unat y div 8 = py div 8"
    then show "i = k" by (simp only: i_def k_def)
  qed
  have same: "unat y = py" if "unat y div 8 = py div 8" "unat y mod 8 = py mod 8"
    using that by (metis div_mult_mod_eq)
  have b8: "py mod 8 < 8" by simp
  have b: "oled_buffer (oled_draw_point x y c d) = (if c \<noteq> 0
      then (oled_buffer d)[i := (oled_buffer d ! i) OR push_bit (unat y mod 8) 1]
      else (oled_buffer d)[i := (oled_buffer d ! i) AND NOT (push_bit (unat y mod 8) 1)])"
    using False by (simp only: oled_draw_point_def Let_def i_def if_False buffer_of_if)
  have buf: "oled_buffer (oled_draw_point x y c d) ! k =
      (if i = k then (if c \<noteq> 0 then (oled_buffer d ! k) OR push_bit (unat y mod 8) 1
                      else (oled_buffer d ! k) AND NOT (push_bit (unat y mod 8) 1))
       else oled_buffer d ! k)"
    unfolding b using nth_list_update[OF i] by (cases "c = 0"; cases "i = k") (simp_all only: simp_thms if_True if_False)
  show ?thesis
  proof (cases "i = k")
    case True
    then have same_page: "unat x = px" "unat y div 8 = py div 8" using ik by simp_all
    have "unat y = py \<longleftrightarrow> py mod 8 = unat y mod 8" using same same_page(2) by metis
    have v: "pixel (oled_draw_point x y c d) px py =
        (if c \<noteq> 0 then bit (oled_buffer d ! k) (py mod 8) \<or> py mod 8 = unat y mod 8
         else bit (oled_buffer d ! k) (py mod 8) \<and> py mod 8 \<noteq> unat y mod 8)"
      unfolding pixel_def k_def[symmetric] buf using True
      by (cases "c = 0") (simp_all only: bit_set[OF b8] bit_clear[OF b8] simp_thms if_True if_False)
    have "pixel d px py = bit (oled_buffer d ! k) (py mod 8)" by (simp only: pixel_def k_def)
    with v \<open>unat y = py \<longleftrightarrow> py mod 8 = unat y mod 8\<close> same_page(1) show ?thesis by auto
  next
    case False
    then have "\<not> (px = unat x \<and> py = unat y)" using ik by auto
    then have "pixel (oled_draw_point x y c d) px py = pixel d px py"
      using False by (simp add: pixel_def buf flip: k_def)
    with \<open>\<not> (px = unat x \<and> py = unat y)\<close> show ?thesis by auto
  qed
qed

text \<open>
  On a buffer of the right size \<^verbatim>\<open>oled_draw_point\<close> changes exactly the addressed
  pixel, to on or off by the colour, and nothing at all for coordinates outside 128 x 64; the
  buffer keeps its size.
\<close>

theorem draw_point_sets_one_pixel:
  assumes "oled_ok d"
  shows "oled_ok (oled_draw_point x y c d) \<and>
    (\<forall>px<128. \<forall>py<64. pixel (oled_draw_point x y c d) px py =
       (if px = unat x \<and> py = unat y then c \<noteq> 0 else pixel d px py))"
  using draw_point_ok[OF assms] draw_point_pixel[OF assms] by blast

definition blank :: oled where
  "blank = \<lparr>oled_buffer = replicate 1024 0, i2c = []\<rparr>"

theorem draw_point_sets_one_pixel_witness:
  "pixel (oled_draw_point 5 9 1 blank) 5 9 \<and> \<not> pixel (oled_draw_point 5 9 1 blank) 5 10"
proof -
  have "oled_ok blank" by (simp add: oled_ok_def blank_def OLED_WIDTH_def OLED_HEIGHT_def)
  moreover have "pixel blank 5 10 = False" by (simp add: pixel_def blank_def OLED_WIDTH_def)
  ultimately show ?thesis
    using draw_point_sets_one_pixel[of blank 5 9 1] by simp
qed

lemma fold_write_data: "fold oled_write_data xs d = d\<lparr>i2c := i2c d @ map (Pair OLED_DATA) xs\<rparr>"
  by (induction xs arbitrary: d) (simp_all add: oled_write_data_def)

lemma fold_write_cmd: "fold oled_write_cmd xs d = d\<lparr>i2c := i2c d @ map (Pair OLED_CMD) xs\<rparr>"
  by (induction xs arbitrary: d) (simp_all add: oled_write_cmd_def)

lemma refresh_sends: "oled_refresh d = d\<lparr>i2c := i2c d @ map (Pair OLED_CMD) [0x21, 0, 127, 0x22, 0, 7] @
    map (Pair OLED_DATA) (oled_buffer d)\<rparr>"
  by (simp only: oled_refresh_def Let_def fold_write_data fold_write_cmd) simp

end
