(* ===== verification/Iot_Node.thy ===== *)
theory Iot_Node
  imports Mqtt Dht Oled
begin

text \<open>
  The threads of \<^verbatim>\<open>lab5-2-iot-sensor-rtos/src/main.c\<close> as an interleaving of steps over the shared
  \<^verbatim>\<open>current_data\<close> and the semaphore \<^verbatim>\<open>data_ready_sem\<close>, which nothing else guards. One step is one
  access to a shared variable: the sensor thread stores the humidity, the temperature and the tick
  count and releases the semaphore; the publisher takes it and loads the three fields, in the order
  in which they are written in the call of \<^verbatim>\<open>rt_snprintf\<close>, and then calls \<^verbatim>\<open>mqtt_publish_data\<close>, which
  may fail (the thread ignores its answer) or not return. \<open>wifi_up\<close> is what \<^verbatim>\<open>wifi_is_connected\<close>
  returns; \<^verbatim>\<open>wifi_init\<close> has finished before the threads start. The value of a semaphore of RT-Thread has
  16 bits; \<open>release\<close> is what \<^verbatim>\<open>rt_sem_release\<close> makes of it, a parameter. \<open>good_reads\<close>, \<open>taken\<close> and
  \<open>attempts\<close> are ghost variables: the number of successful readings, the pairs they stored, and the
  messages handed to \<^verbatim>\<open>mqtt_publish_data\<close> with its answers.
\<close>

datatype sensor_pc = SReading | SStoreTemp u8 | SStamp bool | SRelease | SDelay

datatype mqtt_pc =
    WaitWifi | WaitData | LoadTemp | LoadHumi u8 | LoadTime u8 u8 | Publishing "u8 \<times> u8 \<times> u32" | MqttEnded

record node =
  temperature :: u8
  humidity :: u8
  timestamp :: u32
  data_ready_sem :: u16
  sensor_pc :: sensor_pc
  mqtt_pc :: mqtt_pc
  wifi_up :: bool
  good_reads :: nat
  taken :: "(u8 \<times> u8) list"
  attempts :: "((u8 \<times> u8 \<times> u32) \<times> rt_err) list"

definition published :: "node \<Rightarrow> (u8 \<times> u8 \<times> u32) list" where
  "published n = map fst (filter (\<lambda>(_, r). r = RT_EOK) (attempts n))"

definition node_start :: "bool \<Rightarrow> node" where
  "node_start up = \<lparr>temperature = 0, humidity = 0, timestamp = 0, data_ready_sem = 0,
     sensor_pc = SReading, mqtt_pc = WaitWifi, wifi_up = up, good_reads = 0, taken = [], attempts = []\<rparr>"

text \<open>
  \<open>sensor_ok\<close>: a DHT11 answered and \<^verbatim>\<open>*humidity\<close> is stored; \<open>sensor_dht22\<close>: \<^verbatim>\<open>RT_EOK\<close> with nothing
  stored; \<open>sensor_failed\<close>: no answer or a checksum error.
\<close>

inductive sensor_thread :: "(u16 \<Rightarrow> u16) \<Rightarrow> node \<Rightarrow> node \<Rightarrow> bool" for release where
  sensor_ok: "sensor_pc n = SReading \<Longrightarrow>
    sensor_thread release n (n\<lparr>humidity := h, good_reads := good_reads n + 1, sensor_pc := SStoreTemp t\<rparr>)"
| sensor_dht22: "sensor_pc n = SReading \<Longrightarrow>
    sensor_thread release n (n\<lparr>good_reads := good_reads n + 1, sensor_pc := SStamp True\<rparr>)"
| sensor_failed: "sensor_pc n = SReading \<Longrightarrow> sensor_thread release n (n\<lparr>sensor_pc := SStamp False\<rparr>)"
| sensor_temp: "sensor_pc n = SStoreTemp t \<Longrightarrow>
    sensor_thread release n (n\<lparr>temperature := t, taken := taken n @ [(t, humidity n)], sensor_pc := SStamp True\<rparr>)"
| sensor_stamp: "sensor_pc n = SStamp ok \<Longrightarrow>
    sensor_thread release n (n\<lparr>timestamp := now, sensor_pc := (if ok then SRelease else SDelay)\<rparr>)"
| sensor_release: "sensor_pc n = SRelease \<Longrightarrow>
    sensor_thread release n (n\<lparr>data_ready_sem := release (data_ready_sem n), sensor_pc := SDelay\<rparr>)"
| sensor_delay: "sensor_pc n = SDelay \<Longrightarrow> sensor_thread release n (n\<lparr>sensor_pc := SReading\<rparr>)"

inductive mqtt_thread :: "node \<Rightarrow> node \<Rightarrow> bool" where
  mqtt_ready: "mqtt_pc n = WaitWifi \<Longrightarrow> wifi_up n \<Longrightarrow> mqtt_thread n (n\<lparr>mqtt_pc := WaitData\<rparr>)"
| mqtt_init_failed: "mqtt_pc n = WaitWifi \<Longrightarrow> wifi_up n \<Longrightarrow> mqtt_thread n (n\<lparr>mqtt_pc := MqttEnded\<rparr>)"
| mqtt_take: "mqtt_pc n = WaitData \<Longrightarrow> 0 < data_ready_sem n \<Longrightarrow>
    mqtt_thread n (n\<lparr>data_ready_sem := data_ready_sem n - 1, mqtt_pc := LoadTemp\<rparr>)"
| mqtt_temp: "mqtt_pc n = LoadTemp \<Longrightarrow> mqtt_thread n (n\<lparr>mqtt_pc := LoadHumi (temperature n)\<rparr>)"
| mqtt_humi: "mqtt_pc n = LoadHumi t \<Longrightarrow> mqtt_thread n (n\<lparr>mqtt_pc := LoadTime t (humidity n)\<rparr>)"
| mqtt_publish: "mqtt_pc n = LoadTime t h \<Longrightarrow>
    mqtt_thread n (n\<lparr>mqtt_pc := Publishing (t, h, timestamp n)\<rparr>)"
| mqtt_published: "mqtt_pc n = Publishing msg \<Longrightarrow>
    mqtt_thread n (n\<lparr>attempts := attempts n @ [(msg, r)], mqtt_pc := WaitData\<rparr>)"

inductive node_reach :: "(u16 \<Rightarrow> u16) \<Rightarrow> node \<Rightarrow> bool" for release where
  node_init: "node_reach release (node_start up)"
| node_sensor: "node_reach release n \<Longrightarrow> sensor_thread release n n' \<Longrightarrow> node_reach release n'"
| node_mqtt: "node_reach release n \<Longrightarrow> mqtt_thread n n' \<Longrightarrow> node_reach release n'"

inductive_simps sensor_thread_simps: "sensor_thread release n n'"
inductive_simps mqtt_thread_simps: "mqtt_thread n n'"

section \<open>Counting messages\<close>

definition sensor_owes :: "sensor_pc \<Rightarrow> nat" where
  "sensor_owes p = (case p of SStoreTemp t \<Rightarrow> 1 | SStamp ok \<Rightarrow> (if ok then 1 else 0) | SRelease \<Rightarrow> 1 | _ \<Rightarrow> 0)"

definition mqtt_owes :: "mqtt_pc \<Rightarrow> nat" where
  "mqtt_owes p = (case p of LoadTemp \<Rightarrow> 1 | LoadHumi t \<Rightarrow> 1 | LoadTime t h \<Rightarrow> 1 | Publishing msg \<Rightarrow> 1 | _ \<Rightarrow> 0)"

definition in_flight :: "node \<Rightarrow> nat" where
  "in_flight n = unat (data_ready_sem n) + sensor_owes (sensor_pc n) + mqtt_owes (mqtt_pc n)"

lemmas owes_simps = in_flight_def sensor_owes_def mqtt_owes_def

text \<open>What \<^verbatim>\<open>rt_sem_release\<close> is documented to do below the largest value; at it, it may do anything.\<close>

definition sem_counts :: "(u16 \<Rightarrow> u16) \<Rightarrow> bool" where
  "sem_counts release \<longleftrightarrow> (\<forall>v. v \<noteq> 0xFFFF \<longrightarrow> release v = v + 1)"

lemma unat_lt_16: "unat (x :: u16) < 65536"
  using unsigned_less[of x] by simp

lemma unat_release: "sem_counts release \<Longrightarrow> unat (release v) \<le> unat v + 1 \<and> (unat v < 65535 \<longrightarrow> unat (release v) = unat v + 1)"
proof (cases "v = 0xFFFF")
  case True
  have "unat (release v) < 65536" by (rule unat_lt_16)
  then show ?thesis using True by simp
next
  case False
  assume "sem_counts release"
  then have r: "release v = v + 1" using False by (simp add: sem_counts_def)
  have "unat v \<noteq> unat (0xFFFF :: u16)" using False by (metis word_unat_eq_iff)
  then have "unat v < 65535" using unat_lt_16[of v] by simp
  then show ?thesis unfolding r using unat_add_exact[of v 1] by simp
qed

lemma unat_take: "(v :: u16) \<noteq> 0 \<Longrightarrow> unat v = Suc (unat (v - 1))"
  by (simp add: unat_minus_one unat_gt_0)

text \<open>The counts agree for the first 65535 readings.\<close>

definition count_inv :: "node \<Rightarrow> bool" where
  "count_inv n \<longleftrightarrow> length (attempts n) + in_flight n \<le> good_reads n \<and>
     (good_reads n < 65536 \<longrightarrow> length (attempts n) + in_flight n = good_reads n) \<and>
     (\<not> wifi_up n \<longrightarrow> mqtt_pc n = WaitWifi \<and> attempts n = [])"

lemma count_sensor: "sensor_thread release n n' \<Longrightarrow> sem_counts release \<Longrightarrow> count_inv n \<Longrightarrow> count_inv n'"
proof (induction rule: sensor_thread.induct)
  case (sensor_release n)
  have "unat (data_ready_sem n) < 65535" if "good_reads n < 65536"
    using sensor_release that by (simp add: count_inv_def owes_simps)
  then show ?case
    using sensor_release unat_release[of release "data_ready_sem n"] by (auto simp: count_inv_def owes_simps)
qed (auto simp: count_inv_def owes_simps)

lemma count_mqtt: "mqtt_thread n n' \<Longrightarrow> count_inv n \<Longrightarrow> count_inv n'"
proof (induction rule: mqtt_thread.induct)
  case (mqtt_take n)
  then show ?case using unat_take[of "data_ready_sem n"] by (auto simp: count_inv_def owes_simps word_gt_0)
qed (auto simp: count_inv_def owes_simps)

lemma node_inv: "node_reach release n \<Longrightarrow> sem_counts release \<Longrightarrow> count_inv n"
proof (induction rule: node_reach.induct)
  case (node_init up)
  show ?case by (simp add: node_start_def count_inv_def owes_simps)
qed (auto intro: count_sensor count_mqtt)

text \<open>The publisher on its own: once it waits for data it takes what is signalled, message by message.\<close>

lemma publisher_one:
  assumes "mqtt_pc n = WaitData" and "data_ready_sem n \<noteq> 0"
  shows "\<exists>n'. mqtt_thread\<^sup>*\<^sup>* n n' \<and> mqtt_pc n' = WaitData \<and> data_ready_sem n' = data_ready_sem n - 1 \<and>
    sensor_pc n' = sensor_pc n \<and> good_reads n' = good_reads n"
proof -
  define n1 where "n1 = n\<lparr>data_ready_sem := data_ready_sem n - 1, mqtt_pc := LoadTemp\<rparr>"
  define n2 where "n2 = n1\<lparr>mqtt_pc := LoadHumi (temperature n1)\<rparr>"
  define n3 where "n3 = n2\<lparr>mqtt_pc := LoadTime (temperature n1) (humidity n2)\<rparr>"
  define n4 where "n4 = n3\<lparr>mqtt_pc := Publishing (temperature n1, humidity n2, timestamp n3)\<rparr>"
  define n5 where "n5 = n4\<lparr>attempts := attempts n4 @ [((temperature n1, humidity n2, timestamp n3), RT_EOK)], mqtt_pc := WaitData\<rparr>"
  have "mqtt_thread n n1" unfolding n1_def by (rule mqtt_take) (use assms in \<open>simp_all add: word_gt_0\<close>)
  moreover have "mqtt_thread n1 n2" unfolding n2_def by (rule mqtt_temp) (simp add: n1_def)
  moreover have "mqtt_thread n2 n3" unfolding n3_def by (rule mqtt_humi) (simp add: n2_def)
  moreover have "mqtt_thread n3 n4" unfolding n4_def by (rule mqtt_publish) (simp add: n3_def)
  moreover have "mqtt_thread n4 n5" unfolding n5_def by (rule mqtt_published) (simp add: n4_def)
  ultimately have "mqtt_thread\<^sup>*\<^sup>* n n5" by (meson converse_rtranclp_into_rtranclp rtranclp.rtrancl_refl)
  then show ?thesis by (intro exI[of _ n5]) (simp add: n5_def n4_def n3_def n2_def n1_def)
qed

lemma publisher_drains:
  assumes "mqtt_pc n = WaitData"
  shows "\<exists>n'. mqtt_thread\<^sup>*\<^sup>* n n' \<and> mqtt_pc n' = WaitData \<and> data_ready_sem n' = 0 \<and>
    sensor_pc n' = sensor_pc n \<and> good_reads n' = good_reads n"
  using assms
proof (induction "unat (data_ready_sem n)" arbitrary: n)
  case 0
  then show ?case by (intro exI[of _ n]) (simp add: unat_eq_zero)
next
  case (Suc k)
  then have nz: "data_ready_sem n \<noteq> 0" by auto
  from publisher_one[OF Suc.prems nz] obtain n1 where n1: "mqtt_thread\<^sup>*\<^sup>* n n1" "mqtt_pc n1 = WaitData"
    "data_ready_sem n1 = data_ready_sem n - 1" "sensor_pc n1 = sensor_pc n" "good_reads n1 = good_reads n" by blast
  have "k = unat (data_ready_sem n1)" using Suc.hyps(2) unat_take[OF nz] n1(3) by simp
  from Suc.hyps(1)[OF this n1(2)] n1 show ?case by (metis rtranclp_trans)
qed

lemma reach_mqtt_star: "mqtt_thread\<^sup>*\<^sup>* n n' \<Longrightarrow> node_reach release n \<Longrightarrow> node_reach release n'"
  by (induction rule: rtranclp_induct) (auto intro: node_mqtt)

text \<open>
  Property C24. In every interleaving of the sensor and the publishing thread each successful
  reading leads to at most one call of \<^verbatim>\<open>mqtt_publish_data\<close>, whatever the calls answer: the calls made
  and those signalled or in progress are never more than the successful readings, and as many for
  the first 65535 readings, up to which the semaphore cannot be full. Messages that arrived are
  among those calls, a failed one is not repeated, and nothing is attempted unless WiFi is up.
  A publisher that waits for data, and whose calls return, can always catch up with what is signalled.
\<close>

theorem readings_published_once:
  assumes "sem_counts release" and "node_reach release n"
  shows "length (attempts n) + in_flight n \<le> good_reads n \<and>
    (good_reads n \<le> 65535 \<longrightarrow> length (attempts n) + in_flight n = good_reads n) \<and>
    length (published n) \<le> length (attempts n) \<and> (attempts n \<noteq> [] \<longrightarrow> wifi_up n) \<and>
    (mqtt_pc n = WaitData \<longrightarrow> (\<exists>n'. mqtt_thread\<^sup>*\<^sup>* n n' \<and> good_reads n' = good_reads n \<and>
      in_flight n' = sensor_owes (sensor_pc n) \<and>
      (good_reads n \<le> 65535 \<longrightarrow> length (attempts n') = good_reads n - sensor_owes (sensor_pc n))))"
proof -
  have inv: "count_inv n" by (rule node_inv[OF assms(2,1)])
  have "\<exists>n'. mqtt_thread\<^sup>*\<^sup>* n n' \<and> good_reads n' = good_reads n \<and> in_flight n' = sensor_owes (sensor_pc n) \<and>
      (good_reads n \<le> 65535 \<longrightarrow> length (attempts n') = good_reads n - sensor_owes (sensor_pc n))"
    if "mqtt_pc n = WaitData"
  proof -
    from publisher_drains[OF that] obtain n' where n': "mqtt_thread\<^sup>*\<^sup>* n n'" "mqtt_pc n' = WaitData" "data_ready_sem n' = 0"
      "sensor_pc n' = sensor_pc n" "good_reads n' = good_reads n" by blast
    then have "in_flight n' = sensor_owes (sensor_pc n)" by (simp add: in_flight_def mqtt_owes_def)
    moreover have "count_inv n'" by (rule node_inv[OF reach_mqtt_star[OF n'(1) assms(2)] assms(1)])
    ultimately show ?thesis using n'(1,5) by (intro exI[of _ n']) (auto simp: count_inv_def)
  qed
  then show ?thesis using inv by (auto simp: count_inv_def published_def intro: order.trans[OF length_filter_le])
qed

section \<open>Torn messages\<close>

text \<open>
  A run of both threads, as a list of turns: the next step of the named thread, with a semaphore that
  counts (and stays at its largest value).
\<close>

definition sem_up :: "u16 \<Rightarrow> u16" where
  "sem_up v = (if v = 0xFFFF then v else v + 1)"

lemma sem_up_counts: "sem_counts sem_up"
  by (simp add: sem_counts_def sem_up_def)

datatype turn = Reading u8 u8 | Stored | Stamped u32 | Released | Delayed | Connected | Taken | Temp | Humi | Sent | Published rt_err

fun take_turn :: "turn \<Rightarrow> node \<Rightarrow> node" where
  "take_turn (Reading t h) n = n\<lparr>humidity := h, good_reads := good_reads n + 1, sensor_pc := SStoreTemp t\<rparr>"
| "take_turn Stored n = (case sensor_pc n of SStoreTemp t \<Rightarrow>
     n\<lparr>temperature := t, taken := taken n @ [(t, humidity n)], sensor_pc := SStamp True\<rparr> | _ \<Rightarrow> n)"
| "take_turn (Stamped now) n = n\<lparr>timestamp := now, sensor_pc := SRelease\<rparr>"
| "take_turn Released n = n\<lparr>data_ready_sem := sem_up (data_ready_sem n), sensor_pc := SDelay\<rparr>"
| "take_turn Delayed n = n\<lparr>sensor_pc := SReading\<rparr>"
| "take_turn Connected n = n\<lparr>mqtt_pc := WaitData\<rparr>"
| "take_turn Taken n = n\<lparr>data_ready_sem := data_ready_sem n - 1, mqtt_pc := LoadTemp\<rparr>"
| "take_turn Temp n = n\<lparr>mqtt_pc := LoadHumi (temperature n)\<rparr>"
| "take_turn Humi n = (case mqtt_pc n of LoadHumi t \<Rightarrow> n\<lparr>mqtt_pc := LoadTime t (humidity n)\<rparr> | _ \<Rightarrow> n)"
| "take_turn Sent n = (case mqtt_pc n of LoadTime t h \<Rightarrow> n\<lparr>mqtt_pc := Publishing (t, h, timestamp n)\<rparr> | _ \<Rightarrow> n)"
| "take_turn (Published r) n = (case mqtt_pc n of Publishing msg \<Rightarrow>
     n\<lparr>attempts := attempts n @ [(msg, r)], mqtt_pc := WaitData\<rparr> | _ \<Rightarrow> n)"

fun enabled :: "turn \<Rightarrow> node \<Rightarrow> bool" where
  "enabled (Reading t h) n = (sensor_pc n = SReading)"
| "enabled Stored n = (case sensor_pc n of SStoreTemp t \<Rightarrow> True | _ \<Rightarrow> False)"
| "enabled (Stamped now) n = (sensor_pc n = SStamp True)"
| "enabled Released n = (sensor_pc n = SRelease)"
| "enabled Delayed n = (sensor_pc n = SDelay)"
| "enabled Connected n = (mqtt_pc n = WaitWifi \<and> wifi_up n)"
| "enabled Taken n = (mqtt_pc n = WaitData \<and> 0 < data_ready_sem n)"
| "enabled Temp n = (mqtt_pc n = LoadTemp)"
| "enabled Humi n = (case mqtt_pc n of LoadHumi t \<Rightarrow> True | _ \<Rightarrow> False)"
| "enabled Sent n = (case mqtt_pc n of LoadTime t h \<Rightarrow> True | _ \<Rightarrow> False)"
| "enabled (Published r) n = (case mqtt_pc n of Publishing msg \<Rightarrow> True | _ \<Rightarrow> False)"

fun play :: "turn list \<Rightarrow> node \<Rightarrow> node option" where
  "play [] n = Some n"
| "play (t # ts) n = (if enabled t n then play ts (take_turn t n) else None)"

lemma turn_reach: "node_reach sem_up n \<Longrightarrow> enabled t n \<Longrightarrow> node_reach sem_up (take_turn t n)"
proof (cases t)
  case (Stamped now)
  assume "node_reach sem_up n" "enabled t n"
  then show ?thesis using Stamped sensor_stamp[of n True sem_up now] by (auto intro: node_sensor)
qed (auto split: sensor_pc.splits mqtt_pc.splits intro: node_sensor node_mqtt
    sensor_thread.intros[unfolded Suc_eq_plus1[symmetric]] mqtt_thread.intros[unfolded One_nat_def])

lemma play_reach: "play ts n = Some n' \<Longrightarrow> node_reach sem_up n \<Longrightarrow> node_reach sem_up n'"
  by (induction ts arbitrary: n) (auto split: if_splits intro: turn_reach)

text \<open>
  Nothing orders the publisher's loads against the next reading: there is a run of
  the two threads in which the published message pairs the temperature of one reading with the
  humidity of another, a pair that no reading ever returned.
\<close>

theorem published_reading_can_be_torn:
  "\<exists>n t h ts. node_reach sem_up n \<and> (t, h, ts) \<in> set (published n) \<and> (t, h) \<notin> set (taken n) \<and> length (taken n) = 2"
proof -
  let ?run = "[Connected, Reading 20 50, Stored, Stamped 1, Released, Delayed, Taken, Temp,
    Reading 25 60, Humi, Stored, Sent, Published RT_EOK]"
  obtain n where n: "play ?run (node_start True) = Some n" and p: "attempts n = [((20, 60, 1), RT_EOK)]"
    and "taken n = [(20, 50), (25, 60)]"
    by (simp add: node_start_def sem_up_def)
  moreover have "node_reach sem_up n" by (rule play_reach[OF n node_init])
  ultimately show ?thesis by (intro exI[of _ n] exI[of _ 20] exI[of _ 60] exI[of _ 1]) (simp add: published_def)
qed

text \<open>Two readings; the call for the first one fails and is not repeated.\<close>

theorem readings_published_once_witness:
  "\<exists>n. node_reach sem_up n \<and> good_reads n = 2 \<and> length (attempts n) = 2 \<and> published n = [(25, 60, 2)]"
proof -
  let ?run = "[Connected, Reading 20 50, Stored, Stamped 1, Released, Taken, Temp, Humi, Sent, Published RT_ERROR,
    Delayed, Reading 25 60, Stored, Stamped 2, Released, Taken, Temp, Humi, Sent, Published RT_EOK]"
  obtain n where n: "play ?run (node_start True) = Some n" and v: "good_reads n = 2" "in_flight n = 0" "published n = [(25, 60, 2)]"
    by (simp add: node_start_def sem_up_def owes_simps published_def)
  have r: "node_reach sem_up n" by (rule play_reach[OF n node_init])
  with readings_published_once[OF sem_up_counts r] v show ?thesis by auto
qed

end
