(* ===== verification/Oled_Facts.thy ===== *)
theory Oled_Facts
  imports Oled
begin

text \<open>
  What \<^verbatim>\<open>oled_show_string\<close> of \<^verbatim>\<open>oled_display.c\<close> puts on the screen: a solid bar whose width depends on
  the length of the text only, since the driver has no font.
\<close>

section \<open>Rectangles\<close>

definition in_rect :: "nat \<Rightarrow> nat \<Rightarrow> nat \<Rightarrow> nat \<Rightarrow> nat \<Rightarrow> nat \<Rightarrow> bool" where
  "in_rect x y w h px py \<longleftrightarrow> x \<le> px \<and> px < x + w \<and> y \<le> py \<and> py < y + h"

text \<open>\<open>paints d d' R\<close>: the pixels of \<open>R\<close> have been switched on and nothing else has changed.\<close>

definition paints :: "oled \<Rightarrow> oled \<Rightarrow> (nat \<Rightarrow> nat \<Rightarrow> bool) \<Rightarrow> bool" where
  "paints d d' R \<longleftrightarrow> oled_ok d' \<and> (\<forall>px py. px < 128 \<and> py < 64 \<longrightarrow> pixel d' px py = (pixel d px py \<or> R px py))"

lemma paints_refl: "oled_ok d \<Longrightarrow> paints d d (\<lambda>_ _. False)"
  by (simp add: paints_def)

lemma paints_trans: "paints d d' R \<Longrightarrow> paints d' d'' S \<Longrightarrow> paints d d'' (\<lambda>px py. R px py \<or> S px py)"
  by (auto simp: paints_def)

lemma paints_cong:
  "paints d d' R \<Longrightarrow> (\<And>px py. px < 128 \<Longrightarrow> py < 64 \<Longrightarrow> R px py = S px py) \<Longrightarrow> paints d d' S"
  by (auto simp: paints_def)

lemma paints_refresh: "paints d d' R \<Longrightarrow> paints d (oled_refresh d') R"
  by (simp add: paints_def refresh_sends oled_ok_def pixel_def)

lemma paints_point: "oled_ok d \<Longrightarrow> paints d (oled_draw_point x y 1 d) (\<lambda>px py. px = unat x \<and> py = unat y)"
  by (auto simp: paints_def draw_point_ok draw_point_pixel)

lemma unat_add_nat: "unat (x :: u8) + k < 256 \<Longrightarrow> unat (x + of_nat k) = unat x + k"
  by (simp add: unat_word_ariths unat_of_nat)

lemma paints_row:
  assumes "oled_ok d" and "unat x + w \<le> 256"
  shows "paints d (fold (\<lambda>j. oled_draw_point (x + of_nat j) y 1) [0..<w] d) (in_rect (unat x) (unat y) w 1)"
  using assms(2)
proof (induction w)
  case 0
  then show ?case using paints_refl[OF assms(1)] by (auto simp: in_rect_def paints_def)
next
  case (Suc w)
  let ?d = "fold (\<lambda>j. oled_draw_point (x + of_nat j) y 1) [0..<w] d"
  have p: "paints d ?d (in_rect (unat x) (unat y) w 1)" using Suc by simp
  have u: "unat (x + of_nat w) = unat x + w" using Suc.prems by (intro unat_add_nat) simp
  have "paints ?d (oled_draw_point (x + of_nat w) y 1 ?d) (\<lambda>px py. px = unat x + w \<and> py = unat y)"
    using paints_point[of ?d "x + of_nat w" y] p u by (simp add: paints_def)
  from paints_trans[OF p this] show ?case
    by (simp, elim paints_cong) (auto simp: in_rect_def)
qed

lemma paints_rows:
  assumes "oled_ok d" and "unat x + w \<le> 256" and "unat y + h \<le> 256"
  shows "paints d (fold (\<lambda>i. fold (\<lambda>j. oled_draw_point (x + of_nat j) (y + of_nat i) 1) [0..<w]) [0..<h] d)
    (in_rect (unat x) (unat y) w h)"
  using assms(3)
proof (induction h)
  case 0
  then show ?case using paints_refl[OF assms(1)] by (auto simp: in_rect_def paints_def)
next
  case (Suc h)
  let ?d = "fold (\<lambda>i. fold (\<lambda>j. oled_draw_point (x + of_nat j) (y + of_nat i) 1) [0..<w]) [0..<h] d"
  have p: "paints d ?d (in_rect (unat x) (unat y) w h)" using Suc by simp
  have u: "unat (y + of_nat h) = unat y + h" using Suc.prems by (intro unat_add_nat) simp
  have "paints ?d (fold (\<lambda>j. oled_draw_point (x + of_nat j) (y + of_nat h) 1) [0..<w] ?d)
      (in_rect (unat x) (unat y + h) w 1)"
    using paints_row[of ?d x w "y + of_nat h"] p u assms(2) by (simp add: paints_def)
  from paints_trans[OF p this] show ?case
    by (simp, elim paints_cong) (auto simp: in_rect_def)
qed

lemma paints_char:
  assumes "oled_ok d" and "unat x + unat sz \<le> 128" and "unat y + unat sz \<le> 64" and "0 < unat sz"
  shows "paints d (oled_show_char x y c sz d) (in_rect (unat x) (unat y) (unat sz) (unat sz))"
  using paints_refresh[OF paints_rows[OF assms(1), of x "unat sz" y "unat sz"]] assms(2-4)
  by (simp add: oled_show_char_def OLED_WIDTH_def OLED_HEIGHT_def)

text \<open>A text that fits the rest of the line; a cell is as wide as high and the next one starts half way.\<close>

lemma paints_loop:
  assumes "oled_ok d" and "0 < unat sz" and "unat y + unat sz \<le> 64"
    and "cs \<noteq> []" and "unat x + (length cs - 1) * (unat sz div 2) + unat sz \<le> 128"
  shows "paints d (show_loop x y cs sz d)
    (in_rect (unat x) (unat y) ((length cs - 1) * (unat sz div 2) + unat sz) (unat sz))"
  using assms
proof (induction cs arbitrary: x d)
  case (Cons c cs)
  let ?d = "oled_show_char x y c sz d"
  have x: "unat x + unat sz \<le> 128" using Cons.prems(5) by simp
  have fits: "\<not> int OLED_WIDTH - uint sz < uint x" "\<not> int OLED_HEIGHT - uint sz < uint y"
    using x Cons.prems(3) unfolding OLED_WIDTH_def OLED_HEIGHT_def uint_nat by linarith+
  have p: "paints d ?d (in_rect (unat x) (unat y) (unat sz) (unat sz))"
    by (rule paints_char) (use x Cons.prems in auto)
  show ?case
  proof (cases "cs = []")
    case True
    then show ?thesis using p fits by (simp add: Let_def)
  next
    case False
    have half: "unat (sz div 2) = unat sz div 2" by (simp add: unat_div)
    obtain k where k: "length cs = Suc k" using False by (cases cs) auto
    have u: "unat (x + sz div 2) = unat x + unat sz div 2"
      using x by (simp add: unat_word_ariths half)
    have "paints ?d (show_loop (x + sz div 2) y cs sz ?d)
        (in_rect (unat (x + sz div 2)) (unat y) ((length cs - 1) * (unat sz div 2) + unat sz) (unat sz))"
      by (rule Cons.IH) (use p Cons.prems False u k in \<open>auto simp: paints_def\<close>)
    from paints_trans[OF p this[unfolded u]] show ?thesis
      using fits k by (simp add: Let_def, elim paints_cong) (auto simp: in_rect_def)
  qed
qed simp

text \<open>
  A text that fits its line is drawn as one solid bar: \<^verbatim>\<open>oled_show_string\<close> switches on every
  pixel of a rectangle whose width depends on the number of characters only, and no other pixel
  changes; what the characters are makes no difference.
\<close>

theorem show_string_draws_bar:
  assumes "oled_ok d" and "s \<noteq> []" and "0 < unat sz" and "unat y + unat sz \<le> 64"
    and "unat x + (length s - 1) * (unat sz div 2) + unat sz \<le> 128"
  shows "oled_ok (oled_show_string x y s sz d) \<and>
    (\<forall>px py. px < 128 \<and> py < 64 \<longrightarrow> pixel (oled_show_string x y s sz d) px py =
      (pixel d px py \<or> unat x \<le> px \<and> px < unat x + (length s - 1) * (unat sz div 2) + unat sz
         \<and> unat y \<le> py \<and> py < unat y + unat sz))"
proof -
  have "paints d (oled_show_string x y s sz d)
      (in_rect (unat x) (unat y) ((length s - 1) * (unat sz div 2) + unat sz) (unat sz))"
    unfolding oled_show_string_def by (rule paints_refresh, rule paints_loop) (use assms in auto)
  then show ?thesis by (simp add: paints_def in_rect_def add.assoc)
qed

theorem show_string_draws_bar_witness:
  "pixel (oled_show_string 0 4 ''Temp'' 12 blank) 29 15 \<and> \<not> pixel (oled_show_string 0 4 ''Temp'' 12 blank) 30 15"
proof -
  have "oled_ok blank" by (simp add: oled_ok_def blank_def OLED_WIDTH_def OLED_HEIGHT_def)
  moreover have "pixel blank 30 15 = False" by (simp add: pixel_def blank_def OLED_WIDTH_def)
  ultimately show ?thesis using show_string_draws_bar[of blank "''Temp''" 12 4 0] by simp
qed

end
