(* ===== verification/Iot_Main.thy ===== *)
theory Iot_Main
  imports Iot_Node Oled_Facts
begin

text \<open>
  The rest of \<^verbatim>\<open>lab5-2-iot-sensor-rtos/src/main.c\<close>: the display thread (built with \<^verbatim>\<open>OLED_ENABLE\<close>) over
  the display model, and \<^verbatim>\<open>main\<close>, which creates the threads. The text that \<^verbatim>\<open>rt_snprintf\<close> makes of a
  \<^verbatim>\<open>float\<close> with \<^verbatim>\<open>%.1f\<close> is a parameter; what the kernel of RT-Thread answers is one too.
\<close>

section \<open>The display thread\<close>

definition display_start :: "oled \<Rightarrow> oled" where
  "display_start d =
     oled_show_string 0 2 ''Initializing...'' 12 (oled_show_string 0 0 ''IoT Sensor'' 16 (oled_clear d))"

text \<open>
  One turn of the loop, for the texts of the two readings and the answer of \<^verbatim>\<open>wifi_is_connected\<close>. The
  buffers have 20 bytes.
\<close>

definition display_turn :: "string \<times> string \<times> bool \<Rightarrow> oled \<Rightarrow> oled" where
  "display_turn = (\<lambda>(t, h, connected) d.
     let temp_str = take 19 (''Temp: '' @ t @ ''C'');
         humi_str = take 19 (''Humi: '' @ h @ ''%'');
         d = oled_show_string 0 4 temp_str 12 d;
         d = oled_show_string 0 6 humi_str 12 d
     in oled_show_string 0 8 (if connected then ''WiFi: Connected'' else ''WiFi: Disconnected'') 12 d)"

text \<open>The thread up to some turn of its loop; it returns at once when there is no display.\<close>

definition display_thread_entry :: "bool \<Rightarrow> rt_err \<Rightarrow> (string \<times> string \<times> bool) list \<Rightarrow> oled \<Rightarrow> oled" where
  "display_thread_entry found open_result turns d =
     (let (r, d) = oled_init found open_result d
      in if r \<noteq> RT_EOK then d else fold display_turn turns (display_start d))"

section \<open>\<^verbatim>\<open>main\<close>\<close>

datatype iot_thread = SensorThread | MqttThread | DisplayThread

text \<open>
  \<open>sem_ok\<close> and \<open>created\<close> are the answers of \<^verbatim>\<open>rt_sem_create\<close> and \<^verbatim>\<open>rt_thread_create\<close>. The result is what
  \<^verbatim>\<open>main\<close> returns, the threads it starts, and the WiFi driver's state; \<open>None\<close> where \<^verbatim>\<open>wifi_init\<close> does
  not return.
\<close>

definition iot_main ::
  "bool \<Rightarrow> bool \<Rightarrow> (iot_thread \<Rightarrow> bool) \<Rightarrow> bool \<Rightarrow> rt_err \<Rightarrow> wifi \<Rightarrow> (int \<times> iot_thread list \<times> wifi) option" where
  "iot_main oled_enable sem_ok created uart_found open_result w =
     (if \<not> sem_ok then Some (-1, [], w)
      else do {
        (r, w) \<leftarrow> wifi_init uart_found open_result w;
        Some (0, filter created ([SensorThread, MqttThread] @ (if oled_enable then [DisplayThread] else [])), w)
      })"

text \<open>Whatever \<^verbatim>\<open>wifi_init\<close> answers, the threads are started.\<close>

lemma iot_main_ignores_wifi:
  assumes "wifi_init uart_found open_result w = Some (r, w')"
  shows "iot_main oled True (\<lambda>_. True) uart_found open_result w
    = Some (0, [SensorThread, MqttThread] @ (if oled then [DisplayThread] else []), w')"
  using assms by (simp add: iot_main_def)

section \<open>What the display shows\<close>

text \<open>The width of a text at size 12.\<close>

definition bar :: "nat \<Rightarrow> nat" where
  "bar n = (n - 1) * 6 + 12"

text \<open>What of a turn matters: the lengths of the texts and the connection.\<close>

definition shape :: "string \<times> string \<times> bool \<Rightarrow> nat \<times> nat \<times> bool" where
  "shape = (\<lambda>(t, h, connected). (length t, length h, connected))"

definition turn_picture :: "nat \<times> nat \<times> bool \<Rightarrow> nat \<Rightarrow> nat \<Rightarrow> bool" where
  "turn_picture = (\<lambda>(t, h, connected) px py.
     px < bar (min 19 (t + 7)) \<and> 4 \<le> py \<and> py < 16 \<or>
     px < bar (min 19 (h + 7)) \<and> 6 \<le> py \<and> py < 18 \<or>
     px < (if connected then 96 else 114) \<and> 8 \<le> py \<and> py < 20)"

lemma paints_string:
  assumes "oled_ok d" and "s \<noteq> []" and "0 < unat sz" and "unat y + unat sz \<le> 64"
    and "(length s - 1) * (unat sz div 2) + unat sz \<le> 128"
  shows "paints d (oled_show_string 0 y s sz d)
    (\<lambda>px py. px < (length s - 1) * (unat sz div 2) + unat sz \<and> unat y \<le> py \<and> py < unat y + unat sz)"
proof -
  have "paints d (oled_show_string 0 y s sz d)
      (in_rect (unat (0 :: u8)) (unat y) ((length s - 1) * (unat sz div 2) + unat sz) (unat sz))"
    unfolding oled_show_string_def by (rule paints_refresh, rule paints_loop) (use assms in auto)
  then show ?thesis by (elim paints_cong) (simp add: in_rect_def)
qed

lemma paints_text:
  assumes "oled_ok d" and "s \<noteq> []" and "length s \<le> 19" and "unat y \<le> 52"
  shows "paints d (oled_show_string 0 y s 12 d) (\<lambda>px py. px < bar (length s) \<and> unat y \<le> py \<and> py < unat y + 12)"
  using paints_string[of d s 12 y] assms by (simp add: bar_def)

lemma paints_turn: "oled_ok d \<Longrightarrow> paints d (display_turn ob d) (turn_picture (shape ob))"
proof -
  assume d: "oled_ok d"
  obtain t h c where ob: "ob = (t, h, c)" by (cases ob) auto
  define t' where "t' = take 19 (''Temp: '' @ t @ ''C'')"
  define h' where "h' = take 19 (''Humi: '' @ h @ ''%'')"
  define w where "w = (if c then ''WiFi: Connected'' else ''WiFi: Disconnected'')"
  have len: "length t' = min 19 (length t + 7)" "length h' = min 19 (length h + 7)"
    by (simp_all add: t'_def h'_def)
  have ne: "t' \<noteq> []" "h' \<noteq> []" "w \<noteq> []" by (simp_all add: t'_def h'_def w_def)
  have wl: "bar (length w) = (if c then 96 else 114)" "length w \<le> 19" by (simp_all add: w_def bar_def)
  have p1: "paints d (oled_show_string 0 4 t' 12 d) (\<lambda>px py. px < bar (length t') \<and> 4 \<le> py \<and> py < 16)" (is "paints d ?d1 _")
    using paints_text[of d t' 4] d ne len by simp
  have p2: "paints ?d1 (oled_show_string 0 6 h' 12 ?d1) (\<lambda>px py. px < bar (length h') \<and> 6 \<le> py \<and> py < 18)" (is "paints _ ?d2 _")
    using paints_text[of ?d1 h' 6] p1 ne len by (simp add: paints_def)
  have p3: "paints ?d2 (oled_show_string 0 8 w 12 ?d2) (\<lambda>px py. px < bar (length w) \<and> 8 \<le> py \<and> py < 20)"
    using paints_text[of ?d2 w 8] p2 ne wl by (simp add: paints_def)
  have "display_turn ob d = oled_show_string 0 8 w 12 ?d2"
    by (simp add: display_turn_def ob t'_def h'_def w_def Let_def)
  then show ?thesis
    using paints_trans[OF paints_trans[OF p1 p2] p3] by (simp, elim paints_cong) (auto simp: turn_picture_def shape_def ob len wl)
qed

lemma paints_turns: "oled_ok d \<Longrightarrow> paints d (fold display_turn obs d) (\<lambda>px py. \<exists>ob\<in>set obs. turn_picture (shape ob) px py)"
proof (induction obs arbitrary: d)
  case Nil
  then show ?case using paints_refl by simp
next
  case (Cons ob obs)
  have p: "paints d (display_turn ob d) (turn_picture (shape ob))" using paints_turn Cons.prems .
  from paints_trans[OF p Cons.IH] p show ?case by (simp add: paints_def)
qed

lemma clear_blank: "oled_ok (oled_clear d) \<and> (\<forall>px py. px < 128 \<and> py < 64 \<longrightarrow> \<not> pixel (oled_clear d) px py)"
  using pixel_index by (auto simp: oled_clear_def refresh_sends oled_ok_def pixel_def simp del: mult_Suc_right)

lemma paints_start:
  "paints (oled_clear d) (display_start d) (\<lambda>px py. px < 88 \<and> py < 16 \<or> px < 96 \<and> 2 \<le> py \<and> py < 14)"
proof -
  have p1: "paints (oled_clear d) (oled_show_string 0 0 ''IoT Sensor'' 16 (oled_clear d)) (\<lambda>px py. px < 88 \<and> 0 \<le> py \<and> py < 16)"
    (is "paints _ ?d1 _")
    using paints_string[of "oled_clear d" "''IoT Sensor''" 16 0] clear_blank[of d] by simp
  have p2: "paints ?d1 (oled_show_string 0 2 ''Initializing...'' 12 ?d1) (\<lambda>px py. px < 96 \<and> 2 \<le> py \<and> py < 14)"
    using paints_text[of ?d1 "''Initializing...''" 2] p1 by (simp add: paints_def bar_def)
  show ?thesis using paints_trans[OF p1 p2] by (simp add: display_start_def)
qed

text \<open>
  Property C25. The screen shows lengths, not data. After any number of turns of the display thread
  the lit pixels are two bars from the start and, for every turn so far, three bars whose widths
  follow from the number of characters of the texts and from the state of the connection; bars
  overlap by ten rows and are never cleared. Two nodes with different readings of the same length
  show the same picture.
\<close>

theorem display_shows_lengths:
  "(\<forall>px py. px < 128 \<and> py < 64 \<longrightarrow> pixel (display_thread_entry True RT_EOK turns d) px py =
      (px < 88 \<and> py < 16 \<or> px < 96 \<and> 2 \<le> py \<and> py < 14 \<or>
       (\<exists>v. v \<in> set (map shape turns) \<and> turn_picture v px py))) \<and>
   (map shape turns = map shape turns' \<longrightarrow>
    (\<forall>px py. px < 128 \<and> py < 64 \<longrightarrow>
      pixel (display_thread_entry True RT_EOK turns d) px py = pixel (display_thread_entry True RT_EOK turns' d') px py))"
proof -
  have pic: "pixel (display_thread_entry True RT_EOK turns d) px py =
      (px < 88 \<and> py < 16 \<or> px < 96 \<and> 2 \<le> py \<and> py < 14 \<or>
       (\<exists>v. v \<in> set (map shape turns) \<and> turn_picture v px py))"
    if "px < 128" "py < 64" for turns d px py
  proof -
    let ?d = "snd (oled_init True RT_EOK d)"
    have s: "paints (oled_clear ?d) (display_start ?d) (\<lambda>px py. px < 88 \<and> py < 16 \<or> px < 96 \<and> 2 \<le> py \<and> py < 14)"
      by (rule paints_start)
    then have "paints (display_start ?d) (fold display_turn turns (display_start ?d))
        (\<lambda>px py. \<exists>ob\<in>set turns. turn_picture (shape ob) px py)"
      by (intro paints_turns) (simp add: paints_def)
    from paints_trans[OF s this] that clear_blank[of ?d]
    have "pixel (fold display_turn turns (display_start ?d)) px py =
      (px < 88 \<and> py < 16 \<or> px < 96 \<and> 2 \<le> py \<and> py < 14 \<or> (\<exists>ob\<in>set turns. turn_picture (shape ob) px py))"
      by (auto simp: paints_def)
    moreover have "display_thread_entry True RT_EOK turns d = fold display_turn turns (display_start ?d)"
      by (simp add: display_thread_entry_def oled_init_def)
    ultimately show ?thesis by auto
  qed
  then show ?thesis by (intro conjI allI impI) (simp_all only: conj_imp_eq_imp_imp)
qed

theorem display_shows_lengths_witness:
  "pixel (display_thread_entry True RT_EOK [(''25.0'', ''40.5'', True)] blank) 95 19 \<and>
   \<not> pixel (display_thread_entry True RT_EOK [(''25.0'', ''40.5'', True)] blank) 96 19 \<and>
   pixel (display_thread_entry True RT_EOK [(''25.0'', ''40.5'', True)] blank) 70 17 =
   pixel (display_thread_entry True RT_EOK [(''31.7'', ''66.2'', True)] blank) 70 17"
proof -
  note t = display_shows_lengths[of "[(''25.0'', ''40.5'', True)]" blank "[(''31.7'', ''66.2'', True)]" blank]
  have "map shape [(''25.0'', ''40.5'', True)] = map shape [(''31.7'', ''66.2'', True)]" by (simp add: shape_def)
  with conjunct2[OF t] have "pixel (display_thread_entry True RT_EOK [(''25.0'', ''40.5'', True)] blank) 70 17 =
   pixel (display_thread_entry True RT_EOK [(''31.7'', ''66.2'', True)] blank) 70 17" by (simp only: simp_thms) simp
  moreover have "pixel (display_thread_entry True RT_EOK [(''25.0'', ''40.5'', True)] blank) px 19 \<longleftrightarrow> px < 96"
    if "px < 128" for px
    using conjunct1[OF t, rule_format, of px 19] that by (simp add: shape_def turn_picture_def bar_def)
  ultimately show ?thesis by simp
qed

end
