(* ===== verification/Rpc.thy ===== *)
theory Rpc
  imports Prelude
begin

text \<open>
  The RPC framework of \<^verbatim>\<open>lab4-2-user-interrupt/examples/rpc_framework.c\<close> (built without
  \<^verbatim>\<open>UINTR_SUPPORT\<close>, so that the server polls): a client thread that calls \<^verbatim>\<open>rpc_call\<close> and the server
  thread, as an interleaving of their accesses to the shared request slots. Memory is sequentially
  consistent. \<open>int\<close> arithmetic that overflows is undefined: the dispatch then has no step.
  \<open>calls\<close> is a ghost variable: the calls that returned, with their results.
\<close>

record rpc_request =
  method_id :: int
  param1 :: int
  param2 :: int
  rpc_result :: int
  req_ready :: bool
  processed :: bool

datatype client_pc =
    CIdle
  | CStore nat nat int int int
  | CWait nat int int int
  | CClear nat int int int
  | CReturn nat int int int

datatype server_pc = SScan nat | SCheck nat | SLock nat | SDispatch nat | SMark nat | SUnlock nat

record rpc_system =
  requests :: "nat \<Rightarrow> rpc_request"
  lock_held :: bool
  cpc :: client_pc
  spc :: server_pc
  calls :: "(int \<times> int \<times> int \<times> int) list"

definition REQUEST_COUNT :: nat where "REQUEST_COUNT = 10"

definition rpc_add :: "int \<Rightarrow> int \<Rightarrow> int option" where "rpc_add a b = i32 (a + b)"
definition rpc_sub :: "int \<Rightarrow> int \<Rightarrow> int option" where "rpc_sub a b = i32 (a - b)"
definition rpc_mul :: "int \<Rightarrow> int \<Rightarrow> int option" where "rpc_mul a b = i32 (a * b)"
definition div_safe :: "int \<Rightarrow> int \<Rightarrow> int option" where
  "div_safe a b = (if b \<noteq> 0 then i32 (c_div a b) else Some 0)"

definition rpc_methods :: "int \<Rightarrow> int \<Rightarrow> int \<Rightarrow> int option" where
  "rpc_methods m = (if m = 0 then rpc_add else if m = 1 then rpc_sub else if m = 2 then rpc_mul else div_safe)"

definition valid_method :: "int \<Rightarrow> bool" where
  "valid_method m \<longleftrightarrow> 0 \<le> m \<and> m < 4"

definition upd_req :: "nat \<Rightarrow> (rpc_request \<Rightarrow> rpc_request) \<Rightarrow> rpc_system \<Rightarrow> rpc_system" where
  "upd_req i f s = s\<lparr>requests := (requests s)(i := f (requests s i))\<rparr>"

definition rpc_start :: rpc_system where
  "rpc_start = \<lparr>requests = (\<lambda>_. \<lparr>method_id = 0, param1 = 0, param2 = 0, rpc_result = 0, req_ready = False,
     processed = False\<rparr>), lock_held = False, cpc = CIdle, spc = SScan 0, calls = []\<rparr>"

text \<open>One turn of \<^verbatim>\<open>rpc_server_thread\<close>; \<open>SScan 10\<close> is the sleep at the end of a pass.\<close>

definition server_turn :: "rpc_system \<Rightarrow> rpc_system option" where
  "server_turn s = (case spc s of
     SScan i \<Rightarrow>
       if i < REQUEST_COUNT
       then Some (s\<lparr>spc := (if req_ready (requests s i) then SCheck i else SScan (i + 1))\<rparr>)
       else Some (s\<lparr>spc := SScan 0\<rparr>)
   | SCheck i \<Rightarrow> Some (s\<lparr>spc := (if processed (requests s i) then SScan (i + 1) else SLock i)\<rparr>)
   | SLock i \<Rightarrow> if lock_held s then None else Some (s\<lparr>lock_held := True, spc := SDispatch i\<rparr>)
   | SDispatch i \<Rightarrow>
       let r = requests s i
       in if valid_method (method_id r)
          then do {
            v \<leftarrow> rpc_methods (method_id r) (param1 r) (param2 r);
            Some ((upd_req i (\<lambda>r. r\<lparr>rpc_result := v\<rparr>) s)\<lparr>spc := SMark i\<rparr>)
          }
          else Some (s\<lparr>spc := SMark i\<rparr>)
   | SMark i \<Rightarrow> Some ((upd_req i (\<lambda>r. r\<lparr>processed := True\<rparr>) s)\<lparr>spc := SUnlock i\<rparr>)
   | SUnlock i \<Rightarrow> Some (s\<lparr>lock_held := False, spc := SScan (i + 1)\<rparr>))"

text \<open>The six stores of \<^verbatim>\<open>rpc_call\<close>, in order.\<close>

fun store_field :: "nat \<Rightarrow> int \<Rightarrow> int \<Rightarrow> int \<Rightarrow> rpc_request \<Rightarrow> rpc_request" where
  "store_field j m a b r =
     (if j = 0 then r\<lparr>method_id := m\<rparr>
      else if j = 1 then r\<lparr>param1 := a\<rparr>
      else if j = 2 then r\<lparr>param2 := b\<rparr>
      else if j = 3 then r\<lparr>rpc_result := 0\<rparr>
      else if j = 4 then r\<lparr>processed := False\<rparr>
      else r\<lparr>req_ready := True\<rparr>)"

declare store_field.simps [simp del]

text \<open>One turn of \<^verbatim>\<open>rpc_call(&requests[k], m, a, b)\<close> in progress.\<close>

definition client_turn :: "rpc_system \<Rightarrow> rpc_system option" where
  "client_turn s = (case cpc s of
     CIdle \<Rightarrow> None
   | CStore j k m a b \<Rightarrow>
       Some ((upd_req k (store_field j m a b) s)\<lparr>cpc := (if j < 5 then CStore (j + 1) k m a b else CWait k m a b)\<rparr>)
   | CWait k m a b \<Rightarrow> Some (if processed (requests s k) then s\<lparr>cpc := CClear k m a b\<rparr> else s)
   | CClear k m a b \<Rightarrow> Some ((upd_req k (\<lambda>r. r\<lparr>req_ready := False\<rparr>) s)\<lparr>cpc := CReturn k m a b\<rparr>)
   | CReturn k m a b \<Rightarrow> Some (s\<lparr>calls := calls s @ [(m, a, b, rpc_result (requests s k))], cpc := CIdle\<rparr>))"

inductive rpc_step :: "rpc_system \<Rightarrow> rpc_system \<Rightarrow> bool" where
  rpc_begin: "cpc s = CIdle \<Longrightarrow> k < REQUEST_COUNT \<Longrightarrow> rpc_step s (s\<lparr>cpc := CStore 0 k m a b\<rparr>)"
| rpc_client: "client_turn s = Some s' \<Longrightarrow> rpc_step s s'"
| rpc_server: "server_turn s = Some s' \<Longrightarrow> rpc_step s s'"

inductive rpc_reach :: "rpc_system \<Rightarrow> bool" where
  rpc_init: "rpc_reach rpc_start"
| rpc_more: "rpc_reach s \<Longrightarrow> rpc_step s s' \<Longrightarrow> rpc_reach s'"

section \<open>The protocol invariant\<close>

text \<open>What a call must return.\<close>

definition answers :: "int \<Rightarrow> int \<Rightarrow> int \<Rightarrow> int \<Rightarrow> bool" where
  "answers m a b v \<longleftrightarrow> (if valid_method m then rpc_methods m a b = Some v else v = 0)"

fun stored :: "nat \<Rightarrow> int \<Rightarrow> int \<Rightarrow> int \<Rightarrow> rpc_request \<Rightarrow> bool" where
  "stored j m a b r \<longleftrightarrow> (0 < j \<longrightarrow> method_id r = m) \<and> (1 < j \<longrightarrow> param1 r = a) \<and> (2 < j \<longrightarrow> param2 r = b)"

declare stored.simps [simp del]

fun serving :: "server_pc \<Rightarrow> nat \<Rightarrow> bool" where
  "serving (SLock i) k = (i = k)"
| "serving (SDispatch i) k = (i = k)"
| "serving (SMark i) k = (i = k)"
| "serving (SScan i) k = False"
| "serving (SCheck i) k = False"
| "serving (SUnlock i) k = False"

fun may_serve :: "server_pc \<Rightarrow> nat \<Rightarrow> bool" where
  "may_serve (SCheck i) k = (i = k)"
| "may_serve (SLock i) k = (i = k)"
| "may_serve (SDispatch i) k = (i = k)"
| "may_serve (SMark i) k = (i = k)"
| "may_serve (SScan i) k = False"
| "may_serve (SUnlock i) k = False"

text \<open>A slot with a complete request: unanswered, being answered, or answered.\<close>

definition submitted :: "nat \<Rightarrow> int \<Rightarrow> int \<Rightarrow> int \<Rightarrow> rpc_system \<Rightarrow> bool" where
  "submitted k m a b s \<longleftrightarrow> (let r = requests s k in stored 3 m a b r \<and>
     (if processed r then \<not> serving (spc s) k \<and> answers m a b (rpc_result r)
      else if spc s = SMark k then answers m a b (rpc_result r) else rpc_result r = 0))"

text \<open>A slot that nothing is asked of: the server is not past its checks on it.\<close>

definition quiet :: "nat \<Rightarrow> rpc_system \<Rightarrow> bool" where
  "quiet k s \<longleftrightarrow> \<not> serving (spc s) k \<and> (may_serve (spc s) k \<longrightarrow> processed (requests s k))"

definition slot_inv :: "nat \<Rightarrow> rpc_system \<Rightarrow> bool" where
  "slot_inv k s \<longleftrightarrow> (case cpc s of
     CIdle \<Rightarrow> quiet k s \<and> \<not> req_ready (requests s k)
   | CStore j k' m a b \<Rightarrow>
       \<not> req_ready (requests s k) \<and>
       (if k' \<noteq> k \<or> j < 5
        then quiet k s \<and> (k' = k \<longrightarrow> stored j m a b (requests s k) \<and> (j = 4 \<longrightarrow> rpc_result (requests s k) = 0))
        else submitted k m a b s)
   | CWait k' m a b \<Rightarrow>
       (if k' \<noteq> k then quiet k s \<and> \<not> req_ready (requests s k)
        else submitted k m a b s \<and> req_ready (requests s k))
   | CClear k' m a b \<Rightarrow> quiet k s \<and> (req_ready (requests s k) \<longrightarrow> k' = k) \<and>
       (k' = k \<longrightarrow> processed (requests s k) \<and> answers m a b (rpc_result (requests s k)))
   | CReturn k' m a b \<Rightarrow> quiet k s \<and> \<not> req_ready (requests s k) \<and>
       (k' = k \<longrightarrow> answers m a b (rpc_result (requests s k))))"

fun in_lock :: "server_pc \<Rightarrow> bool" where
  "in_lock (SDispatch i) = True"
| "in_lock (SMark i) = True"
| "in_lock (SUnlock i) = True"
| "in_lock (SScan i) = False"
| "in_lock (SCheck i) = False"
| "in_lock (SLock i) = False"

definition call_ok :: "int \<times> int \<times> int \<times> int \<Rightarrow> bool" where
  "call_ok c = (case c of (m, a, b, v) \<Rightarrow> answers m a b v)"

definition rpc_inv :: "rpc_system \<Rightarrow> bool" where
  "rpc_inv s \<longleftrightarrow> (\<forall>k. slot_inv k s) \<and> lock_held s = in_lock (spc s) \<and> list_all call_ok (calls s)"

lemmas slot_simps = slot_inv_def quiet_def submitted_def upd_req_def stored.simps store_field.simps

lemma start_inv: "rpc_inv rpc_start"
  by (simp add: rpc_inv_def rpc_start_def slot_simps)

lemma dispatch_answers:
  "valid_method m \<Longrightarrow> rpc_methods m a b = Some v \<Longrightarrow> answers m a b v"
  "\<not> valid_method m \<Longrightarrow> answers m a b 0"
  by (simp_all add: answers_def)

text \<open>A turn of the server on another slot does not matter; on slot \<open>k\<close> it moves along its checks.\<close>

lemma server_pc_slot:
  assumes "slot_inv k s" and "requests s' k = requests s k" and "cpc s' = cpc s"
    and "serving (spc s') k = serving (spc s) k"
    and "may_serve (spc s') k \<Longrightarrow> may_serve (spc s) k"
    and "spc s' = SMark k \<longleftrightarrow> spc s = SMark k"
  shows "slot_inv k s'"
proof -
  have q: "quiet k s \<Longrightarrow> quiet k s'" using assms(2,4,5) by (auto simp: quiet_def)
  have m: "submitted k m a b s \<Longrightarrow> submitted k m a b s'" for m a b
    using assms(2,4,6) by (simp add: submitted_def Let_def)
  show ?thesis
    using assms(1) unfolding slot_inv_def assms(2,3) by (auto split: client_pc.splits if_splits intro: q m)
qed

lemma server_slot:
  assumes inv: "slot_inv k s" and step: "server_turn s = Some s'"
  shows "slot_inv k s'"
proof (cases "spc s")
  case (SScan i)
  show ?thesis
  proof (cases "i = k \<and> i < REQUEST_COUNT \<and> req_ready (requests s k)")
    case True
    then have s': "s' = s\<lparr>spc := SCheck k\<rparr>" using step SScan by (simp add: server_turn_def)
    show ?thesis
      using inv True SScan unfolding s' by (cases "cpc s") (auto simp: slot_inv_def quiet_def submitted_def Let_def split: if_splits)
  next
    case False
    then show ?thesis using step SScan
      by (intro server_pc_slot[OF inv]) (auto simp: server_turn_def split: if_splits)
  qed
next
  case (SCheck i)
  show ?thesis
  proof (cases "i = k \<and> \<not> processed (requests s k)")
    case True
    then have s': "s' = s\<lparr>spc := SLock k\<rparr>" using step SCheck by (simp add: server_turn_def)
    show ?thesis
      using inv True SCheck unfolding s' by (cases "cpc s") (auto simp: slot_inv_def quiet_def submitted_def Let_def split: if_splits)
  next
    case False
    then show ?thesis using step SCheck
      by (intro server_pc_slot[OF inv]) (auto simp: server_turn_def split: if_splits)
  qed
next
  case (SLock i)
  then show ?thesis using step
    by (intro server_pc_slot[OF inv]) (auto simp: server_turn_def split: if_splits)
next
  case (SDispatch i)
  show ?thesis
  proof (cases "i = k")
    case False
    then show ?thesis using step SDispatch
      by (intro server_pc_slot[OF inv]) (auto simp: server_turn_def upd_req_def Let_def bind_eq_Some_conv split: if_splits)
  next
    case True
    obtain w where rq: "requests s' k = (requests s k)\<lparr>rpc_result := w\<rparr>"
      and cpc: "cpc s' = cpc s" and spc: "spc s' = SMark k"
      and v: "if valid_method (method_id (requests s k))
        then rpc_methods (method_id (requests s k)) (param1 (requests s k)) (param2 (requests s k)) = Some w
        else w = rpc_result (requests s k)"
      using step SDispatch True
      by (auto simp: server_turn_def upd_req_def Let_def bind_eq_Some_conv split: if_splits)
    have nq: "\<not> quiet k s" using SDispatch True by (simp add: quiet_def)
    have m: "submitted k m a b s \<Longrightarrow> submitted k m a b s'" for m a b
      unfolding submitted_def Let_def stored.simps spc using SDispatch True v
      by (cases "valid_method m") (auto simp: rq dispatch_answers split: if_splits)
    have "req_ready (requests s' k) = req_ready (requests s k)" by (simp add: rq)
    then show ?thesis
      using inv nq unfolding slot_inv_def cpc by (auto split: client_pc.splits if_splits intro: m)
  qed
next
  case (SMark i)
  show ?thesis
  proof (cases "i = k")
    case False
    then show ?thesis using step SMark
      by (intro server_pc_slot[OF inv]) (auto simp: server_turn_def upd_req_def)
  next
    case True
    then have s': "s' = (upd_req k (\<lambda>r. r\<lparr>processed := True\<rparr>) s)\<lparr>spc := SUnlock k\<rparr>"
      using step SMark by (simp add: server_turn_def)
    show ?thesis
      using inv True SMark unfolding s'
      by (cases "cpc s") (auto simp: slot_inv_def quiet_def submitted_def Let_def upd_req_def stored.simps split: if_splits)
  qed
next
  case (SUnlock i)
  then show ?thesis using step
    by (intro server_pc_slot[OF inv]) (auto simp: server_turn_def)
qed

lemma client_other_slot:
  assumes "slot_inv k s" and "client_turn s = Some s'"
    and "case cpc s of CIdle \<Rightarrow> True | CStore j k' m a b \<Rightarrow> k' \<noteq> k | CWait k' m a b \<Rightarrow> k' \<noteq> k
      | CClear k' m a b \<Rightarrow> k' \<noteq> k | CReturn k' m a b \<Rightarrow> k' \<noteq> k"
  shows "slot_inv k s'"
  using assms by (cases "cpc s")
    (auto simp: client_turn_def slot_inv_def quiet_def upd_req_def split: if_splits)

lemma store_slot:
  assumes "slot_inv k s" and "cpc s = CStore j k m a b"
  shows "slot_inv k ((upd_req k (store_field j m a b) s)
    \<lparr>cpc := (if j < 5 then CStore (j + 1) k m a b else CWait k m a b)\<rparr>)"
proof -
  consider "j = 0" | "j = 1" | "j = 2" | "j = 3" | "j = 4" | "5 \<le> j" by linarith
  then show ?thesis
    using assms by cases (auto simp: slot_simps Let_def split: if_splits)
qed

lemma client_slot:
  assumes inv: "slot_inv k s" and step: "client_turn s = Some s'"
  shows "slot_inv k s'"
proof (cases "cpc s")
  case CIdle
  then show ?thesis using step by (simp add: client_turn_def)
next
  case (CStore j k' m a b)
  then show ?thesis
    using inv step store_slot[of k s j m a b] client_other_slot[OF inv step]
    by (cases "k' = k") (simp_all add: client_turn_def)
next
  case (CWait k' m a b)
  then show ?thesis
    using inv step client_other_slot[OF inv step]
    by (cases "k' = k") (auto simp: client_turn_def slot_inv_def submitted_def quiet_def Let_def split: if_splits)
next
  case (CClear k' m a b)
  then show ?thesis
    using inv step client_other_slot[OF inv step]
    by (cases "k' = k") (auto simp: client_turn_def slot_inv_def quiet_def upd_req_def)
next
  case (CReturn k' m a b)
  then show ?thesis
    using inv step client_other_slot[OF inv step]
    by (cases "k' = k") (auto simp: client_turn_def slot_inv_def quiet_def)
qed

lemma server_lock:
  "lock_held s = in_lock (spc s) \<Longrightarrow> server_turn s = Some s' \<Longrightarrow>
   lock_held s' = in_lock (spc s') \<and> calls s' = calls s"
  by (cases "spc s") (auto simp: server_turn_def upd_req_def Let_def bind_eq_Some_conv split: if_splits)

lemma client_calls:
  assumes "rpc_inv s" and "client_turn s = Some s'"
  shows "list_all call_ok (calls s') \<and> lock_held s' = lock_held s \<and> spc s' = spc s"
proof (cases "cpc s")
  case (CReturn k m a b)
  have "slot_inv k s" using assms(1) by (simp add: rpc_inv_def)
  then have "answers m a b (rpc_result (requests s k))" using CReturn by (simp add: slot_inv_def)
  then show ?thesis using assms CReturn by (auto simp: client_turn_def rpc_inv_def call_ok_def)
qed (use assms in \<open>auto simp: client_turn_def rpc_inv_def upd_req_def split: if_splits\<close>)

lemma step_inv: "rpc_step s s' \<Longrightarrow> rpc_inv s \<Longrightarrow> rpc_inv s'"
proof (induction rule: rpc_step.induct)
  case (rpc_begin s k m a b)
  then show ?case by (auto simp: rpc_inv_def slot_inv_def quiet_def stored.simps)
next
  case (rpc_client s s')
  then show ?case using client_slot client_calls[of s s'] by (auto simp: rpc_inv_def)
next
  case (rpc_server s s')
  then show ?case using server_slot server_lock[of s s'] by (auto simp: rpc_inv_def)
qed

lemma reach_inv: "rpc_reach s \<Longrightarrow> rpc_inv s"
  by (induction rule: rpc_reach.induct) (auto intro: start_inv step_inv)

text \<open>
  Property C2. In every interleaving of the client and the server, \<^verbatim>\<open>rpc_call\<close> returns the value of
  the method on its own arguments, and 0 for a method that does not exist: although \<^verbatim>\<open>ready\<close> of the
  previous call and \<^verbatim>\<open>processed\<close> of the next can be read by the same check, the server never
  serves a half-written request. The lock is held exactly between the server's lock and unlock.
\<close>

theorem rpc_calls_answered:
  assumes "rpc_reach s"
  shows "list_all (\<lambda>(m, a, b, v). if 0 \<le> m \<and> m < 4 then rpc_methods m a b = Some v else v = 0) (calls s) \<and>
    lock_held s = in_lock (spc s)"
proof -
  have "call_ok = (\<lambda>(m, a, b, v). if 0 \<le> m \<and> m < 4 then rpc_methods m a b = Some v else v = 0)"
    by (auto simp: call_ok_def answers_def valid_method_def fun_eq_iff)
  then show ?thesis using reach_inv[OF assms] by (simp add: rpc_inv_def)
qed

section \<open>The server gets to every request\<close>

fun turns :: "nat \<Rightarrow> rpc_system \<Rightarrow> rpc_system option" where
  "turns 0 s = Some s"
| "turns (Suc n) s = (case server_turn s of None \<Rightarrow> None | Some s' \<Rightarrow> turns n s')"

text \<open>The client waits on slot \<open>k\<close>, and the arithmetic it asked for is defined.\<close>

definition waiting_on :: "nat \<Rightarrow> rpc_system \<Rightarrow> bool" where
  "waiting_on k s \<longleftrightarrow> rpc_inv s \<and> k < REQUEST_COUNT \<and>
     (\<exists>m a b. cpc s = CWait k m a b \<and> (valid_method m \<longrightarrow> rpc_methods m a b \<noteq> None))"

text \<open>How many turns the server is away from answering slot \<open>k\<close>.\<close>

definition scan_distance :: "nat \<Rightarrow> nat \<Rightarrow> nat" where
  "scan_distance k i = (if i \<le> k then k - i else (REQUEST_COUNT - i) + 1 + k)"

fun rank :: "nat \<Rightarrow> server_pc \<Rightarrow> nat" where
  "rank k (SScan i) = 5 + scan_distance k i"
| "rank k (SCheck i) = (if i = k then 4 else 6 + scan_distance k (i + 1))"
| "rank k (SLock i) = 3"
| "rank k (SDispatch i) = 2"
| "rank k (SMark i) = 1"
| "rank k (SUnlock i) = 6 + scan_distance k (i + 1)"

lemma rank_bound: "k < REQUEST_COUNT \<Longrightarrow> rank k pc \<le> 26"
  by (cases pc) (auto simp: scan_distance_def REQUEST_COUNT_def)

lemma waiting_slots:
  assumes "waiting_on k s"
  shows "i \<noteq> k \<Longrightarrow> quiet i s \<and> \<not> req_ready (requests s i)" and "req_ready (requests s k)"
    and "\<not> lock_held s \<longleftrightarrow> \<not> in_lock (spc s)"
    and "\<not> processed (requests s k) \<Longrightarrow>
      \<not> valid_method (method_id (requests s k)) \<or>
      rpc_methods (method_id (requests s k)) (param1 (requests s k)) (param2 (requests s k)) \<noteq> None"
proof -
  obtain m a b where c: "cpc s = CWait k m a b" and d: "valid_method m \<longrightarrow> rpc_methods m a b \<noteq> None"
    and inv: "\<And>i. slot_inv i s" and l: "lock_held s = in_lock (spc s)"
    using assms by (auto simp: waiting_on_def rpc_inv_def)
  show "i \<noteq> k \<Longrightarrow> quiet i s \<and> \<not> req_ready (requests s i)" using inv[of i] c by (simp add: slot_inv_def)
  have sub: "submitted k m a b s" and r: "req_ready (requests s k)" using inv[of k] c by (simp_all add: slot_inv_def)
  show "req_ready (requests s k)" by (rule r)
  show "\<not> lock_held s \<longleftrightarrow> \<not> in_lock (spc s)" using l by simp
  show "\<not> processed (requests s k) \<Longrightarrow> \<not> valid_method (method_id (requests s k)) \<or>
      rpc_methods (method_id (requests s k)) (param1 (requests s k)) (param2 (requests s k)) \<noteq> None"
    using sub d by (auto simp: submitted_def stored.simps Let_def)
qed

lemma waiting_turn:
  assumes w: "waiting_on k s" and np: "\<not> processed (requests s k)"
  shows "\<exists>s'. server_turn s = Some s' \<and> waiting_on k s' \<and>
    (processed (requests s' k) \<or> rank k (spc s') < rank k (spc s))"
proof -
  have k: "k < REQUEST_COUNT" using w by (simp add: waiting_on_def)
  have "\<exists>s'. server_turn s = Some s' \<and> cpc s' = cpc s \<and>
    (processed (requests s' k) \<or> rank k (spc s') < rank k (spc s))"
  proof (cases "spc s")
    case (SScan i)
    then show ?thesis using waiting_slots(1)[OF w, of i] waiting_slots(2)[OF w] k
      by (cases "i = k") (auto simp: server_turn_def scan_distance_def)
  next
    case (SCheck i)
    then show ?thesis using waiting_slots(1)[OF w, of i] np
      by (cases "i = k") (auto simp: server_turn_def quiet_def)
  next
    case (SLock i)
    then show ?thesis using waiting_slots(3)[OF w] by (auto simp: server_turn_def)
  next
    case (SDispatch i)
    then have "i = k" using waiting_slots(1)[OF w, of i] by (auto simp: quiet_def)
    then show ?thesis using SDispatch waiting_slots(4)[OF w np] by (auto simp: server_turn_def upd_req_def Let_def)
  next
    case (SMark i)
    then have "i = k" using waiting_slots(1)[OF w, of i] by (auto simp: quiet_def)
    then show ?thesis using SMark by (auto simp: server_turn_def upd_req_def)
  next
    case (SUnlock i)
    then show ?thesis by (auto simp: server_turn_def)
  qed
  then obtain s' where s': "server_turn s = Some s'" "cpc s' = cpc s"
    "processed (requests s' k) \<or> rank k (spc s') < rank k (spc s)" by blast
  moreover have "waiting_on k s'"
    using w s'(2) step_inv[OF rpc_server[OF s'(1)]] by (simp add: waiting_on_def)
  ultimately show ?thesis by blast
qed

lemma waiting_served:
  "waiting_on k s \<Longrightarrow> \<exists>n\<le>rank k (spc s). \<exists>s'. turns n s = Some s' \<and> processed (requests s' k)"
proof (induction "rank k (spc s)" arbitrary: s rule: less_induct)
  case less
  show ?case
  proof (cases "processed (requests s k)")
    case True
    then show ?thesis by (intro exI[of _ 0]) simp
  next
    case False
    obtain s' where s': "server_turn s = Some s'" "waiting_on k s'"
      "processed (requests s' k) \<or> rank k (spc s') < rank k (spc s)"
      using waiting_turn[OF less.prems False] by blast
    show ?thesis
    proof (cases "processed (requests s' k)")
      case True
      have "0 < rank k (spc s)" by (cases "spc s") simp_all
      then show ?thesis using s'(1) True by (intro exI[of _ "Suc 0"]) auto
    next
      case False
      then have lt: "rank k (spc s') < rank k (spc s)" using s'(3) by simp
      obtain n s2 where n: "n \<le> rank k (spc s')" "turns n s' = Some s2" "processed (requests s2 k)"
        using less.hyps[OF lt s'(2)] by blast
      then show ?thesis using s'(1) lt by (intro exI[of _ "Suc n"]) auto
    qed
  qed
qed

text \<open>
  Property C15. A waiting \<^verbatim>\<open>rpc_call\<close> is never stuck: whatever the server is doing, at most 26 of
  its own turns later the request in one of the ten slots is processed, provided the arithmetic
  asked for is defined.
\<close>

theorem rpc_server_reaches_request:
  assumes "rpc_reach s" and "cpc s = CWait k m a b" and "k < REQUEST_COUNT"
    and "valid_method m \<Longrightarrow> rpc_methods m a b \<noteq> None"
  shows "\<exists>n s'. n \<le> 26 \<and> turns n s = Some s' \<and> processed (requests s' k)"
proof -
  have "waiting_on k s" using assms reach_inv by (auto simp: waiting_on_def)
  from waiting_served[OF this] rank_bound[OF assms(3), of "spc s"] show ?thesis by (meson order_trans)
qed

section \<open>A closed run\<close>

text \<open>\<open>True\<close> is a turn of the client.\<close>

fun rpc_play :: "bool list \<Rightarrow> rpc_system \<Rightarrow> rpc_system option" where
  "rpc_play [] s = Some s"
| "rpc_play (c # cs) s = (case (if c then client_turn s else server_turn s) of None \<Rightarrow> None | Some s' \<Rightarrow> rpc_play cs s')"

lemma rpc_play_reach: "rpc_play cs s = Some s' \<Longrightarrow> rpc_reach s \<Longrightarrow> rpc_reach s'"
  by (induction cs arbitrary: s)
    (auto split: option.splits if_splits intro: rpc_more rpc_step.rpc_client rpc_step.rpc_server)

definition first_call :: rpc_system where
  "first_call = rpc_start\<lparr>cpc := CStore 0 0 0 10 5\<rparr>"

lemma first_call_reach: "rpc_reach first_call"
  unfolding first_call_def by (rule rpc_more[OF rpc_init rpc_begin]) (simp_all add: rpc_start_def REQUEST_COUNT_def)

theorem rpc_calls_answered_witness:
  "\<exists>s. rpc_reach s \<and> calls s = [(0, 10, 5, 15)] \<and> list_all (\<lambda>(m, a, b, v). rpc_methods m a b = Some v) (calls s)"
proof -
  let ?turns = "replicate 6 True @ replicate 5 False @ replicate 3 True"
  have "map_option calls (rpc_play ?turns first_call) = Some [(0, 10, 5, 15)]" by code_simp
  then obtain s where s: "rpc_play ?turns first_call = Some s" "calls s = [(0, 10, 5, 15)]" by auto
  have "rpc_reach s" by (rule rpc_play_reach[OF s(1) first_call_reach])
  with rpc_calls_answered[OF this] s(2) show ?thesis by auto
qed

theorem rpc_server_reaches_request_witness:
  "\<exists>s n s'. cpc s = CWait 0 0 10 5 \<and> turns n s = Some s' \<and> processed (requests s' 0)"
proof -
  have "map_option cpc (rpc_play (replicate 6 True) first_call) = Some (CWait 0 0 10 5)" by code_simp
  then obtain s where s: "rpc_play (replicate 6 True) first_call = Some s" "cpc s = CWait 0 0 10 5" by auto
  have "rpc_methods 0 10 5 \<noteq> None" by (simp add: rpc_methods_def rpc_add_def in_i32_def i32_def)
  with rpc_server_reaches_request[OF rpc_play_reach[OF s(1) first_call_reach] s(2)] s(2) show ?thesis
    by (auto simp: REQUEST_COUNT_def)
qed

end
