(* ===== verification/Uintr_Programs.thy ===== *)
theory Uintr_Programs
  imports Rpc Syscalls
begin

text \<open>
  The \<^verbatim>\<open>main\<close> functions of \<^verbatim>\<open>lab4-2-user-interrupt\<close> as programs over \<open>Syscalls\<close>: \<^verbatim>\<open>rpc_framework.c\<close>,
  \<^verbatim>\<open>pipe_server.c\<close>, \<^verbatim>\<open>pipe_client.c\<close> and \<^verbatim>\<open>uintr_client.c\<close>; and the calls that \<^verbatim>\<open>rpc_framework.c\<close>
  makes, run against the server of \<open>Rpc\<close>. The name that \<^verbatim>\<open>mkfifo\<close> creates counts as a handle, given back
  by \<^verbatim>\<open>unlink\<close>; so does a thread, given back by \<^verbatim>\<open>pthread_join\<close>. Printed lines are left out.
\<close>

section \<open>The calls of \<^verbatim>\<open>rpc_framework.c\<close>\<close>

text \<open>Slot, method and arguments of the 104 calls, in order.\<close>

definition rpc_main_calls :: "(nat \<times> int \<times> int \<times> int) list" where
  "rpc_main_calls = [(0, 0, 10, 5), (1, 1, 20, 7), (2, 2, 6, 8), (3, 3, 100, 4)]
     @ map (\<lambda>i. (i mod 10, int (i mod 4), int i, int (i + 1))) [0..<100]"

text \<open>\<^verbatim>\<open>main\<close> starts its next call when the one before has returned.\<close>

inductive rpc_main_reach :: "rpc_system \<Rightarrow> bool" where
  main_init: "rpc_main_reach rpc_start"
| main_call: "rpc_main_reach s \<Longrightarrow> cpc s = CIdle \<Longrightarrow> length (calls s) < length rpc_main_calls \<Longrightarrow>
    rpc_main_calls ! length (calls s) = (k, m, a, b) \<Longrightarrow> rpc_main_reach (s\<lparr>cpc := CStore 0 k m a b\<rparr>)"
| main_client: "rpc_main_reach s \<Longrightarrow> client_turn s = Some s' \<Longrightarrow> rpc_main_reach s'"
| main_server: "rpc_main_reach s \<Longrightarrow> server_turn s = Some s' \<Longrightarrow> rpc_main_reach s'"

definition rpc_main_answers :: "(int \<times> int \<times> int \<times> int) list" where
  "rpc_main_answers = map (\<lambda>(k, m, a, b). (m, a, b, the (rpc_methods m a b))) rpc_main_calls"

text \<open>Slots, methods and results are all in range.\<close>

lemma main_calls_ok:
  "list_all (\<lambda>(k, m, a, b). k < REQUEST_COUNT \<and> valid_method m \<and> rpc_methods m a b \<noteq> None) rpc_main_calls"
  by code_simp

lemma main_call_ok:
  assumes "rpc_main_calls ! i = (k, m, a, b)" and "i < length rpc_main_calls"
  shows "k < REQUEST_COUNT" and "valid_method m" and "rpc_methods m a b \<noteq> None"
  using main_calls_ok nth_mem[OF assms(2)] assms(1) by (auto simp: list_all_iff)

lemma main_reach_reach: "rpc_main_reach s \<Longrightarrow> rpc_reach s"
proof (induction rule: rpc_main_reach.induct)
  case (main_call s k m a b)
  then show ?case using main_call_ok(1)[of "length (calls s)"] by (auto intro: rpc_more rpc_begin)
qed (auto intro: rpc_init rpc_more rpc_client rpc_server)

text \<open>The call in progress is the next one of the list.\<close>

fun in_progress :: "client_pc \<Rightarrow> (nat \<times> int \<times> int \<times> int) option" where
  "in_progress CIdle = None"
| "in_progress (CStore j k m a b) = Some (k, m, a, b)"
| "in_progress (CWait k m a b) = Some (k, m, a, b)"
| "in_progress (CClear k m a b) = Some (k, m, a, b)"
| "in_progress (CReturn k m a b) = Some (k, m, a, b)"

definition main_inv :: "rpc_system \<Rightarrow> bool" where
  "main_inv s \<longleftrightarrow>
     calls s = take (length (calls s)) rpc_main_answers \<and> length (calls s) \<le> length rpc_main_calls \<and>
     (\<forall>c. in_progress (cpc s) = Some c \<longrightarrow>
        length (calls s) < length rpc_main_calls \<and> c = rpc_main_calls ! length (calls s))"

lemma main_inv_return:
  assumes inv: "main_inv s" and r: "rpc_reach s" and pc: "cpc s = CReturn k m a b"
    and s': "client_turn s = Some s'"
  shows "main_inv s'"
proof -
  let ?n = "length (calls s)"
  have n: "?n < length rpc_main_calls" and c: "rpc_main_calls ! ?n = (k, m, a, b)"
    using inv pc by (auto simp: main_inv_def)
  have "slot_inv k s" using reach_inv[OF r] by (simp add: rpc_inv_def)
  then have "answers m a b (rpc_result (requests s k))" using pc by (simp add: slot_inv_def)
  then have v: "rpc_result (requests s k) = the (rpc_methods m a b)"
    using main_call_ok(2)[OF c n] by (simp add: answers_def)
  have "rpc_main_answers ! ?n = (m, a, b, rpc_result (requests s k))" "?n < length rpc_main_answers"
    using n c v by (simp_all add: rpc_main_answers_def)
  then have "take (Suc ?n) rpc_main_answers = calls s @ [(m, a, b, rpc_result (requests s k))]"
    using inv by (simp add: take_Suc_conv_app_nth main_inv_def)
  moreover have "s' = s\<lparr>calls := calls s @ [(m, a, b, rpc_result (requests s k))], cpc := CIdle\<rparr>"
    using s' pc by (simp add: client_turn_def)
  ultimately show ?thesis using n by (simp add: main_inv_def)
qed

lemma main_reach_inv: "rpc_main_reach s \<Longrightarrow> main_inv s"
proof (induction rule: rpc_main_reach.induct)
  case main_init
  show ?case by (simp add: main_inv_def rpc_start_def)
next
  case (main_call s k m a b)
  then show ?case by (simp add: main_inv_def)
next
  case (main_client s s')
  show ?case
  proof (cases "\<exists>k m a b. cpc s = CReturn k m a b")
    case True
    then show ?thesis using main_inv_return main_client main_reach_reach by blast
  next
    case False
    then have "calls s' = calls s \<and> in_progress (cpc s') = in_progress (cpc s)"
      using main_client(2) by (cases "cpc s") (auto simp: client_turn_def upd_req_def)
    then show ?thesis using main_client(3) by (simp add: main_inv_def)
  qed
next
  case (main_server s s')
  then have "calls s' = calls s \<and> cpc s' = cpc s"
    by (cases "spc s") (auto simp: server_turn_def upd_req_def Let_def bind_eq_Some_conv split: if_splits)
  then show ?case using main_server(3) by (simp add: main_inv_def)
qed

text \<open>
  Property C17. The example program of the RPC framework, in every interleaving of its main thread with
  the server: its calls return the values of \<open>rpc_main_answers\<close> in order (15, 13, 48 and 25 for the four
  tests, and the sums, differences, products and quotients of the hundred timed calls), each within
  26 turns of the server, and no arithmetic overflows.
\<close>

theorem rpc_main_results:
  assumes "rpc_main_reach s"
  shows "calls s = take (length (calls s)) rpc_main_answers \<and>
    take 4 rpc_main_answers = [(0, 10, 5, 15), (1, 20, 7, 13), (2, 6, 8, 48), (3, 100, 4, 25)] \<and>
    length rpc_main_answers = 104 \<and>
    (\<forall>k m a b. cpc s = CWait k m a b \<longrightarrow>
       rpc_methods m a b \<noteq> None \<and> (\<exists>n s'. n \<le> 26 \<and> turns n s = Some s' \<and> processed (requests s' k)))"
proof -
  have inv: "main_inv s" using main_reach_inv[OF assms] .
  have "rpc_methods m a b \<noteq> None \<and> (\<exists>n s'. n \<le> 26 \<and> turns n s = Some s' \<and> processed (requests s' k))"
    if w: "cpc s = CWait k m a b" for k m a b
  proof -
    have c: "rpc_main_calls ! length (calls s) = (k, m, a, b)" "length (calls s) < length rpc_main_calls"
      using inv w by (auto simp: main_inv_def)
    have "waiting_on k s"
      using w main_call_ok[OF c] reach_inv[OF main_reach_reach[OF assms]] by (auto simp: waiting_on_def)
    from waiting_served[OF this] rank_bound[OF main_call_ok(1)[OF c], of "spc s"] main_call_ok(3)[OF c]
    show ?thesis by (meson order_trans)
  qed
  moreover have "take 4 rpc_main_answers = [(0, 10, 5, 15), (1, 20, 7, 13), (2, 6, 8, 48), (3, 100, 4, 25)]"
    "length rpc_main_answers = 104" by code_simp+
  ultimately show ?thesis using inv by (auto simp: main_inv_def)
qed

lemma rpc_play_main: "rpc_play cs s = Some s' \<Longrightarrow> rpc_main_reach s \<Longrightarrow> rpc_main_reach s'"
  by (induction cs arbitrary: s) (auto split: option.splits if_splits intro: main_client main_server)

theorem rpc_main_results_witness:
  "\<exists>s. rpc_main_reach s \<and> calls s = [(0, 10, 5, 15)] \<and> calls s = take 1 rpc_main_answers"
proof -
  have f: "rpc_main_reach first_call"
    unfolding first_call_def by (rule main_call[OF main_init]) (simp_all add: rpc_start_def rpc_main_calls_def)
  have "map_option calls (rpc_play (replicate 6 True @ replicate 5 False @ replicate 3 True) first_call) = Some [(0, 10, 5, 15)]"
    by code_simp
  then obtain s where s: "rpc_play (replicate 6 True @ replicate 5 False @ replicate 3 True) first_call = Some s"
    "calls s = [(0, 10, 5, 15)]" by auto
  have "rpc_main_reach s" by (rule rpc_play_main[OF s(1) f])
  with rpc_main_results[OF this] s(2) show ?thesis by (intro exI[of _ s]) simp
qed

section \<open>\<^verbatim>\<open>main\<close> of \<^verbatim>\<open>rpc_framework.c\<close>\<close>

definition rpc_main :: "int prog" where
  "rpc_main =
     Sys (Acquire ''mmap rpc_request_t[10] MAP_SHARED|MAP_ANONYMOUS'') (\<lambda>shared_reqs.
       if shared_reqs = -1 then Ret 1
       else seq_unit (do_call (Other ''pthread_mutex_init''))
         (Sys (Acquire ''pthread_create rpc_server_thread'') (\<lambda>server_thread.
            if server_thread = -1 then Ret 1
            else seq_unit (in_turn
              ([do_call (Other ''sleep 1'')]
               @ map (\<lambda>c. do_call (Use ''rpc_call'' shared_reqs 2147483647)) (take 4 rpc_main_calls)
               @ [do_call (Other ''gettimeofday'')]
               @ map (\<lambda>c. do_call (Use ''rpc_call'' shared_reqs 2147483647)) (drop 4 rpc_main_calls)
               @ [do_call (Other ''gettimeofday''), do_call (Use ''pthread_cancel'' server_thread 2147483647),
                  do_call (Release ''pthread_join'' server_thread), do_call (Other ''pthread_mutex_destroy''),
                  do_call (Release ''munmap rpc_request_t[10]'' shared_reqs)]))
              (Ret 0))))"

section \<open>The named-pipe programs\<close>

text \<open>The loop of the server: the number of requests answered.\<close>

fun pipe_serve :: "nat \<Rightarrow> int \<Rightarrow> int \<Rightarrow> nat \<Rightarrow> nat prog" where
  "pipe_serve 0 read_fd write_fd count = Ret count"
| "pipe_serve (Suc i) read_fd write_fd count =
     seq_unit (do_call (Other ''gettimeofday''))
       (Sys (Use ''read'' read_fd 4) (\<lambda>bytes.
          if bytes \<noteq> 4 then Ret count
          else Sys (Use ''write'' write_fd 4) (\<lambda>bytes.
            if bytes \<noteq> 4 then Ret count
            else seq_unit (do_call (Other ''gettimeofday'')) (pipe_serve i read_fd write_fd (count + 1)))))"

text \<open>The exit status and \<^verbatim>\<open>bench.iterations\<close>.\<close>

definition pipe_server_main :: "int \<Rightarrow> (int \<times> nat) prog" where
  "pipe_server_main iterations =
     seq_unit (in_turn [do_call (Other ''unlink pipe_server_read''), do_call (Other ''unlink pipe_server_write'')])
     (Sys (Acquire ''mkfifo pipe_server_read'') (\<lambda>pipe_read.
        if pipe_read < 0 then Ret (1, 0)
        else Sys (Acquire ''mkfifo pipe_server_write'') (\<lambda>pipe_write.
          if pipe_write < 0 then seq_unit (do_call (Release ''unlink'' pipe_read)) (Ret (1, 0))
          else Sys (Acquire ''open pipe_server_read O_RDONLY'') (\<lambda>read_fd.
            if read_fd < 0
            then seq_unit (in_turn [do_call (Release ''unlink'' pipe_read), do_call (Release ''unlink'' pipe_write)]) (Ret (1, 0))
            else Sys (Acquire ''open pipe_server_write O_WRONLY'') (\<lambda>write_fd.
              if write_fd < 0
              then seq_unit (in_turn [do_call (Release ''close'' read_fd), do_call (Release ''unlink'' pipe_read),
                     do_call (Release ''unlink'' pipe_write)]) (Ret (1, 0))
              else seq (pipe_serve (nat iterations) read_fd write_fd 0) (\<lambda>count.
                seq_unit (in_turn [do_call (Release ''close'' read_fd), do_call (Release ''close'' write_fd),
                  do_call (Release ''unlink'' pipe_read), do_call (Release ''unlink'' pipe_write)]) (Ret (0, count))))))))"

fun pipe_ask :: "nat \<Rightarrow> int \<Rightarrow> int \<Rightarrow> nat \<Rightarrow> nat prog" where
  "pipe_ask 0 read_fd write_fd count = Ret count"
| "pipe_ask (Suc i) read_fd write_fd count =
     seq_unit (do_call (Other ''gettimeofday''))
       (Sys (Use ''write'' write_fd 4) (\<lambda>bytes.
          if bytes \<noteq> 4 then Ret count
          else Sys (Use ''read'' read_fd 4) (\<lambda>bytes.
            if bytes \<noteq> 4 then Ret count
            else seq_unit (in_turn [do_call (Other ''gettimeofday''), do_call (Other ''usleep 50000'')])
              (pipe_ask i read_fd write_fd (count + 1)))))"

text \<open>\<open>args\<close> are the numbers after the program name: the server's process and the iterations.\<close>

definition pipe_client_main :: "int list \<Rightarrow> (int \<times> nat) prog" where
  "pipe_client_main args =
     (if args = [] then Ret (1, 0)
      else Sys (Acquire ''open pipe_server_write O_WRONLY'') (\<lambda>write_fd.
        if write_fd < 0 then Ret (1, 0)
        else Sys (Acquire ''open pipe_server_read O_RDONLY'') (\<lambda>read_fd.
          if read_fd < 0 then seq_unit (do_call (Release ''close'' write_fd)) (Ret (1, 0))
          else seq (pipe_ask (nat (if 2 \<le> length args then args ! 1 else 10)) read_fd write_fd 0) (\<lambda>count.
            seq_unit (in_turn [do_call (Release ''close'' read_fd), do_call (Release ''close'' write_fd)])
              (Ret (0, count))))))"

section \<open>The user-interrupt client\<close>

text \<open>A loop that sleeps until a field of the shared memory is not 0; loads are calls too.\<close>

fun wait_nonzero :: "nat \<Rightarrow> string \<Rightarrow> string \<Rightarrow> int \<Rightarrow> int prog" where
  "wait_nonzero 0 field nap mem = Cut"
| "wait_nonzero (Suc n) field nap mem =
     Sys (Use field mem 2147483647) (\<lambda>v.
       if v = 0 then seq_unit (do_call (Other nap)) (wait_nonzero n field nap mem) else Ret v)"

fun uintr_ask :: "nat \<Rightarrow> nat \<Rightarrow> int \<Rightarrow> nat \<Rightarrow> nat prog" where
  "uintr_ask n 0 mem count = Ret count"
| "uintr_ask n (Suc i) mem count =
     seq_unit (in_turn [do_call (Use ''store message'' mem 0), do_call (Use ''store response 0'' mem 0),
         do_call (Use ''store ready 1'' mem 0), do_call (Other ''gettimeofday'')])
       (Sys (Other ''senduipi'') (\<lambda>ret.
          if ret < 0 then Ret count
          else seq (wait_nonzero n ''load response'' ''usleep 10'' mem) (\<lambda>response.
            seq_unit (in_turn [do_call (Other ''gettimeofday''), do_call (Use ''store ready 0'' mem 0),
                do_call (Other ''usleep 50000'')])
              (uintr_ask n i mem (count + 1)))))"

definition uintr_client_main :: "nat \<Rightarrow> int list \<Rightarrow> (int \<times> nat) prog" where
  "uintr_client_main n args =
     (if args = [] then Ret (1, 0)
      else Sys (Other ''shmget 0666'') (\<lambda>shm_id.
        if shm_id < 0 then Ret (1, 0)
        else Sys (Acquire ''shmat'') (\<lambda>shared_mem.
          if shared_mem = -1 then Ret (1, 0)
          else seq (wait_nonzero n ''load vector'' ''usleep 100000'' shared_mem) (\<lambda>uipi_index.
            seq (uintr_ask n (nat (if 2 \<le> length args then args ! 1 else 10)) shared_mem 0) (\<lambda>count.
              seq_unit (do_call (Release ''shmdt'' shared_mem)) (Ret (0, count)))))))"

section \<open>What they give back\<close>

lemma wp_uses:
  "h \<in> H \<Longrightarrow> wp F (in_turn ps) H Q \<Longrightarrow> wp F (in_turn (map (\<lambda>c. do_call (Use s h n)) cs @ ps)) H Q"
  by (induction cs) auto

text \<open>\<^verbatim>\<open>rpc_framework.c\<close> exits with the mapping in place when the server thread cannot be created.\<close>

lemma rpc_main_releases:
  "wp F rpc_main H (\<lambda>H' status. if status = 0 then H' = H else H' = H \<or> (\<exists>m. m \<notin> H \<and> H' = insert m H))"
proof -
  have "wp F (in_turn ([do_call (Other ''sleep 1'')]
         @ map (\<lambda>c. do_call (Use ''rpc_call'' m 2147483647)) (take 4 rpc_main_calls)
         @ [do_call (Other ''gettimeofday'')]
         @ map (\<lambda>c. do_call (Use ''rpc_call'' m 2147483647)) (drop 4 rpc_main_calls)
         @ [do_call (Other ''gettimeofday''), do_call (Use ''pthread_cancel'' t 2147483647),
            do_call (Release ''pthread_join'' t), do_call (Other ''pthread_mutex_destroy''),
            do_call (Release ''munmap rpc_request_t[10]'' m)])) (insert t (insert m H)) (\<lambda>H' _. H' = H)"
    if "m \<notin> H" "t \<notin> insert m H" for m t
    using that by (auto intro!: wp_uses)
  then show ?thesis by (auto simp: rpc_main_def simp del: in_turn.simps append.simps intro!: wp_mono)
qed

lemma wp_pipe_serve:
  "read_fd \<in> H \<Longrightarrow> write_fd \<in> H \<Longrightarrow> (\<And>c. Q H c) \<Longrightarrow> wp F (pipe_serve i read_fd write_fd count) H Q"
  by (induction i arbitrary: count) auto

lemma wp_pipe_ask:
  "read_fd \<in> H \<Longrightarrow> write_fd \<in> H \<Longrightarrow> (\<And>c. Q H c) \<Longrightarrow> wp F (pipe_ask i read_fd write_fd count) H Q"
  by (induction i arbitrary: count) auto

lemma wp_wait_nonzero: "mem \<in> H \<Longrightarrow> (\<And>v. Q H v) \<Longrightarrow> wp F (wait_nonzero n field nap mem) H Q"
  by (induction n) auto

lemma wp_uintr_ask: "mem \<in> H \<Longrightarrow> (\<And>c. Q H c) \<Longrightarrow> wp F (uintr_ask n i mem count) H Q"
  by (induction i arbitrary: count) (auto intro!: wp_wait_nonzero)

lemma balanced_pipe_server: "balanced F (pipe_server_main iterations)"
  by (auto simp: balanced_def pipe_server_main_def intro!: wp_pipe_serve)

lemma balanced_pipe_client: "balanced F (pipe_client_main args)"
  by (auto simp: balanced_def pipe_client_main_def intro!: wp_pipe_ask)

lemma balanced_uintr_client: "balanced F (uintr_client_main n args)"
  by (auto simp: balanced_def uintr_client_main_def intro!: wp_wait_nonzero wp_uintr_ask)

interpretation pipe_server: balanced_program F pipe_server_main for F
  by unfold_locales (rule balanced_pipe_server)

interpretation pipe_client: balanced_program F pipe_client_main for F
  by unfold_locales (rule balanced_pipe_client)

interpretation uintr_client: balanced_program F "uintr_client_main n" for F n
  by unfold_locales (rule balanced_uintr_client)

text \<open>
  Whatever the system answers, the named-pipe server and client and the user-interrupt client use
  only what they hold, and have closed the pipes, removed the FIFOs and detached the shared memory
  when they return, on the error paths too.
\<close>

theorem uintr_programs_release:
  assumes "run p rs = (tr, x)" and "permitted {} {} tr"
    and "p = pipe_server_main iterations \<or> p = pipe_client_main args \<or> p = uintr_client_main n args"
  shows "disciplined {} tr \<and> (x \<noteq> None \<longrightarrow> held {} tr = {})"
  using assms pipe_server.closes_all[of iterations rs tr x "{}"] pipe_client.closes_all[of args rs tr x "{}"]
    uintr_client.closes_all[of n args rs tr x "{}"] by blast

end
