(* ===== verification/Spec2Isabelle.thy ===== *)
theory Spec2Isabelle
  imports Print_Facts Gpio_Facts Dht_Facts Mqtt_Facts Uintr_Facts Simple_Uintr Kernel_Facts Kasan Cpu_Worker Kmem_Test_Facts Tree_Programs Mem_Programs Headers Pcb_Macros File_Ops Network_Ops Memory_Ops Selinux_Test Sched_Menus Iot_Main Uintr_Programs
begin

text \<open>
  A verification library for OS-Compas, a collection of operating-system labs in C. The labs share no
  code; each is a small system of its own, and the development has one group of theories for each.
  Every theory opens with a text that says which files it models; names of definitions are those of
  the C functions.

  \<^bold>\<open>Conventions\<close> (\<open>Prelude\<close>). \<^verbatim>\<open>uintN_t\<close> is a word of N bits and wraps; \<^verbatim>\<open>int\<close> is \<open>int\<close> with
  the range check \<open>in_i32\<close>, because its overflow is undefined: such a result is \<open>None\<close>. A result
  \<open>None\<close> of a function that may fail is undefined behaviour (null dereference, division by zero,
  overflow) or a loop that does not return; \<open>partial_function\<close> with \<open>option\<close> gives every loop that may
  run for ever, and theorems that such a loop returns prove \<open>Some\<close>. Code that is not in the repository
  (kernel services, RT-Thread, libc, hardware) is a parameter: a function, a record of functions
  (\<open>kernel_ops\<close>, \<open>gpio_api\<close>), or a list of the answers it gives. Printed lines are left out unless a
  component is about printing.

  \<^bold>\<open>lab3-1, memory and console\<close>. \<open>Byte_Store\<close> is byte-addressed memory; its locale \<open>byte_cells\<close> states
  what a typed access promises (read after write, frame) and is interpreted for 64-bit and 8-bit cells.
  \<open>Kmem\<close> is \<^verbatim>\<open>src/memory.c\<close> and \<^verbatim>\<open>memory.h\<close> over that memory, every field access a load or store at
  its offset. \<open>Free_Chain\<close> represents the free list in memory by a list of blocks; \<open>Kmem_Ops\<close> and
  \<open>Kmem_Alloc\<close> give each helper as a function on such lists (refinement), \<open>Kmem_Facts\<close> the theorems
  on \<open>kmalloc\<close>, best fit and coalescing, \<open>Kmem_Free\<close> those on \<open>kfree\<close>, \<open>kcalloc\<close>, \<open>krealloc\<close>.
  \<open>Kmem_Tests\<close> is \<^verbatim>\<open>src/memory_test.c\<close> and \<^verbatim>\<open>kernel/main.c\<close> as programs over the allocator, and
  \<open>Kmem_Test_Facts\<close> what the first test leaves behind. \<open>Print\<close> and \<open>Print_Facts\<close> are the UART
  driver and the formatter of \<^verbatim>\<open>kernel/print.c\<close>. \<open>Headers\<close> is what \<^verbatim>\<open>include/os\<close> and \<^verbatim>\<open>include/riscv\<close>
  define: bit and alignment macros, control and status registers, atomic memory operations.

  \<^bold>\<open>lab3-2, scheduler\<close>. \<open>Scheduler\<close> is \<^verbatim>\<open>src/scheduler.c\<close> with \<^verbatim>\<open>include/pcb.h\<close>: the process table,
  the intrusive run queues, FIFO, round robin and MLFQ. The source writes \<^verbatim>\<open>SCHFQ_MLFQ\<close> once where
  the enumeration has \<^verbatim>\<open>SCHED_MLFQ\<close> (it does not compile); the model reads it as the latter.
  \<open>Run_Queue\<close> relates a queue to a list; the locale \<open>fifo_queue\<close> is the contract between a policy
  and its queue, interpreted for the single queue and for every MLFQ level. \<open>Scheduler_Facts\<close> and
  \<open>Scheduler_Mlfq\<close> hold the invariant, the order of service and the boost, \<open>Mlfq_Top\<close> starvation.
  \<open>Timer_Interrupt\<close> is \<^verbatim>\<open>src/interrupt.c\<close>, whose timer handler calls the scheduler. \<open>Sched_Demos\<close>,
  \<open>Sched_Tests\<close> and \<open>Sched_Menus\<close> are the programs that drive it (\<^verbatim>\<open>src/main.c\<close>, \<^verbatim>\<open>examples\<close>,
  \<^verbatim>\<open>tests\<close>), the last one from the characters of standard input. \<open>Kernel_Sched\<close> and \<open>Kernel_Facts\<close> are
  the second scheduler, \<^verbatim>\<open>kernel/core/scheduler.c\<close> with \<^verbatim>\<open>src/pcb.h\<close>, for every implementation of the queue and PCB
  operations that its headers only declare. Its switch to a process other than the idle one jumps out of
  \<^verbatim>\<open>scheduler_schedule\<close> with the lock held, as the inline assembly is written: the result \<open>Jump\<close>.
  \<open>Pcb_Macros\<close> are the macros of that header it leaves unused.

  \<^bold>\<open>lab4-1, kernel security\<close>. \<open>Kasan\<close> is \<^verbatim>\<open>kasan_module.c\<close> as the heap accesses it makes, against a
  checker; \<open>Selinux_Test\<close> is \<^verbatim>\<open>selinux_test.c\<close>.

  \<^bold>\<open>lab4-2, user interrupts\<close>. \<open>Uintr\<close> and \<open>Uintr_Facts\<close> are the interrupt server and client as an
  interleaving over shared memory, \<open>Rpc\<close> the RPC server and \<^verbatim>\<open>rpc_call\<close>, \<open>Pipes\<close> the named-pipe pair
  and the parts of the smallest example, whose two processes \<open>Simple_Uintr\<close> runs on their pipe, \<open>Uintr_Programs\<close> the \<^verbatim>\<open>main\<close> functions around them. Memory is sequentially
  consistent there.

  \<^bold>\<open>lab5-1, GPIO driver\<close>. \<open>Gpio\<close> and \<open>Gpio_Facts\<close>: \<^verbatim>\<open>gpio_led.c\<close>, its test program and the button and
  PWM examples; the kernel's answers are the record \<open>gpio_api\<close>.

  \<^bold>\<open>lab5-2, IoT node\<close>. \<open>Wifi\<close> is the ESP8266 driver over the events of its serial line, \<open>Mqtt\<close> and
  \<open>Mqtt_Facts\<close> the client on top of it with a parser of the packets as specification, \<open>Dht\<close> and
  \<open>Dht_Facts\<close> the sensor over the levels that pin reads return, \<open>Oled\<close> and \<open>Oled_Facts\<close> the display
  down to its pixels, \<open>Iot_Node\<close> and \<open>Iot_Main\<close> the threads of \<^verbatim>\<open>main.c\<close>.

  \<^bold>\<open>lab1-1 and lab1-2, traced programs and workloads\<close>. \<open>Syscalls\<close> is a language of programs that make
  system calls, with their runs and a weakest precondition for the use of handles; the locale
  \<open>balanced_program\<close> is the contract that a program gives back what it takes. \<open>File_Ops\<close>,
  \<open>Network_Ops\<close> and \<open>Memory_Ops\<close> are the three example programs, and interpret it (so do the pipe
  programs and, as long as their requests are granted, the workloads). \<open>C_Text\<close> reads numbers from
  arguments and standard input. Each of the three workloads has two theories: \<open>Cpu_Load\<close> is the
  threads as an interleaving and \<open>Cpu_Worker\<close> the worker and \<^verbatim>\<open>main\<close> by their calls; \<open>Process_Tree\<close> the
  tree that \<^verbatim>\<open>fork\<close> makes and \<open>Tree_Programs\<close> one process by its calls, from which \<open>endings\<close> makes the
  tree again, every call of every process having an answer of its own; \<open>Mem_Load\<close> the heap as a set of live addresses and \<open>Mem_Programs\<close> the threads and \<^verbatim>\<open>main\<close>
  by their calls, each a program of its own. A number in the arguments that \<^verbatim>\<open>int\<close> cannot hold is
  undefined for \<^verbatim>\<open>atoi\<close>, and so is the run (\<open>numbers_fit\<close>).

  \<^bold>\<open>What the lemmas show\<close>. Safety and refinement of the allocator on a well-formed heap, and the ways
  in which \<open>kfree\<close> leaves that domain; the scheduler's invariants, fairness and its failures; lock
  discipline of the kernel scheduler; correct answers and progress in every interleaving of the RPC
  and interrupt pairs; round trips of the MQTT packet and the printed numbers; what the sensor driver makes of the frame
  of the data sheet, which it reads one bit late;
  resource discipline on every error path of drivers and programs; termination or non-termination of
  the loops; the alignment macros and the atomic operations against arithmetic. Where the code does not do what its comments or tests say, the theorem states what it
  does.

  \<^bold>\<open>Bounds\<close>. Loops over answers of the environment take the list of answers, so nothing is cut off, or a
  number of turns \<open>n\<close> that every theorem quantifies over; a run that needs more ends in \<open>Cut\<close>, which is
  not a result. \<open>rpc_server_reaches_request\<close> gives 26 turns, one pass over ten slots.

  \<^bold>\<open>Not modelled\<close>. Shell, Python and bpftrace scripts; the two context switches in assembly, memory
  fences and \<^verbatim>\<open>wfi\<close>; prototypes of functions that no file defines (most of \<^verbatim>\<open>include/os/memory.h\<close>; those
  of \<^verbatim>\<open>src/pcb.h\<close> that the scheduler calls are parameters) and configuration headers; the hello module,
  whose sources are text files; floating-point averages; the bytes that the system-call examples and
  the memory workload move; the interleaving of the display thread with the other threads. Rounding is
  not modelled: the CPU workload is stated for any type of \<^verbatim>\<open>double\<close>, its integral also over the reals.
\<close>

end
